(* ===== verification/Prelude.thy ===== *)
theory Prelude
  imports Main "HOL-Library.AList" "HOL-Library.Char_ord" "HOL-Library.List_Lexorder"
    "HOL-Library.Multiset"
begin

section \<open>Shared vocabulary of the development\<close>

text \<open>
  What every component uses: results with errors as values, the string methods of Python that the
  back end calls (on ASCII text), dictionaries as association lists in insertion order, and the
  lemmas about lists, sorting and maps that more than one component needs.

  Strings are lists of characters. \<open>str_upper\<close>, \<open>str_lower\<close> and \<open>str_strip\<close> are Python's
  \<open>upper\<close>, \<open>lower\<close> and \<open>strip\<close> restricted to ASCII letters and ASCII white space, which is the
  alphabet of the codes (currencies, calendars, statuses, LEIs) they are applied to.
\<close>

subsection \<open>Collections of simplification rules\<close>

named_theorems str_simps \<open>rules for the string methods\<close>
named_theorems date_simps \<open>rules for calendar dates\<close>
named_theorems inv_intros \<open>preservation of the component invariants\<close>

subsection \<open>Results\<close>

text \<open>A call either raises (\<open>Inl\<close> of the component's error) or returns (\<open>Inr\<close>).\<close>

type_synonym ('e, 'a) res = "'e + 'a"

definition bind_res :: "('e, 'a) res \<Rightarrow> ('a \<Rightarrow> ('e, 'b) res) \<Rightarrow> ('e, 'b) res" where
  "bind_res m f = (case m of Inl e \<Rightarrow> Inl e | Inr a \<Rightarrow> f a)"

lemma bind_res_simps [simp]:
  "bind_res (Inl e) f = Inl e"
  "bind_res (Inr a) f = f a"
  by (simp_all add: bind_res_def)

lemma bind_res_Inr_iff: "bind_res m f = Inr b \<longleftrightarrow> (\<exists>a. m = Inr a \<and> f a = Inr b)"
  by (cases m) auto

text \<open>A guard that raises unless its condition holds.\<close>

definition require :: "bool \<Rightarrow> 'e \<Rightarrow> ('e, unit) res" where
  "require b e = (if b then Inr () else Inl e)"

lemma require_Inr_iff [simp]: "require b e = Inr u \<longleftrightarrow> b"
  by (simp add: require_def)

text \<open>A list comprehension whose body may raise: the first error in list order wins.\<close>

fun map_res :: "('a \<Rightarrow> ('e, 'b) res) \<Rightarrow> 'a list \<Rightarrow> ('e, 'b list) res" where
  "map_res f [] = Inr []"
| "map_res f (x # xs) =
     (case f x of Inl e \<Rightarrow> Inl e
      | Inr y \<Rightarrow> (case map_res f xs of Inl e \<Rightarrow> Inl e | Inr ys \<Rightarrow> Inr (y # ys)))"

lemma map_res_Inr_iff:
  "map_res f xs = Inr ys \<longleftrightarrow> list_all2 (\<lambda>x y. f x = Inr y) xs ys"
proof (induction xs arbitrary: ys)
  case Nil
  then show ?case by auto
next
  case (Cons x xs)
  show ?case
  proof (cases ys)
    case Nil
    then show ?thesis by (auto split: sum.splits)
  next
    case (Cons y zs)
    show ?thesis
      unfolding Cons by (simp add: Cons.IH[of zs, symmetric] split: sum.splits)
  qed
qed

lemma map_res_length: "map_res f xs = Inr ys \<Longrightarrow> length ys = length xs"
  by (simp add: map_res_Inr_iff list_all2_lengthD)

lemma map_res_Inr_map: "(\<And>x. x \<in> set xs \<Longrightarrow> f x = Inr (g x)) \<Longrightarrow> map_res f xs = Inr (map g xs)"
  by (induction xs) auto

lemma map_res_cong [fundef_cong]:
  "xs = ys \<Longrightarrow> (\<And>x. x \<in> set ys \<Longrightarrow> f x = g x) \<Longrightarrow> map_res f xs = map_res g ys"
  by (induction xs arbitrary: ys) (auto split: sum.splits)

subsection \<open>Python's string methods\<close>

definition up_char :: "char \<Rightarrow> char" where
  "up_char c = (let n = (of_char c :: nat) in if 97 \<le> n \<and> n \<le> 122 then char_of (n - 32) else c)"

definition low_char :: "char \<Rightarrow> char" where
  "low_char c = (let n = (of_char c :: nat) in if 65 \<le> n \<and> n \<le> 90 then char_of (n + 32) else c)"

definition str_upper :: "string \<Rightarrow> string" where
  "str_upper s = map up_char s"

definition str_lower :: "string \<Rightarrow> string" where
  "str_lower s = map low_char s"

lemma up_char_idem [simp]: "up_char (up_char c) = up_char c"
proof (cases "97 \<le> (of_char c :: nat) \<and> (of_char c :: nat) \<le> 122")
  case True
  define n where "n = (of_char c :: nat)"
  have n: "97 \<le> n" "n \<le> 122" using True by (simp_all add: n_def)
  have "up_char c = char_of (n - 32)" using True by (simp add: up_char_def n_def)
  moreover have "(of_char (char_of (n - 32) :: char) :: nat) = n - 32"
    using n by simp
  moreover have "\<not> 97 \<le> n - 32" using n by simp
  ultimately show ?thesis by (simp add: up_char_def Let_def)
next
  case False
  then show ?thesis by (auto simp: up_char_def Let_def)
qed

lemma low_char_idem [simp]: "low_char (low_char c) = low_char c"
proof (cases "65 \<le> (of_char c :: nat) \<and> (of_char c :: nat) \<le> 90")
  case True
  define n where "n = (of_char c :: nat)"
  have n: "65 \<le> n" "n \<le> 90" using True by (simp_all add: n_def)
  have "low_char c = char_of (n + 32)" using True by (simp add: low_char_def n_def)
  moreover have "(of_char (char_of (n + 32) :: char) :: nat) = n + 32"
    using n by simp
  moreover have "\<not> n + 32 \<le> 90" using n by simp
  ultimately show ?thesis by (simp add: low_char_def Let_def)
next
  case False
  then show ?thesis by (auto simp: low_char_def Let_def)
qed

lemma str_upper_idem [simp]: "str_upper (str_upper s) = str_upper s"
  by (simp add: str_upper_def)

lemma str_lower_idem [simp]: "str_lower (str_lower s) = str_lower s"
  by (simp add: str_lower_def)

lemma str_upper_append [simp]: "str_upper (s @ t) = str_upper s @ str_upper t"
  by (simp add: str_upper_def)

lemma str_upper_Nil_iff [simp]: "str_upper s = [] \<longleftrightarrow> s = []"
  by (simp add: str_upper_def)

definition is_space :: "char \<Rightarrow> bool" where
  "is_space c \<longleftrightarrow> (let n = (of_char c :: nat) in n = 32 \<or> (9 \<le> n \<and> n \<le> 13) \<or> (28 \<le> n \<and> n \<le> 31))"

definition str_strip :: "string \<Rightarrow> string" where
  "str_strip s = rev (dropWhile is_space (rev (dropWhile is_space s)))"

text \<open>\<open>s.replace(a, b)\<close> for single characters, and \<open>s.split(c)\<close>, which never returns an empty list.\<close>

definition str_replace :: "char \<Rightarrow> char \<Rightarrow> string \<Rightarrow> string" where
  "str_replace a b s = map (\<lambda>c. if c = a then b else c) s"

fun str_split :: "char \<Rightarrow> string \<Rightarrow> string list" where
  "str_split c [] = [[]]"
| "str_split c (x # xs) =
     (if x = c then [] # str_split c xs
      else (case str_split c xs of [] \<Rightarrow> [[x]] | y # ys \<Rightarrow> (x # y) # ys))"

lemma str_split_not_Nil [simp]: "str_split c s \<noteq> []"
  by (induction s) (auto split: list.splits)

lemma str_split_no_sep: "p \<in> set (str_split c s) \<Longrightarrow> c \<notin> set p"
proof (induction s arbitrary: p)
  case Nil
  then show ?case by simp
next
  case (Cons x xs)
  show ?case
  proof (cases "x = c")
    case True
    with Cons show ?thesis by auto
  next
    case False
    obtain y ys where ys: "str_split c xs = y # ys"
      by (cases "str_split c xs") auto
    from Cons.prems False ys have "p = x # y \<or> p \<in> set ys" by simp
    moreover have "c \<notin> set y" and "p \<in> set ys \<Longrightarrow> c \<notin> set p"
      using Cons.IH ys by simp_all
    ultimately show ?thesis using False by auto
  qed
qed

fun starts_with :: "string \<Rightarrow> string \<Rightarrow> bool" where
  "starts_with [] s = True"
| "starts_with (p # ps) [] = False"
| "starts_with (p # ps) (x # xs) = (p = x \<and> starts_with ps xs)"

definition ends_with :: "string \<Rightarrow> string \<Rightarrow> bool" where
  "ends_with p s = starts_with (rev p) (rev s)"

lemma starts_with_iff: "starts_with p s \<longleftrightarrow> (\<exists>t. s = p @ t)"
  by (induction p s rule: starts_with.induct) auto

text \<open>\<open>p in s\<close> on text.\<close>

fun has_substring :: "string \<Rightarrow> string \<Rightarrow> bool" where
  "has_substring p [] = starts_with p []"
| "has_substring p (x # xs) = (starts_with p (x # xs) \<or> has_substring p xs)"

subsection \<open>Decimal digits\<close>

definition digit_char :: "nat \<Rightarrow> char" where
  "digit_char d = char_of (48 + d)"

fun nat_digits :: "nat \<Rightarrow> string" where
  "nat_digits n = (if n < 10 then [digit_char n] else nat_digits (n div 10) @ [digit_char (n mod 10)])"

declare nat_digits.simps [simp del]

lemma of_digit_char: "d < 10 \<Longrightarrow> (of_char (digit_char d) :: nat) = 48 + d"
  by (simp add: digit_char_def)

lemma digit_char_inj: "d < 10 \<Longrightarrow> e < 10 \<Longrightarrow> digit_char d = digit_char e \<longleftrightarrow> d = e"
  by (metis add_left_cancel of_digit_char)

lemma digit_char_simps [str_simps]:
  "digit_char 0 = CHR ''0''" "digit_char 1 = CHR ''1''" "digit_char (Suc 0) = CHR ''1''" "digit_char 2 = CHR ''2''"
  "digit_char 3 = CHR ''3''" "digit_char 4 = CHR ''4''" "digit_char 5 = CHR ''5''" "digit_char 6 = CHR ''6''"
  "digit_char 7 = CHR ''7''" "digit_char 8 = CHR ''8''" "digit_char 9 = CHR ''9''"
  by code_simp+

definition is_digit :: "char \<Rightarrow> bool" where
  "is_digit c \<longleftrightarrow> (let n = (of_char c :: nat) in 48 \<le> n \<and> n \<le> 57)"

lemma is_digit_digit_char [simp]: "d < 10 \<Longrightarrow> is_digit (digit_char d)"
  by (simp add: is_digit_def of_digit_char)

lemma nat_digits_not_Nil [simp]: "nat_digits n \<noteq> []"
  by (subst nat_digits.simps) simp

lemma nat_digits_all_digit: "c \<in> set (nat_digits n) \<Longrightarrow> is_digit c"
proof (induction n rule: nat_digits.induct)
  case (1 n)
  show ?case
  proof (cases "n < 10")
    case True
    with "1.prems" show ?thesis by (simp add: nat_digits.simps[of n])
  next
    case False
    with "1.prems" have "c \<in> set (nat_digits (n div 10)) \<or> c = digit_char (n mod 10)"
      by (subst (asm) nat_digits.simps) auto
    with "1.IH" False show ?thesis by auto
  qed
qed

text \<open>Reading digits back: \<open>int(s)\<close> on a string of decimal digits.\<close>

definition digits_val :: "string \<Rightarrow> nat" where
  "digits_val s = foldl (\<lambda>a c. 10 * a + (of_char c - 48)) 0 s"

lemma digits_val_snoc [simp]: "digits_val (s @ [c]) = 10 * digits_val s + (of_char c - 48)"
  by (simp add: digits_val_def)

lemma digits_val_nat_digits [simp]: "digits_val (nat_digits n) = n"
proof (induction n rule: nat_digits.induct)
  case (1 n)
  show ?case
  proof (cases "n < 10")
    case True
    then show ?thesis by (simp add: nat_digits.simps[of n] digits_val_def of_digit_char)
  next
    case False
    with "1.IH" show ?thesis by (simp add: nat_digits.simps[of n] of_digit_char)
  qed
qed

lemma nat_digits_inj [simp]: "nat_digits m = nat_digits n \<longleftrightarrow> m = n"
  by (metis digits_val_nat_digits)

lemma nat_digits_length_le: "n < 10 ^ Suc k \<Longrightarrow> length (nat_digits n) \<le> Suc k"
proof (induction k arbitrary: n)
  case 0
  then show ?case by (subst nat_digits.simps) simp
next
  case (Suc k)
  show ?case
  proof (cases "n < 10")
    case True
    then show ?thesis by (subst nat_digits.simps) simp
  next
    case False
    have "n div 10 < 10 ^ Suc k" using Suc.prems by (simp add: less_mult_imp_div_less mult.commute)
    with Suc.IH have "length (nat_digits (n div 10)) \<le> Suc k" by blast
    with False show ?thesis by (subst nat_digits.simps) simp
  qed
qed

lemma digits_val_zeros [simp]: "digits_val (replicate k CHR ''0'' @ s) = digits_val s"
  by (induction k) (simp_all add: digits_val_def)

lemma digits_val_append_zeros [simp]: "digits_val (s @ replicate k CHR ''0'') = digits_val s * 10 ^ k"
proof (induction k)
  case (Suc k)
  then show ?case by (simp add: replicate_append_same[symmetric] del: append_assoc add: append_assoc[symmetric])
qed simp

lemma last_nat_digits: "last (nat_digits n) = digit_char (n mod 10)"
  by (subst nat_digits.simps) simp

lemma str_strip_id: "(\<And>c. c \<in> set s \<Longrightarrow> \<not> is_space c) \<Longrightarrow> str_strip s = s"
proof -
  have d: "dropWhile is_space t = t" if "\<And>c. c \<in> set t \<Longrightarrow> \<not> is_space c" for t
    using that by (cases t) auto
  assume h: "\<And>c. c \<in> set s \<Longrightarrow> \<not> is_space c"
  then have "dropWhile is_space s = s" "dropWhile is_space (rev s) = rev s"
    using d[of s] d[of "rev s"] by simp_all
  then show ?thesis by (simp add: str_strip_def)
qed

subsection \<open>Dictionaries\<close>

text \<open>
  A dictionary is an association list in insertion order with distinct keys; assignment to a key
  replaces the value in place or appends, which is \<open>AList.update\<close>.
\<close>

abbreviation dict_get :: "('k \<times> 'v) list \<Rightarrow> 'k \<Rightarrow> 'v option" where
  "dict_get d k \<equiv> map_of d k"

abbreviation dict_set :: "'k \<Rightarrow> 'v \<Rightarrow> ('k \<times> 'v) list \<Rightarrow> ('k \<times> 'v) list" where
  "dict_set \<equiv> AList.update"

lemma dict_get_set: "dict_get (dict_set k v d) k' = (if k' = k then Some v else dict_get d k')"
  by (simp add: update_conv)

subsection \<open>Lists and sorting\<close>

lemma map_sort_key: "map f (sort_key f xs) = sort (map f xs)"
  by (rule properties_for_sort[symmetric]) simp_all

lemma map_sort_key_mset:
  "mset (map f xs) = mset (map f ys) \<Longrightarrow> map f (sort_key f xs) = map f (sort_key f ys)"
proof -
  assume "mset (map f xs) = mset (map f ys)"
  then have "sort (map f xs) = sort (map f ys)"
    by (metis properties_for_sort mset_sort sorted_sort)
  then show ?thesis by (simp add: map_sort_key)
qed

lemma length_filter_le_card_mono:
  "(\<And>x. x \<in> set xs \<Longrightarrow> P x \<Longrightarrow> Q x) \<Longrightarrow> length (filter P xs) \<le> length (filter Q xs)"
  by (induction xs) auto

lemma find_SomeD: "List.find P xs = Some x \<Longrightarrow> x \<in> set xs \<and> P x"
  by (auto simp: find_Some_iff)

lemma find_Some_first:
  "List.find P xs = Some x \<Longrightarrow> \<exists>ys zs. xs = ys @ x # zs \<and> P x \<and> (\<forall>y \<in> set ys. \<not> P y)"
proof (induction xs)
  case Nil
  then show ?case by simp
next
  case (Cons a xs)
  show ?case
  proof (cases "P a")
    case True
    with Cons.prems show ?thesis by (intro exI[of _ "[]"] exI[of _ xs]) simp
  next
    case False
    with Cons obtain ys zs where "xs = ys @ x # zs" "P x" "\<forall>y \<in> set ys. \<not> P y" by auto
    with False show ?thesis by (intro exI[of _ "a # ys"] exI[of _ zs]) auto
  qed
qed

subsection \<open>Numbers in the environment\<close>

text \<open>Python's \<open>int(s)\<close>: surrounding space, a sign, digits with single underscores between them; \<open>None\<close> is \<open>ValueError\<close>.\<close>

definition py_int :: "string \<Rightarrow> int option" where
  "py_int s =
     (let t = str_strip s;
          (neg, body) = (case t of [] \<Rightarrow> (False, [])
            | c # cs \<Rightarrow> if c = CHR ''-'' then (True, cs) else if c = CHR ''+'' then (False, cs) else (False, t));
          parts = str_split CHR ''_'' body
      in if list_all (\<lambda>p. p \<noteq> [] \<and> list_all is_digit p) parts
         then Some ((if neg then -1 else 1) * int (digits_val (concat parts))) else None)"

end
