(* ===== verification/Dates.thy ===== *)
theory Dates
  imports Prelude
begin

section \<open>Calendar dates\<close>

text \<open>
  The part of Python's \<open>datetime.date\<close> the back end relies on: the proleptic Gregorian calendar
  from 0001-01-01 to 9999-12-31, the ordering of dates, the number of days between two dates,
  the day of the week, and stepping one day forward or back, which raises \<open>OverflowError\<close> at the two
  ends of the range (\<open>None\<close> here).
\<close>

datatype date = Date (year: int) (month: int) (day: int)

instantiation date :: linorder
begin

definition less_eq_date :: "date \<Rightarrow> date \<Rightarrow> bool" where
  "less_eq_date a b \<longleftrightarrow> year a < year b \<or>
     (year a = year b \<and> (month a < month b \<or> (month a = month b \<and> day a \<le> day b)))"

definition less_date :: "date \<Rightarrow> date \<Rightarrow> bool" where
  "less_date a b \<longleftrightarrow> year a < year b \<or>
     (year a = year b \<and> (month a < month b \<or> (month a = month b \<and> day a < day b)))"

instance
proof
  fix a b c :: date
  show "(a < b) = (a \<le> b \<and> \<not> b \<le> a)" by (auto simp: less_eq_date_def less_date_def)
  show "a \<le> a" by (simp add: less_eq_date_def)
  show "a \<le> b \<Longrightarrow> b \<le> c \<Longrightarrow> a \<le> c" by (auto simp: less_eq_date_def)
  show "a \<le> b \<Longrightarrow> b \<le> a \<Longrightarrow> a = b" by (cases a; cases b) (auto simp: less_eq_date_def)
  show "a \<le> b \<or> b \<le> a" by (auto simp: less_eq_date_def)
qed

end

subsection \<open>Years and months\<close>

definition is_leap :: "int \<Rightarrow> bool" where
  "is_leap y \<longleftrightarrow> y mod 4 = 0 \<and> (y mod 100 \<noteq> 0 \<or> y mod 400 = 0)"

definition days_in_year :: "int \<Rightarrow> int" where
  "days_in_year y = (if is_leap y then 366 else 365)"

definition days_in_month :: "int \<Rightarrow> int \<Rightarrow> int" where
  "days_in_month y m =
     (if m = 2 then (if is_leap y then 29 else 28)
      else if m = 4 \<or> m = 6 \<or> m = 9 \<or> m = 11 then 30 else 31)"

lemma days_in_month_bounds [simp]: "28 \<le> days_in_month y m" "days_in_month y m \<le> 31"
  by (simp_all add: days_in_month_def)

lemma days_in_month_pos: "1 \<le> days_in_month y m" "0 \<le> days_in_month y m"
  using days_in_month_bounds(1)[of y m] by linarith+

definition valid_date :: "date \<Rightarrow> bool" where
  "valid_date d \<longleftrightarrow> 1 \<le> year d \<and> year d \<le> 9999 \<and> 1 \<le> month d \<and> month d \<le> 12
     \<and> 1 \<le> day d \<and> day d \<le> days_in_month (year d) (month d)"

lemma valid_date_day_le: "valid_date d \<Longrightarrow> day d \<le> 31"
  unfolding valid_date_def using days_in_month_bounds(2) order_trans by blast

text \<open>Days before the first of January of a year, and before the first of a month in its year.\<close>

definition days_before_year :: "int \<Rightarrow> int" where
  "days_before_year y = (let p = y - 1 in 365 * p + p div 4 - p div 100 + p div 400)"

definition days_before_month :: "int \<Rightarrow> int \<Rightarrow> int" where
  "days_before_month y m =
     (if m \<le> 1 then 0 else if m = 2 then 31 else (if is_leap y then 1 else 0) +
       (if m = 3 then 59 else if m = 4 then 90 else if m = 5 then 120 else if m = 6 then 151
        else if m = 7 then 181 else if m = 8 then 212 else if m = 9 then 243
        else if m = 10 then 273 else if m = 11 then 304 else if m = 12 then 334 else 365))"

definition toordinal :: "date \<Rightarrow> int" where
  "toordinal d = days_before_year (year d) + days_before_month (year d) (month d) + day d"

text \<open>\<open>(d2 - d1).days\<close> and \<open>d.weekday()\<close> (Monday is 0).\<close>

definition days_between :: "date \<Rightarrow> date \<Rightarrow> int" where
  "days_between d1 d2 = toordinal d2 - toordinal d1"

definition weekday :: "date \<Rightarrow> int" where
  "weekday d = (toordinal d + 6) mod 7"

lemma div_mod_succ: "0 < k \<Longrightarrow> (p + 1) div k = p div k + (if (p + 1) mod k = 0 then 1 else (0::int))"
proof -
  assume k: "0 < k"
  have "p + 1 = k * (p div k) + (p mod k + 1)" by simp
  moreover have "0 \<le> p mod k" "p mod k < k" using k by simp_all
  ultimately show ?thesis
  proof (cases "p mod k + 1 = k")
    case True
    with \<open>p + 1 = _\<close> have "p + 1 = k * (p div k + 1)" by (simp only: distrib_left mult_1_right)
    with k show ?thesis by simp
  next
    case False
    with \<open>0 \<le> p mod k\<close> \<open>p mod k < k\<close> have b: "0 \<le> p mod k + 1" "p mod k + 1 < k" by simp_all
    have "(p + 1) div k = p div k"
      using div_pos_pos_trivial[OF b] k \<open>p + 1 = _\<close>
      by (metis add.right_neutral div_mult_self4 less_irrefl)
    moreover have "(p + 1) mod k = p mod k + 1"
      using mod_pos_pos_trivial[OF b] by (metis mod_add_left_eq)
    ultimately show ?thesis using \<open>0 \<le> p mod k\<close> by simp
  qed
qed

lemma div_mod_pred: "0 < k \<Longrightarrow> p div k = (p - 1) div k + (if p mod k = 0 then 1 else (0::int))"
  using div_mod_succ[of k "p - 1"] by (simp only: diff_add_cancel)

lemma days_before_year_Suc: "days_before_year (y + 1) = days_before_year y + days_in_year y"
proof -
  have k: "y div 4 = (y - 1) div 4 + (if y mod 4 = 0 then 1 else 0)"
    "y div 100 = (y - 1) div 100 + (if y mod 100 = 0 then 1 else 0)"
    "y div 400 = (y - 1) div 400 + (if y mod 400 = 0 then 1 else 0)"
    by (rule div_mod_pred, simp)+
  have "100 dvd y" if "400 dvd y" using that by (rule dvd_trans[rotated]) simp
  moreover have "4 dvd y" if "100 dvd y" using that by (rule dvd_trans[rotated]) simp
  ultimately have m: "y mod 400 = 0 \<Longrightarrow> y mod 100 = 0" "y mod 100 = 0 \<Longrightarrow> y mod 4 = 0"
    unfolding mod_eq_0_iff_dvd by blast+
  have l: "days_before_year (y + 1) = 365 * y + y div 4 - y div 100 + y div 400"
    "days_before_year y = 365 * (y - 1) + (y - 1) div 4 - (y - 1) div 100 + (y - 1) div 400"
    by (simp_all only: days_before_year_def Let_def add_diff_cancel_right')
  consider "y mod 4 \<noteq> 0" "y mod 100 \<noteq> 0" "y mod 400 \<noteq> 0" | "y mod 4 = 0" "y mod 100 \<noteq> 0" "y mod 400 \<noteq> 0"
    | "y mod 4 = 0" "y mod 100 = 0" "y mod 400 \<noteq> 0" | "y mod 4 = 0" "y mod 100 = 0" "y mod 400 = 0"
    using m by metis
  then show ?thesis
    by cases (simp_all only: l k days_in_year_def is_leap_def, simp_all)
qed

lemma days_before_month_Suc:
  "1 \<le> m \<Longrightarrow> m \<le> 12 \<Longrightarrow> days_before_month y (m + 1) = days_before_month y m + days_in_month y m"
proof -
  assume "1 \<le> m" "m \<le> 12"
  then have "m = 1 \<or> m = 2 \<or> m = 3 \<or> m = 4 \<or> m = 5 \<or> m = 6 \<or> m = 7 \<or> m = 8
      \<or> m = 9 \<or> m = 10 \<or> m = 11 \<or> m = 12" by presburger
  then show ?thesis by (auto simp: days_before_month_def days_in_month_def)
qed

lemma days_before_month_13: "days_before_month y 13 = days_in_year y"
  by (simp add: days_before_month_def days_in_year_def)

lemma days_before_month_1 [simp]: "days_before_month y 1 = 0"
  by (simp add: days_before_month_def)

lemma days_before_year_mono: "a \<le> b \<Longrightarrow> days_before_year a \<le> days_before_year b"
proof (induction "nat (b - a)" arbitrary: b)
  case 0
  then show ?case by simp
next
  case (Suc n)
  then have "n = nat ((b - 1) - a)" "a \<le> b - 1" by simp_all
  with Suc.hyps(1) have "days_before_year a \<le> days_before_year (b - 1)" by blast
  also have "\<dots> \<le> days_before_year b"
    using days_before_year_Suc[of "b - 1"] by (simp add: days_in_year_def split: if_splits)
  finally show ?case .
qed

lemma days_before_month_mono:
  "1 \<le> a \<Longrightarrow> a \<le> b \<Longrightarrow> b \<le> 13 \<Longrightarrow> days_before_month y a \<le> days_before_month y b"
proof (induction "nat (b - a)" arbitrary: b)
  case 0
  then show ?case by simp
next
  case (Suc n)
  then have "n = nat ((b - 1) - a)" "a \<le> b - 1" "b - 1 \<le> 13" by simp_all
  with Suc have "days_before_month y a \<le> days_before_month y (b - 1)" by blast
  also have "\<dots> \<le> days_before_month y b"
    using days_before_month_Suc[of "b - 1" y] days_in_month_pos[of y "b - 1"] Suc.prems \<open>a \<le> b - 1\<close>
    by simp
  finally show ?case .
qed

subsection \<open>The ordinal orders the dates\<close>

lemma toordinal_less:
  assumes a: "valid_date a" and b: "valid_date b" and ab: "a < b"
  shows "toordinal a < toordinal b"
proof -
  from ab consider (y) "year a < year b" | (m) "year a = year b" "month a < month b"
    | (d) "year a = year b" "month a = month b" "day a < day b"
    by (auto simp: less_date_def)
  then show ?thesis
  proof cases
    case y
    have "days_before_month (year a) (month a) + day a \<le> days_before_month (year a) (month a + 1)"
      using a by (simp add: valid_date_def days_before_month_Suc)
    also have "\<dots> \<le> days_in_year (year a)"
      using a days_before_month_mono[of "month a + 1" 13 "year a"]
      by (simp add: valid_date_def days_before_month_13)
    finally have "toordinal a \<le> days_before_year (year a + 1)"
      by (simp add: toordinal_def days_before_year_Suc)
    also have "\<dots> \<le> days_before_year (year b)" using y by (intro days_before_year_mono) simp
    also have "\<dots> < toordinal b"
      using b days_before_month_mono[of 1 "month b" "year b"] by (simp add: toordinal_def valid_date_def)
    finally show ?thesis .
  next
    case m
    have "days_before_month (year a) (month a) + day a \<le> days_before_month (year a) (month a + 1)"
      using a by (simp add: valid_date_def days_before_month_Suc)
    also have "\<dots> \<le> days_before_month (year a) (month b)"
      using a b m by (intro days_before_month_mono) (simp_all add: valid_date_def)
    finally show ?thesis using b m by (simp add: toordinal_def valid_date_def)
  next
    case d
    then show ?thesis by (simp add: toordinal_def)
  qed
qed

lemma toordinal_less_iff:
  "valid_date a \<Longrightarrow> valid_date b \<Longrightarrow> toordinal a < toordinal b \<longleftrightarrow> a < b"
  by (metis toordinal_less less_irrefl linorder_neqE order.asym)

lemma toordinal_inj: "valid_date a \<Longrightarrow> valid_date b \<Longrightarrow> toordinal a = toordinal b \<Longrightarrow> a = b"
  by (metis toordinal_less less_irrefl linorder_neqE)

subsection \<open>Stepping by a day\<close>

text \<open>\<open>d + timedelta(days=1)\<close> and \<open>d - timedelta(days=1)\<close>; \<open>None\<close> is \<open>OverflowError\<close>.\<close>

definition next_day :: "date \<Rightarrow> date option" where
  "next_day d =
     (if day d < days_in_month (year d) (month d) then Some (Date (year d) (month d) (day d + 1))
      else if month d < 12 then Some (Date (year d) (month d + 1) 1)
      else if year d < 9999 then Some (Date (year d + 1) 1 1) else None)"

definition prev_day :: "date \<Rightarrow> date option" where
  "prev_day d =
     (if 1 < day d then Some (Date (year d) (month d) (day d - 1))
      else if 1 < month d then Some (Date (year d) (month d - 1) (days_in_month (year d) (month d - 1)))
      else if 1 < year d then Some (Date (year d - 1) 12 31) else None)"

definition max_ordinal :: int where "max_ordinal = 3652059"

lemma next_day_valid: "valid_date d \<Longrightarrow> next_day d = Some e \<Longrightarrow> valid_date e"
  by (auto simp: next_day_def valid_date_def days_in_month_pos split: if_splits)

lemma prev_day_valid: "valid_date d \<Longrightarrow> prev_day d = Some e \<Longrightarrow> valid_date e"
  by (auto simp: prev_day_def valid_date_def days_in_month_pos split: if_splits)
     (simp add: days_in_month_def)

lemma next_day_ordinal: "valid_date d \<Longrightarrow> next_day d = Some e \<Longrightarrow> toordinal e = toordinal d + 1"
proof -
  assume v: "valid_date d" and e: "next_day d = Some e"
  have m12: "day d = days_in_month (year d) (month d) \<Longrightarrow> month d = 12 \<Longrightarrow>
      days_before_month (year d) 12 + day d = days_in_year (year d)"
    using days_before_month_Suc[of 12 "year d"] by (simp add: days_before_month_13)
  have "\<not> day d < days_in_month (year d) (month d) \<Longrightarrow> day d = days_in_month (year d) (month d)"
    "\<not> month d < 12 \<Longrightarrow> month d = 12"
    using v by (simp_all add: valid_date_def)
  with e v m12 show ?thesis
    by (auto simp: next_day_def toordinal_def days_before_year_Suc days_before_month_Suc valid_date_def
        split: if_splits)
qed

lemma prev_day_ordinal: "valid_date d \<Longrightarrow> prev_day d = Some e \<Longrightarrow> toordinal e = toordinal d - 1"
proof -
  assume v: "valid_date d" and e: "prev_day d = Some e"
  have "\<not> 1 < day d \<Longrightarrow> day d = 1" "\<not> 1 < month d \<Longrightarrow> month d = 1"
    using v by (simp_all add: valid_date_def)
  moreover have "1 < month d \<Longrightarrow> days_before_month (year d) (month d)
      = days_before_month (year d) (month d - 1) + days_in_month (year d) (month d - 1)"
    using v days_before_month_Suc[of "month d - 1" "year d"] by (simp add: valid_date_def)
  moreover have "days_before_year (year d) = days_before_year (year d - 1) + days_in_year (year d - 1)"
    using days_before_year_Suc[of "year d - 1"] by simp
  moreover have "days_before_month y 12 + 31 = days_in_year y" for y
    by (simp add: days_before_month_def days_in_year_def)
  ultimately show ?thesis using e
    by (auto simp: prev_day_def toordinal_def split: if_splits)
qed

lemma toordinal_pos: "valid_date d \<Longrightarrow> 1 \<le> toordinal d"
proof -
  assume v: "valid_date d"
  have "days_before_year 1 \<le> days_before_year (year d)"
    using v by (intro days_before_year_mono) (simp add: valid_date_def)
  moreover have "days_before_month (year d) 1 \<le> days_before_month (year d) (month d)"
    using v by (intro days_before_month_mono) (simp_all add: valid_date_def)
  ultimately show ?thesis using v by (simp add: toordinal_def valid_date_def days_before_year_def)
qed

lemma toordinal_max: "valid_date d \<Longrightarrow> toordinal d \<le> max_ordinal"
proof -
  assume v: "valid_date d"
  have "days_before_month (year d) (month d) + day d \<le> days_before_month (year d) (month d + 1)"
    using v by (simp add: valid_date_def days_before_month_Suc)
  also have "\<dots> \<le> days_in_year (year d)"
    using v days_before_month_mono[of "month d + 1" 13 "year d"]
    by (simp add: valid_date_def days_before_month_13)
  finally have "toordinal d \<le> days_before_year (year d + 1)"
    by (simp add: toordinal_def days_before_year_Suc)
  also have "\<dots> \<le> days_before_year 10000"
    using v by (intro days_before_year_mono) (simp add: valid_date_def)
  finally show ?thesis by (simp add: days_before_year_def max_ordinal_def)
qed

lemma next_day_None: "valid_date d \<Longrightarrow> next_day d = None \<longleftrightarrow> d = Date 9999 12 31"
  by (cases d) (auto simp: next_day_def valid_date_def days_in_month_def split: if_splits)

lemma prev_day_None: "valid_date d \<Longrightarrow> prev_day d = None \<longleftrightarrow> d = Date 1 1 1"
  by (cases d) (auto simp: prev_day_def valid_date_def split: if_splits)

lemma next_day_greater: "valid_date d \<Longrightarrow> next_day d = Some e \<Longrightarrow> d < e"
  using next_day_ordinal next_day_valid toordinal_less_iff by fastforce

lemma prev_day_less: "valid_date d \<Longrightarrow> prev_day d = Some e \<Longrightarrow> e < d"
  using prev_day_ordinal prev_day_valid toordinal_less_iff by fastforce

text \<open>Stepping forward and back are inverse to each other.\<close>

lemma prev_next_day: "valid_date d \<Longrightarrow> next_day d = Some e \<Longrightarrow> prev_day e = Some d"
proof -
  assume v: "valid_date d" and e: "next_day d = Some e"
  have ve: "valid_date e" using v e by (rule next_day_valid)
  have "e \<noteq> Date 1 1 1"
    using next_day_ordinal[OF v e] toordinal_pos[OF v]
    by (auto simp: toordinal_def days_before_year_def days_before_month_def)
  with ve obtain f where f: "prev_day e = Some f" by (cases "prev_day e") (auto simp: prev_day_None)
  have "toordinal f = toordinal d"
    using prev_day_ordinal[OF ve f] next_day_ordinal[OF v e] by simp
  with f v prev_day_valid[OF ve f] show ?thesis by (simp add: toordinal_inj)
qed

text \<open>Seven consecutive days: a valid date and its successor have consecutive weekdays.\<close>

lemma weekday_next: "valid_date d \<Longrightarrow> next_day d = Some e \<Longrightarrow> weekday e = (weekday d + 1) mod 7"
  using next_day_ordinal by (simp add: weekday_def mod_add_right_eq add.commute add.left_commute mod_simps)

lemma weekday_range [simp]: "0 \<le> weekday d" "weekday d < 7"
  by (simp_all add: weekday_def)

subsection \<open>ISO text\<close>

text \<open>\<open>d.isoformat()\<close>: four digits, a dash, two digits, a dash, two digits.\<close>

definition pad :: "nat \<Rightarrow> nat \<Rightarrow> string" where
  "pad w n = (let s = nat_digits n in replicate (w - length s) CHR ''0'' @ s)"

definition isoformat :: "date \<Rightarrow> string" where
  "isoformat d = pad 4 (nat (year d)) @ ''-'' @ pad 2 (nat (month d)) @ ''-'' @ pad 2 (nat (day d))"

lemma digits_val_pad [simp]: "digits_val (pad w n) = n"
  by (simp add: pad_def Let_def)

lemma length_pad: "0 < w \<Longrightarrow> n < 10 ^ w \<Longrightarrow> length (pad w n) = w"
  using nat_digits_length_le[of n "w - 1"] by (simp add: pad_def Let_def)

lemma length_pad_date:
  assumes "valid_date d"
  shows "length (pad 4 (nat (year d))) = 4" "length (pad 2 (nat (month d))) = 2"
    "length (pad 2 (nat (day d))) = 2"
proof -
  have "year d < 10000" "month d < 100" "day d < 100"
    using assms days_in_month_bounds(2)[of "year d" "month d"] by (auto simp del: days_in_month_bounds simp: valid_date_def)
  then have "nat (year d) < 10000" "nat (month d) < 100" "nat (day d) < 100" by simp_all
  then show "length (pad 4 (nat (year d))) = 4" "length (pad 2 (nat (month d))) = 2"
    "length (pad 2 (nat (day d))) = 2"
    by (simp_all add: length_pad)
qed

lemma isoformat_inj:
  assumes a: "valid_date a" and b: "valid_date b" and eq: "isoformat a = isoformat b"
  shows "a = b"
proof -
  note la = length_pad_date[OF a] and lb = length_pad_date[OF b]
  from eq la lb have "pad 4 (nat (year a)) = pad 4 (nat (year b))"
    "pad 2 (nat (month a)) = pad 2 (nat (month b))" "pad 2 (nat (day a)) = pad 2 (nat (day b))"
    by (simp_all add: isoformat_def)
  then have "nat (year a) = nat (year b)" "nat (month a) = nat (month b)" "nat (day a) = nat (day b)"
    by (metis digits_val_pad)+
  moreover have "0 \<le> year a" "0 \<le> month a" "0 \<le> day a" "0 \<le> year b" "0 \<le> month b" "0 \<le> day b"
    using a b by (simp_all add: valid_date_def)
  ultimately have "year a = year b" "month a = month b" "day a = day b" by (simp_all add: nat_eq_iff)
  then show ?thesis by (simp add: date.expand)
qed

end
