(* ===== verification/Calendars.thy ===== *)
theory Calendars
  imports Dates
begin

section \<open>Business-day calendars (pricing/calendars.py)\<close>

text \<open>
  The holiday sets behind a calendar name with their process-wide cache (\<open>_load\<close>, \<open>_CACHE\<close>), the
  business-day test, rolling to the next and the previous business day, counting business days, the
  business-day conventions, and the calendar a leg rolls on.

  The package \<open>holidays\<close> is not part of the repository: it is the parameter \<open>lib\<close>, which gives for a
  country and a year the dates with their names, or \<open>None\<close> when the call raises. Day stepping past
  9999-12-31 or before 0001-01-01 raises \<open>OverflowError\<close> in Python and is \<open>None\<close> here, so every
  loop below is total.
\<close>

type_synonym holiday_lib = "string \<Rightarrow> int \<Rightarrow> (date \<times> string) list option"
type_synonym holiday_cache = "string \<times> int \<Rightarrow> date set option"

subsection \<open>Loading the holidays of a calendar\<close>

text \<open>\<open>set(_holidays.US(years=year).keys())\<close>; the handler leaves the set empty when the call raises.\<close>

definition country_days :: "holiday_lib \<Rightarrow> string \<Rightarrow> int \<Rightarrow> date set" where
  "country_days lib c y = (case lib c y of None \<Rightarrow> {} | Some items \<Rightarrow> set (map fst items))"

definition target_days :: "holiday_lib \<Rightarrow> int \<Rightarrow> date set" where
  "target_days lib y = (case lib ''Germany'' y of None \<Rightarrow> {}
     | Some items \<Rightarrow>
         set (map fst (filter (\<lambda>(d, n). has_substring ''Good Friday'' n \<or> has_substring ''Easter Monday'' n) items))
           \<union> {Date y 1 1, Date y 5 1, Date y 12 25, Date y 12 26})"

text \<open>The single calendars, by their canonical name; any other name has no holidays.\<close>

definition single_days :: "holiday_lib \<Rightarrow> string \<Rightarrow> int \<Rightarrow> date set" where
  "single_days lib cal y =
     (if cal = ''NEW_YORK'' then country_days lib ''US'' y
      else if cal = ''LONDON'' then country_days lib ''UK'' y
      else if cal = ''TARGET'' then target_days lib y
      else if cal = ''TOKYO'' then country_days lib ''Japan'' y
      else if cal = ''ZURICH'' then country_days lib ''Switzerland'' y
      else if cal = ''SYDNEY'' then country_days lib ''Australia'' y
      else if cal = ''TORONTO'' then country_days lib ''Canada'' y
      else {})"

definition cal_name :: "string \<Rightarrow> string" where
  "cal_name cal = str_replace CHR '' '' CHR ''_'' (str_upper cal)"

lemma up_char_other: "(of_char c :: nat) < 65 \<Longrightarrow> up_char x = c \<longleftrightarrow> x = c"
proof -
  assume c: "(of_char c :: nat) < 65"
  show "up_char x = c \<longleftrightarrow> x = c"
  proof (cases "97 \<le> (of_char x :: nat) \<and> (of_char x :: nat) \<le> 122")
    case True
    define n where "n = (of_char x :: nat)"
    have n: "97 \<le> n" "n \<le> 122" using True by (simp_all add: n_def)
    have "(of_char (up_char x) :: nat) = n - 32" using n by (simp add: up_char_def n_def[symmetric])
    with n c have "up_char x \<noteq> c" by auto
    moreover have "x \<noteq> c" using n c by (auto simp: n_def)
    ultimately show ?thesis by simp
  next
    case False
    then show ?thesis by (auto simp: up_char_def Let_def)
  qed
qed

lemma plus_not_in_upper [simp]: "CHR ''+'' \<in> set (str_upper s) \<longleftrightarrow> CHR ''+'' \<in> set s"
proof -
  have "up_char c = CHR ''+'' \<longleftrightarrow> c = CHR ''+''" for c
    by (rule up_char_other) simp
  then show ?thesis unfolding str_upper_def set_map by (metis image_iff)
qed

lemma plus_in_cal_name [simp]: "CHR ''+'' \<in> set (cal_name s) \<longleftrightarrow> CHR ''+'' \<in> set s"
proof -
  have "CHR ''+'' \<in> set (cal_name s) \<longleftrightarrow> CHR ''+'' \<in> set (str_upper s)"
    unfolding cal_name_def str_replace_def set_map image_iff by force
  then show ?thesis by simp
qed

lemma str_strip_subset: "set (str_strip s) \<subseteq> set s"
proof -
  have "set (dropWhile is_space t) \<subseteq> set t" for t by (metis set_dropWhileD subsetI)
  then show ?thesis unfolding str_strip_def by (metis (no_types, lifting) set_rev subset_trans)
qed

text \<open>
  \<open>_load\<close> with the cache threaded through: a hit returns the cached set, a miss computes the set,
  a combined name (\<open>TARGET+LONDON\<close>) loads each part through the same function.
\<close>

definition plus_count :: "string \<Rightarrow> nat" where
  "plus_count s = length (filter (\<lambda>c. c = CHR ''+'') s)"

lemma plus_count_0: "plus_count s = 0 \<longleftrightarrow> CHR ''+'' \<notin> set s"
  by (auto simp: plus_count_def filter_empty_conv)

lemma plus_count_pos: "CHR ''+'' \<in> set s \<Longrightarrow> 0 < plus_count s"
  using plus_count_0[of s] by auto

definition parts_of :: "string \<Rightarrow> string list" where
  "parts_of cal = map str_strip (str_split CHR ''+'' (cal_name cal))"

lemma parts_of_no_plus: "p \<in> set (parts_of cal) \<Longrightarrow> CHR ''+'' \<notin> set p"
  unfolding parts_of_def using str_split_no_sep str_strip_subset by fastforce

lemma parts_of_plus_count: "sum_list (map plus_count (parts_of cal)) = 0"
  using parts_of_no_plus plus_count_0 by (auto simp: sum_list_eq_0_iff)

function (sequential)
    load :: "holiday_lib \<Rightarrow> bool \<Rightarrow> string \<Rightarrow> int \<Rightarrow> holiday_cache \<Rightarrow> date set \<times> holiday_cache"
  and load_parts :: "holiday_lib \<Rightarrow> bool \<Rightarrow> string list \<Rightarrow> int \<Rightarrow> holiday_cache \<Rightarrow> date set \<times> holiday_cache"
where
  "load lib has cal y cache =
     (case cache (str_upper cal, y) of
        Some h \<Rightarrow> (h, cache)
      | None \<Rightarrow>
          if \<not> has then ({}, cache((str_upper cal, y) \<mapsto> {}))
          else if CHR ''+'' \<in> set cal then
            (let (h, cache') = load_parts lib has (parts_of cal) y cache
             in (h, cache'((str_upper cal, y) \<mapsto> h)))
          else
            (let h = single_days lib (cal_name cal) y in (h, cache((str_upper cal, y) \<mapsto> h))))"
| "load_parts lib has [] y cache = ({}, cache)"
| "load_parts lib has (p # ps) y cache =
     (let (h, cache') = load lib has p y cache;
          (hs, cache'') = load_parts lib has ps y cache'
      in (h \<union> hs, cache''))"
  by pat_completeness auto
termination
  by (relation "measures [
        \<lambda>x. case x of Inl (lib, has, cal, y, c) \<Rightarrow> plus_count cal
                    | Inr (lib, has, ps, y, c) \<Rightarrow> sum_list (map plus_count ps),
        \<lambda>x. case x of Inl _ \<Rightarrow> 0 | Inr (lib, has, ps, y, c) \<Rightarrow> Suc (length ps)]")
     (auto simp: parts_of_plus_count plus_count_pos)

declare load.simps [simp del]

text \<open>The set a calendar name stands for, without the cache: the reference for \<open>load\<close>.\<close>

definition holidays_of :: "holiday_lib \<Rightarrow> bool \<Rightarrow> string \<Rightarrow> int \<Rightarrow> date set" where
  "holidays_of lib has cal y =
     (if \<not> has then {}
      else if CHR ''+'' \<in> set cal then (\<Union>p \<in> set (parts_of cal). single_days lib (cal_name p) y)
      else single_days lib (cal_name cal) y)"

definition cache_ok :: "holiday_lib \<Rightarrow> bool \<Rightarrow> holiday_cache \<Rightarrow> bool" where
  "cache_ok lib has cache \<longleftrightarrow>
     (\<forall>cal y h. cache (str_upper cal, y) = Some h \<longrightarrow> h = holidays_of lib has cal y)"

lemma holidays_of_upper: "str_upper c = str_upper cal \<Longrightarrow> holidays_of lib has c y = holidays_of lib has cal y"
proof -
  assume u: "str_upper c = str_upper cal"
  then have n: "cal_name c = cal_name cal" by (simp add: cal_name_def)
  have "CHR ''+'' \<in> set c \<longleftrightarrow> CHR ''+'' \<in> set cal" using u plus_not_in_upper by metis
  with n show ?thesis by (simp add: holidays_of_def parts_of_def)
qed

lemma cache_ok_upd:
  "cache_ok lib has cache \<Longrightarrow> h = holidays_of lib has cal y \<Longrightarrow> cache_ok lib has (cache((str_upper cal, y) \<mapsto> h))"
  unfolding cache_ok_def
proof (intro allI impI)
  fix cal' y' h'
  assume ok: "\<forall>cal y h. cache (str_upper cal, y) = Some h \<longrightarrow> h = holidays_of lib has cal y"
    and h: "h = holidays_of lib has cal y"
    and upd: "(cache((str_upper cal, y) \<mapsto> h)) (str_upper cal', y') = Some h'"
  show "h' = holidays_of lib has cal' y'"
  proof (cases "str_upper cal' = str_upper cal \<and> y' = y")
    case True
    with upd h holidays_of_upper[of cal' cal] show ?thesis by simp
  next
    case False
    with upd have "cache (str_upper cal', y') = Some h'" by (simp split: if_splits)
    with ok show ?thesis by blast
  qed
qed

lemma load_correct:
  "cache_ok lib has cache \<Longrightarrow>
     fst (load lib has cal y cache) = holidays_of lib has cal y \<and> cache_ok lib has (snd (load lib has cal y cache))"
  "cache_ok lib has cache \<Longrightarrow> (\<forall>p \<in> set ps. CHR ''+'' \<notin> set p) \<Longrightarrow>
     fst (load_parts lib has ps y cache) = (if has then (\<Union>p \<in> set ps. single_days lib (cal_name p) y) else {})
       \<and> cache_ok lib has (snd (load_parts lib has ps y cache))"
proof (induction lib has cal y cache and lib has ps y cache rule: load_load_parts.induct)
  case (1 lib has cal y cache)
  show ?case
  proof (cases "cache (str_upper cal, y)")
    case (Some h)
    with "1.prems" show ?thesis by (auto simp: load.simps[of _ _ cal] cache_ok_def)
  next
    case None
    show ?thesis
    proof (cases "has \<and> CHR ''+'' \<in> set cal")
      case True
      with None "1.prems" "1.IH" have ih:
        "fst (load_parts lib has (parts_of cal) y cache) = holidays_of lib has cal y"
        "cache_ok lib has (snd (load_parts lib has (parts_of cal) y cache))"
        using parts_of_no_plus by (auto simp: holidays_of_def)
      obtain h c' where hc: "load_parts lib has (parts_of cal) y cache = (h, c')" by fastforce
      show ?thesis
        using ih True None hc by (simp add: load.simps[of _ _ cal] cache_ok_upd[unfolded fun_upd_def] fun_upd_def)
    next
      case False
      with None "1.prems" show ?thesis
        using cache_ok_upd[OF "1.prems" refl, of cal y]
        by (cases has) (simp_all add: load.simps[of _ _ cal] holidays_of_def Let_def fun_upd_def)
    qed
  qed
next
  case (2 lib has y cache)
  then show ?case by simp
next
  case (3 lib has p ps y cache)
  obtain h c1 where h: "load lib has p y cache = (h, c1)" by fastforce
  obtain hs c2 where hs: "load_parts lib has ps y c1 = (hs, c2)" by fastforce
  from "3.IH"(1)[OF "3.prems"(1)] h have 1: "h = holidays_of lib has p y" "cache_ok lib has c1" by simp_all
  from "3.IH"(2)[OF h[symmetric] refl 1(2)] "3.prems"(2) hs
  have 2: "hs = (if has then (\<Union>p \<in> set ps. single_days lib (cal_name p) y) else {})" "cache_ok lib has c2"
    by simp_all
  from "3.prems"(2) have "holidays_of lib has p y = (if has then single_days lib (cal_name p) y else {})"
    by (simp add: holidays_of_def)
  with 1 2 h hs show ?case by simp
qed

subsection \<open>Business days\<close>

definition is_business_day :: "holiday_lib \<Rightarrow> bool \<Rightarrow> date \<Rightarrow> string \<Rightarrow> bool" where
  "is_business_day lib has d cal =
     (if 5 \<le> weekday d then False else d \<notin> fst (load lib has cal (year d) Map.empty))"

text \<open>The loops of \<open>next_business_day\<close> and \<open>prev_business_day\<close>, over any business-day test.\<close>

function roll_forward :: "(date \<Rightarrow> bool) \<Rightarrow> date \<Rightarrow> date option" where
  "roll_forward bd d =
     (if bd d then Some d else (case next_day d of None \<Rightarrow> None | Some e \<Rightarrow> roll_forward bd e))"
  by pat_completeness auto
termination
  by (relation "measures [\<lambda>(bd, d). nat (9999 - year d), \<lambda>(bd, d). nat (12 - month d), \<lambda>(bd, d). nat (31 - day d)]")
     (auto simp: next_day_def split: if_splits intro: less_le_trans[OF _ days_in_month_bounds(2)])

function roll_back :: "(date \<Rightarrow> bool) \<Rightarrow> date \<Rightarrow> date option" where
  "roll_back bd d =
     (if bd d then Some d else (case prev_day d of None \<Rightarrow> None | Some e \<Rightarrow> roll_back bd e))"
  by pat_completeness auto
termination
  by (relation "measures [\<lambda>(bd, d). nat (year d), \<lambda>(bd, d). nat (month d), \<lambda>(bd, d). nat (day d)]")
     (auto simp: prev_day_def split: if_splits)

declare roll_forward.simps [simp del] roll_back.simps [simp del]

definition next_business_day :: "holiday_lib \<Rightarrow> bool \<Rightarrow> date \<Rightarrow> string \<Rightarrow> date option" where
  "next_business_day lib has d cal = roll_forward (\<lambda>x. is_business_day lib has x cal) d"

definition prev_business_day :: "holiday_lib \<Rightarrow> bool \<Rightarrow> date \<Rightarrow> string \<Rightarrow> date option" where
  "prev_business_day lib has d cal = roll_back (\<lambda>x. is_business_day lib has x cal) d"

text \<open>The loop of \<open>add_business_days\<close>: step, and count the business days landed on.\<close>

function count_days :: "(date \<Rightarrow> bool) \<Rightarrow> bool \<Rightarrow> date \<Rightarrow> nat \<Rightarrow> date option" where
  "count_days bd fwd d remaining =
     (if remaining = 0 then Some d
      else (case (if fwd then next_day d else prev_day d) of None \<Rightarrow> None
            | Some e \<Rightarrow> count_days bd fwd e (if bd e then remaining - 1 else remaining)))"
  by pat_completeness auto
termination
  by (relation "measures [\<lambda>(bd, f, d, r). if f then nat (9999 - year d) else nat (year d),
                          \<lambda>(bd, f, d, r). if f then nat (12 - month d) else nat (month d),
                          \<lambda>(bd, f, d, r). if f then nat (31 - day d) else nat (day d)]")
     (auto simp: next_day_def prev_day_def split: if_splits intro: less_le_trans[OF _ days_in_month_bounds(2)])

declare count_days.simps [simp del]

lemma count_days_0 [simp]: "count_days bd fwd d 0 = Some d"
  by (simp add: count_days.simps)

definition add_business_days :: "holiday_lib \<Rightarrow> bool \<Rightarrow> date \<Rightarrow> int \<Rightarrow> string \<Rightarrow> date option" where
  "add_business_days lib has d n cal =
     count_days (\<lambda>x. is_business_day lib has x cal) (0 \<le> n) d (nat \<bar>n\<bar>)"

subsection \<open>Business-day conventions\<close>

definition bdc_name :: "string option \<Rightarrow> string" where
  "bdc_name bdc = cal_name (case bdc of None \<Rightarrow> ''MOD_FOLLOWING'' | Some s \<Rightarrow> if s = [] then ''MOD_FOLLOWING'' else s)"

text \<open>The branches of \<open>apply_bdc\<close> over a forward and a backward roll; the legacy weekend-only version
  of schedule.py has the same branches.\<close>

definition adjust_by :: "(date \<Rightarrow> date option) \<Rightarrow> (date \<Rightarrow> date option) \<Rightarrow> date \<Rightarrow> string \<Rightarrow> date option" where
  "adjust_by nxt prv d b =
     (if b = ''UNADJUSTED'' then Some d
      else if b = ''FOLLOWING'' then nxt d
      else if b = ''MOD_FOLLOWING'' then
        (case nxt d of None \<Rightarrow> None | Some adj \<Rightarrow> if month adj \<noteq> month d then prv d else Some adj)
      else if b = ''PRECEDING'' then prv d
      else if b = ''MOD_PRECEDING'' then
        (case prv d of None \<Rightarrow> None | Some adj \<Rightarrow> if month adj \<noteq> month d then nxt d else Some adj)
      else nxt d)"

definition apply_bdc :: "holiday_lib \<Rightarrow> bool \<Rightarrow> date \<Rightarrow> string option \<Rightarrow> string \<Rightarrow> date option" where
  "apply_bdc lib has d bdc cal =
     adjust_by (\<lambda>x. next_business_day lib has x cal) (\<lambda>x. prev_business_day lib has x cal) d (bdc_name bdc)"

subsection \<open>The calendar of a leg\<close>

definition ccy_calendar :: "(string \<times> string) list" where
  "ccy_calendar = [(''USD'', ''NEW_YORK''), (''EUR'', ''TARGET''), (''GBP'', ''LONDON''), (''JPY'', ''TOKYO''),
     (''CHF'', ''ZURICH''), (''AUD'', ''SYDNEY''), (''CAD'', ''TORONTO'')]"

definition ccy_to_calendar :: "string option \<Rightarrow> string" where
  "ccy_to_calendar ccy =
     (let c = (case ccy of None \<Rightarrow> ''USD'' | Some s \<Rightarrow> if s = [] then ''USD'' else s)
      in case dict_get ccy_calendar (str_upper c) of None \<Rightarrow> ''NEW_YORK'' | Some k \<Rightarrow> k)"

definition known_calendars :: "string list" where
  "known_calendars = [''NEW_YORK'', ''LONDON'', ''TARGET'', ''TOKYO'', ''ZURICH'', ''SYDNEY'', ''TORONTO'']"

text \<open>The leg's \<open>payment_calendar\<close> and \<open>currency\<close> entries (\<open>None\<close> when absent or null).\<close>

definition leg_calendar :: "string option \<Rightarrow> string option \<Rightarrow> string" where
  "leg_calendar payment_calendar currency =
     (let c = cal_name (case payment_calendar of None \<Rightarrow> [] | Some s \<Rightarrow> s)
      in if c \<noteq> [] \<and> list_all (\<lambda>p. p \<in> set known_calendars) (str_split CHR ''+'' c) then c
         else ccy_to_calendar (case currency of None \<Rightarrow> Some ''USD'' | Some s \<Rightarrow> if s = [] then Some ''USD'' else Some s))"

subsection \<open>Rolling finds the nearest business day\<close>

lemma next_day_least: "valid_date d \<Longrightarrow> valid_date x \<Longrightarrow> d < x \<Longrightarrow> next_day d = Some e \<Longrightarrow> e \<le> x"
  using next_day_ordinal next_day_valid toordinal_less toordinal_less_iff
  by (metis linorder_not_le zless_imp_add1_zle)

lemma prev_day_greatest: "valid_date d \<Longrightarrow> valid_date x \<Longrightarrow> x < d \<Longrightarrow> prev_day d = Some e \<Longrightarrow> x \<le> e"
proof -
  assume v: "valid_date d" and x: "valid_date x" and lt: "x < d" and e: "prev_day d = Some e"
  have "toordinal x < toordinal d" using toordinal_less[OF x v lt] .
  with prev_day_ordinal[OF v e] have "toordinal x \<le> toordinal e" by simp
  with prev_day_valid[OF v e] x show ?thesis by (metis linorder_not_le toordinal_less order.strict_iff_order)
qed

lemma next_day_no_later: "valid_date d \<Longrightarrow> next_day d = None \<Longrightarrow> valid_date x \<Longrightarrow> x \<le> d"
  by (simp add: next_day_None) (cases x, auto simp: less_eq_date_def valid_date_def days_in_month_def split: if_splits)

lemma prev_day_no_earlier: "valid_date d \<Longrightarrow> prev_day d = None \<Longrightarrow> valid_date x \<Longrightarrow> d \<le> x"
  by (simp add: prev_day_None) (cases x, auto simp: less_eq_date_def valid_date_def)

lemma roll_forward_Some:
  "valid_date d \<Longrightarrow> roll_forward bd d = Some e \<Longrightarrow>
     valid_date e \<and> bd e \<and> d \<le> e \<and> (\<forall>x. valid_date x \<longrightarrow> d \<le> x \<longrightarrow> x < e \<longrightarrow> \<not> bd x)"
proof (induction bd d rule: roll_forward.induct)
  case (1 bd d)
  show ?case
  proof (cases "bd d")
    case True
    with "1.prems" show ?thesis by (auto simp: roll_forward.simps[of bd d])
  next
    case False
    with "1.prems"(2) obtain f where f: "next_day d = Some f" "roll_forward bd f = Some e"
      by (auto simp: roll_forward.simps[of bd d] split: option.splits)
    note ih = "1.IH"[OF False f(1) next_day_valid[OF "1.prems"(1) f(1)] f(2)]
    have "d < f" using next_day_greater[OF "1.prems"(1) f(1)] .
    moreover have "\<not> bd x" if "valid_date x" "d \<le> x" "x < e" for x
      using that ih False next_day_least[OF "1.prems"(1) that(1) _ f(1)] by (cases "x = d") auto
    ultimately show ?thesis using ih by auto
  qed
qed

lemma roll_forward_None:
  "valid_date d \<Longrightarrow> roll_forward bd d = None \<Longrightarrow> valid_date x \<Longrightarrow> d \<le> x \<Longrightarrow> \<not> bd x"
proof (induction bd d rule: roll_forward.induct)
  case (1 bd d)
  have nb: "\<not> bd d" using "1.prems"(2) by (auto simp: roll_forward.simps[of bd d])
  show ?case
  proof (cases "x = d")
    case True
    with nb show ?thesis by simp
  next
    case False
    with "1.prems" have "d < x" by simp
    with "1.prems" obtain f where f: "next_day d = Some f"
      using next_day_no_later by (metis leD not_Some_eq)
    with nb "1.prems"(2) have "roll_forward bd f = None" by (simp add: roll_forward.simps[of bd d])
    with "1.IH"[OF nb f] "1.prems" f \<open>d < x\<close> show ?thesis
      using next_day_valid next_day_least by blast
  qed
qed

lemma roll_back_Some:
  "valid_date d \<Longrightarrow> roll_back bd d = Some e \<Longrightarrow>
     valid_date e \<and> bd e \<and> e \<le> d \<and> (\<forall>x. valid_date x \<longrightarrow> e < x \<longrightarrow> x \<le> d \<longrightarrow> \<not> bd x)"
proof (induction bd d rule: roll_back.induct)
  case (1 bd d)
  show ?case
  proof (cases "bd d")
    case True
    with "1.prems" show ?thesis by (auto simp: roll_back.simps[of bd d])
  next
    case False
    with "1.prems"(2) obtain f where f: "prev_day d = Some f" "roll_back bd f = Some e"
      by (auto simp: roll_back.simps[of bd d] split: option.splits)
    note ih = "1.IH"[OF False f(1) prev_day_valid[OF "1.prems"(1) f(1)] f(2)]
    have "f < d" using prev_day_less[OF "1.prems"(1) f(1)] .
    moreover have "\<not> bd x" if "valid_date x" "e < x" "x \<le> d" for x
      using that ih False prev_day_greatest[OF "1.prems"(1) that(1) _ f(1)] by (cases "x = d") auto
    ultimately show ?thesis using ih by auto
  qed
qed

lemma roll_back_None:
  "valid_date d \<Longrightarrow> roll_back bd d = None \<Longrightarrow> valid_date x \<Longrightarrow> x \<le> d \<Longrightarrow> \<not> bd x"
proof (induction bd d rule: roll_back.induct)
  case (1 bd d)
  have nb: "\<not> bd d" using "1.prems"(2) by (auto simp: roll_back.simps[of bd d])
  show ?case
  proof (cases "x = d")
    case True
    with nb show ?thesis by simp
  next
    case False
    with "1.prems" have "x < d" by simp
    with "1.prems" obtain f where f: "prev_day d = Some f"
      using prev_day_no_earlier by (metis leD not_Some_eq)
    with nb "1.prems"(2) have "roll_back bd f = None" by (simp add: roll_back.simps[of bd d])
    with "1.IH"[OF nb f] "1.prems" f \<open>x < d\<close> show ?thesis
      using prev_day_valid prev_day_greatest by blast
  qed
qed

subsection \<open>The roller interface\<close>

text \<open>
  What the conventions need of a calendar: a forward roll that returns the first business day on or
  after a date and a backward roll that returns the last one on or before it.
\<close>

locale day_roller =
  fixes bd :: "date \<Rightarrow> bool"
    and nxt :: "date \<Rightarrow> date option"
    and prv :: "date \<Rightarrow> date option"
  assumes nxt_Some: "valid_date d \<Longrightarrow> nxt d = Some e \<Longrightarrow>
      valid_date e \<and> bd e \<and> d \<le> e \<and> (\<forall>x. valid_date x \<longrightarrow> d \<le> x \<longrightarrow> x < e \<longrightarrow> \<not> bd x)"
    and nxt_None: "valid_date d \<Longrightarrow> nxt d = None \<Longrightarrow> valid_date x \<Longrightarrow> d \<le> x \<Longrightarrow> \<not> bd x"
    and prv_Some: "valid_date d \<Longrightarrow> prv d = Some e \<Longrightarrow>
      valid_date e \<and> bd e \<and> e \<le> d \<and> (\<forall>x. valid_date x \<longrightarrow> e < x \<longrightarrow> x \<le> d \<longrightarrow> \<not> bd x)"
    and prv_None: "valid_date d \<Longrightarrow> prv d = None \<Longrightarrow> valid_date x \<Longrightarrow> x \<le> d \<Longrightarrow> \<not> bd x"
begin

lemma nxt_valid: "valid_date d \<Longrightarrow> nxt d = Some e \<Longrightarrow> valid_date e \<and> bd e"
  using nxt_Some by blast

lemma prv_valid: "valid_date d \<Longrightarrow> prv d = Some e \<Longrightarrow> valid_date e \<and> bd e"
  using prv_Some by blast

lemma nxt_le:
  assumes "valid_date d" "valid_date x" "d \<le> x" "bd x"
  shows "\<exists>e. nxt d = Some e \<and> d \<le> e \<and> e \<le> x \<and> bd e"
proof (cases "nxt d")
  case None
  with assms nxt_None show ?thesis by blast
next
  case (Some e)
  with assms nxt_Some[OF assms(1) Some] show ?thesis by (metis not_le_imp_less)
qed

lemma prv_ge:
  assumes "valid_date d" "valid_date x" "x \<le> d" "bd x"
  shows "\<exists>e. prv d = Some e \<and> e \<le> d \<and> x \<le> e \<and> bd e"
proof (cases "prv d")
  case None
  with assms prv_None show ?thesis by blast
next
  case (Some e)
  with assms prv_Some[OF assms(1) Some] show ?thesis by (metis not_le_imp_less)
qed

lemma adjust_business_day:
  assumes "valid_date d" "b \<noteq> ''UNADJUSTED''" "adjust_by nxt prv d b = Some e"
  shows "valid_date e \<and> bd e"
proof -
  from assms(2,3) have "nxt d = Some e \<or> prv d = Some e"
    by (auto simp: adjust_by_def split: if_splits option.splits)
  with assms(1) show ?thesis using nxt_valid prv_valid by blast
qed

lemma adjust_fixpoint: "valid_date d \<Longrightarrow> bd d \<Longrightarrow> adjust_by nxt prv d b = Some d"
proof -
  assume v: "valid_date d" and b: "bd d"
  have "nxt d = Some d" using nxt_le[OF v v order_refl b] by fastforce
  moreover have "prv d = Some d" using prv_ge[OF v v order_refl b] by fastforce
  ultimately show ?thesis by (simp add: adjust_by_def)
qed

text \<open>A date's month holds every date between two of its dates.\<close>

lemma same_month_between:
  assumes "x \<le> y" "y \<le> z" "year x = year z" "month x = month z"
  shows "year y = year z" "month y = month z"
proof -
  have "year x \<le> year y" "year y \<le> year z" using assms(1,2) by (auto simp: less_eq_date_def)
  with assms(3) show y: "year y = year z" by linarith
  have "month x \<le> month y" "month y \<le> month z" using assms(1-3) y by (auto simp: less_eq_date_def)
  with assms(4) show "month y = month z" by linarith
qed

text \<open>
  Modified following never leaves the month of the date: it is the first business day of the month on
  or after the date, or the last one before it when none is left. The month must have a business day,
  and there must be one within the next eleven months, so that comparing month numbers, as the code
  does, compares months.
\<close>

lemma mod_following_nearest:
  assumes v: "valid_date d"
    and x: "valid_date x" "bd x" "year x = year d" "month x = month d"
    and y: "valid_date y" "bd y" "d \<le> y" "year y = year d \<or> (year y = year d + 1 \<and> month y < month d)"
  shows "\<exists>e. adjust_by nxt prv d ''MOD_FOLLOWING'' = Some e \<and> bd e \<and> year e = year d \<and> month e = month d
    \<and> ((d \<le> e \<and> (\<forall>z. valid_date z \<longrightarrow> d \<le> z \<longrightarrow> z < e \<longrightarrow> \<not> bd z))
      \<or> (e < d \<and> (\<forall>z. valid_date z \<longrightarrow> e < z \<longrightarrow> year z = year d \<longrightarrow> month z = month d \<longrightarrow> \<not> bd z)))"
proof -
  obtain e where e: "nxt d = Some e" "d \<le> e" "e \<le> y" "bd e" using nxt_le[OF v y(1,3,2)] by blast
  show ?thesis
  proof (cases "month e = month d")
    case True
    have "year d \<le> year e" "year e < year y \<or> (year e = year y \<and> month e \<le> month y)"
      using e(2,3) by (auto simp: less_eq_date_def)
    with y(4) True have "year e = year d" by linarith
    with True e nxt_Some[OF v e(1)] show ?thesis by (simp add: adjust_by_def)
  next
    case False
    have late: "\<not> bd z" if z: "valid_date z" "d \<le> z" "year z = year d" "month z = month d" for z
    proof
      assume "bd z"
      then have "e \<le> z" using nxt_Some[OF v e(1)] z(1,2) by (meson not_less)
      with e(2) z(3,4) False show False using same_month_between by metis
    qed
    then obtain f where f: "prv d = Some f" "f \<le> d" "x \<le> f" "bd f" using prv_ge[OF v x(1) _ x(2)] x
      by (meson linear)
    with x(3,4) same_month_between[of x f d] have m: "year f = year d" "month f = month d" by simp_all
    have "f \<noteq> d" using late[OF v] f(4) by auto
    with f(2) have "f < d" by simp
    moreover have "\<not> bd z" if "valid_date z" "f < z" "year z = year d" "month z = month d" for z
      using that late prv_Some[OF v f(1)] by (meson linear)
    ultimately show ?thesis using m f e False by (simp add: adjust_by_def)
  qed
qed

end

text \<open>The calendars of the program provide the interface, with holidays and with weekends only.\<close>

interpretation cal: day_roller "\<lambda>x. is_business_day lib has x c" "\<lambda>x. next_business_day lib has x c"
  "\<lambda>x. prev_business_day lib has x c" for lib has c
  unfolding next_business_day_def prev_business_day_def
  by unfold_locales
     (erule (1) roll_forward_Some roll_back_Some, erule (3) roll_forward_None roll_back_None)+

subsection \<open>Counting business days\<close>

lemma finite_dates: "finite {x. valid_date x \<and> P x}"
proof (rule finite_subset)
  show "{x. valid_date x \<and> P x} \<subseteq> (\<lambda>(y, m, d). Date y m d) ` ({1..9999} \<times> {1..12} \<times> {1..31})"
  proof
    fix x assume "x \<in> {x. valid_date x \<and> P x}"
    then have "valid_date x" by simp
    then have "day x \<le> 31" "1 \<le> day x" "1 \<le> month x" "month x \<le> 12" "1 \<le> year x" "year x \<le> 9999"
      by (simp_all add: valid_date_day_le) (simp_all add: valid_date_def)
    then show "x \<in> (\<lambda>(y, m, d). Date y m d) ` ({1..9999} \<times> {1..12} \<times> {1..31})"
      by (intro image_eqI[of _ _ "(year x, month x, day x)"]) simp_all
  qed
qed simp

text \<open>The business days after \<open>d\<close> up to \<open>e\<close>, and from \<open>e\<close> up to the day before \<open>d\<close>.\<close>

definition days_after :: "(date \<Rightarrow> bool) \<Rightarrow> date \<Rightarrow> date \<Rightarrow> date set" where
  "days_after bd d e = {x. valid_date x \<and> d < x \<and> x \<le> e \<and> bd x}"

definition days_before :: "(date \<Rightarrow> bool) \<Rightarrow> date \<Rightarrow> date \<Rightarrow> date set" where
  "days_before bd e d = {x. valid_date x \<and> e \<le> x \<and> x < d \<and> bd x}"

lemma days_after_step:
  assumes v: "valid_date d" and f: "next_day d = Some f" and fe: "f \<le> e"
  shows "days_after bd d e = (if bd f then insert f (days_after bd f e) else days_after bd f e)"
  using next_day_valid[OF v f] next_day_greater[OF v f] next_day_least[OF v _ _ f] fe
  by (auto simp: days_after_def less_le)

lemma days_before_step:
  assumes v: "valid_date d" and f: "prev_day d = Some f" and fe: "e \<le> f"
  shows "days_before bd e d = (if bd f then insert f (days_before bd e f) else days_before bd e f)"
  using prev_day_valid[OF v f] prev_day_less[OF v f] prev_day_greatest[OF v _ _ f] fe
  by (auto simp: days_before_def less_le)

lemma count_days_forward:
  "valid_date d \<Longrightarrow> fwd \<Longrightarrow> count_days bd fwd d n = Some e \<Longrightarrow>
     valid_date e \<and> d \<le> e \<and> card (days_after bd d e) = n \<and> (0 < n \<longrightarrow> bd e)"
proof (induction bd fwd d n rule: count_days.induct)
  case (1 bd fwd d n)
  show ?case
  proof (cases "n = 0")
    case True
    with "1.prems" have "e = d" by simp
    moreover have "days_after bd d d = {}" by (auto simp: days_after_def)
    ultimately show ?thesis using True "1.prems"(1) by simp
  next
    case False
    with "1.prems"(2,3) obtain f where f: "next_day d = Some f"
      and r: "count_days bd fwd f (if bd f then n - 1 else n) = Some e"
      by (auto simp: count_days.simps[of _ _ d n] split: option.splits)
    note vf = next_day_valid[OF "1.prems"(1) f]
    from "1.IH"[OF False _ vf "1.prems"(2) r] f "1.prems"(2)
    have ih: "valid_date e" "f \<le> e" "card (days_after bd f e) = (if bd f then n - 1 else n)"
      "0 < (if bd f then n - 1 else n) \<longrightarrow> bd e" by simp_all
    have "f \<notin> days_after bd f e" by (simp add: days_after_def)
    moreover have "finite (days_after bd f e)" unfolding days_after_def by (rule finite_dates)
    ultimately have c: "card (days_after bd d e) = n"
      using ih(3) False by (simp add: days_after_step[OF "1.prems"(1) f ih(2)])
    have "bd e"
    proof (cases "n = 1 \<and> bd f")
      case True
      with r have "e = f" by (simp add: count_days.simps[of bd fwd f 0])
      with True show ?thesis by simp
    next
      case no: False
      with ih(4) False show ?thesis by (auto split: if_splits)
    qed
    with c ih(1,2) next_day_greater[OF "1.prems"(1) f] show ?thesis by auto
  qed
qed

lemma count_days_back:
  "valid_date d \<Longrightarrow> \<not> fwd \<Longrightarrow> count_days bd fwd d n = Some e \<Longrightarrow>
     valid_date e \<and> e \<le> d \<and> card (days_before bd e d) = n \<and> (0 < n \<longrightarrow> bd e)"
proof (induction bd fwd d n rule: count_days.induct)
  case (1 bd fwd d n)
  show ?case
  proof (cases "n = 0")
    case True
    with "1.prems" have "e = d" by simp
    moreover have "days_before bd d d = {}" by (auto simp: days_before_def)
    ultimately show ?thesis using True "1.prems"(1) by simp
  next
    case False
    with "1.prems"(2,3) obtain f where f: "prev_day d = Some f"
      and r: "count_days bd fwd f (if bd f then n - 1 else n) = Some e"
      by (auto simp: count_days.simps[of _ _ d n] split: option.splits)
    note vf = prev_day_valid[OF "1.prems"(1) f]
    from "1.IH"[OF False _ vf "1.prems"(2) r] f "1.prems"(2)
    have ih: "valid_date e" "e \<le> f" "card (days_before bd e f) = (if bd f then n - 1 else n)"
      "0 < (if bd f then n - 1 else n) \<longrightarrow> bd e" by simp_all
    have "f \<notin> days_before bd e f" by (simp add: days_before_def)
    moreover have "finite (days_before bd e f)" unfolding days_before_def by (rule finite_dates)
    ultimately have c: "card (days_before bd e d) = n"
      using ih(3) False by (simp add: days_before_step[OF "1.prems"(1) f ih(2)])
    have "bd e"
    proof (cases "n = 1 \<and> bd f")
      case True
      with r have "e = f" by (simp add: count_days.simps[of bd fwd f 0])
      with True show ?thesis by simp
    next
      case no: False
      with ih(4) False show ?thesis by (auto split: if_splits)
    qed
    with c ih(1,2) prev_day_less[OF "1.prems"(1) f] show ?thesis by auto
  qed
qed

subsection \<open>Properties\<close>

text \<open>The holiday cache is transparent. From any cache whose entries are right, loading a calendar
  returns exactly the set its name stands for (the union over the parts of a combined name) and
  leaves a cache whose entries are right, so a lookup never depends on what was loaded before.\<close>

theorem load_cache_transparent:
  assumes "cache_ok lib has cache"
  shows "fst (load lib has cal y cache) = holidays_of lib has cal y
    \<and> cache_ok lib has (snd (load lib has cal y cache))"
  using load_correct(1)[OF assms] .

definition demo_lib :: holiday_lib where
  "demo_lib c y =
     (if c = ''US'' then Some [(Date y 7 4, ''Independence Day''), (Date y 12 25, ''Christmas Day'')]
      else if c = ''Germany'' then Some [(Date y 4 3, ''Good Friday'')] else None)"

theorem load_cache_transparent_witness:
  "fst (load demo_lib True ''new york+target'' 2026 Map.empty)
     = holidays_of demo_lib True ''new york+target'' 2026
   \<and> Date 2026 7 4 \<in> holidays_of demo_lib True ''new york+target'' 2026
   \<and> Date 2026 4 3 \<in> holidays_of demo_lib True ''new york+target'' 2026"
proof -
  have "cache_ok demo_lib True Map.empty" by (simp add: cache_ok_def)
  from load_cache_transparent[OF this]
  have "fst (load demo_lib True ''new york+target'' 2026 Map.empty)
     = holidays_of demo_lib True ''new york+target'' 2026" by blast
  moreover have "Date 2026 7 4 \<in> holidays_of demo_lib True ''new york+target'' 2026" by code_simp
  moreover have "Date 2026 4 3 \<in> holidays_of demo_lib True ''new york+target'' 2026" by code_simp
  ultimately show ?thesis by blast
qed

text \<open>Modified following, the default convention, pays on a business day of the calendar inside the
  month of the unadjusted date: the first one on or after it, or the last one before it when the rest
  of the month has none. It always returns under the stated condition that the month has a business
  day and another one follows within eleven months.\<close>

theorem apply_bdc_mod_following:
  assumes "valid_date d"
    and "valid_date x" "is_business_day lib has x cal" "year x = year d" "month x = month d"
    and "valid_date y" "is_business_day lib has y cal" "d \<le> y"
    and "year y = year d \<or> (year y = year d + 1 \<and> month y < month d)"
  shows "\<exists>e. apply_bdc lib has d None cal = Some e \<and> is_business_day lib has e cal
    \<and> year e = year d \<and> month e = month d
    \<and> ((d \<le> e \<and> (\<forall>z. valid_date z \<longrightarrow> d \<le> z \<longrightarrow> z < e \<longrightarrow> \<not> is_business_day lib has z cal))
      \<or> (e < d \<and> (\<forall>z. valid_date z \<longrightarrow> e < z \<longrightarrow> year z = year d \<longrightarrow> month z = month d
            \<longrightarrow> \<not> is_business_day lib has z cal)))"
proof -
  have "bdc_name None = ''MOD_FOLLOWING''" by code_simp
  with cal.mod_following_nearest[OF assms] show ?thesis by (simp add: apply_bdc_def)
qed

theorem apply_bdc_mod_following_witness:
  "apply_bdc demo_lib True (Date 2026 1 31) None ''NEW_YORK'' = Some (Date 2026 1 30)
   \<and> (\<exists>e. apply_bdc demo_lib True (Date 2026 1 31) None ''NEW_YORK'' = Some e
        \<and> year e = 2026 \<and> month e = 1)"
proof -
  have h: "valid_date (Date 2026 1 31)" "valid_date (Date 2026 1 5)" "valid_date (Date 2026 2 2)"
    "is_business_day demo_lib True (Date 2026 1 5) ''NEW_YORK''"
    "is_business_day demo_lib True (Date 2026 2 2) ''NEW_YORK''"
    "Date 2026 1 31 \<le> Date 2026 2 2" by code_simp+
  have "\<exists>e. apply_bdc demo_lib True (Date 2026 1 31) None ''NEW_YORK'' = Some e
        \<and> year e = 2026 \<and> month e = 1"
    using apply_bdc_mod_following[OF h(1,2,4) _ _ h(3,5,6)] by simp blast
  moreover have "apply_bdc demo_lib True (Date 2026 1 31) None ''NEW_YORK'' = Some (Date 2026 1 30)"
    by code_simp
  ultimately show ?thesis by blast
qed

lemma add_business_days_lands:
  assumes "valid_date d" "add_business_days lib has d n cal = Some e" "n \<noteq> 0"
  shows "is_business_day lib has e cal"
proof (cases "0 \<le> n")
  case True
  with assms show ?thesis
    using count_days_forward[OF assms(1), of True "\<lambda>x. is_business_day lib has x cal" "nat n" e]
    by (simp add: add_business_days_def)
next
  case False
  with assms show ?thesis
    using count_days_back[OF assms(1), of False "\<lambda>x. is_business_day lib has x cal" "nat (- n)" e]
    by (simp add: add_business_days_def)
qed

text \<open>Adding business days counts exactly: going forward (\<open>n \<ge> 0\<close>) there are \<open>n\<close> business days
  after the start up to the result, going back there are \<open>|n|\<close> from the result up to the day before the
  start, and a non-zero count lands on a business day.\<close>

theorem add_business_days_counts:
  assumes "valid_date d" and "add_business_days lib has d n cal = Some e"
  shows "valid_date e \<and> (n \<noteq> 0 \<longrightarrow> is_business_day lib has e cal)
    \<and> (if 0 \<le> n then d \<le> e \<and> int (card (days_after (\<lambda>x. is_business_day lib has x cal) d e)) = n
       else e \<le> d \<and> int (card (days_before (\<lambda>x. is_business_day lib has x cal) e d)) = - n)"
proof (cases "0 \<le> n")
  case True
  with assms count_days_forward[OF assms(1), of True "\<lambda>x. is_business_day lib has x cal" "nat n" e]
  show ?thesis by (auto simp: add_business_days_def)
next
  case False
  with assms count_days_back[OF assms(1), of False "\<lambda>x. is_business_day lib has x cal" "nat (- n)" e]
  show ?thesis by (auto simp: add_business_days_def)
qed

theorem add_business_days_counts_witness:
  "add_business_days demo_lib True (Date 2026 7 6) (- 2) ''NEW_YORK'' = Some (Date 2026 7 2)
   \<and> is_business_day demo_lib True (Date 2026 7 2) ''NEW_YORK''
   \<and> int (card (days_before (\<lambda>x. is_business_day demo_lib True x ''NEW_YORK'') (Date 2026 7 2) (Date 2026 7 6))) = 2"
proof -
  have "valid_date (Date 2026 7 6)" by code_simp
  moreover have r: "add_business_days demo_lib True (Date 2026 7 6) (- 2) ''NEW_YORK'' = Some (Date 2026 7 2)"
    by code_simp
  ultimately show ?thesis using add_business_days_counts[of "Date 2026 7 6" demo_lib True "- 2" "''NEW_YORK''"]
    by simp
qed

end
