(* ===== verification/Day_Count.thy ===== *)
theory Day_Count
  imports Dates Complex_Main
begin

section \<open>Day-count conventions (pricing/day_count.py)\<close>

text \<open>
  The fractions are \<open>Decimal\<close> values: every division and every addition of the source is rounded to
  the 28 significant digits of the default context, ties to even (\<open>ctx_round\<close>), and the conventions
  below round at exactly those places. A value is a rational number. \<open>None\<close> is the \<open>ValueError\<close> of
  \<open>date(10000, 1, 1)\<close>.
\<close>

subsection \<open>The decimal context\<close>

definition pow10 :: "int \<Rightarrow> rat" where
  "pow10 e = (if 0 \<le> e then 10 ^ nat e else 1 / 10 ^ nat (- e))"

function ilog_up :: "int \<Rightarrow> int \<Rightarrow> nat" where
  "ilog_up n d = (if d \<le> 0 \<or> n < 10 * d then 0 else Suc (ilog_up n (10 * d)))"
  by pat_completeness auto
termination by (relation "measure (\<lambda>(n, d). nat (n - d))") auto

function ilog_down :: "int \<Rightarrow> int \<Rightarrow> nat" where
  "ilog_down n d = (if n \<le> 0 \<or> d \<le> n then 0 else Suc (ilog_down (10 * n) d))"
  by pat_completeness auto
termination by (relation "measure (\<lambda>(n, d). nat (d - n))") auto

declare ilog_up.simps [simp del] ilog_down.simps [simp del]

text \<open>The position of the first significant digit of a positive number.\<close>

definition dec_exp :: "rat \<Rightarrow> int" where
  "dec_exp q = (case quotient_of q of (n, d) \<Rightarrow> if d \<le> n then int (ilog_up n d) else - int (ilog_down n d))"

definition round_half_even :: "rat \<Rightarrow> int" where
  "round_half_even x =
     (let f = \<lfloor>x\<rfloor>; r = x - of_int f
      in if r < 1 / 2 then f else if 1 / 2 < r then f + 1 else if even f then f else f + 1)"

definition ctx_round :: "rat \<Rightarrow> rat" where
  "ctx_round q = (if q = 0 then 0
     else (let s = pow10 (27 - dec_exp \<bar>q\<bar>) in of_int (round_half_even (q * s)) / s))"

lemma pow10_powi: "pow10 e = 10 powi e"
  by (simp add: pow10_def power_int_def inverse_eq_divide power_one_over)

lemma ilog_up_spec:
  "0 < d \<Longrightarrow> d \<le> n \<Longrightarrow> d * 10 ^ ilog_up n d \<le> n \<and> n < d * 10 ^ Suc (ilog_up n d)"
proof (induction n d rule: ilog_up.induct)
  case (1 n d)
  show ?case
  proof (cases "n < 10 * d")
    case True
    with "1.prems" show ?thesis by (simp add: ilog_up.simps[of n d])
  next
    case False
    with "1.prems" "1.IH" have "10 * d * 10 ^ ilog_up n (10 * d) \<le> n \<and> n < 10 * d * 10 ^ Suc (ilog_up n (10 * d))"
      by simp
    with False "1.prems" show ?thesis by (simp add: ilog_up.simps[of n d] mult_ac)
  qed
qed

lemma ilog_down_spec:
  "0 < n \<Longrightarrow> n < 10 * d \<Longrightarrow> d \<le> n * 10 ^ ilog_down n d \<and> n * 10 ^ ilog_down n d < 10 * d"
proof (induction n d rule: ilog_down.induct)
  case (1 n d)
  show ?case
  proof (cases "d \<le> n")
    case True
    with "1.prems" show ?thesis by (simp add: ilog_down.simps[of n d])
  next
    case False
    with "1.prems" "1.IH" have "d \<le> 10 * n * 10 ^ ilog_down (10 * n) d \<and> 10 * n * 10 ^ ilog_down (10 * n) d < 10 * d"
      by simp
    with False "1.prems" show ?thesis by (simp add: ilog_down.simps[of n d] mult_ac)
  qed
qed

lemma dec_exp_spec:
  assumes "0 < q"
  shows "10 powi dec_exp q \<le> q \<and> q < 10 powi (dec_exp q + 1)"
proof -
  obtain n d where nd: "quotient_of q = (n, d)" by fastforce
  have d: "0 < d" using quotient_of_denom_pos[OF nd] .
  have q: "q = of_int n / of_int d" using quotient_of_div[OF nd] .
  with assms d have n: "0 < n" by (simp add: zero_less_divide_iff)
  show ?thesis
  proof (cases "d \<le> n")
    case True
    let ?k = "ilog_up n d"
    from ilog_up_spec[OF d True] have "of_int (d * 10 ^ ?k) \<le> (of_int n :: rat)" "(of_int n :: rat) < of_int (d * 10 ^ Suc ?k)"
      by (simp_all only: of_int_le_iff of_int_less_iff)
    then have "10 ^ ?k \<le> q" "q < 10 ^ Suc ?k" using d by (simp_all add: q field_simps)
    moreover have "dec_exp q = int ?k" using True by (simp add: dec_exp_def nd)
    ultimately show ?thesis by (simp add: power_int_add)
  next
    case False
    let ?k = "ilog_down n d"
    from ilog_down_spec[OF n, of d] False have "of_int d \<le> (of_int (n * 10 ^ ?k) :: rat)" "(of_int (n * 10 ^ ?k) :: rat) < of_int (10 * d)"
      using n by (simp_all only: of_int_le_iff of_int_less_iff)
    then have "1 / 10 ^ ?k \<le> q" "q < 10 / 10 ^ ?k" using d by (simp_all add: q field_simps)
    moreover have "dec_exp q = - int ?k" using False by (simp add: dec_exp_def nd)
    moreover have "(10 :: rat) powi (1 - int ?k) = 10 / 10 ^ ?k" by (simp add: power_int_diff)
    ultimately show ?thesis by (simp add: power_int_minus inverse_eq_divide)
  qed
qed

lemma round_half_even_error: "\<bar>of_int (round_half_even x) - x\<bar> \<le> 1 / 2"
proof -
  have "0 \<le> x - of_int \<lfloor>x\<rfloor>" "x - of_int \<lfloor>x\<rfloor> < 1" by linarith+
  then show ?thesis by (auto simp: round_half_even_def Let_def)
qed

lemma round_half_even_int [simp]: "round_half_even (of_int k) = k"
  by (simp add: round_half_even_def)

text \<open>Rounding to 28 digits is off by at most half a unit in the 28th digit.\<close>

lemma ctx_round_error: "\<bar>ctx_round q - q\<bar> \<le> \<bar>q\<bar> * (5 / 10 ^ 28)"
proof (cases "q = 0")
  case True
  then show ?thesis by (simp add: ctx_round_def)
next
  case False
  define e where "e = dec_exp \<bar>q\<bar>"
  define s where "s = (10 :: rat) powi (27 - e)"
  have s: "0 < s" by (simp add: s_def)
  have r: "ctx_round q = of_int (round_half_even (q * s)) / s"
    using False by (simp add: ctx_round_def pow10_powi s_def e_def Let_def)
  have "ctx_round q - q = (of_int (round_half_even (q * s)) - q * s) / s" using s by (simp add: r field_simps)
  then have "\<bar>ctx_round q - q\<bar> = \<bar>of_int (round_half_even (q * s)) - q * s\<bar> / s" using s by simp
  also have "\<dots> \<le> (1 / 2) / s" using s round_half_even_error[of "q * s"] by (intro divide_right_mono) simp_all
  also have "\<dots> = 10 powi e * (5 / 10 ^ 28)"
    by (simp add: s_def power_int_diff)
  also have "\<dots> \<le> \<bar>q\<bar> * (5 / 10 ^ 28)"
    using dec_exp_spec[of "\<bar>q\<bar>"] False by (intro mult_right_mono) (simp_all add: e_def)
  finally show ?thesis .
qed

lemma ctx_round_int: "\<bar>k\<bar> < 10 ^ 28 \<Longrightarrow> ctx_round (of_int k) = of_int k"
proof (cases "k = 0")
  case True
  then show ?thesis by (simp add: ctx_round_def)
next
  case False
  assume b: "\<bar>k\<bar> < 10 ^ 28"
  define e where "e = dec_exp \<bar>of_int k\<bar>"
  have "10 powi e \<le> \<bar>of_int k :: rat\<bar>" using dec_exp_spec[of "\<bar>of_int k\<bar>"] False by (simp add: e_def)
  also have "\<bar>of_int k :: rat\<bar> = of_int \<bar>k\<bar>" by simp
  also have "(of_int \<bar>k\<bar> :: rat) < of_int (10 ^ 28)" using b by (simp only: of_int_less_iff)
  also have "(of_int (10 ^ 28) :: rat) = 10 powi 28" by simp
  finally have lt: "(10 :: rat) powi e < 10 powi 28" .
  have "e < 28"
  proof (rule ccontr)
    assume "\<not> e < 28"
    then have "(10 :: rat) powi 28 \<le> 10 powi e" by (intro power_int_increasing) simp_all
    with lt show False by linarith
  qed
  then obtain m where m: "27 - e = int m" using zero_le_imp_eq_int[of "27 - e"] by auto
  have "of_int k * pow10 (27 - e) = (of_int (k * 10 ^ m) :: rat)" by (simp add: pow10_powi m)
  then have "round_half_even (of_int k * pow10 (27 - e)) = k * 10 ^ m" by (simp only: round_half_even_int)
  moreover have "pow10 (27 - e) = 10 ^ m" by (simp add: pow10_powi m)
  ultimately show ?thesis using False by (simp add: ctx_round_def e_def[symmetric] Let_def)
qed

subsection \<open>The conventions\<close>

definition act360 :: "date \<Rightarrow> date \<Rightarrow> rat" where
  "act360 d1 d2 = ctx_round (of_int (days_between d1 d2) / 360)"

definition act365f :: "date \<Rightarrow> date \<Rightarrow> rat" where
  "act365f d1 d2 = ctx_round (of_int (days_between d1 d2) / 365)"

text \<open>30/360 bond basis: the two day adjustments, then the numerator.\<close>

definition thirty360_days :: "date \<Rightarrow> date \<Rightarrow> int" where
  "thirty360_days a b =
     (let d1 = (if day a = 31 then 30 else day a);
          d2 = (if day b = 31 \<and> d1 = 30 then 30 else day b)
      in 360 * (year b - year a) + 30 * (month b - month a) + (d2 - d1))"

definition thirty360 :: "date \<Rightarrow> date \<Rightarrow> rat" where
  "thirty360 a b = ctx_round (of_int (thirty360_days a b) / 360)"

fun add_ones :: "nat \<Rightarrow> rat \<Rightarrow> rat" where
  "add_ones 0 f = f"
| "add_ones (Suc n) f = add_ones n (ctx_round (f + 1))"

definition actact_isda :: "date \<Rightarrow> date \<Rightarrow> rat option" where
  "actact_isda d1 d2 =
     (if d1 = d2 then Some 0
      else if year d1 = year d2 then
        Some (ctx_round (of_int (days_between d1 d2) / of_int (days_in_year (year d1))))
      else if year d1 = 9999 then None
      else (let f1 = ctx_round (0 + ctx_round (of_int (days_between d1 (Date (year d1 + 1) 1 1))
                                              / of_int (days_in_year (year d1))));
                f2 = add_ones (nat (year d2 - (year d1 + 1))) f1
            in Some (ctx_round (f2 + ctx_round (of_int (days_between (Date (year d2) 1 1) d2)
                                                / of_int (days_in_year (year d2)))))))"

definition dcf_name :: "string option \<Rightarrow> string" where
  "dcf_name convention =
     str_strip (str_upper (case convention of None \<Rightarrow> ''ACT/360'' | Some s \<Rightarrow> if s = [] then ''ACT/360'' else s))"

definition dcf :: "string option \<Rightarrow> date \<Rightarrow> date \<Rightarrow> rat option" where
  "dcf convention d1 d2 =
     (let c = dcf_name convention
      in if c = ''ACT/360'' then Some (act360 d1 d2)
         else if c = ''ACT/365F'' \<or> c = ''ACT/365'' then Some (act365f d1 d2)
         else if c = ''30/360'' \<or> c = ''30/360 BOND'' then Some (thirty360 d1 d2)
         else if c = ''ACT/ACT'' \<or> c = ''ACT/ACT ISDA'' \<or> c = ''ACTACT'' then actact_isda d1 d2
         else Some (act360 d1 d2))"

subsection \<open>Properties\<close>

text \<open>The exact ratio each convention stands for.\<close>

definition dcf_exact :: "string \<Rightarrow> date \<Rightarrow> date \<Rightarrow> rat" where
  "dcf_exact c d1 d2 =
     (if c = ''ACT/365F'' \<or> c = ''ACT/365'' then of_int (days_between d1 d2) / 365
      else if c = ''30/360'' \<or> c = ''30/360 BOND'' then of_int (thirty360_days d1 d2) / 360
      else of_int (days_between d1 d2) / 360)"



lemma add_ones_int: "0 \<le> k \<Longrightarrow> k + int n < 10 ^ 28 \<Longrightarrow> add_ones n (of_int k) = of_int (k + int n)"
proof (induction n arbitrary: k)
  case (Suc n)
  have "ctx_round (of_int (k + 1)) = of_int (k + 1)" using Suc.prems by (intro ctx_round_int) simp
  then have "ctx_round (of_int k + 1) = of_int (k + 1)" by simp
  with Suc.IH[of "k + 1"] Suc.prems show ?case by (simp add: algebra_simps)
qed simp

lemma days_between_year: "days_between (Date y 1 1) (Date (y + 1) 1 1) = days_in_year y"
  by (simp add: days_between_def toordinal_def days_before_year_Suc)

lemma days_in_year_pos: "0 < days_in_year y"
  by (simp add: days_in_year_def)

text \<open>ACT/ACT ISDA counts calendar years exactly: from the first of January of one year to the first of
  January of a later year the fraction is exactly the number of years, leap years included, in spite
  of the roundings on the way.\<close>

theorem actact_whole_years:
  assumes "y1 < y2" and "1 \<le> y1" and "y2 \<le> 9999"
  shows "actact_isda (Date y1 1 1) (Date y2 1 1) = Some (of_int (y2 - y1))"
proof -
  have one: "ctx_round 1 = 1" using ctx_round_int[of 1] by simp
  have z: "ctx_round 0 = 0" by (simp add: ctx_round_def)
  have "add_ones (nat (y2 - (y1 + 1))) (of_int 1) = of_int (1 + int (nat (y2 - (y1 + 1))))"
    using assms by (intro add_ones_int) simp_all
  then have a: "add_ones (nat (y2 - (y1 + 1))) 1 = of_int (y2 - y1)" using assms by simp
  have r: "ctx_round (of_int (y2 - y1)) = of_int (y2 - y1)" using assms by (intro ctx_round_int) simp
  have "days_between (Date y2 1 1) (Date y2 1 1) = 0" by (simp add: days_between_def)
  with assms days_in_year_pos[of y1] a r one z show ?thesis
    by (simp add: actact_isda_def days_between_year Let_def)
qed

theorem actact_whole_years_witness:
  "actact_isda (Date 2023 1 1) (Date 2029 1 1) = Some 6"
  using actact_whole_years[of 2023 2029] by simp

end
