(* ===== verification/Decimals.thy ===== *)
theory Decimals
  imports Prelude Complex_Main
begin

section \<open>Decimal numbers\<close>

text \<open>
  Python's \<open>decimal.Decimal\<close> under the default context (28 significant digits, ties to even), as far
  as the back end uses it: reading a decimal from text, comparing, normalising, and the canonical
  number text of chain/canonical.py (\<open>_num_str\<close>). A finite decimal is its sign, its coefficient and
  its exponent, as in the library. The rounding of quotients and sums is in \<open>Day_Count\<close>.
\<close>

datatype decimal = Dec (dneg: bool) (coeff: nat) (expo: int) | DInf bool | DNaN

subsection \<open>Values and comparison\<close>

definition dval :: "decimal \<Rightarrow> rat" where
  "dval d = (case d of Dec n c e \<Rightarrow>
       (if n then - 1 else 1) * of_nat c * (if 0 \<le> e then 10 ^ nat e else 1 / 10 ^ nat (- e))
     | _ \<Rightarrow> 0)"

text \<open>\<open>a < b\<close>: exact on finite decimals (brought to a common exponent), by sign on infinities; comparing
  a NaN raises \<open>InvalidOperation\<close> (\<open>None\<close>).\<close>

definition scaled :: "bool \<Rightarrow> nat \<Rightarrow> int \<Rightarrow> int \<Rightarrow> int" where
  "scaled n c e m = (if n then - 1 else 1) * int c * 10 ^ nat (e - m)"

definition dec_less :: "decimal \<Rightarrow> decimal \<Rightarrow> bool option" where
  "dec_less a b = (case (a, b) of
       (Dec n c e, Dec n' c' e') \<Rightarrow> Some (scaled n c e (min e e') < scaled n' c' e' (min e e'))
     | (DNaN, _) \<Rightarrow> None | (_, DNaN) \<Rightarrow> None
     | (DInf n, DInf n') \<Rightarrow> Some (n \<and> \<not> n')
     | (DInf n, Dec _ _ _) \<Rightarrow> Some n
     | (Dec _ _ _, DInf n) \<Rightarrow> Some (\<not> n))"

text \<open>\<open>d < 0\<close> and \<open>d <= 0\<close>.\<close>

definition dec_neg :: "decimal \<Rightarrow> bool option" where
  "dec_neg d = dec_less d (Dec False 0 0)"

definition dec_nonpos :: "decimal \<Rightarrow> bool option" where
  "dec_nonpos d = map_option Not (dec_less (Dec False 0 0) d)"

lemma dec_neg_Dec [simp]: "dec_neg (Dec n c e) = Some (n \<and> c \<noteq> 0)"
  by (auto simp: dec_neg_def dec_less_def scaled_def zero_less_mult_iff mult_less_0_iff)

lemma dec_nonpos_Dec [simp]: "dec_nonpos (Dec n c e) = Some (n \<or> c = 0)"
  by (auto simp: dec_nonpos_def dec_less_def scaled_def zero_less_mult_iff mult_less_0_iff)

text \<open>\<open>-d\<close> as a change of sign (the counterparty's view of a signed amount).\<close>

definition dec_minus :: "decimal \<Rightarrow> decimal" where
  "dec_minus d = (case d of Dec n c e \<Rightarrow> Dec (\<not> n) c e | DInf n \<Rightarrow> DInf (\<not> n) | DNaN \<Rightarrow> DNaN)"

subsection \<open>Rounding to the context and normalising\<close>

definition prec :: nat where "prec = 28"

text \<open>Keep at most 28 digits of the coefficient, ties to even; a carry to 29 digits drops one more.\<close>

definition round_coeff :: "nat \<Rightarrow> int \<Rightarrow> nat \<times> int" where
  "round_coeff c e =
     (let k = length (nat_digits c) - prec
      in if k = 0 then (c, e)
         else (let q = c div 10 ^ k; r = 2 * (c mod 10 ^ k);
                   q' = (if r > 10 ^ k \<or> (r = 10 ^ k \<and> odd q) then q + 1 else q)
               in if q' = 10 ^ prec then (10 ^ (prec - 1), e + int k + 1) else (q', e + int k)))"

function strip_zeros :: "nat \<Rightarrow> int \<Rightarrow> nat \<times> int" where
  "strip_zeros c e = (if c \<noteq> 0 \<and> c mod 10 = 0 then strip_zeros (c div 10) (e + 1) else (c, e))"
  by pat_completeness auto
termination by (relation "measure (\<lambda>(c, e). c)") auto

declare strip_zeros.simps [simp del]

definition dec_normalize :: "decimal \<Rightarrow> decimal" where
  "dec_normalize d = (case d of
       Dec n c e \<Rightarrow> (case round_coeff c e of (c1, e1) \<Rightarrow>
          if c1 = 0 then Dec n 0 0 else (case strip_zeros c1 e1 of (c2, e2) \<Rightarrow> Dec n c2 e2))
     | _ \<Rightarrow> d)"

text \<open>\<open>format(d, "f")\<close>: no exponent; the point is placed by the exponent.\<close>

definition format_f :: "bool \<Rightarrow> nat \<Rightarrow> int \<Rightarrow> string" where
  "format_f n c e =
     (if n then ''-'' else []) @
     (let s = nat_digits c
      in if 0 \<le> e then (if c = 0 then s else s @ replicate (nat e) CHR ''0'')
         else (let k = nat (- e)
               in if k < length s then take (length s - k) s @ ''.'' @ drop (length s - k) s
                  else ''0.'' @ replicate (k - length s) CHR ''0'' @ s))"

definition rstrip :: "char \<Rightarrow> string \<Rightarrow> string" where
  "rstrip c s = rev (dropWhile (\<lambda>x. x = c) (rev s))"

text \<open>\<open>_num_str\<close> once the argument has been read as a decimal: \<open>None\<close> for the \<open>ValueError\<close> on a non-finite
  number.\<close>

definition num_str :: "decimal \<Rightarrow> string option" where
  "num_str d = (case d of
       DInf _ \<Rightarrow> None | DNaN \<Rightarrow> None
     | Dec _ _ _ \<Rightarrow> (case dec_normalize d of
          Dec n c e \<Rightarrow>
            if c = 0 then Some ''0''
            else (let s = format_f n c e
                  in Some (if CHR ''.'' \<in> set s then rstrip CHR ''.'' (rstrip CHR ''0'' s) else s))
        | _ \<Rightarrow> None))"

subsection \<open>Reading a decimal\<close>

text \<open>\<open>Decimal(s)\<close> on text: surrounding white space and underscores are ignored, then a sign, digits with
  an optional point, an optional exponent; or an infinity or a NaN. \<open>None\<close> is \<open>InvalidOperation\<close>.\<close>

definition read_sign :: "string \<Rightarrow> bool \<times> string" where
  "read_sign s = (case s of [] \<Rightarrow> (False, [])
     | c # r \<Rightarrow> if c = CHR ''-'' then (True, r) else if c = CHR ''+'' then (False, r) else (False, s))"

definition read_exponent :: "string \<Rightarrow> int option" where
  "read_exponent s = (case s of [] \<Rightarrow> Some 0
     | c # r \<Rightarrow> if c = CHR ''e'' \<or> c = CHR ''E'' then
          (case read_sign r of (n, ds) \<Rightarrow>
             if ds \<noteq> [] \<and> list_all is_digit ds then Some ((if n then - 1 else 1) * int (digits_val ds)) else None)
        else None)"

definition read_special :: "bool \<Rightarrow> string \<Rightarrow> decimal option" where
  "read_special n s =
     (let t = str_lower s
      in if t = ''inf'' \<or> t = ''infinity'' then Some (DInf n)
         else if starts_with ''nan'' t \<and> list_all is_digit (drop 3 t) then Some DNaN
         else if starts_with ''snan'' t \<and> list_all is_digit (drop 4 t) then Some DNaN
         else None)"

definition read_fraction :: "string \<Rightarrow> string \<times> string" where
  "read_fraction u = (case u of [] \<Rightarrow> ([], [])
     | c # r \<Rightarrow> if c = CHR ''.'' then (takeWhile is_digit r, dropWhile is_digit r) else ([], u))"

definition dec_of_string :: "string \<Rightarrow> decimal option" where
  "dec_of_string s =
     (case read_sign (filter (\<lambda>c. c \<noteq> CHR ''_'') (str_strip s)) of (n, u) \<Rightarrow>
        let ip = takeWhile is_digit u
        in case read_fraction (dropWhile is_digit u) of (fp, rest) \<Rightarrow>
             if ip = [] \<and> fp = [] then read_special n u
             else (case read_exponent rest of None \<Rightarrow> None
                   | Some x \<Rightarrow> Some (Dec n (digits_val (ip @ fp)) (x - int (length fp)))))"

subsection \<open>Facts about normalising\<close>

lemma strip_zeros_spec:
  assumes "c \<noteq> 0" and "strip_zeros c e = (c', e')"
  shows "c = c' * 10 ^ nat (e' - e) \<and> e \<le> e' \<and> c' mod 10 \<noteq> 0"
  using assms
proof (induction c e rule: strip_zeros.induct)
  case (1 c e)
  show ?case
  proof (cases "c mod 10 = 0")
    case False
    with "1.prems" show ?thesis by (simp add: strip_zeros.simps[of c e])
  next
    case True
    with "1.prems" have r: "strip_zeros (c div 10) (e + 1) = (c', e')"
      by (simp add: strip_zeros.simps[of c e])
    from True "1.prems"(1) have nz: "c div 10 \<noteq> 0" by presburger
    with "1.IH" True "1.prems"(1) r
    have ih: "c div 10 = c' * 10 ^ nat (e' - (e + 1))" "e + 1 \<le> e'" "c' mod 10 \<noteq> 0" by simp_all
    have "c = 10 * (c div 10)" using True by presburger
    also have "\<dots> = c' * 10 ^ Suc (nat (e' - (e + 1)))" using ih(1) by simp
    also have "Suc (nat (e' - (e + 1))) = nat (e' - e)" using ih(2) by simp
    finally show ?thesis using ih by simp
  qed
qed

lemma round_coeff_short:
  assumes "c < 10 ^ prec"
  shows "round_coeff c e = (c, e)"
proof -
  have "length (nat_digits c) \<le> prec"
    using assms nat_digits_length_le[of c "prec - 1"] by (simp add: prec_def)
  then show ?thesis by (simp add: round_coeff_def Let_def)
qed

lemma dval_powi: "dval (Dec n c e) = (if n then - 1 else 1) * of_nat c * 10 powi e"
proof -
  have "(10 :: rat) powi e = (if 0 \<le> e then 10 ^ nat e else 1 / 10 ^ nat (- e))"
    by (simp add: power_int_def inverse_eq_divide power_one_over)
  then show ?thesis by (simp add: dval_def)
qed

lemma dec_normalize_short:
  assumes "c < 10 ^ prec" "c \<noteq> 0"
  obtains c' e' where "dec_normalize (Dec n c e) = Dec n c' e'" "c' mod 10 \<noteq> 0"
    "dval (Dec n c' e') = dval (Dec n c e)"
proof -
  obtain c' e' where s: "strip_zeros c e = (c', e')" by fastforce
  from strip_zeros_spec[OF assms(2) s] have c: "c = c' * 10 ^ nat (e' - e)" "e \<le> e'" "c' mod 10 \<noteq> 0" by auto
  define k where "k = nat (e' - e)"
  have "e' = int k + e" using c(2) by (simp add: k_def)
  then have "(10 :: rat) powi e' = 10 ^ k * 10 powi e" by (simp add: power_int_add)
  then have "dval (Dec n c' e') = dval (Dec n c e)"
    using c(1) by (simp add: dval_powi k_def)
  with that[of c' e'] s c assms show thesis by (simp add: dec_normalize_def round_coeff_short)
qed

lemma dval_0_iff: "dval (Dec n c e) = 0 \<longleftrightarrow> c = 0"
  by (simp add: dval_powi)

lemma stripped_le:
  assumes m: "c mod 10 \<noteq> 0" and eq: "(of_nat c :: rat) * 10 powi e = of_nat c' * 10 powi e'"
  shows "e' \<le> e"
proof (rule ccontr)
  assume "\<not> e' \<le> e"
  define k where "k = nat (e' - e)"
  have k: "0 < k" "e' = int k + e" using \<open>\<not> e' \<le> e\<close> by (simp_all add: k_def)
  then have "(of_nat c :: rat) * 10 powi e = of_nat c' * 10 ^ k * 10 powi e"
    using eq by (simp add: power_int_add)
  then have "(of_nat c :: rat) = of_nat (c' * 10 ^ k)" by simp
  then have "c = c' * 10 ^ k" by (simp only: of_nat_eq_iff)
  with k(1) have "10 dvd c" by (simp add: dvd_mult power_eq_if)
  with m show False by presburger
qed

lemma stripped_unique:
  assumes "c mod 10 \<noteq> 0" "c' mod 10 \<noteq> 0" and eq: "dval (Dec n c e) = dval (Dec n' c' e')"
  shows "n = n' \<and> c = c' \<and> e = e'"
proof -
  have p: "0 < (of_nat c :: rat) * 10 powi e" "0 < (of_nat c' :: rat) * 10 powi e'"
    using assms(1,2) by (auto intro!: mult_pos_pos)
  have v: "dval (Dec n c e) = (if n then - (of_nat c * 10 powi e) else of_nat c * 10 powi e)"
    "dval (Dec n' c' e') = (if n' then - (of_nat c' * 10 powi e') else of_nat c' * 10 powi e')"
    by (simp_all add: dval_powi)
  from eq v p have n: "n = n'" by (auto split: if_splits)
  with eq v have q: "(of_nat c :: rat) * 10 powi e = of_nat c' * 10 powi e'" by (auto split: if_splits)
  have "e = e'" using stripped_le[OF assms(1) q] stripped_le[OF assms(2) q[symmetric]] by simp
  with q n show ?thesis by simp
qed

subsection \<open>Reading the formatted text back\<close>

lemma is_digit_no_special:
  "is_digit c \<Longrightarrow> \<not> is_space c \<and> c \<noteq> CHR ''_'' \<and> c \<noteq> CHR ''.'' \<and> c \<noteq> CHR ''-'' \<and> c \<noteq> CHR ''+''"
  by (auto simp: is_digit_def is_space_def Let_def)

lemma digit_zero [simp]: "is_digit CHR ''0''"
  by (simp add: is_digit_def)

lemma point_not_digit [simp]: "\<not> is_digit CHR ''.''"
  by (simp add: is_digit_def)

lemma takeWhile_digits [simp]:
  "\<forall>c \<in> set s. is_digit c \<Longrightarrow> takeWhile is_digit s = s"
  "\<forall>c \<in> set s. is_digit c \<Longrightarrow> dropWhile is_digit s = []"
  "\<forall>c \<in> set s. is_digit c \<Longrightarrow> takeWhile is_digit (s @ CHR ''.'' # t) = s"
  "\<forall>c \<in> set s. is_digit c \<Longrightarrow> dropWhile is_digit (s @ CHR ''.'' # t) = CHR ''.'' # t"
  by (auto simp: is_digit_def takeWhile_eq_all_conv dropWhile_eq_Nil_conv takeWhile_append dropWhile_append)

text \<open>The unsigned part of the text is digits, or digits, a point and digits.\<close>

lemma read_unsigned:
  assumes ip: "\<forall>c \<in> set ip. is_digit c" "ip \<noteq> []" and fp: "\<forall>c \<in> set fp. is_digit c"
    and u: "u = ip \<or> u = ip @ CHR ''.'' # fp" and f: "u = ip \<longrightarrow> fp = []"
  shows "dec_of_string ((if n then ''-'' else []) @ u) = Some (Dec n (digits_val (ip @ fp)) (- int (length fp)))"
proof -
  have chars: "\<not> is_space c \<and> c \<noteq> CHR ''_''" if "c \<in> set ((if n then ''-'' else []) @ u)" for c
  proof -
    from that u ip(1) fp have "is_digit c \<or> c = CHR ''-'' \<or> c = CHR ''.''" by (auto split: if_splits)
    then show ?thesis using is_digit_no_special[of c] by (auto simp: is_space_def)
  qed
  then have clean: "filter (\<lambda>c. c \<noteq> CHR ''_'') (str_strip ((if n then ''-'' else []) @ u)) = (if n then ''-'' else []) @ u"
    by (subst str_strip_id) (auto simp: filter_id_conv)
  obtain h t where ht: "ip = h # t" using ip(2) by (cases ip) auto
  with ip(1) have h: "h \<noteq> CHR ''-''" "h \<noteq> CHR ''+''" using is_digit_no_special[of h] by auto
  have sign: "read_sign ((if n then ''-'' else []) @ u) = (n, u)"
    using u ht h by (auto simp: read_sign_def)
  show ?thesis
  proof (cases "u = ip")
    case True
    with f ip show ?thesis
      unfolding dec_of_string_def clean sign by (simp add: read_fraction_def read_exponent_def)
  next
    case False
    with u have "u = ip @ CHR ''.'' # fp" by simp
    with ip fp show ?thesis
      unfolding dec_of_string_def clean sign by (simp add: read_fraction_def read_exponent_def)
  qed
qed

lemma read_format_f:
  "c \<noteq> 0 \<Longrightarrow> \<exists>c' e'. dec_of_string (format_f n c e) = Some (Dec n c' e') \<and> dval (Dec n c' e') = dval (Dec n c e)"
proof -
  assume c0: "c \<noteq> 0"
  let ?s = "nat_digits c" and ?k = "nat (- e)"
  consider (int) "0 \<le> e" | (point) "e < 0" "?k < length ?s" | (small) "e < 0" "length ?s \<le> ?k" by linarith
  then show ?thesis
  proof cases
    case int
    let ?ip = "?s @ replicate (nat e) CHR ''0''"
    have "dec_of_string ((if n then ''-'' else []) @ ?ip) = Some (Dec n (digits_val (?ip @ [])) (- int (length ([] :: string))))"
      by (rule read_unsigned) (auto simp: nat_digits_all_digit)
    then have r: "dec_of_string (format_f n c e) = Some (Dec n (c * 10 ^ nat e) 0)"
      using int c0 by (simp add: format_f_def)
    have "dval (Dec n (c * 10 ^ nat e) 0) = dval (Dec n c e)"
      using int by (simp add: dval_def)
    with r show ?thesis by blast
  next
    case point
    let ?ip = "take (length ?s - ?k) ?s" and ?fp = "drop (length ?s - ?k) ?s"
    have "dec_of_string ((if n then ''-'' else []) @ ?ip @ CHR ''.'' # ?fp)
        = Some (Dec n (digits_val (?ip @ ?fp)) (- int (length ?fp)))"
      by (rule read_unsigned) (use point in \<open>auto simp: nat_digits_all_digit dest: in_set_takeD in_set_dropD\<close>)
    moreover have "- int (length ?fp) = e" using point by simp
    ultimately have "dec_of_string (format_f n c e) = Some (Dec n c e)"
      using point by (simp add: format_f_def Let_def)
    then show ?thesis by blast
  next
    case small
    let ?fp = "replicate (?k - length ?s) CHR ''0'' @ ?s"
    have "dec_of_string ((if n then ''-'' else []) @ ''0'' @ CHR ''.'' # ?fp)
        = Some (Dec n (digits_val (''0'' @ ?fp)) (- int (length ?fp)))"
      by (rule read_unsigned) (auto simp: nat_digits_all_digit)
    moreover have "- int (length ?fp) = e" using small by simp
    moreover have "digits_val (''0'' @ ?fp) = c"
      using digits_val_zeros[of "Suc (?k - length ?s)" ?s] by simp
    ultimately have "dec_of_string (format_f n c e) = Some (Dec n c e)"
      using small by (simp add: format_f_def Let_def)
    then show ?thesis by blast
  qed
qed

text \<open>A stripped coefficient leaves no trailing zero to remove.\<close>

lemma rstrip_id: "s \<noteq> [] \<Longrightarrow> last s \<noteq> c \<Longrightarrow> rstrip c s = s"
  unfolding rstrip_def by (cases s rule: rev_cases) auto

lemma format_f_last:
  assumes "c mod 10 \<noteq> 0" "CHR ''.'' \<in> set (format_f n c e)"
  shows "last (format_f n c e) = digit_char (c mod 10)" "format_f n c e \<noteq> []"
proof -
  have "e < 0"
  proof (rule ccontr)
    assume "\<not> e < 0"
    with assms(2) have "CHR ''.'' \<in> set (nat_digits c)"
      by (auto simp: format_f_def Let_def split: if_splits)
    then show False using nat_digits_all_digit is_digit_no_special by blast
  qed
  then show "last (format_f n c e) = digit_char (c mod 10)" "format_f n c e \<noteq> []"
    by (auto simp: format_f_def Let_def last_nat_digits)
qed

lemma num_str_stripped:
  assumes "dec_normalize (Dec n c e) = Dec n' c' e'" "c' mod 10 \<noteq> 0"
  shows "num_str (Dec n c e) = Some (format_f n' c' e')"
proof -
  have "digit_char (c' mod 10) \<noteq> CHR ''0''" "digit_char (c' mod 10) \<noteq> CHR ''.''"
    using assms(2) of_digit_char[of "c' mod 10"] by auto
  moreover have "c' \<noteq> 0" using assms(2) by (cases "c' = 0") auto
  ultimately show ?thesis
    using assms format_f_last[of c' n' e'] by (simp add: num_str_def Let_def rstrip_id)
qed

lemma num_str_zero: "num_str (Dec n 0 e) = Some ''0''"
  by (simp add: num_str_def dec_normalize_def round_coeff_short prec_def)

lemma dec_of_string_zero: "dec_of_string ''0'' = Some (Dec False 0 0)"
  by code_simp

subsection \<open>Properties\<close>

lemma num_str_reads_back:
  assumes "c < 10 ^ 28"
  shows "\<exists>s d. num_str (Dec n c e) = Some s \<and> dec_of_string s = Some d \<and> dval d = dval (Dec n c e)"
proof (cases "c = 0")
  case True
  then show ?thesis by (simp add: num_str_zero dec_of_string_zero) (simp add: dval_def)
next
  case False
  from assms have "c < 10 ^ prec" by (simp add: prec_def)
  then obtain c' e' where d: "dec_normalize (Dec n c e) = Dec n c' e'" "c' mod 10 \<noteq> 0"
    "dval (Dec n c' e') = dval (Dec n c e)" using False by (rule dec_normalize_short)
  from d(2) have "c' \<noteq> 0" by (cases "c' = 0") auto
  with read_format_f[of c' n e'] num_str_stripped[OF d(1,2)] d(3) show ?thesis by auto
qed

text \<open>The canonical number text is faithful: for a finite number of at most 28 significant digits it is
  produced, it is read back by \<open>Decimal\<close>, and reading it gives a decimal of the same value.\<close>

theorem num_str_roundtrip:
  assumes "c < 10 ^ 28"
  shows "\<exists>s d. num_str (Dec n c e) = Some s \<and> dec_of_string s = Some d \<and> dval d = dval (Dec n c e)"
  using num_str_reads_back[OF assms] .

theorem num_str_roundtrip_witness:
  "\<exists>s d. num_str (Dec True 41005000 (- 4)) = Some s \<and> s = ''-4100.5'' \<and> dec_of_string s = Some d
     \<and> dval d = dval (Dec True 41005000 (- 4))"
proof -
  have "(41005000 :: nat) < 10 ^ 28" by simp
  from num_str_roundtrip[OF this, of True "- 4"]
  obtain s d where s: "num_str (Dec True 41005000 (- 4)) = Some s" "dec_of_string s = Some d"
    "dval d = dval (Dec True 41005000 (- 4))" by blast
  moreover have "num_str (Dec True 41005000 (- 4)) = Some ''-4100.5''"
    by (simp add: num_str_def dec_normalize_def round_coeff_short prec_def strip_zeros.simps format_f_def
        nat_digits.simps str_simps rstrip_def)
  ultimately show ?thesis by auto
qed

text \<open>The number text is canonical: two finite numbers of at most 28 significant digits get the same
  text exactly when they have the same value, whatever exponent, trailing zeros or negative zero they
  were written with, so equal terms hash equally and different terms do not collide here.\<close>

theorem num_str_canonical:
  assumes "c < 10 ^ 28" and "c' < 10 ^ 28"
  shows "num_str (Dec n c e) = num_str (Dec n' c' e') \<longleftrightarrow> dval (Dec n c e) = dval (Dec n' c' e')"
proof
  assume "num_str (Dec n c e) = num_str (Dec n' c' e')"
  with num_str_reads_back[OF assms(1), of n e] num_str_reads_back[OF assms(2), of n' e']
  show "dval (Dec n c e) = dval (Dec n' c' e')" by auto
next
  assume eq: "dval (Dec n c e) = dval (Dec n' c' e')"
  show "num_str (Dec n c e) = num_str (Dec n' c' e')"
  proof (cases "c = 0")
    case True
    with eq have "c' = 0" by (metis dval_0_iff)
    with True show ?thesis by (simp add: num_str_zero)
  next
    case False
    with eq have nz: "c' \<noteq> 0" by (metis dval_0_iff)
    from assms have b: "c < 10 ^ prec" "c' < 10 ^ prec" by (simp_all add: prec_def)
    obtain c1 e1 where d1: "dec_normalize (Dec n c e) = Dec n c1 e1" "c1 mod 10 \<noteq> 0"
      "dval (Dec n c1 e1) = dval (Dec n c e)" using b(1) False by (rule dec_normalize_short)
    obtain c2 e2 where d2: "dec_normalize (Dec n' c' e') = Dec n' c2 e2" "c2 mod 10 \<noteq> 0"
      "dval (Dec n' c2 e2) = dval (Dec n' c' e')" using b(2) nz by (rule dec_normalize_short)
    from d1(3) d2(3) eq have "dval (Dec n c1 e1) = dval (Dec n' c2 e2)" by simp
    from stripped_unique[OF d1(2) d2(2) this] num_str_stripped[OF d1(1,2)] num_str_stripped[OF d2(1,2)]
    show ?thesis by simp
  qed
qed

theorem num_str_canonical_witness:
  "num_str (Dec False 365 (- 4)) = num_str (Dec False 36500 (- 6))
   \<and> num_str (Dec False 365 (- 4)) \<noteq> num_str (Dec False 365 (- 5))"
proof -
  have b: "(365 :: nat) < 10 ^ 28" "(36500 :: nat) < 10 ^ 28" by simp_all
  have "dval (Dec False 365 (- 4)) = dval (Dec False 36500 (- 6))" by (simp add: dval_def)
  with num_str_canonical[OF b(1) b(2)] have "num_str (Dec False 365 (- 4)) = num_str (Dec False 36500 (- 6))" by blast
  moreover have "dval (Dec False 365 (- 4)) \<noteq> dval (Dec False 365 (- 5))" by (simp add: dval_def)
  with num_str_canonical[OF b(1) b(1)] have "num_str (Dec False 365 (- 4)) \<noteq> num_str (Dec False 365 (- 5))" by blast
  ultimately show ?thesis by blast
qed

text \<open>Beyond 28 significant digits the text is not faithful: normalising rounds to the decimal context,
  so two different amounts of 29 digits get the same text (and so the same record hash).\<close>

theorem num_str_rounds_long_numbers:
  "num_str (Dec False (10 ^ 28 + 1) 0) = num_str (Dec False (10 ^ 28) 0)
   \<and> dval (Dec False (10 ^ 28 + 1) 0) \<noteq> dval (Dec False (10 ^ 28) 0)"
proof
  have "length (nat_digits (10 ^ 28 + 1)) = 29" "length (nat_digits (10 ^ 28)) = 29"
    by (simp_all add: nat_digits.simps)
  then have "round_coeff (10 ^ 28 + 1) 0 = (10 ^ 27, 1)" "round_coeff (10 ^ 28) 0 = (10 ^ 27, 1)"
    by (simp_all add: round_coeff_def prec_def Let_def)
  then show "num_str (Dec False (10 ^ 28 + 1) 0) = num_str (Dec False (10 ^ 28) 0)"
    by (simp only: num_str_def dec_normalize_def decimal.case prod.case)
  show "dval (Dec False (10 ^ 28 + 1) 0) \<noteq> dval (Dec False (10 ^ 28) 0)"
    by (simp add: dval_def)
qed

end
