(* ===== verification/Schedule.thy ===== *)
theory Schedule
  imports Calendars Day_Count Decimals
begin

section \<open>Coupon schedules (pricing/schedule.py)\<close>

text \<open>
  The schedule generator of a leg, with the month arithmetic it rolls on. \<open>dateutil.relativedelta\<close> is
  not part of the repository: moving a date by \<open>n\<close> months is the parameter \<open>shift\<close>, \<open>None\<close> when the
  library raises, and the locale \<open>month_shift\<close> states its documented behaviour. \<open>add_months\<close> of
  market_data/policy_path.py keeps the same contract and is its interpretation.

  The two \<open>while True\<close> loops of the generator are one partial function, so that a schedule that never
  returns is the value \<open>None\<close>. Every raise of a date out of range is \<open>Out_Of_Range\<close>.
\<close>

type_synonym shifter = "date \<Rightarrow> int \<Rightarrow> date option"

definition month_index :: "date \<Rightarrow> int" where
  "month_index d = 12 * year d + month d - 1"

text \<open>\<open>add_months\<close>: the last day of the target month is the day before the first of the next one.\<close>

definition add_months :: "date \<Rightarrow> int \<Rightarrow> date option" where
  "add_months d n =
     (let q = (month d - 1 + n) div 12; y = q + year d; m = (month d - 1 + n) mod 12 + 1;
          ny = y + (if m = 12 then 1 else 0)
      in if ny < 1 \<or> 9999 < ny then None
         else (case prev_day (Date ny (m mod 12 + 1) 1) of None \<Rightarrow> None
               | Some l \<Rightarrow> if y < 1 then None else Some (Date y m (min (day d) (day l)))))"

subsection \<open>The contract of month arithmetic\<close>

locale month_shift =
  fixes shift :: shifter
  assumes shift_defined: "valid_date d \<Longrightarrow> 12 \<le> month_index d + n \<Longrightarrow> month_index d + n < 12 * 9999 \<Longrightarrow>
      \<exists>e. shift d n = Some e"
    and shift_result: "valid_date d \<Longrightarrow> shift d n = Some e \<Longrightarrow>
      valid_date e \<and> month_index e = month_index d + n \<and> day e = min (day d) (days_in_month (year e) (month e))"
begin

lemma shift_mono:
  assumes "valid_date d" "shift d a = Some x" "shift d b = Some y" "a < b"
  shows "x < y"
proof -
  have "month_index x < month_index y" "valid_date x" "valid_date y"
    using assms shift_result[OF assms(1,2)] shift_result[OF assms(1,3)] by simp_all
  then have "year x < year y \<or> year x = year y \<and> month x < month y"
    unfolding month_index_def valid_date_def by linarith
  then show ?thesis by (auto simp: less_date_def less_eq_date_def)
qed

lemma shift_0:
  assumes "valid_date d" "year d < 9999"
  shows "shift d 0 = Some d"
proof -
  have "12 \<le> month_index d" "month_index d < 12 * 9999"
    using assms by (simp_all add: month_index_def valid_date_def)
  then obtain e where e: "shift d 0 = Some e" using shift_defined[OF assms(1), of 0] by auto
  from shift_result[OF assms(1) e] assms(1)
  have y: "year e = year d" unfolding month_index_def valid_date_def by linarith
  with shift_result[OF assms(1) e] have "month e = month d" unfolding month_index_def by linarith
  with y shift_result[OF assms(1) e] assms(1) have "e = d" by (cases d; cases e) (simp add: valid_date_def)
  with e show ?thesis by simp
qed

lemma shift_after: "valid_date d \<Longrightarrow> shift d n = Some e \<Longrightarrow> 0 < n \<Longrightarrow> d < e"
proof -
  assume d: "valid_date d" "shift d n = Some e" "0 < n"
  have "valid_date e" "month_index d < month_index e" using shift_result[OF d(1,2)] d(3) by simp_all
  with d(1) have "year d < year e \<or> year d = year e \<and> month d < month e"
    unfolding month_index_def valid_date_def by linarith
  then show ?thesis by (auto simp: less_date_def less_eq_date_def)
qed

lemma shift_before: "valid_date d \<Longrightarrow> shift d n = Some e \<Longrightarrow> n < 0 \<Longrightarrow> e < d"
proof -
  assume d: "valid_date d" "shift d n = Some e" "n < 0"
  have "valid_date e" "month_index e < month_index d" using shift_result[OF d(1,2)] d(3) by simp_all
  with d(1) have "year e < year d \<or> year d = year e \<and> month e < month d"
    unfolding month_index_def valid_date_def by linarith
  then show ?thesis by (auto simp: less_date_def less_eq_date_def)
qed

text \<open>No shift of 120,000 months stays in the calendar.\<close>

lemma shift_bounded: "valid_date d \<Longrightarrow> 120000 \<le> \<bar>n\<bar> \<Longrightarrow> shift d n = None"
proof (rule ccontr)
  assume d: "valid_date d" and n: "120000 \<le> \<bar>n\<bar>" and "shift d n \<noteq> None"
  then obtain e where e: "shift d n = Some e" by auto
  from shift_result[OF d e] d n show False unfolding month_index_def valid_date_def by linarith
qed

end

lemma first_of_month_prev:
  assumes "1 \<le> y" "y \<le> 9999" "1 \<le> m" "m \<le> 12"
    and "prev_day (Date (y + (if m = 12 then 1 else 0)) (m mod 12 + 1) 1) = Some l"
  shows "day l = days_in_month y m"
  using assms by (auto simp: prev_day_def days_in_month_def split: if_splits)

interpretation months: month_shift add_months
proof
  fix d n
  assume v: "valid_date d" and n: "12 \<le> month_index d + n" "month_index d + n < 12 * 9999"
  define q where "q = (month d - 1 + n) div 12"
  define m where "m = (month d - 1 + n) mod 12 + 1"
  have s: "12 * q + (m - 1) = month d - 1 + n" "1 \<le> m" "m \<le> 12" by (simp_all add: q_def m_def)
  with n have y: "1 \<le> q + year d" "q + year d \<le> 9998" by (simp_all add: month_index_def)
  have "prev_day (Date (q + year d + (if m = 12 then 1 else 0)) (m mod 12 + 1) 1) \<noteq> None"
    using y s by (auto simp: prev_day_def)
  with y show "\<exists>e. add_months d n = Some e"
    unfolding add_months_def q_def[symmetric] m_def[symmetric] Let_def by (auto split: if_splits option.splits)
next
  fix d n e
  assume v: "valid_date d" and e: "add_months d n = Some e"
  define q where "q = (month d - 1 + n) div 12"
  define m where "m = (month d - 1 + n) mod 12 + 1"
  have s: "12 * q + (m - 1) = month d - 1 + n" "1 \<le> m" "m \<le> 12" by (simp_all add: q_def m_def)
  from e obtain l where l: "prev_day (Date (q + year d + (if m = 12 then 1 else 0)) (m mod 12 + 1) 1) = Some l"
    and y: "1 \<le> q + year d" "q + year d \<le> 9999" and eq: "e = Date (q + year d) m (min (day d) (day l))"
    unfolding add_months_def q_def[symmetric] m_def[symmetric] Let_def by (auto split: if_splits option.splits)
  have dl: "day l = days_in_month (q + year d) m" using first_of_month_prev[OF y s(2,3) l] .
  have "1 \<le> day d" using v by (simp add: valid_date_def)
  with s y dl show "valid_date e \<and> month_index e = month_index d + n
      \<and> day e = min (day d) (days_in_month (year e) (month e))"
    by (simp add: eq valid_date_def month_index_def days_in_month_pos)
qed

subsection \<open>Weekend-only adjustment\<close>

definition is_weekend :: "date \<Rightarrow> bool" where
  "is_weekend d \<longleftrightarrow> 5 \<le> weekday d"

definition next_bd :: "date \<Rightarrow> date option" where
  "next_bd d = roll_forward (\<lambda>x. \<not> is_weekend x) d"

definition prev_bd :: "date \<Rightarrow> date option" where
  "prev_bd d = roll_back (\<lambda>x. \<not> is_weekend x) d"

definition apply_bdc_legacy :: "date \<Rightarrow> string option \<Rightarrow> date option" where
  "apply_bdc_legacy d bdc = adjust_by next_bd prev_bd d (bdc_name bdc)"

interpretation weekend: day_roller "\<lambda>x. \<not> is_weekend x" next_bd prev_bd
  unfolding next_bd_def prev_bd_def
  by unfold_locales
     (erule (1) roll_forward_Some roll_back_Some, erule (3) roll_forward_None roll_back_None)+

subsection \<open>Generating the periods\<close>

datatype sched_error = Unknown_Frequency | Unknown_Stub | Out_Of_Range

record coupon_period =
  period_start :: date
  period_end :: date
  payment_date :: date
  fixing_date :: "date option"
  fraction :: rat
  cp_notional :: decimal

definition py_or :: "string option \<Rightarrow> string \<Rightarrow> string" where
  "py_or s d = (case s of None \<Rightarrow> d | Some t \<Rightarrow> if t = [] then d else t)"

text \<open>\<open>s.upper().replace("-", "_").replace(" ", "_")\<close>\<close>

definition norm_name :: "string \<Rightarrow> string" where
  "norm_name s = str_replace CHR '' '' CHR ''_'' (str_replace CHR ''-'' CHR ''_'' (str_upper s))"

text \<open>The roll interval in months: the table \<open>_FREQ\<close>, then the ticket's tenors \<open>(\d+)([MY])\<close>.\<close>

definition freq_table :: "(string \<times> int) list" where
  "freq_table = [(''MONTHLY'', 1), (''QUARTERLY'', 3), (''SEMI_ANNUAL'', 6), (''SEMIANNUAL'', 6),
     (''ANNUAL'', 12), (''YEARLY'', 12)]"

definition freq_months :: "string \<Rightarrow> int option" where
  "freq_months f =
     (case dict_get freq_table f of
        Some n \<Rightarrow> Some n
      | None \<Rightarrow>
          if f \<noteq> [] \<and> butlast f \<noteq> [] \<and> list_all is_digit (butlast f) \<and> last f = CHR ''M''
            then Some (int (digits_val (butlast f)))
          else if f \<noteq> [] \<and> butlast f \<noteq> [] \<and> list_all is_digit (butlast f) \<and> last f = CHR ''Y''
            then Some (12 * int (digits_val (butlast f)))
          else None)"

definition add_lag :: "holiday_lib \<Rightarrow> bool \<Rightarrow> date \<Rightarrow> int \<Rightarrow> string \<Rightarrow> date option" where
  "add_lag lib has d lag cal = (if lag = 0 then Some d else add_business_days lib has d lag cal)"

definition fixing_of :: "holiday_lib \<Rightarrow> bool \<Rightarrow> date \<Rightarrow> string \<Rightarrow> date option" where
  "fixing_of lib has start cal = add_business_days lib has start (- 2) cal"

record sched_terms =
  st_day_count :: "string option"
  st_notional :: decimal
  st_bdc :: "string option"
  st_lag :: int
  st_float :: bool
  st_calendar :: "string option"

text \<open>One \<open>CouponPeriod\<close>, as both branches of the generator build it.\<close>

definition mk_period :: "holiday_lib \<Rightarrow> bool \<Rightarrow> sched_terms \<Rightarrow> date \<times> date \<Rightarrow> (sched_error, coupon_period) res" where
  "mk_period lib has t = (\<lambda>(s, e).
     (let cal = py_or (st_calendar t) ''NEW_YORK'' in
      case Option.bind (apply_bdc lib has e (st_bdc t) cal) (\<lambda>p. add_lag lib has p (st_lag t) cal) of
        None \<Rightarrow> Inl Out_Of_Range
      | Some pay \<Rightarrow>
          (case (if st_float t then map_option Some (fixing_of lib has s cal) else Some None) of
             None \<Rightarrow> Inl Out_Of_Range
           | Some fix \<Rightarrow>
               (case dcf (st_day_count t) s e of
                  None \<Rightarrow> Inl Out_Of_Range
                | Some f \<Rightarrow> Inr \<lparr>period_start = s, period_end = e, payment_date = pay, fixing_date = fix,
                                  fraction = f, cp_notional = st_notional t\<rparr>))))"

text \<open>Both rolling loops: the \<open>k\<close>-th date from the anchor, until one passes the other end.\<close>

partial_function (option) collect ::
    "(int \<Rightarrow> date option) \<Rightarrow> (date \<Rightarrow> bool) \<Rightarrow> int \<Rightarrow> date list \<Rightarrow> (sched_error, date list) res option" where
  "collect step stop k acc =
     (case step k of
        None \<Rightarrow> Some (Inl Out_Of_Range)
      | Some d \<Rightarrow> if stop d then Some (Inr acc) else collect step stop (k + 1) (acc @ [d]))"

declare collect.simps [code]

definition front_stubs :: "string list" where
  "front_stubs = [''SHORT_FRONT'', ''LONG_FRONT'']"

definition back_stubs :: "string list" where
  "back_stubs = [''SHORT_BACK'', ''LONG_BACK'']"

text \<open>The period ends rolled backward from maturity, then those rolled forward from the effective date.\<close>

definition roll_backward ::
    "shifter \<Rightarrow> int \<Rightarrow> string \<Rightarrow> date \<Rightarrow> date \<Rightarrow> date option \<Rightarrow> date option \<Rightarrow> (sched_error, date list) res option" where
  "roll_backward shift m stub eff mat fps lpe =
     (let start0 = (case fps of None \<Rightarrow> eff | Some s \<Rightarrow> s);
          anchor = (case lpe of None \<Rightarrow> mat | Some l \<Rightarrow> if l < mat then l else mat);
          init = (if anchor \<noteq> mat then [mat] else []) @ [anchor]
      in case collect (\<lambda>k. shift anchor (- (m * k))) (\<lambda>d. d \<le> eff) 1 init of
           None \<Rightarrow> None
         | Some (Inl e) \<Rightarrow> Some (Inl e)
         | Some (Inr ds) \<Rightarrow>
             (let ends = sort ds
              in if length ends < 2 then Some (Inr ends)
                 else (case shift (hd ends) (- m) of
                         None \<Rightarrow> Some (Inl Out_Of_Range)
                       | Some p \<Rightarrow> Some (Inr (if stub = ''LONG_FRONT'' \<and> p \<noteq> start0 \<and> fps = None then tl ends else ends)))))"

definition roll_forward_ends ::
    "shifter \<Rightarrow> int \<Rightarrow> string \<Rightarrow> date \<Rightarrow> date \<Rightarrow> (sched_error, date list) res option" where
  "roll_forward_ends shift m stub eff mat =
     (case collect (\<lambda>k. shift eff (m * k)) (\<lambda>d. mat \<le> d) 1 [] of
        None \<Rightarrow> None
      | Some (Inl e) \<Rightarrow> Some (Inl e)
      | Some (Inr ends) \<Rightarrow>
          if ends = [] then Some (Inr [mat])
          else (case shift (last ends) m of
                  None \<Rightarrow> Some (Inl Out_Of_Range)
                | Some p \<Rightarrow> Some (Inr ((if stub = ''LONG_BACK'' \<and> p \<noteq> mat then butlast ends else ends) @ [mat]))))"

definition generate_schedule ::
    "holiday_lib \<Rightarrow> bool \<Rightarrow> shifter \<Rightarrow> date \<Rightarrow> date \<Rightarrow> string option \<Rightarrow> string option \<Rightarrow> date option \<Rightarrow> date option
       \<Rightarrow> sched_terms \<Rightarrow> (sched_error, coupon_period list) res option" where
  "generate_schedule lib has shift eff mat frequency stub_type fps lpe t =
     (let f = norm_name (py_or frequency ''QUARTERLY'');
          stub = norm_name (py_or stub_type ''SHORT_FRONT'');
          start = (case fps of None \<Rightarrow> eff | Some s \<Rightarrow> s)
      in if f \<in> {''ZERO'', ''ZERO_COUPON'', ''ZEROCOUPON'', ''BULLET''} then
           Some (map_res (mk_period lib has t) [(start, case lpe of None \<Rightarrow> mat | Some e \<Rightarrow> e)])
         else case freq_months f of
           None \<Rightarrow> Some (Inl Unknown_Frequency)
         | Some m \<Rightarrow>
             if stub \<notin> set (front_stubs @ back_stubs) then Some (Inl Unknown_Stub)
             else (case (if stub \<in> set front_stubs \<or> lpe \<noteq> None then roll_backward shift m stub eff mat fps lpe
                         else roll_forward_ends shift m stub eff mat) of
                     None \<Rightarrow> None
                   | Some (Inl e) \<Rightarrow> Some (Inl e)
                   | Some (Inr ends) \<Rightarrow>
                       Some (map_res (mk_period lib has t)
                               (filter (\<lambda>(s, e). s < e) (zip (start # butlast ends) ends)))))"

subsection \<open>The rolling loops\<close>

text \<open>The dates collected are the steps up to the first one that stops.\<close>

definition collected :: "(int \<Rightarrow> date option) \<Rightarrow> (date \<Rightarrow> bool) \<Rightarrow> int \<Rightarrow> date list \<Rightarrow> date list \<Rightarrow> nat \<Rightarrow> bool" where
  "collected step stop k acc ds n \<longleftrightarrow>
     ds = acc @ map (\<lambda>i. the (step (k + int i))) [0..<n]
       \<and> (\<forall>i < n. \<exists>d. step (k + int i) = Some d \<and> \<not> stop d)
       \<and> (\<exists>d. step (k + int n) = Some d \<and> stop d)"

lemma collected_Suc:
  assumes "step k = Some d" "\<not> stop d" "collected step stop (k + 1) (acc @ [d]) ds n"
  shows "collected step stop k acc ds (Suc n)"
proof -
  have "map (\<lambda>i. the (step (k + int i))) [0..<Suc n] = d # map (\<lambda>i. the (step (k + int (Suc i)))) [0..<n]"
    using assms(1) by (simp only: upt_conv_Cons zero_less_Suc list.map map_Suc_upt[symmetric] map_map) (simp add: comp_def)
  moreover have "\<exists>x. step (k + int i) = Some x \<and> \<not> stop x" if "i < Suc n" for i
    using that assms by (cases i) (auto simp: collected_def algebra_simps)
  ultimately show ?thesis using assms(3) by (auto simp: collected_def algebra_simps)
qed

lemma collect_result_aux:
  "collect step stop k acc = Some r \<Longrightarrow> \<forall>ds. r = Inr ds \<longrightarrow> (\<exists>n. collected step stop k acc ds n)"
proof (rule collect.raw_induct[of "\<lambda>step stop k acc r. \<forall>ds. r = Inr ds \<longrightarrow> (\<exists>n. collected step stop k acc ds n)"])
  fix rc step stop k acc r
  assume ih: "\<And>step stop k acc r. rc step stop k acc = Some r \<Longrightarrow>
      \<forall>ds. r = Inr ds \<longrightarrow> (\<exists>n. collected step stop k acc ds n)"
    and body: "(case step k of None \<Rightarrow> Some (Inl Out_Of_Range)
        | Some d \<Rightarrow> if stop d then Some (Inr acc) else rc step stop (k + 1) (acc @ [d])) = Some r"
  show "\<forall>ds. r = Inr ds \<longrightarrow> (\<exists>n. collected step stop k acc ds n)"
  proof (intro allI impI)
    fix ds assume r: "r = Inr ds"
    with body obtain d where d: "step k = Some d" by (auto split: option.splits)
    show "\<exists>n. collected step stop k acc ds n"
    proof (cases "stop d")
      case True
      with body d r show ?thesis by (auto simp: collected_def intro!: exI[of _ 0])
    next
      case False
      with body d have "rc step stop (k + 1) (acc @ [d]) = Some r" by simp
      with ih r obtain n where "collected step stop (k + 1) (acc @ [d]) ds n" by blast
      with collected_Suc[of step k d stop acc ds n] d False show ?thesis by blast
    qed
  qed
qed

lemma collect_result: "collect step stop k acc = Some (Inr ds) \<Longrightarrow> \<exists>n. collected step stop k acc ds n"
  using collect_result_aux by blast

lemma collect_returns:
  "(\<And>k. b \<le> k \<Longrightarrow> step k = None) \<Longrightarrow> \<exists>r. collect step stop k acc = Some r"
proof (induction "nat (b - k)" arbitrary: k acc)
  case 0
  then show ?case by (subst collect.simps) simp
next
  case (Suc n)
  then have "n = nat (b - (k + 1))" by simp
  from Suc.hyps(1)[OF this Suc.prems]
  have "\<exists>r. collect step stop (k + 1) (acc @ [d]) = Some r" for d by blast
  then show ?case by (subst collect.simps) (auto split: option.splits)
qed

lemma collect_diverges:
  assumes all: "\<And>k. \<exists>d. step k = Some d \<and> \<not> stop d"
  shows "collect step stop k acc = None"
proof (rule ccontr)
  assume "collect step stop k acc \<noteq> None"
  then obtain r where "collect step stop k acc = Some r" by auto
  then have "\<not> (\<forall>k. \<exists>d. step k = Some d \<and> \<not> stop d)"
  proof (rule collect.raw_induct[of "\<lambda>step stop k acc r. \<not> (\<forall>k. \<exists>d. step k = Some d \<and> \<not> stop d)", rotated])
    fix rc step stop k acc r
    assume ih: "\<And>step stop k acc r. rc step stop k acc = Some r \<Longrightarrow> \<not> (\<forall>k. \<exists>d. step k = Some d \<and> \<not> stop d)"
      and body: "(case step k of None \<Rightarrow> Some (Inl Out_Of_Range)
        | Some d \<Rightarrow> if stop d then Some (Inr acc) else rc step stop (k + 1) (acc @ [d])) = Some r"
    show "\<not> (\<forall>k. \<exists>d. step k = Some d \<and> \<not> stop d)"
    proof
      assume a: "\<forall>k. \<exists>d. step k = Some d \<and> \<not> stop d"
      then obtain d where "step k = Some d" "\<not> stop d" by blast
      with body have "rc step stop (k + 1) (acc @ [d]) = Some r" by simp
      from ih[OF this] a show False by blast
    qed
  qed
  with all show False by blast
qed

subsection \<open>The period ends\<close>

lemma sort_rev_desc: "sorted_wrt (\<lambda>x y. y < x) ds \<Longrightarrow> sort ds = rev ds"
proof (rule properties_for_sort)
  assume "sorted_wrt (\<lambda>x y. y < x) ds"
  then have "sorted_wrt (<) (rev ds)" by (simp add: sorted_wrt_rev)
  then show "sorted (rev ds)" by (rule strict_sorted_imp_sorted)
qed simp

lemma sorted_wrt_map_upt:
  "(\<And>i j. i < j \<Longrightarrow> j < n \<Longrightarrow> R (h i) (h j)) \<Longrightarrow> sorted_wrt R (map h [0..<n])"
  by (auto simp: sorted_wrt_map intro!: sorted_wrt_mono_rel[OF _ sorted_wrt_upt])

lemma far_shift: "0 < m \<Longrightarrow> 120000 \<le> k \<Longrightarrow> 120000 \<le> \<bar>m * (k :: int)\<bar>"
  using mult_right_mono[of 1 m k] by linarith

context month_shift
begin

lemma roll_backward_ends:
  assumes v: "valid_date mat" and m: "0 < m" and lt: "eff < mat"
    and r: "roll_backward shift m stub eff mat None None = Some (Inr ends)"
  shows "\<exists>cs. ends = cs @ [mat] \<and> sorted_wrt (<) (eff # cs @ [mat])
    \<and> (\<forall>c \<in> set cs. \<exists>k \<ge> 1. shift mat (- (m * k)) = Some c)"
proof -
  let ?step = "\<lambda>k. shift mat (- (m * k))"
  from r obtain ds where c: "collect ?step (\<lambda>d. d \<le> eff) 1 [mat] = Some (Inr ds)"
    and e: "ends = sort ds \<or> (ends = tl (sort ds) \<and> 2 \<le> length (sort ds))"
    by (auto simp: roll_backward_def Let_def split: option.splits sum.splits if_splits)
  from collect_result[OF c] obtain n where n: "collected ?step (\<lambda>d. d \<le> eff) 1 [mat] ds n" ..
  define h where "h i = the (?step (1 + int i))" for i
  have h: "?step (1 + int i) = Some (h i)" "eff < h i" if "i < n" for i
    using n that by (auto simp: collected_def h_def)
  have hm: "h i < mat" if "i < n" for i
    using shift_before[OF v h(1)[OF that]] m by simp
  have hh: "h j < h i" if "i < j" "j < n" for i j
    using shift_mono[OF v h(1)[of j] h(1)[of i]] that m by simp
  have ds: "ds = mat # map h [0..<n]" using n by (simp add: collected_def h_def)
  have "sorted_wrt (\<lambda>x y. y < x) ds"
    unfolding ds using hm hh by (auto simp: intro!: sorted_wrt_map_upt)
  then have s: "sort ds = rev (map h [0..<n]) @ [mat]" using sort_rev_desc[of ds] by (simp add: ds)
  define cs where "cs = rev (map h [0..<n])"
  have "sorted_wrt (<) cs" unfolding cs_def sorted_wrt_rev by (intro sorted_wrt_map_upt hh)
  moreover have "eff < x" "x < mat" "\<exists>k \<ge> 1. ?step k = Some x" if "x \<in> set cs" for x
    using that h hm by (auto simp: cs_def) (metis le_add_same_cancel1 of_nat_0_le_iff)
  ultimately have 1: "sorted_wrt (<) (eff # cs @ [mat])" "\<forall>c \<in> set cs. \<exists>k \<ge> 1. ?step k = Some c"
    using lt by (auto simp: sorted_wrt_append)
  have 2: "sort ds = cs @ [mat]" using s by (simp add: cs_def)
  have "\<exists>cs'. ends = cs' @ [mat] \<and> (cs' = cs \<or> (cs' = tl cs \<and> cs \<noteq> []))"
    using e 2 by (cases cs) auto
  then obtain cs' where cs': "ends = cs' @ [mat]" "cs' = cs \<or> (cs' = tl cs \<and> cs \<noteq> [])" by blast
  with 1 show ?thesis by (intro exI[of _ cs']) (cases cs; auto)
qed

lemma roll_forward_ends_spec:
  assumes v: "valid_date eff" and m: "0 < m" and lt: "eff < mat"
    and r: "roll_forward_ends shift m stub eff mat = Some (Inr ends)"
  shows "\<exists>cs. ends = cs @ [mat] \<and> sorted_wrt (<) (eff # cs @ [mat])
    \<and> (\<forall>c \<in> set cs. \<exists>k \<ge> 1. shift eff (m * k) = Some c)"
proof -
  let ?step = "\<lambda>k. shift eff (m * k)"
  from r obtain ds where c: "collect ?step (\<lambda>d. mat \<le> d) 1 [] = Some (Inr ds)"
    and e: "ends = ds @ [mat] \<or> ends = butlast ds @ [mat]"
    by (auto simp: roll_forward_ends_def Let_def split: option.splits sum.splits if_splits)
  from collect_result[OF c] obtain n where n: "collected ?step (\<lambda>d. mat \<le> d) 1 [] ds n" ..
  define h where "h i = the (?step (1 + int i))" for i
  have h: "?step (1 + int i) = Some (h i)" "h i < mat" if "i < n" for i
    using n that by (auto simp: collected_def h_def)
  have hm: "eff < h i" if "i < n" for i
    using shift_after[OF v h(1)[OF that]] m by simp
  have hh: "h i < h j" if "i < j" "j < n" for i j
    using shift_mono[OF v h(1)[of i] h(1)[of j]] that m by simp
  have ds: "ds = map h [0..<n]" using n by (simp add: collected_def h_def)
  have "sorted_wrt (<) ds" unfolding ds by (intro sorted_wrt_map_upt hh)
  moreover have p: "eff < x" "x < mat" "\<exists>k \<ge> 1. ?step k = Some x" if "x \<in> set ds" for x
    using that h hm by (auto simp: ds) (metis le_add_same_cancel1 of_nat_0_le_iff)
  ultimately have "sorted_wrt (<) (butlast ds)" by (simp add: butlast_conv_take)
  with \<open>sorted_wrt (<) ds\<close> e obtain cs where cs: "ends = cs @ [mat]" "sorted_wrt (<) cs" "set cs \<subseteq> set ds"
    using in_set_butlastD by (metis subsetI)
  with p lt show ?thesis by (intro exI[of _ cs]) (auto simp: sorted_wrt_append)
qed

lemma roll_backward_returns:
  assumes v: "valid_date mat" "\<And>l. lpe = Some l \<Longrightarrow> valid_date l" and m: "0 < m"
  shows "roll_backward shift m stub eff mat fps lpe \<noteq> None"
proof -
  define a where "a = (case lpe of None \<Rightarrow> mat | Some l \<Rightarrow> if l < mat then l else mat)"
  have a: "valid_date a" using v by (auto simp: a_def split: option.splits)
  have "shift a (- (m * k)) = None" if "120000 \<le> k" for k
    using a far_shift[OF m that] by (intro shift_bounded) simp_all
  then have "\<exists>r. collect (\<lambda>k. shift a (- (m * k))) stop k acc = Some r" for stop k acc
    by (rule collect_returns)
  then obtain r where r: "collect (\<lambda>k. shift a (- (m * k))) (\<lambda>d. d \<le> eff) 1 ((if a \<noteq> mat then [mat] else []) @ [a]) = Some r"
    by blast
  show ?thesis
    unfolding roll_backward_def a_def[symmetric] Let_def r by (cases r) (simp_all split: option.split)
qed

lemma roll_forward_returns:
  assumes v: "valid_date eff" and m: "0 < m"
  shows "roll_forward_ends shift m stub eff mat \<noteq> None"
proof -
  have "shift eff (m * k) = None" if "120000 \<le> k" for k
    using v far_shift[OF m that] by (intro shift_bounded) simp_all
  then have "\<exists>r. collect (\<lambda>k. shift eff (m * k)) stop k acc = Some r" for stop k acc
    by (rule collect_returns)
  then obtain r where r: "collect (\<lambda>k. shift eff (m * k)) (\<lambda>d. mat \<le> d) 1 [] = Some r"
    by blast
  show ?thesis
    unfolding roll_forward_ends_def r by (cases r) (simp_all split: option.split)
qed

end

lemma mk_period_Inr:
  "mk_period lib has t (s, e) = Inr p \<Longrightarrow>
     period_start p = s \<and> period_end p = e
     \<and> (\<exists>a. apply_bdc lib has e (st_bdc t) (py_or (st_calendar t) ''NEW_YORK'') = Some a
           \<and> add_lag lib has a (st_lag t) (py_or (st_calendar t) ''NEW_YORK'') = Some (payment_date p))"
  by (auto simp: mk_period_def Let_def bind_eq_Some_conv split: option.splits if_splits)

lemma map_mk_period:
  "map_res (mk_period lib has t) ses = Inr ps \<Longrightarrow> map period_start ps = map fst ses \<and> map period_end ps = map snd ses"
  unfolding map_res_Inr_iff
  by (induction ses ps rule: list_all2_induct) (auto dest: mk_period_Inr)

lemma zip_bounds:
  "sorted_wrt (<) (a # cs @ [b]) \<Longrightarrow> \<forall>(s, e) \<in> set (zip (a # cs) (cs @ [b])). s < (e :: date)"
proof (induction cs arbitrary: a)
  case (Cons c cs)
  then have "\<forall>(s, e) \<in> set (zip (c # cs) (cs @ [b])). s < e" by auto
  with Cons.prems show ?case by simp
qed simp

lemma generate_schedule_map:
  "generate_schedule lib has shift eff mat frequency stub fps lpe t = Some (Inr ps) \<Longrightarrow>
     \<exists>ses. map_res (mk_period lib has t) ses = Inr ps"
  unfolding generate_schedule_def Let_def
  by (simp only: split: if_split_asm option.split_asm sum.split_asm) (blast intro: sum.inject[THEN iffD1] | auto)+

subsection \<open>Properties\<close>

text \<open>C20: Without explicit stub dates the coupon periods partition the life of the leg: the first starts on
  the effective date, each next one starts where the previous ended, the last ends at maturity, all of them
  non-empty, and every interior boundary is the roll anchor moved by a whole number of roll intervals
  (counted from the anchor, so a short month is not carried on): from maturity for the front stubs, from
  the effective date for the back stubs, long stubs included.\<close>

theorem schedule_partitions:
  assumes ms: "month_shift shift" and v: "valid_date eff" "valid_date mat" and lt: "eff < mat"
    and f: "freq_months (norm_name (py_or frequency ''QUARTERLY'')) = Some m" and m: "0 < m"
    and nz: "norm_name (py_or frequency ''QUARTERLY'') \<notin> {''ZERO'', ''ZERO_COUPON'', ''ZEROCOUPON'', ''BULLET''}"
    and r: "generate_schedule lib has shift eff mat frequency stub None None t = Some (Inr ps)"
  shows "\<exists>cs. map period_start ps = eff # cs \<and> map period_end ps = cs @ [mat]
    \<and> sorted_wrt (<) (eff # cs @ [mat])
    \<and> (\<forall>c \<in> set cs. \<exists>k \<ge> 1.
         (if norm_name (py_or stub ''SHORT_FRONT'') \<in> set front_stubs then shift mat (- (m * k)) else shift eff (m * k)) = Some c)"
proof -
  let ?stub = "norm_name (py_or stub ''SHORT_FRONT'')"
  from r nz f obtain ends where st: "?stub \<in> set (front_stubs @ back_stubs)"
    and e: "(if ?stub \<in> set front_stubs then roll_backward shift m ?stub eff mat None None
             else roll_forward_ends shift m ?stub eff mat) = Some (Inr ends)"
    and ps: "map_res (mk_period lib has t) (filter (\<lambda>(s, e). s < e) (zip (eff # butlast ends) ends)) = Inr ps"
    by (auto simp: generate_schedule_def Let_def split: option.splits sum.splits if_splits)
  obtain cs where cs: "ends = cs @ [mat]" "sorted_wrt (<) (eff # cs @ [mat])"
    "\<forall>c \<in> set cs. \<exists>k \<ge> 1. (if ?stub \<in> set front_stubs then shift mat (- (m * k)) else shift eff (m * k)) = Some c"
  proof (cases "?stub \<in> set front_stubs")
    case True
    with e month_shift.roll_backward_ends[OF ms v(2) m lt, of ?stub ends] that show ?thesis by auto
  next
    case False
    with e month_shift.roll_forward_ends_spec[OF ms v(1) m lt, of ?stub ends] that show ?thesis by auto
  qed
  have "filter (\<lambda>(s, e). s < e) (zip (eff # butlast ends) ends) = zip (eff # cs) (cs @ [mat])"
    using zip_bounds[OF cs(2)] by (simp add: cs(1) filter_id_conv)
  with ps have "map period_start ps = eff # cs \<and> map period_end ps = cs @ [mat]"
    using map_mk_period[of lib has t "zip (eff # cs) (cs @ [mat])" ps] by simp
  with cs(2,3) show ?thesis by (intro exI[of _ cs]) simp
qed

definition demo_terms :: sched_terms where
  "demo_terms = \<lparr>st_day_count = Some ''ACT/360'', st_notional = Dec False 1 6, st_bdc = None, st_lag = 2,
     st_float = True, st_calendar = None\<rparr>"

theorem schedule_partitions_witness:
  "\<exists>ps cs. generate_schedule demo_lib True add_months (Date 2026 1 31) (Date 2026 8 31) (Some ''3M'') None None None demo_terms
       = Some (Inr ps)
     \<and> map period_start ps = Date 2026 1 31 # cs \<and> map period_end ps = cs @ [Date 2026 8 31] \<and> cs = [Date 2026 2 28, Date 2026 5 31]"
proof -
  let ?g = "generate_schedule demo_lib True add_months (Date 2026 1 31) (Date 2026 8 31) (Some ''3M'') None None None demo_terms"
  have g: "case ?g of Some (Inr ps) \<Rightarrow> map period_end ps = [Date 2026 2 28, Date 2026 5 31, Date 2026 8 31] | _ \<Rightarrow> False"
    by code_simp
  then obtain ps where ps: "?g = Some (Inr ps)" "map period_end ps = [Date 2026 2 28, Date 2026 5 31, Date 2026 8 31]"
    by (auto split: option.splits sum.splits)
  have "valid_date (Date 2026 1 31)" "valid_date (Date 2026 8 31)" "Date 2026 1 31 < Date 2026 8 31"
    "freq_months (norm_name (py_or (Some ''3M'') ''QUARTERLY'')) = Some 3"
    "norm_name (py_or (Some ''3M'') ''QUARTERLY'') \<notin> {''ZERO'', ''ZERO_COUPON'', ''ZEROCOUPON'', ''BULLET''}"
    by code_simp+
  from schedule_partitions[OF months.month_shift_axioms this(1-4) _ this(5) ps(1)]
  obtain cs where "map period_start ps = Date 2026 1 31 # cs" "map period_end ps = cs @ [Date 2026 8 31]" by auto
  with ps show ?thesis by auto
qed



text \<open>A zero tenor passes the frequency pattern and never returns: with \<open>0M\<close> or \<open>0Y\<close> and a valid
  stub, the loop steps on the same date for ever.\<close>

theorem schedule_zero_tenor_diverges:
  assumes ms: "month_shift shift" and v: "valid_date eff" "valid_date mat" and lt: "eff < mat" "year mat < 9999"
    and f: "frequency \<in> {''0M'', ''0Y'', ''00m''}"
    and st: "norm_name (py_or stub ''SHORT_FRONT'') \<in> set (front_stubs @ back_stubs)"
  shows "generate_schedule lib has shift eff mat (Some frequency) stub fps None t = None"
proof -
  have fm: "freq_months (norm_name (py_or (Some frequency) ''QUARTERLY'')) = Some 0
      \<and> norm_name (py_or (Some frequency) ''QUARTERLY'') \<notin> {''ZERO'', ''ZERO_COUPON'', ''ZEROCOUPON'', ''BULLET''}"
  proof -
    consider "frequency = ''0M''" | "frequency = ''0Y''" | "frequency = ''00m''" using f by blast
    then show ?thesis by cases (hypsubst, code_simp)+
  qed
  have y: "year eff < 9999" using lt by (auto simp: less_date_def less_eq_date_def)
  have "shift mat 0 = Some mat" "shift eff 0 = Some eff"
    using month_shift.shift_0[OF ms] v lt(2) y by simp_all
  with lt have "collect (\<lambda>k. shift mat (- (0 * k))) (\<lambda>d. d \<le> eff) 1 acc = None"
    "collect (\<lambda>k. shift eff (0 * k)) (\<lambda>d. mat \<le> d) 1 acc = None" for acc
    by (auto intro!: collect_diverges)
  then have "roll_backward shift 0 x eff mat fps None = None" "roll_forward_ends shift 0 x eff mat = None" for x
    by (simp_all add: roll_backward_def roll_forward_ends_def Let_def)
  with fm st show ?thesis by (simp add: generate_schedule_def Let_def)
qed

theorem schedule_zero_tenor_diverges_witness:
  "generate_schedule demo_lib True add_months (Date 2026 1 31) (Date 2026 8 31) (Some ''0M'') None None None demo_terms = None"
proof -
  have "valid_date (Date 2026 1 31)" "valid_date (Date 2026 8 31)" "Date 2026 1 31 < Date 2026 8 31"
    "norm_name (py_or None ''SHORT_FRONT'') \<in> set (front_stubs @ back_stubs)" by code_simp+
  from schedule_zero_tenor_diverges[OF months.month_shift_axioms this(1-3) _ _ this(4)] show ?thesis by simp
qed

text \<open>Every payment falls on a business day of the leg's calendar, whenever the leg has a payment lag or
  any adjustment (every convention but UNADJUSTED).\<close>

theorem schedule_payment_dates:
  assumes v: "\<And>p. p \<in> set ps \<Longrightarrow> valid_date (period_end p)"
    and r: "generate_schedule lib has shift eff mat frequency stub fps lpe t = Some (Inr ps)"
    and adj: "st_lag t \<noteq> 0 \<or> bdc_name (st_bdc t) \<noteq> ''UNADJUSTED''"
    and p: "p \<in> set ps"
  shows "is_business_day lib has (payment_date p) (py_or (st_calendar t) ''NEW_YORK'')"
proof -
  let ?cal = "py_or (st_calendar t) ''NEW_YORK''"
  from r obtain ses where "map_res (mk_period lib has t) ses = Inr ps"
    using generate_schedule_map by blast
  with p obtain s e where "mk_period lib has t (s, e) = Inr p"
    unfolding map_res_Inr_iff list_all2_conv_all_nth in_set_conv_nth by (metis surj_pair)
  from mk_period_Inr[OF this] obtain a where a: "apply_bdc lib has (period_end p) (st_bdc t) ?cal = Some a"
    and l: "add_lag lib has a (st_lag t) ?cal = Some (payment_date p)" by auto
  have bd: "valid_date a \<and> is_business_day lib has a ?cal" if "bdc_name (st_bdc t) \<noteq> ''UNADJUSTED''"
    using cal.adjust_business_day[OF v[OF p] that] a by (auto simp: apply_bdc_def)
  have va: "valid_date a"
    using bd a v[OF p] by (cases "bdc_name (st_bdc t) = ''UNADJUSTED''") (auto simp: apply_bdc_def adjust_by_def)
  show ?thesis
  proof (cases "st_lag t = 0")
    case True
    with l adj bd show ?thesis by (simp add: add_lag_def)
  next
    case False
    with l have "add_business_days lib has a (st_lag t) ?cal = Some (payment_date p)" by (simp add: add_lag_def)
    with add_business_days_lands[OF va] False show ?thesis by blast
  qed
qed

theorem schedule_payment_dates_witness:
  "\<exists>p. generate_schedule demo_lib True add_months (Date 2026 1 31) (Date 2026 8 31) (Some ''BULLET'') None None None demo_terms
       = Some (Inr [p]) \<and> payment_date p = Date 2026 9 2 \<and> is_business_day demo_lib True (payment_date p) ''NEW_YORK''"
proof -
  let ?g = "generate_schedule demo_lib True add_months (Date 2026 1 31) (Date 2026 8 31) (Some ''BULLET'') None None None demo_terms"
  have g: "case ?g of Some (Inr ps) \<Rightarrow> map payment_date ps = [Date 2026 9 2] \<and> map period_end ps = [Date 2026 8 31] | _ \<Rightarrow> False"
    by code_simp
  then obtain ps where ps: "?g = Some (Inr ps)" "map payment_date ps = [Date 2026 9 2]" "map period_end ps = [Date 2026 8 31]"
    by (auto split: option.splits sum.splits)
  then obtain p where p: "ps = [p]" "payment_date p = Date 2026 9 2" "period_end p = Date 2026 8 31" by (cases ps) auto
  have "valid_date (Date 2026 8 31)" by code_simp
  with p have "\<And>q. q \<in> set ps \<Longrightarrow> valid_date (period_end q)" by simp
  from schedule_payment_dates[OF this ps(1), of p] p
  have "is_business_day demo_lib True (payment_date p) ''NEW_YORK''" by (simp add: demo_terms_def py_or_def)
  with ps p show ?thesis by auto
qed

end
