(* ===== verification/Json.thy ===== *)
theory Json
  imports Decimals Dates
begin

section \<open>Python values and JSON text\<close>

text \<open>
  The values the routes and the canonical record handle (what a JSON body or an ORM row holds), their
  truthiness, text and number readings, and \<open>json.dumps\<close> with sorted keys and the separators \<open>,\<close> and
  \<open>:\<close>. Text is ASCII: its UTF-8 encoding is the text itself, and \<open>ensure_ascii\<close> is off in every call.

  Serialising is injective up to the order of object keys: \<open>dump_inj\<close>.
\<close>

subsection \<open>Values\<close>

text \<open>\<open>PNum\<close> is an \<open>int\<close>, a \<open>float\<close> or a \<open>Decimal\<close>, by the decimal its text reads as; \<open>POther\<close> is
  any other object, by its \<open>str\<close>; \<open>PStamp\<close> a \<open>datetime\<close>, by its \<open>isoformat\<close>.\<close>

datatype pyval = PNone | PBool bool | PNum decimal | PStr string | PDate date | PStamp string | POther string
  | PList "pyval list" | PDict "(string \<times> pyval) list"

type_synonym pydict = "(string \<times> pyval) list"

definition truthy :: "pyval \<Rightarrow> bool" where
  "truthy v = (case v of PNone \<Rightarrow> False | PBool b \<Rightarrow> b | PStr s \<Rightarrow> s \<noteq> [] | PList xs \<Rightarrow> xs \<noteq> [] | PDict d \<Rightarrow> d \<noteq> []
     | PNum (Dec n c e) \<Rightarrow> c \<noteq> 0 | _ \<Rightarrow> True)"

text \<open>\<open>d.get(k)\<close>, and \<open>x in (None, "")\<close>.\<close>

definition get :: "pydict \<Rightarrow> string \<Rightarrow> pyval" where
  "get d k = (case dict_get d k of None \<Rightarrow> PNone | Some v \<Rightarrow> v)"

definition absent :: "pyval \<Rightarrow> bool" where
  "absent v \<longleftrightarrow> v = PNone \<or> v = PStr []"

definition dict_setdefault :: "string \<Rightarrow> pyval \<Rightarrow> pydict \<Rightarrow> pydict" where
  "dict_setdefault k v d = (if dict_get d k = None then d @ [(k, v)] else d)"

lemma get_set: "get (dict_set k v d) k' = (if k' = k then v else get d k')"
  by (simp add: get_def dict_get_set)

lemma get_setdefault: "get (dict_setdefault k v d) k' = (if k' = k \<and> dict_get d k = None then v else get d k')"
  by (auto simp: get_def dict_setdefault_def split: option.splits)

text \<open>\<open>str(d)\<close> of a decimal, and \<open>str(v)\<close>.\<close>

definition int_str :: "int \<Rightarrow> string" where
  "int_str i = (if i < 0 then CHR ''-'' # nat_digits (nat (- i)) else nat_digits (nat i))"

definition dec_str :: "decimal \<Rightarrow> string" where
  "dec_str d = (case d of DNaN \<Rightarrow> ''NaN'' | DInf n \<Rightarrow> (if n then ''-'' else []) @ ''Infinity''
     | Dec n c e \<Rightarrow>
         (let s = nat_digits c; adj = e + int (length s) - 1
          in if e \<le> 0 \<and> - 6 \<le> adj then format_f n c e
             else (if n then ''-'' else []) @ take 1 s @ (if length s = 1 then [] else CHR ''.'' # drop 1 s)
                  @ ''E'' @ (if adj < 0 then [] else ''+'') @ int_str adj))"

fun py_str :: "pyval \<Rightarrow> string" where
  "py_str PNone = ''None''"
| "py_str (PBool b) = (if b then ''True'' else ''False'')"
| "py_str (PNum d) = dec_str d"
| "py_str (PStr s) = s"
| "py_str (PDate d) = isoformat d"
| "py_str (PStamp s) = str_replace CHR ''T'' CHR '' '' s"
| "py_str (POther s) = s"
| "py_str (PList xs) = ''[...]''"
| "py_str (PDict d) = ''{...}''"

text \<open>\<open>str(v or "")\<close>, and \<open>Decimal(str(v))\<close>.\<close>

definition str_or :: "pyval \<Rightarrow> string" where
  "str_or v = (if truthy v then py_str v else [])"

definition to_decimal :: "pyval \<Rightarrow> decimal option" where
  "to_decimal v = (case v of PNum d \<Rightarrow> Some d | _ \<Rightarrow> dec_of_string (py_str v))"

subsection \<open>JSON\<close>

datatype json = JNull | JBool bool | JInt int | JStr string | JArr "json list" | JObj "(string \<times> json) list"

text \<open>The escapes of \<open>json.dumps\<close> with \<open>ensure_ascii=False\<close>.\<close>

definition hex_char :: "nat \<Rightarrow> char" where
  "hex_char d = (if d < 10 then char_of (48 + d) else char_of (87 + d))"

definition esc_char :: "char \<Rightarrow> string" where
  "esc_char c =
     (let n = (of_char c :: nat); bs = CHR 0x5C
      in if n = 34 then [bs, c] else if n = 92 then [bs, bs]
         else if n = 10 then [bs, CHR ''n''] else if n = 13 then [bs, CHR ''r''] else if n = 9 then [bs, CHR ''t'']
         else if n = 12 then [bs, CHR ''f''] else if n = 8 then [bs, CHR ''b'']
         else if n < 32 then [bs, CHR ''u'', CHR ''0'', CHR ''0'', hex_char (n div 16), hex_char (n mod 16)]
         else [c])"

definition quoted :: "string \<Rightarrow> string" where
  "quoted s = CHR 0x22 # concat (map esc_char s) @ [CHR 0x22]"

fun dump :: "json \<Rightarrow> string" and dump_arr :: "json list \<Rightarrow> string" and dump_obj :: "(string \<times> json) list \<Rightarrow> string" where
  "dump JNull = ''null''"
| "dump (JBool b) = (if b then ''true'' else ''false'')"
| "dump (JInt i) = int_str i"
| "dump (JStr s) = quoted s"
| "dump (JArr xs) = CHR ''['' # dump_arr xs"
| "dump (JObj kvs) = CHR ''{'' # dump_obj kvs"
| "dump_arr [] = '']''"
| "dump_arr (x # xs) = dump x @ (if xs = [] then '']'' else CHR '','' # dump_arr xs)"
| "dump_obj [] = ''}''"
| "dump_obj (kv # kvs) = quoted (fst kv) @ CHR '':'' # dump (snd kv) @ (if kvs = [] then ''}'' else CHR '','' # dump_obj kvs)"

fun jsort :: "json \<Rightarrow> json" and jsort_arr :: "json list \<Rightarrow> json list" and jsort_obj :: "(string \<times> json) list \<Rightarrow> (string \<times> json) list" where
  "jsort (JArr xs) = JArr (jsort_arr xs)"
| "jsort (JObj kvs) = JObj (sort_key fst (jsort_obj kvs))"
| "jsort j = j"
| "jsort_arr [] = []"
| "jsort_arr (x # xs) = jsort x # jsort_arr xs"
| "jsort_obj [] = []"
| "jsort_obj (kv # kvs) = (fst kv, jsort (snd kv)) # jsort_obj kvs"

text \<open>\<open>json.dumps(v, sort_keys=True, separators=(",", ":"), ensure_ascii=False)\<close>\<close>

definition dumps :: "json \<Rightarrow> string" where
  "dumps j = dump (jsort j)"

lemma jsort_arr_map: "jsort_arr xs = map jsort xs"
  by (induction xs) simp_all

text \<open>The text of a list is determined by the texts of its elements.\<close>

lemma dump_arr_cong: "map dump xs = map dump ys \<Longrightarrow> dump_arr xs = dump_arr ys"
proof (induction xs arbitrary: ys)
  case (Cons x xs)
  then obtain y zs where "ys = y # zs" "dump x = dump y" "map dump xs = map dump zs" by auto
  with Cons.IH[of zs] show ?case by auto
qed simp

lemma dumps_arr_cong:
  assumes "map dumps xs = map dumps ys"
  shows "dumps (JArr xs) = dumps (JArr ys)"
proof -
  have "dumps = dump \<circ> jsort" by (rule ext) (simp add: dumps_def)
  with assms have "map dump (map jsort xs) = map dump (map jsort ys)" by simp
  from dump_arr_cong[OF this] show ?thesis by (simp add: dumps_def jsort_arr_map)
qed

text \<open>Replacing members of an object by ones with the same text keeps the object's text.\<close>

abbreviation dump_item :: "string \<times> json \<Rightarrow> string \<times> string" where
  "dump_item \<equiv> \<lambda>(k, v). (k, dump v)"

lemma dump_obj_cong: "map dump_item xs = map dump_item ys \<Longrightarrow> dump_obj xs = dump_obj ys"
proof (induction xs arbitrary: ys)
  case (Cons x xs)
  then obtain y zs where y: "ys = y # zs" "dump_item x = dump_item y" "map dump_item xs = map dump_item zs" by auto
  from y(2) have "fst x = fst y" "dump (snd x) = dump (snd y)" by (auto split: prod.splits)
  with y(1,3) Cons.IH[of zs] show ?case by auto
qed simp

lemma map_insort_key: "(\<And>x. g (f x) = k x) \<Longrightarrow> map f (insort_key k x xs) = insort_key g (f x) (map f xs)"
  by (induction xs) auto

lemma map_sort_key_comm: "(\<And>x. g (f x) = k x) \<Longrightarrow> map f (sort_key k xs) = sort_key g (map f xs)"
proof (induction xs)
  case (Cons x xs)
  then show ?case by (simp add: map_insort_key[of g f k])
qed simp

lemma jsort_obj_map: "jsort_obj kvs = map (\<lambda>(k, v). (k, jsort v)) kvs"
  by (induction kvs) auto

lemma dumps_obj_cong:
  assumes "map (\<lambda>(k, v). (k, dumps v)) xs = map (\<lambda>(k, v). (k, dumps v)) ys"
  shows "dumps (JObj xs) = dumps (JObj ys)"
proof -
  have c: "map dump_item (sort_key fst (jsort_obj zs)) = sort_key fst (map (\<lambda>(k, v). (k, dumps v)) zs)" for zs
    by (subst map_sort_key_comm[of fst]) (simp_all add: jsort_obj_map dumps_def comp_def case_prod_unfold)
  have "dump_obj (sort_key fst (jsort_obj xs)) = dump_obj (sort_key fst (jsort_obj ys))"
    by (rule dump_obj_cong) (simp add: c assms del: list.map)
  then show ?thesis by (simp add: dumps_def)
qed

subsection \<open>Serialising is injective\<close>

text \<open>Reading one escaped character back.\<close>

definition hex_val :: "char \<Rightarrow> nat" where
  "hex_val c = (let n = (of_char c :: nat) in if n < 58 then n - 48 else n - 87)"

definition read_char :: "string \<Rightarrow> char \<times> string" where
  "read_char s =
     (if (of_char (hd s) :: nat) \<noteq> 92 then (hd s, tl s)
      else (let e = (of_char (s ! 1) :: nat)
            in if e = 34 \<or> e = 92 then (s ! 1, drop 2 s)
               else if e = 110 then (char_of (10 :: nat), drop 2 s)
               else if e = 114 then (char_of (13 :: nat), drop 2 s)
               else if e = 116 then (char_of (9 :: nat), drop 2 s)
               else if e = 102 then (char_of (12 :: nat), drop 2 s)
               else if e = 98 then (char_of (8 :: nat), drop 2 s)
               else (char_of (16 * hex_val (s ! 4) + hex_val (s ! 5)), drop 6 s)))"

lemma hex_val_hex_char: "d < 16 \<Longrightarrow> hex_val (hex_char d) = d"
  by (auto simp: hex_val_def hex_char_def Let_def)

lemma char_code_eq: "(of_char c :: nat) = k \<Longrightarrow> c = char_of k"
  by (metis char_of_char)

lemma read_esc_char: "read_char (esc_char c @ r) = (c, r)"
proof -
  define n where "n = (of_char c :: nat)"
  have c: "c = char_of n" by (simp add: n_def)
  have bs: "char_of (92 :: nat) = CHR 0x5C" by code_simp
  consider "n = 34" | "n = 92" | "n = 10" | "n = 13" | "n = 9" | "n = 12" | "n = 8"
    | "n < 32" "n \<notin> {10, 13, 9, 12, 8}" | "32 \<le> n" "n \<noteq> 34" "n \<noteq> 92" by auto linarith
  then show ?thesis
  proof cases
    case 8
    have "16 * (n div 16) + n mod 16 = n" "n div 16 < 16" "n mod 16 < 16" using 8 by simp_all
    with 8 show ?thesis
      by (simp add: esc_char_def n_def[symmetric] Let_def read_char_def hex_val_hex_char c)
  next
    case 9
    then show ?thesis by (simp add: esc_char_def n_def[symmetric] Let_def read_char_def)
  qed (simp_all add: esc_char_def n_def[symmetric] Let_def read_char_def c bs)
qed

lemma esc_char_inj: "esc_char c @ r = esc_char c' @ r' \<Longrightarrow> c = c' \<and> r = r'"
  by (metis read_esc_char prod.inject)

lemma esc_char_no_quote: "esc_char c @ r \<noteq> CHR 0x22 # r'"
  by (auto simp: esc_char_def Let_def)

lemma esc_concat_inj:
  "concat (map esc_char s) @ CHR 0x22 # r = concat (map esc_char s') @ CHR 0x22 # r' \<Longrightarrow> s = s' \<and> r = r'"
proof (induction s arbitrary: s')
  case Nil
  show ?case
  proof (cases s')
    case (Cons c t)
    with Nil show ?thesis using esc_char_no_quote[of c "concat (map esc_char t) @ CHR 0x22 # r'" r] by simp
  qed (use Nil in simp)
next
  case (Cons c s)
  then obtain c' t where s': "s' = c' # t"
    using esc_char_no_quote[of c "concat (map esc_char s) @ CHR 0x22 # r" r'] by (cases s') simp_all
  with Cons.prems have "esc_char c @ (concat (map esc_char s) @ CHR 0x22 # r)
      = esc_char c' @ (concat (map esc_char t) @ CHR 0x22 # r')" by simp
  from esc_char_inj[OF this] Cons.IH[of t] s' show ?case by simp
qed

lemma quoted_inj:
  assumes "quoted s @ r = quoted s' @ r'"
  shows "s = s' \<and> r = r'"
proof -
  from assms have "concat (map esc_char s) @ CHR 0x22 # r = concat (map esc_char s') @ CHR 0x22 # r'"
    by (simp add: quoted_def)
  from esc_concat_inj[OF this] show ?thesis .
qed

text \<open>What may follow a value: nothing that continues a number.\<close>

definition after_value :: "string \<Rightarrow> bool" where
  "after_value r \<longleftrightarrow> (case r of [] \<Rightarrow> True | c # _ \<Rightarrow> \<not> is_digit c)"

lemma digits_split: "after_value r \<Longrightarrow> takeWhile is_digit (nat_digits n @ r) = nat_digits n \<and> dropWhile is_digit (nat_digits n @ r) = r"
  using nat_digits_all_digit[of _ n]
  by (cases r) (auto simp: after_value_def takeWhile_append dropWhile_append)

lemma nat_digits_prefix: "nat_digits m @ r = nat_digits n @ r' \<Longrightarrow> after_value r \<Longrightarrow> after_value r' \<Longrightarrow> m = n \<and> r = r'"
  using digits_split[of r m] digits_split[of r' n] by (metis nat_digits_inj)

lemma nat_digits_hd: "\<exists>c t. nat_digits n = c # t \<and> is_digit c"
  using nat_digits_all_digit[of _ n] nat_digits_not_Nil[of n] by (cases "nat_digits n") auto

lemma minus_not_digit [simp]: "\<not> is_digit CHR ''-''"
  by (simp add: is_digit_def)

lemma int_str_prefix:
  assumes e: "int_str i @ r = int_str j @ r'" and a: "after_value r" "after_value r'"
  shows "i = j \<and> r = r'"
proof -
  have no: "nat_digits n @ u \<noteq> CHR ''-'' # v" for n u v
    using nat_digits_hd[of n] by auto
  consider "i < 0" "j < 0" | "i < 0" "0 \<le> j" | "0 \<le> i" "j < 0" | "0 \<le> i" "0 \<le> j" by linarith
  then show ?thesis
  proof cases
    case 1
    with e have "nat_digits (nat (- i)) @ r = nat_digits (nat (- j)) @ r'" by (simp add: int_str_def)
    from nat_digits_prefix[OF this a] 1 show ?thesis by linarith
  next
    case 2
    with e no[of "nat j" r'] show ?thesis by (simp add: int_str_def) metis
  next
    case 3
    with e no[of "nat i" r] show ?thesis by (simp add: int_str_def)
  next
    case 4
    with e have "nat_digits (nat i) @ r = nat_digits (nat j) @ r'" by (simp add: int_str_def)
    from nat_digits_prefix[OF this a] 4 show ?thesis by linarith
  qed
qed

lemma after_value_simps [simp]:
  "after_value ('']'' @ r)" "after_value (''}'' @ r)" "after_value (CHR '','' # r)"
  "after_value (CHR '']'' # r)" "after_value (CHR ''}'' # r)" "after_value []"
  by (simp_all add: after_value_def is_digit_def)

lemma int_str_first: "\<exists>c t. int_str i = c # t \<and> (is_digit c \<or> c = CHR ''-'')"
  using nat_digits_hd[of "nat i"] by (auto simp: int_str_def)

definition first_ok :: "json \<Rightarrow> char \<Rightarrow> bool" where
  "first_ok j c = (case j of JNull \<Rightarrow> c = CHR ''n'' | JBool b \<Rightarrow> c = (if b then CHR ''t'' else CHR ''f'')
     | JInt i \<Rightarrow> is_digit c \<or> c = CHR ''-'' | JStr s \<Rightarrow> c = CHR 0x22 | JArr xs \<Rightarrow> c = CHR ''['' | JObj kvs \<Rightarrow> c = CHR ''{'')"

lemma dump_first: "\<exists>c t. dump j = c # t \<and> first_ok j c"
  using int_str_first by (cases j) (auto simp: first_ok_def quoted_def)

text \<open>The first character of the text tells the kind of value.\<close>

lemma dump_same_kind:
  assumes "dump j @ r = dump j' @ r'"
  shows "\<exists>c. first_ok j c \<and> first_ok j' c"
  using assms dump_first[of j] dump_first[of j'] by auto

lemma first_ok_digit: "is_digit c \<Longrightarrow> c \<notin> {CHR ''n'', CHR ''t'', CHR ''f'', CHR 0x22, CHR ''['', CHR ''{'', CHR '']'', CHR ''}''}"
  by (auto simp: is_digit_def)

lemma dump_not_close: "dump x @ r \<noteq> CHR '']'' # r'"
  using dump_first[of x] first_ok_digit by (cases x) (auto simp: first_ok_def split: if_splits)

lemma quoted_first: "\<exists>t. quoted k = CHR 0x22 # t"
  by (simp add: quoted_def)

lemma dump_prefix:
  "dump j @ r = dump j' @ r' \<Longrightarrow> after_value r \<Longrightarrow> after_value r' \<Longrightarrow> j = j' \<and> r = r'"
  "dump_arr xs @ r = dump_arr ys @ r' \<Longrightarrow> after_value r \<Longrightarrow> after_value r' \<Longrightarrow> xs = ys \<and> r = r'"
  "dump_obj kvs @ r = dump_obj kws @ r' \<Longrightarrow> after_value r \<Longrightarrow> after_value r' \<Longrightarrow> kvs = kws \<and> r = r'"
proof (induction j and xs and kvs arbitrary: j' r r' and ys r r' and kws r r' rule: dump_dump_arr_dump_obj.induct)
  case 1
  then show ?case using dump_same_kind[OF "1.prems"(1)] first_ok_digit by (cases j') (auto simp: first_ok_def split: if_splits)
next
  case (2 b)
  then show ?case using dump_same_kind[OF "2.prems"(1)] first_ok_digit by (cases j') (auto simp: first_ok_def split: if_splits)
next
  case (3 i)
  from dump_same_kind[OF "3.prems"(1)] first_ok_digit obtain i' where "j' = JInt i'"
    by (cases j') (auto simp: first_ok_def split: if_splits)
  with int_str_prefix[of i r i' r'] "3.prems" show ?case by simp
next
  case (4 s)
  from dump_same_kind[OF "4.prems"(1)] first_ok_digit obtain s' where s': "j' = JStr s'"
    by (cases j') (auto simp: first_ok_def split: if_splits)
  with s' quoted_inj[of s r s' r'] "4.prems"(1) show ?case by simp
next
  case (5 xs)
  from dump_same_kind[OF "5.prems"(1)] first_ok_digit obtain ys where "j' = JArr ys"
    by (cases j') (auto simp: first_ok_def split: if_splits)
  with "5.prems" "5.IH"[of r ys r'] show ?case by simp
next
  case (6 kvs)
  from dump_same_kind[OF "6.prems"(1)] first_ok_digit obtain kws where "j' = JObj kws"
    by (cases j') (auto simp: first_ok_def split: if_splits)
  with "6.prems" "6.IH"[of r kws r'] show ?case by simp
next
  case 7
  show ?case
  proof (cases ys)
    case (Cons y ys')
    with "7.prems"(1) dump_not_close[of y] show ?thesis by simp (metis)
  qed (use 7 in simp)
next
  case (8 x xs)
  show ?case
  proof (cases ys)
    case Nil
    with "8.prems"(1) dump_not_close[of x] show ?thesis by simp
  next
    case (Cons y ys')
    have "dump x @ ((if xs = [] then '']'' else CHR '','' # dump_arr xs) @ r)
        = dump y @ ((if ys' = [] then '']'' else CHR '','' # dump_arr ys') @ r')"
      using "8.prems"(1) Cons by simp
    from "8.IH"(1)[OF this] have xy: "x = y"
      and rest: "(if xs = [] then '']'' else CHR '','' # dump_arr xs) @ r = (if ys' = [] then '']'' else CHR '','' # dump_arr ys') @ r'"
      by (simp_all split: if_splits)
    show ?thesis
    proof (cases "xs = [] \<or> ys' = []")
      case True
      with rest xy Cons show ?thesis by (auto split: if_splits)
    next
      case False
      with rest have "dump_arr xs @ r = dump_arr ys' @ r'" by simp
      with "8.IH"(2)[OF _ this] "8.prems" False xy Cons show ?thesis by simp
    qed
  qed
next
  case 9
  show ?case
  proof (cases kws)
    case (Cons kw kws')
    with "9.prems"(1) quoted_first[of "fst kw"] show ?thesis by auto
  qed (use 9 in simp)
next
  case (10 kv kvs)
  show ?case
  proof (cases kws)
    case Nil
    with "10.prems"(1) quoted_first[of "fst kv"] show ?thesis by auto
  next
    case (Cons kw kws')
    have "quoted (fst kv) @ (CHR '':'' # dump (snd kv) @ (if kvs = [] then ''}'' else CHR '','' # dump_obj kvs) @ r)
        = quoted (fst kw) @ (CHR '':'' # dump (snd kw) @ (if kws' = [] then ''}'' else CHR '','' # dump_obj kws') @ r')"
      using "10.prems"(1) Cons by simp
    from quoted_inj[OF this] have k: "fst kv = fst kw"
      and d: "dump (snd kv) @ ((if kvs = [] then ''}'' else CHR '','' # dump_obj kvs) @ r)
        = dump (snd kw) @ ((if kws' = [] then ''}'' else CHR '','' # dump_obj kws') @ r')" by simp_all
    from "10.IH"(1)[OF d] have v: "snd kv = snd kw"
      and rest: "(if kvs = [] then ''}'' else CHR '','' # dump_obj kvs) @ r = (if kws' = [] then ''}'' else CHR '','' # dump_obj kws') @ r'"
      by (simp_all split: if_splits)
    show ?thesis
    proof (cases "kvs = [] \<or> kws' = []")
      case True
      with rest k v Cons show ?thesis by (auto split: if_splits simp: prod_eq_iff)
    next
      case False
      with rest have "dump_obj kvs @ r = dump_obj kws' @ r'" by simp
      with "10.IH"(2)[OF _ this] "10.prems" False k v Cons show ?thesis by (simp add: prod_eq_iff)
    qed
  qed
qed

lemma dump_inj: "dump j = dump j' \<Longrightarrow> j = j'"
  using dump_prefix(1)[of j "[]" j' "[]"] by simp

lemma dumps_obj_items: "dumps (JObj xs) = dumps (JObj ys) \<Longrightarrow> set (jsort_obj xs) = set (jsort_obj ys)"
proof -
  assume "dumps (JObj xs) = dumps (JObj ys)"
  then have "sort_key fst (jsort_obj xs) = sort_key fst (jsort_obj ys)"
    using dump_inj[of "jsort (JObj xs)" "jsort (JObj ys)"] by (simp add: dumps_def)
  then show ?thesis by (metis set_sort)
qed

end
