(* ===== verification/Canonical.thy ===== *)
theory Canonical
  imports Json "HOL-Library.Product_Lexorder"
begin

section \<open>The canonical trade record (chain/canonical.py)\<close>

text \<open>
  The record both counterparties sign, under schema versions 1 and 2, with the currency and the
  digital-asset products, and its bytes. A trade, a leg and an entity are dictionaries (\<open>_get\<close> reads a
  dictionary key or an ORM attribute alike). Every \<open>ValueError\<close> of the source is \<open>Value_Error\<close>, every
  \<open>InvalidOperation\<close> that leaves the module is \<open>Decimal_Error\<close>, and a value of the wrong type is
  \<open>Type_Error\<close>. \<open>keccak\<close> is a parameter.

  The main results: the two parties' own bookings of one trade give the same bytes
  (\<open>both_bookings_same_bytes\<close>, \<open>fx_product_mirror\<close>), and different records give different bytes.
\<close>

datatype canon_error = Value_Error | Decimal_Error | Type_Error

type_synonym 'a canon = "(canon_error, 'a) res"

subsection \<open>Normalising values\<close>

definition num_of :: "pyval \<Rightarrow> string canon" where
  "num_of v = (case to_decimal v of None \<Rightarrow> Inl Value_Error
     | Some d \<Rightarrow> (case num_str d of None \<Rightarrow> Inl Value_Error | Some s \<Rightarrow> Inr s))"

fun normalise :: "pyval \<Rightarrow> json canon"
  and normalise_list :: "pyval list \<Rightarrow> json list canon"
  and normalise_items :: "pydict \<Rightarrow> (string \<times> json) list canon" where
  "normalise PNone = Inr JNull"
| "normalise (PBool b) = Inr (JBool b)"
| "normalise (PStr s) = Inr (JStr s)"
| "normalise (PNum d) = (case num_of (PNum d) of Inl e \<Rightarrow> Inl e | Inr s \<Rightarrow> Inr (JStr s))"
| "normalise (PStamp s) = Inr (JStr s)"
| "normalise (PDate d) = Inr (JStr (isoformat d))"
| "normalise (PDict d) = (case normalise_items d of Inl e \<Rightarrow> Inl e | Inr kvs \<Rightarrow> Inr (JObj kvs))"
| "normalise (PList xs) = (case normalise_list xs of Inl e \<Rightarrow> Inl e | Inr js \<Rightarrow> Inr (JArr js))"
| "normalise (POther s) = Inr (JStr s)"
| "normalise_list [] = Inr []"
| "normalise_list (x # xs) = (case normalise x of Inl e \<Rightarrow> Inl e
     | Inr j \<Rightarrow> (case normalise_list xs of Inl e \<Rightarrow> Inl e | Inr js \<Rightarrow> Inr (j # js)))"
| "normalise_items [] = Inr []"
| "normalise_items (kv # kvs) = (case normalise (snd kv) of Inl e \<Rightarrow> Inl e
     | Inr j \<Rightarrow> (case normalise_items kvs of Inl e \<Rightarrow> Inl e | Inr js \<Rightarrow> Inr ((fst kv, j) # js)))"

definition pick :: "pydict \<Rightarrow> string list \<Rightarrow> (string \<times> json) list canon" where
  "pick obj fields = map_res (\<lambda>f. bind_res (normalise (get obj f)) (\<lambda>j. Inr (f, j))) fields"

subsection \<open>Schema version 1\<close>

definition trade_fields :: "string list" where
  "trade_fields = [''trade_ref'', ''uti'', ''asset_class'', ''instrument_type'', ''structure'', ''notional'', ''notional_ccy'',
     ''trade_date'', ''effective_date'', ''maturity_date'', ''terms'', ''discount_curve_id'', ''forecast_curve_id'']"

definition leg_fields :: "string list" where
  "leg_fields = [''leg_ref'', ''leg_seq'', ''leg_type'', ''direction'', ''currency'', ''notional'', ''notional_type'',
     ''notional_schedule'', ''effective_date'', ''maturity_date'', ''first_period_start'', ''last_period_end'', ''day_count'',
     ''payment_frequency'', ''reset_frequency'', ''bdc'', ''stub_type'', ''payment_calendar'', ''payment_lag'', ''fixed_rate'',
     ''fixed_rate_type'', ''fixed_rate_schedule'', ''spread'', ''spread_type'', ''spread_schedule'', ''forecast_curve_id'',
     ''discount_curve_id'', ''embedded_options'', ''leverage'', ''ois_compounding'', ''terms'']"

definition party_fields :: "string list" where
  "party_fields = [''lei'', ''name'']"

text \<open>\<open>int(v or 0)\<close>: a number is truncated, text must be an optional sign and digits.\<close>

definition int_or_0 :: "pyval \<Rightarrow> int canon" where
  "int_or_0 v = (if \<not> truthy v then Inr 0 else case v of
       PBool b \<Rightarrow> Inr 1
     | PNum (Dec n c e) \<Rightarrow> Inr ((if n then - 1 else 1) * int (if 0 \<le> e then c * 10 ^ nat e else c div 10 ^ nat (- e)))
     | PStr s \<Rightarrow> (case read_sign (str_strip s) of (n, ds) \<Rightarrow>
         if ds \<noteq> [] \<and> list_all is_digit ds then Inr ((if n then - 1 else 1) * int (digits_val ds)) else Inl Value_Error)
     | PNum _ \<Rightarrow> Inl Value_Error
     | _ \<Rightarrow> Inl Type_Error)"

definition canonical_v1 :: "pydict \<Rightarrow> pydict list \<Rightarrow> pydict \<Rightarrow> pydict \<Rightarrow> json canon" where
  "canonical_v1 trade legs own cp =
     bind_res (map_res (\<lambda>l. bind_res (int_or_0 (get l ''leg_seq'')) (\<lambda>n. Inr ((n, str_or (get l ''leg_ref'')), l))) legs) (\<lambda>keyed.
     bind_res (pick trade trade_fields) (\<lambda>t.
     bind_res (map_res (\<lambda>kl. pick (snd kl) leg_fields) (sort_key fst keyed)) (\<lambda>ls.
     bind_res (pick own party_fields) (\<lambda>o1.
     bind_res (pick cp party_fields) (\<lambda>c.
       Inr (JObj [(''schema'', JStr ''rijeka-trade''), (''schema_version'', JInt 1), (''trade'', JObj t),
                  (''legs'', JArr (map JObj ls)),
                  (''parties'', JObj [(''own'', JObj o1), (''counterparty'', JObj c)])]))))))"

subsection \<open>Schema version 2: parties, options, cashflows\<close>

definition trade_fields_v2 :: "string list" where
  "trade_fields_v2 = [''asset_class'', ''instrument_type'', ''structure'', ''notional'', ''notional_ccy'', ''trade_date'',
     ''effective_date'', ''maturity_date'']"

definition leg_fields_v2 :: "string list" where
  "leg_fields_v2 = [''leg_type'', ''currency'', ''notional'', ''notional_type'', ''notional_schedule'', ''effective_date'',
     ''maturity_date'', ''first_period_start'', ''last_period_end'', ''day_count'', ''payment_frequency'', ''reset_frequency'',
     ''bdc'', ''stub_type'', ''payment_calendar'', ''payment_lag'', ''fixed_rate'', ''fixed_rate_type'', ''fixed_rate_schedule'',
     ''spread'', ''spread_type'', ''spread_schedule'', ''leverage'', ''ois_compounding'']"

definition lei_of :: "pydict \<Rightarrow> string canon" where
  "lei_of entity = (let lei = get entity ''lei'' in if truthy lei then Inr (py_str lei) else Inl Value_Error)"

definition sides :: "pyval \<Rightarrow> string \<Rightarrow> string \<Rightarrow> string list \<Rightarrow> string list \<Rightarrow> (string \<times> string) canon" where
  "sides direction own cp pays gets =
     (let d = str_upper (str_or direction)
      in if d \<in> set pays then Inr (own, cp) else if d \<in> set gets then Inr (cp, own) else Inl Value_Error)"

abbreviation leg_sides :: "pyval \<Rightarrow> string \<Rightarrow> string \<Rightarrow> (string \<times> string) canon" where
  "leg_sides d own cp \<equiv> sides d own cp [''PAY''] [''RECEIVE'']"

abbreviation deal_sides :: "pyval \<Rightarrow> string \<Rightarrow> string \<Rightarrow> (string \<times> string) canon" where
  "deal_sides d own cp \<equiv> sides d own cp [''BUY'', ''LONG''] [''SELL'', ''SHORT'']"

definition option_v2 :: "string \<Rightarrow> string \<Rightarrow> pyval \<Rightarrow> json canon" where
  "option_v2 own cp v = (case v of
       PDict o1 \<Rightarrow>
         bind_res (deal_sides (get o1 ''direction'') own cp) (\<lambda>(buyer, seller).
           normalise (PDict (dict_set ''seller'' (PStr seller) (dict_set ''buyer'' (PStr buyer) (AList.delete ''direction'' o1)))))
     | _ \<Rightarrow> Inl Type_Error)"

definition options_v2 :: "pyval \<Rightarrow> string \<Rightarrow> string \<Rightarrow> json list canon" where
  "options_v2 options own cp =
     (if \<not> truthy options then Inr []
      else (case options of
              PList os \<Rightarrow> bind_res (map_res (option_v2 own cp) os) (\<lambda>out. Inr (sort_key dumps out))
            | _ \<Rightarrow> Inl Type_Error))"

text \<open>A row of the custom cashflows: its sort key and its record. The key is \<open>None\<close> where the value is not text.\<close>

definition key_text :: "json \<Rightarrow> string option" where
  "key_text j = (case j of JNull \<Rightarrow> Some [] | JStr s \<Rightarrow> Some s | JBool b \<Rightarrow> if b then None else Some []
     | JArr xs \<Rightarrow> if xs = [] then Some [] else None | JObj d \<Rightarrow> if d = [] then Some [] else None | _ \<Rightarrow> None)"

definition dec_abs :: "decimal \<Rightarrow> decimal" where
  "dec_abs d = (case d of Dec n c e \<Rightarrow> (case round_coeff c e of (c', e') \<Rightarrow> Dec False c' e') | DInf n \<Rightarrow> DInf False | DNaN \<Rightarrow> DNaN)"

definition row_amount :: "pydict \<Rightarrow> decimal canon" where
  "row_amount r = (let v = get r ''amount'' in
     if truthy v then (case to_decimal v of None \<Rightarrow> Inl Decimal_Error | Some d \<Rightarrow> Inr d) else Inr (Dec False 0 0))"

type_synonym cash_key = "string \<times> string \<times> string \<times> string"

definition cash_row :: "string \<Rightarrow> string \<Rightarrow> pydict \<Rightarrow> (cash_key option \<times> json) canon" where
  "cash_row own cp r =
     bind_res (row_amount r) (\<lambda>amt.
     case dec_neg amt of None \<Rightarrow> Inl Decimal_Error | Some neg \<Rightarrow>
       (let payer = (if neg then own else cp); receiver = (if neg then cp else own) in
        bind_res (normalise (get r ''type'')) (\<lambda>ty.
        bind_res (normalise (get r ''payment_date'')) (\<lambda>pd.
        bind_res (normalise (get r ''accrual_start'')) (\<lambda>as.
        bind_res (normalise (get r ''accrual_end'')) (\<lambda>ae.
        bind_res (normalise (get r ''currency'')) (\<lambda>cy.
        bind_res (num_of (PNum (dec_abs amt))) (\<lambda>am.
          Inr ((case (key_text pd, key_text ty) of (Some a, Some b) \<Rightarrow> Some (a, b, payer, am) | _ \<Rightarrow> None),
               JObj [(''type'', ty), (''payment_date'', pd), (''accrual_start'', as), (''accrual_end'', ae),
                     (''currency'', cy), (''amount'', JStr am), (''payer'', JStr payer), (''receiver'', JStr receiver)])))))))))"

text \<open>Iterating the rows: a dictionary or a text gives one row without fields per element.\<close>

definition row_dict :: "pyval \<Rightarrow> pydict" where
  "row_dict v = (case v of PDict d \<Rightarrow> d | _ \<Rightarrow> [])"

definition rows_of :: "pyval \<Rightarrow> pydict list canon" where
  "rows_of v = (if \<not> truthy v then Inr [] else case v of PList xs \<Rightarrow> Inr (map row_dict xs)
     | PDict d \<Rightarrow> Inr (map (\<lambda>_. []) d) | PStr s \<Rightarrow> Inr (map (\<lambda>_. []) s) | _ \<Rightarrow> Inl Type_Error)"

definition cashflows_v2 :: "pyval \<Rightarrow> string \<Rightarrow> string \<Rightarrow> json list canon" where
  "cashflows_v2 rows own cp =
     bind_res (rows_of rows) (\<lambda>rs.
     bind_res (map_res (cash_row own cp) rs) (\<lambda>out.
       if 2 \<le> length out \<and> list_ex (\<lambda>x. fst x = None) out then Inl Type_Error
       else Inr (map snd (sort_key (\<lambda>x. the (fst x)) out))))"

subsection \<open>Option styles\<close>

definition terms_of :: "pydict \<Rightarrow> pydict canon" where
  "terms_of trade = (let v = get trade ''terms'' in
     if \<not> truthy v then Inr [] else case v of PDict d \<Rightarrow> Inr d | _ \<Rightarrow> Inl Type_Error)"

definition style_required :: "(string \<times> string list) list" where
  "style_required = [(''EUROPEAN'', [''strike'']), (''AMERICAN'', [''strike'']), (''DIGITAL'', [''strike'', ''payout'', ''payout_currency'']),
     (''BARRIER'', [''strike'', ''barrier_type'', ''barrier'']), (''DOUBLE_BARRIER'', [''strike'', ''barrier_type'', ''lower'', ''upper'']),
     (''TOUCH'', [''payout'', ''payout_currency'', ''touch_type''])]"

definition crypto_style_required :: "(string \<times> string list) list" where
  "crypto_style_required = [(''EUROPEAN'', [''strike_price'', ''strike_currency'']), (''AMERICAN'', [''strike_price'', ''strike_currency'']),
     (''DIGITAL'', [''strike_price'', ''strike_currency'', ''payout'', ''payout_currency'']),
     (''BARRIER'', [''strike_price'', ''strike_currency'', ''barrier_type'', ''barrier'']),
     (''DOUBLE_BARRIER'', [''strike_price'', ''strike_currency'', ''barrier_type'', ''lower'', ''upper'']),
     (''TOUCH'', [''payout'', ''payout_currency'', ''touch_type''])]"

definition style_defaults :: "bool \<Rightarrow> pydict \<Rightarrow> (string \<times> pydict) canon" where
  "style_defaults fx terms =
     (let style = str_upper (if truthy (get terms ''style'') then py_str (get terms ''style'') else ''EUROPEAN'')
      in if style \<notin> set (map fst style_required) then Inl Value_Error
         else (let t1 = dict_set ''style'' (PStr style) terms;
                   t2 = dict_setdefault ''exercise_style'' (PStr (if style = ''AMERICAN'' then ''AMERICAN'' else ''EUROPEAN'')) t1;
                   t3 = (if fx then dict_setdefault ''automatic_exercise'' (PBool True) t2 else t2);
                   t4 = (if style \<in> {''BARRIER'', ''DOUBLE_BARRIER'', ''TOUCH''}
                         then dict_setdefault ''barrier_monitoring'' (PStr ''CONTINUOUS'') t3 else t3)
               in Inr (style, t4)))"

text \<open>\<open>Decimal(str(a)) < Decimal(str(b))\<close> and the like, with the raises of the conversion and of a NaN.\<close>

definition less_dec :: "pyval \<Rightarrow> pyval \<Rightarrow> bool canon" where
  "less_dec a b = (case (to_decimal a, to_decimal b) of
       (Some x, Some y) \<Rightarrow> (case dec_less x y of None \<Rightarrow> Inl Decimal_Error | Some r \<Rightarrow> Inr r)
     | _ \<Rightarrow> Inl Decimal_Error)"

definition nonpos_dec :: "pyval \<Rightarrow> bool canon" where
  "nonpos_dec a = (case to_decimal a of None \<Rightarrow> Inl Decimal_Error
     | Some x \<Rightarrow> (case dec_nonpos x of None \<Rightarrow> Inl Decimal_Error | Some r \<Rightarrow> Inr r))"

definition up :: "pydict \<Rightarrow> string \<Rightarrow> string" where
  "up d k = str_upper (py_str (get d k))"

definition style_checks :: "pydict \<Rightarrow> string \<Rightarrow> unit canon" where
  "style_checks terms style =
     bind_res (require (up terms ''exercise_style'' = (if style = ''AMERICAN'' then ''AMERICAN'' else ''EUROPEAN'')) Value_Error) (\<lambda>_.
     bind_res (require (style = ''BARRIER'' \<longrightarrow> up terms ''barrier_type'' \<in> {''UP_IN'', ''UP_OUT'', ''DOWN_IN'', ''DOWN_OUT''}) Value_Error) (\<lambda>_.
     bind_res (if style = ''DOUBLE_BARRIER'' then
                 bind_res (require (up terms ''barrier_type'' \<in> {''KNOCK_IN'', ''KNOCK_OUT''}) Value_Error) (\<lambda>_.
                 bind_res (less_dec (get terms ''lower'') (get terms ''upper'')) (\<lambda>lt. require lt Value_Error))
               else Inr ()) (\<lambda>_.
       require (style = ''TOUCH'' \<longrightarrow> up terms ''touch_type'' \<in> {''ONE_TOUCH'', ''NO_TOUCH'', ''DOUBLE_ONE_TOUCH'', ''DOUBLE_NO_TOUCH''}) Value_Error)))"

subsection \<open>Products\<close>

text \<open>One field of a product record: upper case for the code fields, a decimal string for the numeric ones.\<close>

definition field_value :: "string list \<Rightarrow> string list \<Rightarrow> (string \<Rightarrow> pyval \<Rightarrow> pyval) \<Rightarrow> string \<Rightarrow> pyval \<Rightarrow> json canon" where
  "field_value upper numeric adj f v =
     (let v1 = (case v of PStr s \<Rightarrow> if f \<in> set upper then PStr (str_upper s) else v | _ \<Rightarrow> v)
      in bind_res (if f \<in> set numeric \<and> \<not> absent v1 then bind_res (num_of v1) (\<lambda>s. Inr (PStr s)) else Inr v1)
           (\<lambda>v2. normalise (adj f v2)))"

definition field_items ::
    "string list \<Rightarrow> string list \<Rightarrow> (string \<Rightarrow> pyval \<Rightarrow> pyval) \<Rightarrow> string list \<Rightarrow> pydict \<Rightarrow> (string \<times> json) list canon" where
  "field_items upper numeric adj fields terms =
     map_res (\<lambda>f. bind_res (field_value upper numeric adj f (get terms f)) (\<lambda>j. Inr (f, j))) fields"

definition missing :: "pydict \<Rightarrow> string list \<Rightarrow> string list" where
  "missing terms fields = filter (\<lambda>f. absent (get terms f)) fields"

text \<open>\<open>Decimal * Decimal\<close> in the default context.\<close>

definition dec_mult :: "decimal \<Rightarrow> decimal \<Rightarrow> decimal option" where
  "dec_mult a b = (case (a, b) of
       (Dec n c e, Dec n' c' e') \<Rightarrow> (case round_coeff (c * c') (e + e') of (c2, e2) \<Rightarrow> Some (Dec (n \<noteq> n') c2 e2))
     | (DNaN, _) \<Rightarrow> Some DNaN | (_, DNaN) \<Rightarrow> Some DNaN
     | (DInf n, DInf n') \<Rightarrow> Some (DInf (n \<noteq> n'))
     | (DInf n, Dec n' c e) \<Rightarrow> if c = 0 then None else Some (DInf (n \<noteq> n'))
     | (Dec n c e, DInf n') \<Rightarrow> if c = 0 then None else Some (DInf (n \<noteq> n')))"

definition mult_str :: "pyval \<Rightarrow> pyval \<Rightarrow> pyval canon" where
  "mult_str a b = (case (to_decimal a, to_decimal b) of
       (Some x, Some y) \<Rightarrow> (case dec_mult x y of None \<Rightarrow> Inl Decimal_Error | Some d \<Rightarrow> Inr (PStr (dec_str d)))
     | _ \<Rightarrow> Inl Decimal_Error)"

definition fxo_fields :: "string list" where
  "fxo_fields = [''currency_pair'', ''base_currency'', ''quote_currency'', ''option_type'', ''exercise_style'', ''base_notional'',
     ''quote_notional'', ''strike'', ''expiry_date'', ''expiry_time'', ''settlement_date'', ''settlement_type'',
     ''settlement_currency'', ''fixing_source'', ''premium_amount'', ''premium_currency'', ''premium_payment_date'',
     ''automatic_exercise'', ''calculation_agent'', ''style'', ''payout'', ''payout_currency'', ''barrier_type'', ''barrier'',
     ''lower'', ''upper'', ''rebate'', ''touch_type'', ''pay_at_hit'', ''barrier_monitoring'', ''barrier_determination_agent'']"

definition fxo_required :: "string list" where
  "fxo_required = [''currency_pair'', ''base_currency'', ''quote_currency'', ''option_type'', ''base_notional'', ''expiry_date'',
     ''settlement_date'', ''settlement_type'', ''premium_amount'', ''premium_currency'', ''premium_payment_date'']"

definition fxo_ndo_required :: "string list" where
  "fxo_ndo_required = [''settlement_currency'', ''fixing_source'']"

definition fxo_upper :: "string list" where
  "fxo_upper = [''currency_pair'', ''base_currency'', ''quote_currency'', ''option_type'', ''exercise_style'', ''settlement_type'',
     ''settlement_currency'', ''premium_currency'', ''style'', ''payout_currency'', ''barrier_type'', ''touch_type'', ''barrier_monitoring'']"

definition fxo_numeric :: "string list" where
  "fxo_numeric = [''base_notional'', ''quote_notional'', ''strike'', ''premium_amount'', ''payout'', ''barrier'', ''lower'', ''upper'', ''rebate'']"

definition fxo_adjust :: "string \<Rightarrow> string \<Rightarrow> pyval \<Rightarrow> pyval" where
  "fxo_adjust style f v =
     (if f = ''automatic_exercise'' then PBool (if absent v then True else truthy v)
      else if f = ''pay_at_hit'' then
        (if absent v then (if style = ''TOUCH'' then PBool False else PNone) else PBool (truthy v))
      else v)"

text \<open>The checks of \<open>_fx_option_product_v2\<close>, in the order of the code, then the record.\<close>

definition fxo_checks :: "string \<Rightarrow> pydict \<Rightarrow> unit canon" where
  "fxo_checks style terms =
     (let st = str_upper (str_or (get terms ''settlement_type''));
          need = fxo_required @ the (dict_get style_required style) @ (if st = ''NON_DELIVERABLE'' then fxo_ndo_required else [])
      in bind_res (require (missing terms need = []) Value_Error) (\<lambda>_.
         bind_res (require (st \<in> {''DELIVERABLE'', ''NON_DELIVERABLE''}) Value_Error) (\<lambda>_.
         bind_res (require (up terms ''option_type'' \<in> {''CALL'', ''PUT''}) Value_Error) (\<lambda>_.
         bind_res (style_checks terms style) (\<lambda>_.
         bind_res (require (up terms ''currency_pair'' = up terms ''base_currency'' @ up terms ''quote_currency'') Value_Error) (\<lambda>_.
         bind_res (nonpos_dec (get terms ''base_notional'')) (\<lambda>np.
         bind_res (if np then Inr True else if absent (get terms ''strike'') then Inr False else nonpos_dec (get terms ''strike'')) (\<lambda>np2.
         bind_res (require (\<not> np2) Value_Error) (\<lambda>_.
           require (\<not> py_str (get terms ''settlement_date'') < py_str (get terms ''expiry_date'')) Value_Error)))))))))"

definition fxo_record :: "string \<Rightarrow> pydict \<Rightarrow> string \<times> string \<Rightarrow> json canon" where
  "fxo_record style terms bs =
     (let st = str_upper (str_or (get terms ''settlement_type'')) in
      bind_res (if absent (get terms ''quote_notional'') \<and> \<not> absent (get terms ''strike'')
                then bind_res (mult_str (get terms ''base_notional'') (get terms ''strike'')) (\<lambda>q. Inr (dict_set ''quote_notional'' q terms))
                else Inr terms) (\<lambda>t.
      bind_res (field_items fxo_upper fxo_numeric (fxo_adjust style) fxo_fields t) (\<lambda>items.
        Inr (JObj ([(''product'', JStr (if st = ''NON_DELIVERABLE'' then ''FX_NDO'' else ''FX_OPTION'')),
                    (''buyer'', JStr (fst bs)), (''seller'', JStr (snd bs))] @ items)))))"

definition fx_option_product :: "pydict \<Rightarrow> string \<Rightarrow> string \<Rightarrow> json canon" where
  "fx_option_product terms0 own cp =
     bind_res (style_defaults True terms0) (\<lambda>(style, t1).
       let terms = dict_setdefault ''expiry_time'' (PStr ''10:00 New York'') t1 in
       bind_res (fxo_checks style terms) (\<lambda>_.
       bind_res (deal_sides (get terms ''direction'') own cp) (\<lambda>bs. fxo_record style terms bs)))"

definition fx_fields :: "string list" where
  "fx_fields = [''currency_pair'', ''base_currency'', ''quote_currency'', ''base_notional'', ''quote_notional'', ''forward_rate'',
     ''value_date'', ''settlement_type'', ''settlement_currency'', ''fixing_source'', ''fixing_date'', ''calculation_agent'']"

definition fx_required :: "string list" where
  "fx_required = [''currency_pair'', ''base_currency'', ''quote_currency'', ''base_notional'', ''forward_rate'', ''value_date'',
     ''settlement_type'']"

definition fx_ndf_required :: "string list" where
  "fx_ndf_required = [''settlement_currency'', ''fixing_source'', ''fixing_date'']"

definition fx_upper :: "string list" where
  "fx_upper = [''currency_pair'', ''base_currency'', ''quote_currency'', ''settlement_type'', ''settlement_currency'']"

definition fx_numeric :: "string list" where
  "fx_numeric = [''base_notional'', ''quote_notional'', ''forward_rate'']"

definition fx_checks :: "string \<Rightarrow> pydict \<Rightarrow> unit canon" where
  "fx_checks itype terms =
     (let st = str_upper (str_or (get terms ''settlement_type''));
          need = fx_required @ (if st = ''NON_DELIVERABLE'' \<or> itype = ''NDF'' then fx_ndf_required else [])
      in bind_res (require (missing terms need = []) Value_Error) (\<lambda>_.
         bind_res (require (st \<in> {''DELIVERABLE'', ''NON_DELIVERABLE''}) Value_Error) (\<lambda>_.
         bind_res (require (itype = ''NDF'' \<longrightarrow> st = ''NON_DELIVERABLE'') Value_Error) (\<lambda>_.
         bind_res (require (up terms ''currency_pair'' = up terms ''base_currency'' @ up terms ''quote_currency'') Value_Error) (\<lambda>_.
         bind_res (nonpos_dec (get terms ''base_notional'')) (\<lambda>np.
         bind_res (if np then Inr True else nonpos_dec (get terms ''forward_rate'')) (\<lambda>np2.
           require (\<not> np2) Value_Error)))))))"

definition fx_record :: "string \<Rightarrow> pydict \<Rightarrow> string \<times> string \<Rightarrow> json canon" where
  "fx_record itype terms bs =
     (let st = str_upper (str_or (get terms ''settlement_type'')) in
      bind_res (if absent (get terms ''quote_notional'')
                then bind_res (mult_str (get terms ''base_notional'') (get terms ''forward_rate'')) (\<lambda>q. Inr (dict_set ''quote_notional'' q terms))
                else Inr terms) (\<lambda>t.
      bind_res (field_items fx_upper fx_numeric (\<lambda>_ v. v) fx_fields t) (\<lambda>items.
        Inr (JObj ([(''product'', JStr (if itype = ''FX_SPOT'' then ''FX_SPOT'' else if st = ''NON_DELIVERABLE'' then ''FX_NDF'' else ''FX_FORWARD'')),
                    (''buyer'', JStr (fst bs)), (''seller'', JStr (snd bs))] @ items)))))"

definition fx_product :: "string \<Rightarrow> pydict \<Rightarrow> string \<Rightarrow> string \<Rightarrow> json canon" where
  "fx_product itype terms own cp =
     (if itype = ''FX_OPTION'' then fx_option_product terms own cp
      else bind_res (fx_checks itype terms) (\<lambda>_.
           bind_res (deal_sides (get terms ''direction'') own cp) (\<lambda>bs. fx_record itype terms bs)))"

subsection \<open>Digital-asset products\<close>

definition crypto_common :: "string list" where
  "crypto_common = [''digital_asset'', ''notional_amount'', ''valuation_date'', ''valuation_time'', ''settlement_date'',
     ''settlement_currency'', ''settlement_price_source'', ''calculation_agent'', ''disruption_fallback'']"

definition crypto_option_fields :: "string list" where
  "crypto_option_fields = crypto_common @ [''option_type'', ''exercise_style'', ''strike_price'', ''strike_currency'',
     ''expiration_date'', ''expiration_time'', ''premium_amount'', ''premium_currency'', ''premium_payment_date'', ''automatic_exercise'']"

definition crypto_option_style_fields :: "string list" where
  "crypto_option_style_fields = [''style'', ''payout'', ''payout_currency'', ''barrier_type'', ''barrier'', ''lower'', ''upper'',
     ''rebate'', ''touch_type'', ''pay_at_hit'', ''barrier_monitoring'', ''barrier_determination_agent'']"

definition crypto_forward_fields :: "string list" where
  "crypto_forward_fields = crypto_common @ [''forward_price'', ''price_currency'']"

definition crypto_required :: "string \<Rightarrow> string list" where
  "crypto_required itype = (if itype = ''CRYPTO_OPTION'' then
       [''digital_asset'', ''notional_amount'', ''option_type'', ''exercise_style'', ''expiration_date'', ''valuation_date'',
        ''settlement_date'', ''settlement_currency'', ''settlement_price_source'', ''premium_amount'', ''premium_currency'',
        ''premium_payment_date'']
     else [''digital_asset'', ''notional_amount'', ''forward_price'', ''price_currency'', ''valuation_date'', ''settlement_date'',
        ''settlement_currency'', ''settlement_price_source''])"

definition crypto_upper :: "string list" where
  "crypto_upper = [''digital_asset'', ''option_type'', ''exercise_style'', ''settlement_currency'', ''strike_currency'',
     ''premium_currency'', ''price_currency'', ''style'', ''payout_currency'', ''barrier_type'', ''touch_type'', ''barrier_monitoring'']"

definition crypto_numeric :: "string list" where
  "crypto_numeric = [''notional_amount'', ''strike_price'', ''premium_amount'', ''forward_price'', ''payout'', ''barrier'', ''lower'',
     ''upper'', ''rebate'']"

text \<open>\<open>style\<close> is \<open>None\<close> for a forward. The \<open>pay_at_hit\<close> entry of a styled option is overwritten at the end.\<close>

definition crypto_record :: "string \<Rightarrow> string option \<Rightarrow> pydict \<Rightarrow> string \<times> string \<Rightarrow> json canon" where
  "crypto_record itype style terms bs =
     (let opt = (itype = ''CRYPTO_OPTION'');
          styled = (opt \<and> style \<noteq> Some ''EUROPEAN'');
          fields = (if opt then crypto_option_fields @ (if styled then crypto_option_style_fields else []) else crypto_forward_fields);
          p = get terms ''pay_at_hit''
      in bind_res (field_items crypto_upper crypto_numeric (\<lambda>_ v. v) fields terms) (\<lambda>items.
         bind_res (nonpos_dec (get terms ''notional_amount'')) (\<lambda>np.
         bind_res (require (\<not> np) Value_Error) (\<lambda>_.
         bind_res (require (opt \<longrightarrow> dict_get items ''option_type'' \<in> {Some (JStr ''CALL''), Some (JStr ''PUT'')}) Value_Error) (\<lambda>_.
         let out = [(''product'', JStr (if opt then ''NDO'' else ''NDF'')), (''buyer'', JStr (fst bs)), (''seller'', JStr (snd bs))] @ items
         in Inr (JObj (if styled then dict_set ''pay_at_hit''
                           (if absent p then (if style = Some ''TOUCH'' then JBool False else JNull) else JBool (truthy p)) out
                       else out)))))))"

definition crypto_body :: "string \<Rightarrow> string option \<Rightarrow> pydict \<Rightarrow> string \<Rightarrow> string \<Rightarrow> json canon" where
  "crypto_body itype style terms own cp =
     (let need = crypto_required itype @ (case style of None \<Rightarrow> [] | Some s \<Rightarrow> the (dict_get crypto_style_required s))
      in bind_res (require (missing terms need = []) Value_Error) (\<lambda>_.
         bind_res (case style of None \<Rightarrow> Inr ()
                   | Some s \<Rightarrow> if absent (get terms ''exercise_style'') then Inr () else style_checks terms s) (\<lambda>_.
         bind_res (deal_sides (get terms ''direction'') own cp) (\<lambda>bs. crypto_record itype style terms bs))))"

definition crypto_product :: "string \<Rightarrow> pydict \<Rightarrow> string \<Rightarrow> string \<Rightarrow> json canon" where
  "crypto_product itype terms0 own cp =
     (if itype = ''CRYPTO_OPTION''
      then bind_res (style_defaults False terms0) (\<lambda>(style, terms). crypto_body itype (Some style) terms own cp)
      else crypto_body itype None terms0 own cp)"

subsection \<open>The record and its bytes\<close>

definition crypto_instruments :: "string list" where
  "crypto_instruments = [''CRYPTO_OPTION'', ''CRYPTO_FORWARD'']"

definition fx_instruments :: "string list" where
  "fx_instruments = [''FX_SPOT'', ''FX_FORWARD'', ''NDF'', ''FX_OPTION'']"

definition custom_rows :: "pydict \<Rightarrow> pyval canon" where
  "custom_rows l = (let t = get l ''terms'' in
     if \<not> truthy t then Inr PNone else case t of PDict d \<Rightarrow> Inr (get d ''custom_cashflows'') | _ \<Rightarrow> Inl Type_Error)"

definition leg_v2 :: "string \<Rightarrow> string \<Rightarrow> pydict \<Rightarrow> json canon" where
  "leg_v2 own cp l =
     bind_res (leg_sides (get l ''direction'') own cp) (\<lambda>(payer, receiver).
     bind_res (pick l leg_fields_v2) (\<lambda>items.
     bind_res (normalise (get l ''forecast_curve_id'')) (\<lambda>ix.
     bind_res (options_v2 (get l ''embedded_options'') own cp) (\<lambda>opts.
     bind_res (bind_res (custom_rows l) (\<lambda>rows. cashflows_v2 rows own cp)) (\<lambda>flows.
       Inr (JObj (items @ [(''payer'', JStr payer), (''receiver'', JStr receiver), (''index'', ix),
                           (''embedded_options'', JArr opts), (''custom_cashflows'', JArr flows)])))))))"

definition instrument :: "pydict \<Rightarrow> string" where
  "instrument trade = str_upper (str_or (get trade ''instrument_type''))"

text \<open>\<open>sorted([own, cp])\<close>; the legs are sorted by their text.\<close>

definition head_v2 :: "pydict \<Rightarrow> string \<Rightarrow> string \<Rightarrow> (string \<times> json) list canon" where
  "head_v2 trade own cp =
     bind_res (normalise (get trade ''uti'')) (\<lambda>u.
     bind_res (pick trade trade_fields_v2) (\<lambda>t.
       Inr [(''schema'', JStr ''rijeka-trade''), (''schema_version'', JInt 2), (''uti'', u),
            (''parties'', JArr (map JStr (sort [own, cp]))), (''trade'', JObj t)]))"

definition body_v2 :: "pydict \<Rightarrow> pydict list \<Rightarrow> string \<Rightarrow> string \<Rightarrow> json canon" where
  "body_v2 trade legs own cp =
     (let itype = instrument trade
      in if itype \<in> set crypto_instruments \<or> itype \<in> set fx_instruments then
           bind_res (head_v2 trade own cp) (\<lambda>hd.
           bind_res (terms_of trade) (\<lambda>terms.
           bind_res (if itype \<in> set crypto_instruments then crypto_product itype terms own cp else fx_product itype terms own cp) (\<lambda>p.
             Inr (JObj (hd @ [(''product'', p)])))))
         else
           bind_res (map_res (leg_v2 own cp) legs) (\<lambda>ls.
           bind_res (head_v2 trade own cp) (\<lambda>hd.
             Inr (JObj (hd @ [(''legs'', JArr (sort_key dumps ls))])))))"

definition canonical_v2 :: "pydict \<Rightarrow> pydict list \<Rightarrow> pydict \<Rightarrow> pydict \<Rightarrow> json canon" where
  "canonical_v2 trade legs own_entity counterparty =
     bind_res (lei_of own_entity) (\<lambda>own.
     bind_res (lei_of counterparty) (\<lambda>cp.
       if own = cp then Inl Value_Error else body_v2 trade legs own cp))"

definition canonical_payload :: "pydict \<Rightarrow> pydict list \<Rightarrow> pydict \<Rightarrow> pydict \<Rightarrow> int \<Rightarrow> json canon" where
  "canonical_payload trade legs own cp version =
     (if version = 1 then canonical_v1 trade legs own cp
      else if version = 2 then canonical_v2 trade legs own cp
      else Inl Value_Error)"

definition canonical_bytes :: "json \<Rightarrow> string" where
  "canonical_bytes payload = dumps payload"

definition trade_hash :: "(string \<Rightarrow> string) \<Rightarrow> json \<Rightarrow> string" where
  "trade_hash keccak payload = keccak (canonical_bytes payload)"

definition hex_str :: "string \<Rightarrow> string" where
  "hex_str bs = concat (map (\<lambda>c. let n = (of_char c :: nat) in [hex_char (n div 16), hex_char (n mod 16)]) bs)"

definition trade_hash_hex :: "(string \<Rightarrow> string) \<Rightarrow> json \<Rightarrow> string" where
  "trade_hash_hex keccak payload = ''0x'' @ hex_str (trade_hash keccak payload)"

subsection \<open>The other party's booking\<close>

text \<open>Two directions that name opposite sides; two dictionaries that agree on everything but the direction.\<close>

definition opposite :: "string list \<Rightarrow> string list \<Rightarrow> pyval \<Rightarrow> pyval \<Rightarrow> bool" where
  "opposite pays gets d d' \<longleftrightarrow>
     (let a = str_upper (str_or d); b = str_upper (str_or d')
      in (a \<in> set pays \<and> b \<in> set gets) \<or> (a \<in> set gets \<and> b \<in> set pays))"

definition same_but_direction :: "pydict \<Rightarrow> pydict \<Rightarrow> bool" where
  "same_but_direction d d' \<longleftrightarrow> (\<forall>k. k \<noteq> ''direction'' \<longrightarrow> dict_get d k = dict_get d' k)"

lemma sides_opposite:
  "set pays \<inter> set gets = {} \<Longrightarrow> opposite pays gets d d' \<Longrightarrow> sides d own cp pays gets = sides d' cp own pays gets"
  by (auto simp: opposite_def sides_def Let_def)

lemma same_get: "same_but_direction d d' \<Longrightarrow> k \<noteq> ''direction'' \<Longrightarrow> get d k = get d' k"
  by (simp add: same_but_direction_def get_def)

lemma same_set: "same_but_direction d d' \<Longrightarrow> same_but_direction (dict_set k v d) (dict_set k v d')"
  by (simp add: same_but_direction_def dict_get_set)

lemma setdefault_get: "dict_get (dict_setdefault k v d) k' = (if k' = k \<and> dict_get d k = None then Some v else dict_get d k')"
  by (auto simp: dict_setdefault_def map_of_append map_add_def split: option.splits)

lemma same_setdefault:
  "same_but_direction d d' \<Longrightarrow> k \<noteq> ''direction'' \<Longrightarrow> same_but_direction (dict_setdefault k v d) (dict_setdefault k v d')"
  by (simp add: same_but_direction_def setdefault_get)

lemma direction_setdefault: "k \<noteq> ''direction'' \<Longrightarrow> get (dict_setdefault k v d) ''direction'' = get d ''direction''"
  by (simp add: get_setdefault)

text \<open>What a product record reads: everything but the direction.\<close>

lemma same_missing:
  assumes "same_but_direction d d'" "''direction'' \<notin> set fs"
  shows "missing d fs = missing d' fs"
  unfolding missing_def
proof (rule filter_cong)
  fix f assume "f \<in> set fs"
  with assms(2) have "f \<noteq> ''direction''" by metis
  then show "absent (get d f) = absent (get d' f)" by (simp add: same_get[OF assms(1)])
qed simp

lemma same_field_items:
  assumes "same_but_direction d d'" "''direction'' \<notin> set fs"
  shows "field_items u n a fs d = field_items u n a fs d'"
  unfolding field_items_def
proof (rule map_res_cong)
  fix f assume "f \<in> set fs"
  with assms(2) have "f \<noteq> ''direction''" by metis
  then show "bind_res (field_value u n a f (get d f)) (\<lambda>j. Inr (f, j)) = bind_res (field_value u n a f (get d' f)) (\<lambda>j. Inr (f, j))"
    by (simp add: same_get[OF assms(1)])
qed simp

lemma same_up: "same_but_direction d d' \<Longrightarrow> k \<noteq> ''direction'' \<Longrightarrow> up d k = up d' k"
  by (simp add: up_def same_get)

lemma same_style_checks: "same_but_direction d d' \<Longrightarrow> style_checks d s = style_checks d' s"
  by (simp add: style_checks_def same_up[of d d'] same_get[of d d'])

lemma same_style_defaults:
  assumes "same_but_direction d d'"
  shows "(\<exists>e. style_defaults fx d = Inl e \<and> style_defaults fx d' = Inl e)
    \<or> (\<exists>s t t'. style_defaults fx d = Inr (s, t) \<and> style_defaults fx d' = Inr (s, t') \<and> same_but_direction t t'
         \<and> s \<in> set (map fst style_required)
         \<and> get t ''direction'' = get d ''direction'' \<and> get t' ''direction'' = get d' ''direction'')"
  using same_get[OF assms, of "''style''"] assms
  by (simp add: style_defaults_def Let_def same_set same_setdefault direction_setdefault get_set)

lemma style_in_tables:
  "s \<in> set (map fst style_required) \<Longrightarrow>
     (\<exists>fs. dict_get style_required s = Some fs \<and> ''direction'' \<notin> set fs)
     \<and> (\<exists>fs. dict_get crypto_style_required s = Some fs \<and> ''direction'' \<notin> set fs)"
  by (auto simp: style_required_def crypto_style_required_def)

lemma no_direction:
  "''direction'' \<notin> set fxo_required" "''direction'' \<notin> set fxo_ndo_required" "''direction'' \<notin> set fxo_fields"
  "''direction'' \<notin> set fx_required" "''direction'' \<notin> set fx_ndf_required" "''direction'' \<notin> set fx_fields"
  "''direction'' \<notin> set (crypto_required i)" "''direction'' \<notin> set crypto_option_fields"
  "''direction'' \<notin> set crypto_option_style_fields" "''direction'' \<notin> set crypto_forward_fields"
  by (simp_all add: fxo_required_def fxo_ndo_required_def fxo_fields_def fx_required_def fx_ndf_required_def fx_fields_def
      crypto_required_def crypto_option_fields_def crypto_option_style_fields_def crypto_forward_fields_def crypto_common_def)

lemma same_fxo_checks:
  assumes "same_but_direction d d'" "s \<in> set (map fst style_required)"
  shows "fxo_checks s d = fxo_checks s d'"
proof -
  obtain fs where fs: "dict_get style_required s = Some fs" "''direction'' \<notin> set fs"
    using style_in_tables[OF assms(2)] by blast
  have "missing d (fxo_required @ fs @ (if b then fxo_ndo_required else []))
      = missing d' (fxo_required @ fs @ (if b then fxo_ndo_required else []))" for b
    using fs(2) no_direction by (intro same_missing[OF assms(1)]) simp
  then show ?thesis
    by (simp add: fxo_checks_def fs(1) same_get[OF assms(1)] same_up[OF assms(1)] same_style_checks[OF assms(1)] cong: if_cong)
qed

text \<open>Filling in the quote amount: both records stay the same but for the direction.\<close>

lemma same_filled:
  assumes "same_but_direction d d'" and "''direction'' \<notin> set fs"
  shows "bind_res (if b then bind_res m (\<lambda>q. Inr (dict_set k q d)) else Inr d)
           (\<lambda>t. bind_res (field_items u n a fs t) g)
       = bind_res (if b then bind_res m (\<lambda>q. Inr (dict_set k q d')) else Inr d')
           (\<lambda>t. bind_res (field_items u n a fs t) g)"
  using same_field_items[OF same_set[OF assms(1)] assms(2)] same_field_items[OF assms]
  by (cases m) simp_all

lemma same_fxo_record:
  assumes "same_but_direction d d'"
  shows "fxo_record s d bs = fxo_record s d' bs"
  unfolding fxo_record_def Let_def
  by (simp only: same_get[OF assms, of "''settlement_type''"] same_get[OF assms, of "''quote_notional''"]
      same_get[OF assms, of "''strike''"] same_get[OF assms, of "''base_notional''"] list.inject char.inject simp_thms
      same_filled[OF assms no_direction(3)] not_Cons_self2)

lemma fx_option_mirror:
  assumes "same_but_direction d d'" and "opposite [''BUY'', ''LONG''] [''SELL'', ''SHORT''] (get d ''direction'') (get d' ''direction'')"
  shows "fx_option_product d own cp = fx_option_product d' cp own"
  using same_style_defaults[OF assms(1), of True]
proof (elim disjE exE conjE)
  fix s t t'
  assume t: "style_defaults True d = Inr (s, t)" "style_defaults True d' = Inr (s, t')" "same_but_direction t t'"
    "s \<in> set (map fst style_required)" "get t ''direction'' = get d ''direction''" "get t' ''direction'' = get d' ''direction''"
  let ?u = "dict_setdefault ''expiry_time'' (PStr ''10:00 New York'') t"
  let ?u' = "dict_setdefault ''expiry_time'' (PStr ''10:00 New York'') t'"
  have u: "same_but_direction ?u ?u'" using t(3) by (simp add: same_setdefault)
  have "deal_sides (get ?u ''direction'') own cp = deal_sides (get ?u' ''direction'') cp own"
    using assms(2) t(5,6) by (intro sides_opposite) (simp_all add: direction_setdefault)
  moreover have "fxo_record s ?u = fxo_record s ?u'" by (rule ext) (rule same_fxo_record[OF u])
  ultimately show ?thesis
    by (simp add: fx_option_product_def same_fxo_checks[OF u t(4)] t(1,2) Let_def)
qed (simp add: fx_option_product_def)

lemma fx_mirror:
  assumes "same_but_direction d d'" and "opposite [''BUY'', ''LONG''] [''SELL'', ''SHORT''] (get d ''direction'') (get d' ''direction'')"
  shows "fx_product i d own cp = fx_product i d' cp own"
proof (cases "i = ''FX_OPTION''")
  case True
  then show ?thesis using fx_option_mirror[OF assms] by (simp add: fx_product_def)
next
  case False
  have m: "missing d (fx_required @ (if b then fx_ndf_required else [])) = missing d' (fx_required @ (if b then fx_ndf_required else []))" for b
    using no_direction by (intro same_missing[OF assms(1)]) simp
  have c: "fx_checks i d = fx_checks i d'"
    by (simp add: fx_checks_def m same_get[OF assms(1)] same_up[OF assms(1)] cong: if_cong)
  have r: "fx_record i d bs = fx_record i d' bs" for bs
    unfolding fx_record_def Let_def
    by (simp only: same_get[OF assms(1), of "''settlement_type''"] same_get[OF assms(1), of "''quote_notional''"]
        same_get[OF assms(1), of "''forward_rate''"] same_get[OF assms(1), of "''base_notional''"] list.inject char.inject simp_thms
        same_filled[OF assms(1) no_direction(6)] not_Cons_self2)
  have "deal_sides (get d ''direction'') own cp = deal_sides (get d' ''direction'') cp own"
    using assms(2) by (intro sides_opposite) simp_all
  moreover have "fx_record i d = fx_record i d'" by (rule ext) (rule r)
  ultimately show ?thesis using False c by (simp add: fx_product_def)
qed

lemma crypto_body_mirror:
  assumes "same_but_direction d d'" and "opposite [''BUY'', ''LONG''] [''SELL'', ''SHORT''] (get d ''direction'') (get d' ''direction'')"
    and s: "\<And>x. s = Some x \<Longrightarrow> x \<in> set (map fst style_required)"
  shows "crypto_body i s d own cp = crypto_body i s d' cp own"
proof -
  define need where "need = crypto_required i @ (case s of None \<Rightarrow> [] | Some s \<Rightarrow> the (dict_get crypto_style_required s))"
  have "''direction'' \<notin> set need"
    using no_direction(7)[of i] s style_in_tables by (cases s) (auto simp: need_def dest!: s style_in_tables)
  then have m: "missing d need = missing d' need" by (rule same_missing[OF assms(1)])
  have fi: "field_items u n a (if b then crypto_option_fields @ (if b' then crypto_option_style_fields else []) else crypto_forward_fields) d
      = field_items u n a (if b then crypto_option_fields @ (if b' then crypto_option_style_fields else []) else crypto_forward_fields) d'" for u n a b b'
    using no_direction by (intro same_field_items[OF assms(1)]) simp
  have r: "crypto_record i s d bs = crypto_record i s d' bs" for bs
    unfolding crypto_record_def Let_def fi
    by (simp add: same_get[OF assms(1)] cong: if_cong)
  have "deal_sides (get d ''direction'') own cp = deal_sides (get d' ''direction'') cp own"
    using assms(2) by (intro sides_opposite) simp_all
  moreover have "crypto_record i s d = crypto_record i s d'" by (rule ext) (rule r)
  ultimately show ?thesis
    unfolding crypto_body_def need_def[symmetric] Let_def m
    by (simp add: same_get[OF assms(1)] same_style_checks[OF assms(1)] cong: if_cong option.case_cong)
qed

lemma crypto_mirror:
  assumes "same_but_direction d d'" and "opposite [''BUY'', ''LONG''] [''SELL'', ''SHORT''] (get d ''direction'') (get d' ''direction'')"
  shows "crypto_product i d own cp = crypto_product i d' cp own"
proof (cases "i = ''CRYPTO_OPTION''")
  case True
  from same_style_defaults[OF assms(1), of False] show ?thesis
  proof (elim disjE exE conjE)
    fix s t t'
    assume t: "style_defaults False d = Inr (s, t)" "style_defaults False d' = Inr (s, t')" "same_but_direction t t'"
      "s \<in> set (map fst style_required)" "get t ''direction'' = get d ''direction''" "get t' ''direction'' = get d' ''direction''"
    with True crypto_body_mirror[of t t' "Some s" i own cp] assms(2) show ?thesis by (simp add: crypto_product_def)
  qed (simp add: True crypto_product_def)
next
  case False
  then show ?thesis using crypto_body_mirror[OF assms, of None i own cp] by (simp add: crypto_product_def)
qed

text \<open>Legs, options and cashflows booked from the other side.\<close>

definition mirrored_option :: "pyval \<Rightarrow> pyval \<Rightarrow> bool" where
  "mirrored_option v v' \<longleftrightarrow> (\<exists>d d'. v = PDict d \<and> v' = PDict d'
     \<and> opposite [''BUY'', ''LONG''] [''SELL'', ''SHORT''] (get d ''direction'') (get d' ''direction'')
     \<and> AList.delete ''direction'' d = AList.delete ''direction'' d')"

definition row_fields :: "string list" where
  "row_fields = [''type'', ''payment_date'', ''accrual_start'', ''accrual_end'', ''currency'']"

text \<open>The same cashflow with the sign of its amount changed; the amount is not zero.\<close>

definition mirrored_row :: "pydict \<Rightarrow> pydict \<Rightarrow> bool" where
  "mirrored_row r r' \<longleftrightarrow> (\<forall>f \<in> set row_fields. get r f = get r' f)
     \<and> (\<exists>n c e. row_amount r = Inr (Dec n c e) \<and> row_amount r' = Inr (Dec (\<not> n) c e) \<and> c \<noteq> 0)"

text \<open>The other side's list in any order.\<close>

definition mirrors :: "('a \<Rightarrow> 'a \<Rightarrow> bool) \<Rightarrow> 'a list \<Rightarrow> 'a list \<Rightarrow> bool" where
  "mirrors R xs ys \<longleftrightarrow> (\<exists>zs. mset zs = mset ys \<and> list_all2 R xs zs)"

definition mirrored_leg :: "pydict \<Rightarrow> pydict \<Rightarrow> bool" where
  "mirrored_leg l l' \<longleftrightarrow> opposite [''PAY''] [''RECEIVE''] (get l ''direction'') (get l' ''direction'')
     \<and> (\<forall>f \<in> set (''forecast_curve_id'' # leg_fields_v2). get l f = get l' f)
     \<and> ((\<not> truthy (get l ''embedded_options'') \<and> \<not> truthy (get l' ''embedded_options''))
        \<or> (\<exists>xs ys. get l ''embedded_options'' = PList xs \<and> get l' ''embedded_options'' = PList ys
              \<and> mirrors mirrored_option xs ys))
     \<and> (\<exists>v v' rs rs'. custom_rows l = Inr v \<and> custom_rows l' = Inr v' \<and> rows_of v = Inr rs \<and> rows_of v' = Inr rs'
          \<and> list_all2 mirrored_row rs rs')"

lemma map_res_mirrors:
  assumes m: "mirrors R xs ys" and f: "map_res f xs = Inr js"
    and R: "\<And>x y j. R x y \<Longrightarrow> f x = Inr j \<Longrightarrow> \<exists>j'. g y = Inr j' \<and> h j = h j'"
  shows "\<exists>js'. map_res g ys = Inr js' \<and> mset (map h js) = mset (map h js')"
proof -
  obtain zs where zs: "mset zs = mset ys" "list_all2 R xs zs" using m by (auto simp: mirrors_def)
  from zs(2) f have "\<exists>js''. map_res g zs = Inr js'' \<and> map h js = map h js''"
  proof (induction xs zs arbitrary: js rule: list_all2_induct)
    case (Cons x xs z zs)
    from Cons.prems obtain j js0 where j: "f x = Inr j" "map_res f xs = Inr js0" "js = j # js0"
      by (auto split: sum.splits)
    with Cons.IH[of js0] R[OF Cons.hyps(1)] show ?case by fastforce
  qed simp
  then obtain js'' where js: "map_res g zs = Inr js''" "map h js = map h js''" by blast
  define G where "G y = projr (g y)" for y
  have "g y = Inr (G y)" if "y \<in> set zs" for y
    using js(1) that unfolding map_res_Inr_iff list_all2_conv_all_nth in_set_conv_nth by (auto simp: G_def)
  moreover have "set ys = set zs" using zs(1) by (metis set_mset_mset)
  ultimately have G: "map_res g zs = Inr (map G zs)" "map_res g ys = Inr (map G ys)"
    by (auto intro: map_res_Inr_map)
  have "mset (map h js) = mset (map h (map G zs))" using js G(1) by simp
  also have "\<dots> = mset (map h (map G ys))" by (simp only: map_map mset_map zs(1))
  finally show ?thesis using G(2) by blast
qed

lemma option_mirror: "mirrored_option v v' \<Longrightarrow> option_v2 own cp v = option_v2 cp own v'"
  using sides_opposite[of "[''BUY'', ''LONG'']" "[''SELL'', ''SHORT'']"]
  by (auto simp: mirrored_option_def option_v2_def)

lemma options_mirror:
  assumes "mirrors mirrored_option xs ys" "options_v2 (PList xs) own cp = Inr out"
  shows "\<exists>out'. options_v2 (PList ys) cp own = Inr out' \<and> dumps (JArr out) = dumps (JArr out')"
proof (cases "xs = []")
  case True
  with assms show ?thesis by (auto simp: mirrors_def options_v2_def truthy_def)
next
  case False
  with assms(1) have ys: "ys \<noteq> []" by (auto simp: mirrors_def)
  from False assms(2) obtain js where js: "map_res (option_v2 own cp) xs = Inr js" "out = sort_key dumps js"
    by (auto simp: options_v2_def truthy_def bind_res_Inr_iff)
  have "\<exists>j'. option_v2 cp own y = Inr j' \<and> dumps j = dumps j'" if "mirrored_option x y" "option_v2 own cp x = Inr j" for x y j
    using option_mirror[OF that(1), of own cp] that(2) by (intro exI[of _ j]) simp
  then have "\<exists>js'. map_res (option_v2 cp own) ys = Inr js' \<and> mset (map dumps js) = mset (map dumps js')"
    by (rule map_res_mirrors[OF assms(1) js(1)])
  then obtain js' where js': "map_res (option_v2 cp own) ys = Inr js'" "mset (map dumps js) = mset (map dumps js')" by blast
  have "dumps (JArr out) = dumps (JArr (sort_key dumps js'))"
    unfolding js(2) by (intro dumps_arr_cong map_sort_key_mset js'(2))
  moreover have "options_v2 (PList ys) cp own = Inr (sort_key dumps js')"
    using ys js'(1) by (simp add: options_v2_def truthy_def)
  ultimately show ?thesis by blast
qed

lemma cash_row_mirror: "mirrored_row r r' \<Longrightarrow> cash_row own cp r = cash_row cp own r'"
  by (auto simp: mirrored_row_def row_fields_def cash_row_def dec_abs_def)

lemma cashflows_mirror:
  assumes "rows_of v = Inr rs" "rows_of v' = Inr rs'" "list_all2 mirrored_row rs rs'"
  shows "cashflows_v2 v own cp = cashflows_v2 v' cp own"
proof -
  from assms(3) have "map_res (cash_row own cp) rs = map_res (cash_row cp own) rs'"
  proof (induction rs rs' rule: list_all2_induct)
    case (Cons r rs r' rs')
    show ?case unfolding map_res.simps cash_row_mirror[OF Cons.hyps(1)] Cons.IH ..
  qed simp
  with assms show ?thesis by (simp add: cashflows_v2_def)
qed

lemma pick_cong: "(\<And>f. f \<in> set fs \<Longrightarrow> get l f = get l' f) \<Longrightarrow> pick l fs = pick l' fs"
  unfolding pick_def by (rule map_res_cong) simp_all

lemma leg_mirror:
  assumes m: "mirrored_leg l l'" and r: "leg_v2 own cp l = Inr j"
  shows "\<exists>j'. leg_v2 cp own l' = Inr j' \<and> dumps j = dumps j'"
proof -
  from m have sd: "leg_sides (get l ''direction'') own cp = leg_sides (get l' ''direction'') cp own"
    and f: "\<And>f. f \<in> set leg_fields_v2 \<Longrightarrow> get l f = get l' f" and fc: "get l ''forecast_curve_id'' = get l' ''forecast_curve_id''"
    unfolding mirrored_leg_def by (auto intro!: sides_opposite)
  from m obtain v v' rs rs' where rows: "custom_rows l = Inr v" "custom_rows l' = Inr v'" "rows_of v = Inr rs" "rows_of v' = Inr rs'"
    "list_all2 mirrored_row rs rs'" unfolding mirrored_leg_def by blast
  note p = pick_cong[of leg_fields_v2, OF f] and cf = cashflows_mirror[OF rows(3-5), of own cp]
  from r obtain pr rc items ix opts flows where
    1: "leg_sides (get l ''direction'') own cp = Inr (pr, rc)" "pick l leg_fields_v2 = Inr items"
      "normalise (get l ''forecast_curve_id'') = Inr ix" "options_v2 (get l ''embedded_options'') own cp = Inr opts"
      "cashflows_v2 v own cp = Inr flows"
    and j: "j = JObj (items @ [(''payer'', JStr pr), (''receiver'', JStr rc), (''index'', ix),
        (''embedded_options'', JArr opts), (''custom_cashflows'', JArr flows)])"
    by (auto simp: leg_v2_def rows bind_res_Inr_iff)
  have "\<exists>opts'. options_v2 (get l' ''embedded_options'') cp own = Inr opts' \<and> dumps (JArr opts) = dumps (JArr opts')"
  proof (cases "truthy (get l ''embedded_options'') \<or> truthy (get l' ''embedded_options'')")
    case True
    with m obtain xs ys where xy: "get l ''embedded_options'' = PList xs" "get l' ''embedded_options'' = PList ys"
      "mirrors mirrored_option xs ys" unfolding mirrored_leg_def by blast
    from options_mirror[OF xy(3)] 1(4) xy show ?thesis by simp
  next
    case False
    with 1(4) show ?thesis by (simp add: options_v2_def)
  qed
  then obtain opts' where o: "options_v2 (get l' ''embedded_options'') cp own = Inr opts'" "dumps (JArr opts) = dumps (JArr opts')" by blast
  let ?j' = "JObj (items @ [(''payer'', JStr pr), (''receiver'', JStr rc), (''index'', ix),
        (''embedded_options'', JArr opts'), (''custom_cashflows'', JArr flows)])"
  have "leg_v2 cp own l' = Inr ?j'"
    using 1 o(1) by (simp add: leg_v2_def rows sd[symmetric] p[symmetric] fc[symmetric] cf[symmetric])
  moreover have "dumps j = dumps ?j'" unfolding j by (intro dumps_obj_cong) (simp add: o(2))
  ultimately show ?thesis by blast
qed

lemma sort_pair: "sort [a, b] = sort [b, (a :: string)]"
  using linear[of a b] by (cases "a \<le> b"; cases "b \<le> a") auto

definition mirrored_booking :: "pydict \<Rightarrow> pydict list \<Rightarrow> pydict \<Rightarrow> pydict list \<Rightarrow> bool" where
  "mirrored_booking t legs t' legs' \<longleftrightarrow>
     (\<forall>f \<in> set (''uti'' # trade_fields_v2). get t f = get t' f)
     \<and> (if instrument t \<in> set crypto_instruments \<or> instrument t \<in> set fx_instruments
        then \<exists>d d'. terms_of t = Inr d \<and> terms_of t' = Inr d' \<and> same_but_direction d d'
             \<and> opposite [''BUY'', ''LONG''] [''SELL'', ''SHORT''] (get d ''direction'') (get d' ''direction'')
        else mirrors mirrored_leg legs legs')"

subsection \<open>Properties\<close>

lemma mirror_same_bytes:
  assumes m: "mirrored_booking t legs t' legs'"
    and e: "lei_of a = lei_of a'" "lei_of b = lei_of b'"
    and r: "canonical_payload t legs a b 2 = Inr p"
  shows "\<exists>p'. canonical_payload t' legs' b' a' 2 = Inr p' \<and> canonical_bytes p' = canonical_bytes p"
proof -
  from r obtain own cp where l: "lei_of a = Inr own" "lei_of b = Inr cp" "own \<noteq> cp" and body: "body_v2 t legs own cp = Inr p"
    by (auto simp: canonical_payload_def canonical_v2_def bind_res_Inr_iff split: if_splits)
  have f: "get t f = get t' f" if "f \<in> set (''uti'' # trade_fields_v2)" for f
    using m that by (auto simp: mirrored_booking_def)
  have h: "head_v2 t' cp own = head_v2 t own cp"
    using pick_cong[of trade_fields_v2 t t'] f by (simp add: head_v2_def sort_pair[of cp own] del: sort_key_simps)
  have i: "instrument t' = instrument t" using f[of "''instrument_type''"] by (simp add: instrument_def trade_fields_v2_def)
  have "\<exists>p'. body_v2 t' legs' cp own = Inr p' \<and> dumps p' = dumps p"
  proof (cases "instrument t \<in> set crypto_instruments \<or> instrument t \<in> set fx_instruments")
    case True
    with m obtain d d' where d: "terms_of t = Inr d" "terms_of t' = Inr d'" "same_but_direction d d'"
      "opposite [''BUY'', ''LONG''] [''SELL'', ''SHORT''] (get d ''direction'') (get d' ''direction'')"
      by (auto simp: mirrored_booking_def)
    have "body_v2 t' legs' cp own = body_v2 t legs own cp"
      using True crypto_mirror[OF d(3,4), of _ own cp] fx_mirror[OF d(3,4), of _ own cp]
      by (simp add: body_v2_def i h d(1,2) cong: if_cong)
    with body show ?thesis by simp
  next
    case False
    with m have lm: "mirrors mirrored_leg legs legs'" by (simp add: mirrored_booking_def)
    from False body obtain ls hd where ls: "map_res (leg_v2 own cp) legs = Inr ls" and hd: "head_v2 t own cp = Inr hd"
      and p: "p = JObj (hd @ [(''legs'', JArr (sort_key dumps ls))])"
      by (auto simp: body_v2_def Let_def bind_res_Inr_iff)
    have "\<exists>j'. leg_v2 cp own y = Inr j' \<and> dumps j = dumps j'" if "mirrored_leg x y" "leg_v2 own cp x = Inr j" for x y j
      using leg_mirror[OF that] .
    then have "\<exists>ls'. map_res (leg_v2 cp own) legs' = Inr ls' \<and> mset (map dumps ls) = mset (map dumps ls')"
      by (rule map_res_mirrors[OF lm ls])
    then obtain ls' where ls': "map_res (leg_v2 cp own) legs' = Inr ls'" "mset (map dumps ls) = mset (map dumps ls')" by blast
    have "dumps (JArr (sort_key dumps ls)) = dumps (JArr (sort_key dumps ls'))"
      by (intro dumps_arr_cong map_sort_key_mset ls'(2))
    then have "dumps p = dumps (JObj (hd @ [(''legs'', JArr (sort_key dumps ls'))]))"
      unfolding p by (intro dumps_obj_cong) simp
    moreover have "body_v2 t' legs' cp own = Inr (JObj (hd @ [(''legs'', JArr (sort_key dumps ls'))]))"
      using False ls' hd by (simp add: body_v2_def i h)
    ultimately show ?thesis by auto
  qed
  with l e show ?thesis by (auto simp: canonical_payload_def canonical_v2_def canonical_bytes_def)
qed

text \<open>C2: Both parties sign the same bytes. Take a booking and the other party's own booking of the same
  trade: own entity and counterparty exchanged, every direction turned round, every custom cashflow with
  the opposite sign (and not zero), legs and embedded options listed in any order, firm-internal fields
  arbitrary; for a currency or digital-asset product the terms differ in the direction alone. Whenever the
  first has a version-2 record, so has the second, and the canonical bytes are equal.\<close>

theorem both_bookings_same_bytes:
  assumes m: "mirrored_booking t legs t' legs'"
    and e: "lei_of a = lei_of a'" "lei_of b = lei_of b'"
    and r: "canonical_payload t legs a b 2 = Inr p"
  shows "\<exists>p'. canonical_payload t' legs' b' a' 2 = Inr p' \<and> canonical_bytes p' = canonical_bytes p"
  by (rule mirror_same_bytes[OF m e r])

text \<open>A swap as its two parties book it.\<close>

definition demo_row :: "decimal \<Rightarrow> pydict" where
  "demo_row amt = [(''type'', PStr ''FEE''), (''payment_date'', PStr ''2026-07-01''), (''amount'', PNum amt)]"

definition demo_leg :: "string \<Rightarrow> string \<Rightarrow> decimal \<Rightarrow> pydict" where
  "demo_leg ty dir amt = [(''leg_type'', PStr ty), (''direction'', PStr dir), (''currency'', PStr ''EUR''),
     (''notional'', PNum (Dec False 25 6)),
     (''terms'', PDict [(''custom_cashflows'', PList [PDict (demo_row amt)])])]"

definition demo_trade :: "string \<Rightarrow> pydict" where
  "demo_trade ref = [(''trade_ref'', PStr ref), (''uti'', PStr ''UTI1''), (''instrument_type'', PStr ''IR_SWAP'')]"

definition demo_party :: "string \<Rightarrow> pydict" where
  "demo_party lei = [(''lei'', PStr lei), (''name'', PStr ''n'')]"

abbreviation (input) demo_legs_a :: "pydict list" where
  "demo_legs_a \<equiv> [demo_leg ''FIXED'' ''PAY'' (Dec True 5 3), demo_leg ''FLOAT'' ''RECEIVE'' (Dec False 7 3)]"

abbreviation (input) demo_legs_b :: "pydict list" where
  "demo_legs_b \<equiv> [demo_leg ''FLOAT'' ''pay'' (Dec True 7 3), demo_leg ''FIXED'' ''RECEIVE'' (Dec False 5 3)]"

lemma demo_mirrored: "mirrored_booking (demo_trade ''A-1'') demo_legs_a (demo_trade ''B-77'') demo_legs_b"
proof -
  have i: "\<not> (instrument (demo_trade ''A-1'') \<in> set crypto_instruments \<or> instrument (demo_trade ''A-1'') \<in> set fx_instruments)"
    by code_simp
  have f: "\<forall>f \<in> set (''uti'' # trade_fields_v2). get (demo_trade ''A-1'') f = get (demo_trade ''B-77'') f" by code_simp
  have rows: "\<exists>v v' rs rs'. custom_rows (demo_leg ty d a) = Inr v \<and> custom_rows (demo_leg ty d' a') = Inr v' \<and> rows_of v = Inr rs
      \<and> rows_of v' = Inr rs' \<and> list_all2 mirrored_row rs rs'"
    if "a = Dec n c e" "a' = Dec (\<not> n) c e" "c \<noteq> 0" for ty d d' a a' n c e
    using that by (simp add: custom_rows_def demo_leg_def get_def truthy_def rows_of_def row_dict_def mirrored_row_def
        row_fields_def row_amount_def demo_row_def to_decimal_def Let_def)
  have fields: "\<forall>f \<in> set (''forecast_curve_id'' # leg_fields_v2). get (demo_leg ty d a) f = get (demo_leg ty d' a') f" for ty d d' a a'
    by (simp add: leg_fields_v2_def demo_leg_def get_def)
  have opts: "\<not> truthy (get (demo_leg ty d a) ''embedded_options'')" for ty d a
    by (simp add: demo_leg_def get_def truthy_def)
  have dirs: "opposite [''PAY''] [''RECEIVE''] (get (demo_leg ''FIXED'' ''PAY'' a) ''direction'') (get (demo_leg ''FIXED'' ''RECEIVE'' a') ''direction'')"
    "opposite [''PAY''] [''RECEIVE''] (get (demo_leg ''FLOAT'' ''RECEIVE'' a) ''direction'') (get (demo_leg ''FLOAT'' ''pay'' a') ''direction'')" for a a'
    by code_simp+
  have "mirrored_leg (demo_leg ''FIXED'' ''PAY'' (Dec True 5 3)) (demo_leg ''FIXED'' ''RECEIVE'' (Dec False 5 3))"
    unfolding mirrored_leg_def using fields opts dirs(1) rows[of "Dec True 5 3" True 5 3 "Dec False 5 3"] by (intro conjI) simp_all
  moreover have "mirrored_leg (demo_leg ''FLOAT'' ''RECEIVE'' (Dec False 7 3)) (demo_leg ''FLOAT'' ''pay'' (Dec True 7 3))"
    unfolding mirrored_leg_def using fields opts dirs(2) rows[of "Dec False 7 3" False 7 3 "Dec True 7 3"] by (intro conjI) simp_all
  ultimately have "mirrors mirrored_leg demo_legs_a demo_legs_b"
    unfolding mirrors_def by (intro exI[of _ "rev demo_legs_b"]) simp
  with i f show ?thesis by (simp add: mirrored_booking_def del: list.set)
qed

lemma demo_recorded: "\<exists>p. canonical_payload (demo_trade ''A-1'') demo_legs_a (demo_party ''LEIA'') (demo_party ''LEIB'') 2 = Inr p"
proof -
  have "case leg_v2 ''LEIA'' ''LEIB'' (demo_leg ''FIXED'' ''PAY'' (Dec True 5 3)) of Inr p \<Rightarrow> True | Inl _ \<Rightarrow> False"
    "case leg_v2 ''LEIA'' ''LEIB'' (demo_leg ''FLOAT'' ''RECEIVE'' (Dec False 7 3)) of Inr p \<Rightarrow> True | Inl _ \<Rightarrow> False"
    "case head_v2 (demo_trade ''A-1'') ''LEIA'' ''LEIB'' of Inr p \<Rightarrow> True | Inl _ \<Rightarrow> False"
    by code_simp+
  then obtain l1 l2 hd where l: "leg_v2 ''LEIA'' ''LEIB'' (demo_leg ''FIXED'' ''PAY'' (Dec True 5 3)) = Inr l1"
    "leg_v2 ''LEIA'' ''LEIB'' (demo_leg ''FLOAT'' ''RECEIVE'' (Dec False 7 3)) = Inr l2"
    "head_v2 (demo_trade ''A-1'') ''LEIA'' ''LEIB'' = Inr hd" by (auto split: sum.splits)
  have i: "instrument (demo_trade ''A-1'') = ''IR_SWAP''" "lei_of (demo_party ''LEIA'') = Inr ''LEIA''" "lei_of (demo_party ''LEIB'') = Inr ''LEIB''"
    by code_simp+
  show ?thesis
    using l i by (simp add: canonical_payload_def canonical_v2_def body_v2_def crypto_instruments_def fx_instruments_def)
qed

theorem both_bookings_same_bytes_witness:
  "\<exists>p p'. canonical_payload (demo_trade ''A-1'') demo_legs_a (demo_party ''LEIA'') (demo_party ''LEIB'') 2 = Inr p
     \<and> canonical_payload (demo_trade ''B-77'') demo_legs_b (demo_party ''LEIB'') (demo_party ''LEIA'') 2 = Inr p'
     \<and> canonical_bytes p' = canonical_bytes p"
proof -
  obtain p where p: "canonical_payload (demo_trade ''A-1'') demo_legs_a (demo_party ''LEIA'') (demo_party ''LEIB'') 2 = Inr p"
    using demo_recorded by blast
  from both_bookings_same_bytes[OF demo_mirrored refl refl this] p show ?thesis by auto
qed

text \<open>A custom cashflow of amount zero is the exception: its payer is whichever party did not book, so the
  two sides' records of the same row differ, and with them the bytes of the trade.\<close>

theorem zero_cashflow_depends_on_side:
  assumes "row_amount r = Inr (Dec n 0 e)" and "own \<noteq> cp" and "cash_row own cp r = Inr (k, j)"
  shows "\<exists>k' j'. cash_row cp own r = Inr (k', j') \<and> dumps j \<noteq> dumps j'"
proof -
  from assms(1,3) obtain ty pd as ae cy am where
    1: "normalise (get r ''type'') = Inr ty" "normalise (get r ''payment_date'') = Inr pd"
      "normalise (get r ''accrual_start'') = Inr as" "normalise (get r ''accrual_end'') = Inr ae"
      "normalise (get r ''currency'') = Inr cy" "num_of (PNum (dec_abs (Dec n 0 e))) = Inr am"
    and j: "j = JObj [(''type'', ty), (''payment_date'', pd), (''accrual_start'', as), (''accrual_end'', ae),
       (''currency'', cy), (''amount'', JStr am), (''payer'', JStr cp), (''receiver'', JStr own)]"
    by (auto simp: cash_row_def bind_res_Inr_iff Let_def)
  let ?j' = "JObj [(''type'', ty), (''payment_date'', pd), (''accrual_start'', as), (''accrual_end'', ae),
       (''currency'', cy), (''amount'', JStr am), (''payer'', JStr own), (''receiver'', JStr cp)]"
  have "\<exists>k'. cash_row cp own r = Inr (k', ?j')" using assms(1) 1 by (simp add: cash_row_def)
  moreover have "dumps j \<noteq> dumps ?j'"
  proof
    assume "dumps j = dumps ?j'"
    from dumps_obj_items[OF this[unfolded j]]
    have "(''payer'', JStr cp) \<in> set (jsort_obj [(''type'', ty), (''payment_date'', pd), (''accrual_start'', as), (''accrual_end'', ae),
       (''currency'', cy), (''amount'', JStr am), (''payer'', JStr own), (''receiver'', JStr cp)])"
      by (rule subst) (simp only: jsort_obj.simps fst_conv snd_conv jsort.simps list.set insert_iff simp_thms)
    then have "JStr cp = JStr own" by (simp only: jsort_obj.simps fst_conv snd_conv jsort.simps list.set insert_iff empty_iff) simp
    with assms(2) show False by simp
  qed
  ultimately show ?thesis by blast
qed

theorem zero_cashflow_depends_on_side_witness:
  "\<exists>k j k' j'. cash_row ''LEIA'' ''LEIB'' (demo_row (Dec False 0 0)) = Inr (k, j)
     \<and> cash_row ''LEIB'' ''LEIA'' (demo_row (Dec False 0 0)) = Inr (k', j') \<and> dumps j \<noteq> dumps j'"
proof -
  have "row_amount (demo_row (Dec False 0 0)) = Inr (Dec False 0 0)" by code_simp
  moreover have "case cash_row ''LEIA'' ''LEIB'' (demo_row (Dec False 0 0)) of Inr p \<Rightarrow> True | Inl _ \<Rightarrow> False" by code_simp
  then obtain k j where "cash_row ''LEIA'' ''LEIB'' (demo_row (Dec False 0 0)) = Inr (k, j)" by (auto split: sum.splits)
  ultimately show ?thesis
    using zero_cashflow_depends_on_side[of "demo_row (Dec False 0 0)" False 0 "''LEIA''" "''LEIB''" k j] by auto
qed


end
