(* ===== verification/Projection.thy ===== *)
theory Projection
  imports Json
begin

section \<open>Projecting a trade's event stream (projections/trade_projection.py)\<close>

text \<open>
  The fold that turns the ordered events of a trade into its current trade row, legs and cashflows. A row
  is a dictionary. \<open>Projection_Error\<close> is the exception of the source; a payload whose parts have not the
  shapes its contract names (a list where a dictionary is read, an unhashable id) raises a \<open>TypeError\<close>,
  \<open>AttributeError\<close> or \<open>ValueError\<close>: \<open>Bad_Shape\<close>. Values are immutable here, so the \<open>deepcopy\<close> before
  each handler needs no counterpart.
\<close>

datatype event_type = BOOKED | CONFIRMED | ACTIVATED | AMENDED | BOOK_TRANSFER | STORE_CHANGE | PARTIAL_TERMINATION
  | NOVATED | TERMINATED | MATURED | CANCELLED | DEFAULTED | COMPRESSION | CREDIT_EVENT

definition event_names :: "(string \<times> event_type) list" where
  "event_names = [(''BOOKED'', BOOKED), (''CONFIRMED'', CONFIRMED), (''ACTIVATED'', ACTIVATED), (''AMENDED'', AMENDED),
     (''BOOK_TRANSFER'', BOOK_TRANSFER), (''STORE_CHANGE'', STORE_CHANGE), (''PARTIAL_TERMINATION'', PARTIAL_TERMINATION),
     (''NOVATED'', NOVATED), (''TERMINATED'', TERMINATED), (''MATURED'', MATURED), (''CANCELLED'', CANCELLED),
     (''DEFAULTED'', DEFAULTED), (''COMPRESSION'', COMPRESSION), (''CREDIT_EVENT'', CREDIT_EVENT)]"

definition status_only :: "event_type \<Rightarrow> string option" where
  "status_only et = (case et of CONFIRMED \<Rightarrow> Some ''CONFIRMED'' | ACTIVATED \<Rightarrow> Some ''LIVE'' | TERMINATED \<Rightarrow> Some ''TERMINATED''
     | MATURED \<Rightarrow> Some ''MATURED'' | CANCELLED \<Rightarrow> Some ''CANCELLED'' | DEFAULTED \<Rightarrow> Some ''DEFAULTED'' | _ \<Rightarrow> None)"

record event_like =
  event_seq :: int
  event_type :: string
  ev_payload :: pydict

record projection =
  p_trade :: "pydict option"
  p_legs :: "pydict list"
  p_cashflows :: "pydict list"

definition empty_projection :: projection where
  "empty_projection = \<lparr>p_trade = None, p_legs = [], p_cashflows = []\<rparr>"

datatype proj_error = Projection_Error | Bad_Shape

type_synonym 'a proj = "(proj_error, 'a) res"

subsection \<open>Reading payloads\<close>

text \<open>\<open>x or {}\<close> read as a dictionary, and \<open>[dict(r) for r in (x or [])]\<close>.\<close>

definition dict_or_empty :: "pyval \<Rightarrow> pydict proj" where
  "dict_or_empty v = (if \<not> truthy v then Inr [] else case v of PDict d \<Rightarrow> Inr d | _ \<Rightarrow> Inl Bad_Shape)"

definition as_dict :: "pyval \<Rightarrow> pydict proj" where
  "as_dict v = (case v of PDict d \<Rightarrow> Inr d | _ \<Rightarrow> Inl Bad_Shape)"

definition dicts_or_empty :: "pyval \<Rightarrow> pydict list proj" where
  "dicts_or_empty v = (if \<not> truthy v then Inr [] else case v of PList xs \<Rightarrow> map_res as_dict xs | _ \<Rightarrow> Inl Bad_Shape)"

definition hashable :: "pyval \<Rightarrow> bool" where
  "hashable v = (case v of PList _ \<Rightarrow> False | PDict _ \<Rightarrow> False | _ \<Rightarrow> True)"

subsection \<open>Handlers\<close>

definition set_trade :: "string \<Rightarrow> pyval \<Rightarrow> projection \<Rightarrow> projection" where
  "set_trade k v p = p\<lparr>p_trade := map_option (dict_set k v) (p_trade p)\<rparr>"

definition h_booked :: "projection \<Rightarrow> pydict \<Rightarrow> projection proj" where
  "h_booked p payload =
     (if p_trade p \<noteq> None then Inl Projection_Error
      else (case get payload ''trade'' of
              PDict t \<Rightarrow>
                bind_res (dicts_or_empty (get payload ''legs'')) (\<lambda>ls.
                bind_res (dicts_or_empty (get payload ''cashflows'')) (\<lambda>cs.
                  Inr \<lparr>p_trade = Some (dict_set ''status'' (PStr ''PENDING'') t), p_legs = ls, p_cashflows = cs\<rparr>))
            | _ \<Rightarrow> Inl Projection_Error))"

text \<open>\<open>{c["id"]: c for c in cs if "id" in c}\<close> (the last entry of an id wins), and the update of the rows.\<close>

definition updates_by_id :: "pydict list \<Rightarrow> (pyval \<times> pydict) list proj" where
  "updates_by_id cs =
     (let us = filter (\<lambda>c. dict_get c ''id'' \<noteq> None) cs
      in if list_all (\<lambda>c. hashable (get c ''id'')) us then Inr (rev (map (\<lambda>c. (get c ''id'', c)) us)) else Inl Bad_Shape)"

definition merge_row :: "pydict \<Rightarrow> pydict \<Rightarrow> pydict" where
  "merge_row row upd = foldl (\<lambda>r (k, v). if k = ''id'' then r else dict_set k v r) row upd"

definition update_rows :: "(pyval \<times> pydict) list \<Rightarrow> pydict list \<Rightarrow> pydict list proj" where
  "update_rows us rows =
     map_res (\<lambda>r. if \<not> hashable (get r ''id'') then Inl Bad_Shape
                  else Inr (case dict_get us (get r ''id'') of None \<Rightarrow> r | Some u \<Rightarrow> merge_row r u)) rows"

definition h_amended :: "projection \<Rightarrow> pydict \<Rightarrow> projection proj" where
  "h_amended p payload =
     bind_res (dict_or_empty (get payload ''changes'')) (\<lambda>changes.
     bind_res (dict_or_empty (get changes ''trade'')) (\<lambda>tc.
     bind_res (bind_res (dicts_or_empty (get changes ''legs'')) updates_by_id) (\<lambda>lu.
     bind_res (update_rows lu (p_legs p)) (\<lambda>ls.
     bind_res (bind_res (dicts_or_empty (get changes ''cashflows'')) updates_by_id) (\<lambda>cu.
     bind_res (update_rows cu (p_cashflows p)) (\<lambda>cs.
       Inr \<lparr>p_trade = map_option (\<lambda>t. foldl (\<lambda>r (k, v). dict_set k v r) t tc) (p_trade p), p_legs = ls, p_cashflows = cs\<rparr>))))))"

definition h_set_from :: "string \<Rightarrow> string \<Rightarrow> projection \<Rightarrow> pydict \<Rightarrow> projection proj" where
  "h_set_from source target p payload =
     (let v = get payload source in if v = PNone then Inl Projection_Error else Inr (set_trade target v p))"

definition h_book_transfer :: "projection \<Rightarrow> pydict \<Rightarrow> projection proj" where
  "h_book_transfer = h_set_from ''new_book'' ''book''"

definition h_store_change :: "projection \<Rightarrow> pydict \<Rightarrow> projection proj" where
  "h_store_change = h_set_from ''new_store'' ''store''"

fun set_first_notional :: "pyval \<Rightarrow> pyval \<Rightarrow> pydict list \<Rightarrow> pydict list option" where
  "set_first_notional i n [] = None"
| "set_first_notional i n (l # ls) =
     (if get l ''id'' = i then Some (dict_set ''notional'' n l # ls) else map_option ((#) l) (set_first_notional i n ls))"

definition h_partial_termination :: "projection \<Rightarrow> pydict \<Rightarrow> projection proj" where
  "h_partial_termination p payload =
     (let i = get payload ''leg_id''; n = get payload ''new_notional''
      in if i = PNone \<or> n = PNone then Inl Projection_Error
         else (case set_first_notional i n (p_legs p) of None \<Rightarrow> Inl Projection_Error | Some ls \<Rightarrow> Inr (p\<lparr>p_legs := ls\<rparr>)))"

definition h_novated :: "projection \<Rightarrow> pydict \<Rightarrow> projection proj" where
  "h_novated p payload =
     bind_res (h_set_from ''new_counterparty_id'' ''counterparty_id'' p payload) (\<lambda>q. Inr (set_trade ''status'' (PStr ''NOVATED'') q))"

definition h_credit_event :: "projection \<Rightarrow> pydict \<Rightarrow> projection proj" where
  "h_credit_event p payload =
     (let t = (case p_trade p of None \<Rightarrow> [] | Some t \<Rightarrow> t) in
      bind_res (dict_or_empty (get t ''terms'')) (\<lambda>terms.
      bind_res (if \<not> truthy (get terms ''credit_events'') then Inr []
                else case get terms ''credit_events'' of PList xs \<Rightarrow> Inr xs | _ \<Rightarrow> Inl Bad_Shape) (\<lambda>evs.
        Inr (set_trade ''terms'' (PDict (dict_set ''credit_events''
               (PList (evs @ [PDict [(''as_of'', get payload ''as_of''), (''kind'', get payload ''kind''), (''note'', get payload ''note'')]]))
               terms)) p))))"

definition h_compression :: "projection \<Rightarrow> pydict \<Rightarrow> projection proj" where
  "h_compression p payload = Inl Projection_Error"

definition apply_event :: "projection \<Rightarrow> event_type \<Rightarrow> pydict \<Rightarrow> projection proj" where
  "apply_event p et payload =
     (if et = BOOKED then h_booked p payload
      else if p_trade p = None then Inl Projection_Error
      else (case status_only et of
              Some s \<Rightarrow> Inr (set_trade ''status'' (PStr s) p)
            | None \<Rightarrow> (case et of
                AMENDED \<Rightarrow> h_amended p payload
              | BOOK_TRANSFER \<Rightarrow> h_book_transfer p payload
              | STORE_CHANGE \<Rightarrow> h_store_change p payload
              | PARTIAL_TERMINATION \<Rightarrow> h_partial_termination p payload
              | NOVATED \<Rightarrow> h_novated p payload
              | CREDIT_EVENT \<Rightarrow> h_credit_event p payload
              | COMPRESSION \<Rightarrow> h_compression p payload
              | _ \<Rightarrow> Inl Projection_Error)))"

text \<open>The loop of \<open>project\<close>: the running projection and the sequence number it expects.\<close>

fun project_from :: "int \<Rightarrow> projection \<Rightarrow> event_like list \<Rightarrow> projection proj" where
  "project_from expected p [] = Inr p"
| "project_from expected p (e # es) =
     (if event_seq e \<noteq> expected then Inl Projection_Error
      else (case dict_get event_names (event_type e) of
              None \<Rightarrow> Inl Projection_Error
            | Some et \<Rightarrow> bind_res (apply_event p et (ev_payload e)) (\<lambda>q. project_from (expected + 1) q es)))"

definition project :: "event_like list \<Rightarrow> projection proj" where
  "project events = project_from 1 empty_projection events"

text \<open>\<open>project_from_db\<close>: the rows of the trade in ascending sequence order.\<close>

definition project_rows :: "('id \<times> event_like) list \<Rightarrow> 'id \<Rightarrow> projection proj" where
  "project_rows rows trade_id = project (sort_key event_seq (map snd (filter (\<lambda>r. fst r = trade_id) rows)))"

subsection \<open>One event\<close>

lemma event_names_simps [simp]:
  "dict_get event_names s = Some BOOKED \<longleftrightarrow> s = ''BOOKED''"
  "dict_get event_names s = Some COMPRESSION \<longleftrightarrow> s = ''COMPRESSION''"
  by (auto simp: event_names_def)

abbreviation row_ids :: "pydict list \<Rightarrow> pyval list" where
  "row_ids rows \<equiv> map (\<lambda>r. get r ''id'') rows"

lemma merge_row_id [simp]: "get (merge_row r u) ''id'' = get r ''id''"
proof -
  have "get (foldl (\<lambda>r (k, v). if k = ''id'' then r else dict_set k v r) r u) ''id'' = get r ''id''" for r
    by (induction u arbitrary: r) (auto simp: get_set)
  then show ?thesis by (simp add: merge_row_def)
qed

lemma update_rows_ids: "update_rows us rows = Inr rows' \<Longrightarrow> row_ids rows' = row_ids rows"
  unfolding update_rows_def map_res_Inr_iff
  by (induction rows rows' rule: list_all2_induct) (auto split: if_splits option.splits)

lemma set_first_notional_ids: "set_first_notional i n ls = Some ls' \<Longrightarrow> row_ids ls' = row_ids ls"
  by (induction ls arbitrary: ls') (auto simp: get_set split: if_splits)

lemma set_trade_simps [simp]:
  "p_legs (set_trade k v p) = p_legs p" "p_cashflows (set_trade k v p) = p_cashflows p"
  "p_trade (set_trade k v p) = map_option (dict_set k v) (p_trade p)"
  by (simp_all add: set_trade_def)

lemma h_set_from_Inr: "h_set_from a b p payload = Inr q \<longleftrightarrow> get payload a \<noteq> PNone \<and> q = set_trade b (get payload a) p"
  by (auto simp: h_set_from_def Let_def)

text \<open>After the booking, every event keeps the trade and the identities of its rows.\<close>

lemma apply_event_rows:
  assumes "apply_event p et payload = Inr q" "et \<noteq> BOOKED"
  shows "p_trade p \<noteq> None \<and> p_trade q \<noteq> None \<and> et \<noteq> COMPRESSION
    \<and> row_ids (p_legs q) = row_ids (p_legs p) \<and> row_ids (p_cashflows q) = row_ids (p_cashflows p)"
proof -
  from assms have t: "p_trade p \<noteq> None" by (auto simp: apply_event_def split: if_splits)
  show ?thesis
  proof (cases et)
    case AMENDED
    with assms t show ?thesis
      by (auto simp: apply_event_def status_only_def h_amended_def bind_res_Inr_iff update_rows_ids)
  next
    case PARTIAL_TERMINATION
    with assms t show ?thesis
      by (auto simp: apply_event_def status_only_def h_partial_termination_def Let_def set_first_notional_ids
          split: if_splits option.splits)
  next
    case CREDIT_EVENT
    with assms t show ?thesis
      by (auto simp: apply_event_def status_only_def h_credit_event_def Let_def bind_res_Inr_iff)
  qed (use assms t in \<open>auto simp: apply_event_def status_only_def h_book_transfer_def h_store_change_def h_novated_def
        h_set_from_Inr bind_res_Inr_iff h_compression_def\<close>)
qed

lemma apply_event_booked:
  "apply_event p BOOKED payload = Inr q \<Longrightarrow> p_trade p = None \<and> p_trade q \<noteq> None
     \<and> dicts_or_empty (get payload ''legs'') = Inr (p_legs q) \<and> dicts_or_empty (get payload ''cashflows'') = Inr (p_cashflows q)
     \<and> get (the (p_trade q)) ''status'' = PStr ''PENDING''"
  by (auto simp: apply_event_def h_booked_def bind_res_Inr_iff get_set split: if_splits pyval.splits)

lemma project_from_append:
  "project_from k p (es @ es') = bind_res (project_from k p es) (\<lambda>q. project_from (k + int (length es)) q es')"
proof (induction es arbitrary: k p)
  case (Cons e es)
  show ?case
    by (cases "dict_get event_names (event_type e)"; cases "apply_event p (the (dict_get event_names (event_type e))) (ev_payload e)")
       (auto simp: Cons.IH algebra_simps)
qed simp

lemma project_from_booked:
  assumes "project_from k p es = Inr q" "p_trade p \<noteq> None"
  shows "map event_seq es = [k..k + int (length es) - 1] \<and> p_trade q \<noteq> None
    \<and> (\<forall>e \<in> set es. event_type e \<noteq> ''BOOKED'' \<and> event_type e \<noteq> ''COMPRESSION'' \<and> event_type e \<in> set (map fst event_names))
    \<and> row_ids (p_legs q) = row_ids (p_legs p) \<and> row_ids (p_cashflows q) = row_ids (p_cashflows p)"
  using assms
proof (induction k p es rule: project_from.induct)
  case (2 k p e es)
  from "2.prems"(1) obtain et r where et: "dict_get event_names (event_type e) = Some et" and seq: "event_seq e = k"
    and r: "apply_event p et (ev_payload e) = Inr r" and rest: "project_from (k + 1) r es = Inr q"
    by (auto split: if_splits option.splits simp: bind_res_Inr_iff)
  have nb: "et \<noteq> BOOKED"
  proof
    assume "et = BOOKED"
    with r "2.prems"(2) show False by (simp add: apply_event_def h_booked_def)
  qed
  note ar = apply_event_rows[OF r nb]
  from "2.IH"[OF _ et rest] seq ar have ih: "map event_seq es = [k + 1..k + 1 + int (length es) - 1]" "p_trade q \<noteq> None"
    "\<forall>e \<in> set es. event_type e \<noteq> ''BOOKED'' \<and> event_type e \<noteq> ''COMPRESSION'' \<and> event_type e \<in> set (map fst event_names)"
    "row_ids (p_legs q) = row_ids (p_legs r)" "row_ids (p_cashflows q) = row_ids (p_cashflows r)" by simp_all
  have "event_type e \<in> set (map fst event_names)" using map_of_SomeD[OF et] by force
  moreover have "event_type e \<noteq> ''BOOKED''" "event_type e \<noteq> ''COMPRESSION''"
    using et nb ar event_names_simps by (metis option.inject)+
  moreover have "[k..k + int (length (e # es)) - 1] = k # [k + 1..k + 1 + int (length es) - 1]"
    by (subst upto.simps) (simp add: algebra_simps)
  ultimately show ?case using ih ar seq by simp
qed simp

subsection \<open>The status of a trade\<close>

definition status_effect :: "string \<Rightarrow> string option" where
  "status_effect ty = (case dict_get event_names ty of None \<Rightarrow> None
     | Some et \<Rightarrow> if et = BOOKED then Some ''PENDING'' else if et = NOVATED then Some ''NOVATED'' else status_only et)"

text \<open>The status of the last event that carries one.\<close>

definition last_status :: "string \<Rightarrow> event_like list \<Rightarrow> string" where
  "last_status s es = foldl (\<lambda>s e. case status_effect (event_type e) of None \<Rightarrow> s | Some t \<Rightarrow> t) s es"

definition amends_status :: "event_like \<Rightarrow> bool" where
  "amends_status e \<longleftrightarrow> event_type e = ''AMENDED''
     \<and> (\<exists>c t. dict_or_empty (get (ev_payload e) ''changes'') = Inr c \<and> dict_or_empty (get c ''trade'') = Inr t \<and> dict_get t ''status'' \<noteq> None)"

lemma foldl_set_other: "dict_get t k = None \<Longrightarrow> get (foldl (\<lambda>r (k, v). dict_set k v r) d t) k = get d k"
  by (induction t arbitrary: d) (auto simp: get_set split: if_splits)

abbreviation status_of :: "projection \<Rightarrow> pyval" where
  "status_of p \<equiv> get (the (p_trade p)) ''status''"

lemma apply_event_status:
  assumes r: "apply_event p et (ev_payload e) = Inr q" and et: "dict_get event_names (event_type e) = Some et"
    and na: "\<not> amends_status e"
  shows "status_of q = (case status_effect (event_type e) of None \<Rightarrow> status_of p | Some s \<Rightarrow> PStr s)"
proof (cases "et = BOOKED")
  case True
  with apply_event_booked[of p "ev_payload e" q] r et show ?thesis by (simp add: status_effect_def event_names_def)
next
  case False
  with r obtain t where t: "p_trade p = Some t" by (auto simp: apply_event_def split: if_splits)
  show ?thesis
  proof (cases "et = AMENDED")
    case True
    with et have "event_type e = ''AMENDED''" by (auto simp: event_names_def split: if_splits)
    with r t na True et show ?thesis
      by (auto simp: apply_event_def status_only_def h_amended_def bind_res_Inr_iff amends_status_def status_effect_def foldl_set_other)
  next
    case na: False
    with r t et False show ?thesis
      by (cases et) (auto simp: apply_event_def status_only_def status_effect_def h_book_transfer_def h_store_change_def h_novated_def
            h_set_from_Inr bind_res_Inr_iff h_compression_def h_credit_event_def h_partial_termination_def Let_def get_set
            split: if_splits option.splits)
  qed
qed

lemma project_from_status:
  "project_from k p es = Inr q \<Longrightarrow> (\<And>e. e \<in> set es \<Longrightarrow> \<not> amends_status e) \<Longrightarrow> status_of p = PStr s \<Longrightarrow>
     status_of q = PStr (last_status s es)"
proof (induction es arbitrary: k p s)
  case (Cons e es)
  from Cons.prems(1) obtain et r where et: "dict_get event_names (event_type e) = Some et"
    and r: "apply_event p et (ev_payload e) = Inr r" and rest: "project_from (k + 1) r es = Inr q"
    by (auto split: if_splits option.splits simp: bind_res_Inr_iff)
  have "status_of r = PStr (case status_effect (event_type e) of None \<Rightarrow> s | Some t \<Rightarrow> t)"
    using apply_event_status[OF r et] Cons.prems(2)[of e] Cons.prems(3) by (auto split: option.splits)
  from Cons.IH[OF rest _ this] Cons.prems(2) show ?case by (simp add: last_status_def)
qed (simp add: last_status_def)

lemma stream_shape:
  assumes "project es = Inr p"
  shows "map event_seq es = [1..int (length es)] \<and> (p_trade p \<noteq> None \<longleftrightarrow> es \<noteq> [])
    \<and> (es \<noteq> [] \<longrightarrow> event_type (hd es) = ''BOOKED'' \<and> (\<forall>e \<in> set (tl es). event_type e \<noteq> ''BOOKED''))
    \<and> (\<forall>e \<in> set es. event_type e \<noteq> ''COMPRESSION'' \<and> event_type e \<in> set (map fst event_names))"
proof (cases es)
  case Nil
  with assms show ?thesis by (auto simp: project_def empty_projection_def)
next
  case (Cons b rest)
  from assms obtain et r where et: "dict_get event_names (event_type b) = Some et" and seq: "event_seq b = 1"
    and r: "apply_event empty_projection et (ev_payload b) = Inr r" and rest: "project_from 2 r rest = Inr p"
    by (auto simp: project_def Cons bind_res_Inr_iff split: if_splits option.splits)
  have bk: "et = BOOKED" using r by (auto simp: apply_event_def empty_projection_def split: if_splits)
  with et have ty: "event_type b = ''BOOKED''" by simp
  have "p_trade r \<noteq> None" using r bk apply_event_booked by blast
  note shape = project_from_booked[OF rest this]
  have "[1..int (length es)] = 1 # [2..int (length es)]" by (subst upto.simps) (simp add: Cons)
  with shape seq ty show ?thesis by (auto simp: Cons event_names_def)
qed

subsection \<open>Properties\<close>

text \<open>A stream that projects is well formed: its sequence numbers are exactly 1, 2, ..., n, it starts with the only
  BOOKED event, all its types are known and none is COMPRESSION, and the trade exists from the first event on.\<close>

theorem project_stream_shape:
  assumes "project es = Inr p"
  shows "map event_seq es = [1..int (length es)] \<and> (p_trade p \<noteq> None \<longleftrightarrow> es \<noteq> [])
    \<and> (es \<noteq> [] \<longrightarrow> event_type (hd es) = ''BOOKED'' \<and> (\<forall>e \<in> set (tl es). event_type e \<noteq> ''BOOKED''))
    \<and> (\<forall>e \<in> set es. event_type e \<noteq> ''COMPRESSION'' \<and> event_type e \<in> set (map fst event_names))"
  using stream_shape[OF assms] .

definition demo_events :: "event_like list" where
  "demo_events =
     [\<lparr>event_seq = 1, event_type = ''BOOKED'', ev_payload = [(''trade'', PDict [(''book'', PStr ''X'')]),
         (''legs'', PList [PDict [(''id'', PStr ''L1'')], PDict [(''id'', PStr ''L2'')]])]\<rparr>,
      \<lparr>event_seq = 2, event_type = ''CONFIRMED'', ev_payload = []\<rparr>,
      \<lparr>event_seq = 3, event_type = ''AMENDED'', ev_payload = [(''changes'', PDict [(''legs'',
         PList [PDict [(''id'', PStr ''L2''), (''notional'', PStr ''5'')]])])]\<rparr>,
      \<lparr>event_seq = 4, event_type = ''BOOK_TRANSFER'', ev_payload = [(''new_book'', PStr ''Y'')]\<rparr>]"

lemma demo_events_project: "\<exists>p. project demo_events = Inr p"
proof -
  have "case project demo_events of Inr _ \<Rightarrow> True | Inl _ \<Rightarrow> False" by code_simp
  then show ?thesis by (auto split: sum.splits)
qed

theorem project_stream_shape_witness:
  "\<exists>p. project demo_events = Inr p \<and> map event_seq demo_events = [1..4] \<and> p_trade p \<noteq> None"
proof -
  obtain p where p: "project demo_events = Inr p" using demo_events_project by blast
  with project_stream_shape[OF p] show ?thesis by (auto simp: demo_events_def)
qed


text \<open>No event adds, drops, reorders or renames a leg or a cashflow: throughout the life of the trade the rows carry
  the ids, in the order, of the rows it was booked with.\<close>

theorem project_keeps_rows:
  assumes "project (b # es) = Inr p"
  shows "\<exists>ls cs. dicts_or_empty (get (ev_payload b) ''legs'') = Inr ls \<and> row_ids (p_legs p) = row_ids ls
    \<and> dicts_or_empty (get (ev_payload b) ''cashflows'') = Inr cs \<and> row_ids (p_cashflows p) = row_ids cs"
proof -
  from assms obtain et r where r: "apply_event empty_projection et (ev_payload b) = Inr r" and rest: "project_from 2 r es = Inr p"
    by (auto simp: project_def bind_res_Inr_iff split: if_splits option.splits)
  have "et = BOOKED" using r by (auto simp: apply_event_def empty_projection_def split: if_splits)
  with r apply_event_booked have "p_trade r \<noteq> None"
    "dicts_or_empty (get (ev_payload b) ''legs'') = Inr (p_legs r)" "dicts_or_empty (get (ev_payload b) ''cashflows'') = Inr (p_cashflows r)"
    by blast+
  with project_from_booked[OF rest] show ?thesis by auto
qed

theorem project_keeps_rows_witness:
  "\<exists>p. project demo_events = Inr p \<and> row_ids (p_legs p) = [PStr ''L1'', PStr ''L2'']"
proof -
  obtain p where p: "project demo_events = Inr p" using demo_events_project by blast
  then have "project (hd demo_events # tl demo_events) = Inr p" by (simp add: demo_events_def)
  from project_keeps_rows[OF this] p show ?thesis
    by (auto simp: demo_events_def get_def dicts_or_empty_def truthy_def as_dict_def)
qed

text \<open>As long as no amendment writes the trade's \<open>status\<close> field, the status after a stream is the one of the last event
  that carries a status: PENDING from the booking, NOVATED, or the status-only transition.\<close>

theorem project_status:
  assumes "project (b # es) = Inr p" and "\<And>e. e \<in> set (b # es) \<Longrightarrow> \<not> amends_status e"
  shows "status_of p = PStr (last_status ''PENDING'' es)"
proof -
  from assms(1) obtain et r where r: "apply_event empty_projection et (ev_payload b) = Inr r" and rest: "project_from 2 r es = Inr p"
    by (auto simp: project_def bind_res_Inr_iff split: if_splits option.splits)
  have "et = BOOKED" using r by (auto simp: apply_event_def empty_projection_def split: if_splits)
  with r apply_event_booked have "status_of r = PStr ''PENDING''" by blast
  from project_from_status[OF rest _ this] assms(2) show ?thesis by simp
qed

theorem project_status_witness:
  "\<exists>p. project demo_events = Inr p \<and> status_of p = PStr ''CONFIRMED''"
proof -
  obtain p where p: "project demo_events = Inr p" using demo_events_project by blast
  then have p': "project (hd demo_events # tl demo_events) = Inr p" by (simp add: demo_events_def)
  have "\<not> amends_status e" if "e \<in> set (hd demo_events # tl demo_events)" for e
    using that by (auto simp: demo_events_def amends_status_def dict_or_empty_def get_def truthy_def)
  from project_status[OF p' this] have "status_of p = PStr (last_status ''PENDING'' (tl demo_events))" by blast
  moreover have "last_status ''PENDING'' (tl demo_events) = ''CONFIRMED''" by code_simp
  ultimately show ?thesis using p by auto
qed

end
