(* ===== verification/Ledger.thy ===== *)
theory Ledger
  imports Projection
begin

section \<open>Trade events and the atomic lifecycle (api/routes/trade_events.py, chain/lifecycle.py)\<close>

text \<open>
  The event table, the trade rows and the idempotency cache as one state, and the routes over them: append,
  list, confirm, cancel, with their role, tenant and state guards, and the refusal to change a trade
  off-chain once its terms are anchored. An event gets the next sequence number of its trade from the
  insert trigger of docs/schema.sql, whose text is in the repository.

  An answer is a value or an HTTP status; \<open>Crash\<close> is an exception no handler catches (the framework
  answers 500). Random identifiers are arguments. A transaction is atomic, and a request reads the
  trade before its writing transaction starts: \<open>lstep\<close> lets any number of requests overlap that way.
\<close>

datatype http_error = Http int | Crash

record trade_row =
  t_id :: string
  t_user :: string
  t_ref :: string
  t_status :: string
  t_latest :: "string option"
  t_version :: int

record event_row =
  e_id :: string
  e_trade :: string
  e_seq :: int
  e_type :: string
  e_payload :: pydict
  e_pre :: "projection option"
  e_post :: "projection option"
  e_user :: string
  e_hash :: "string option"
  e_cp_confirmed :: bool

record lifecycle_response =
  lr_trade :: trade_row
  lr_legs :: "pydict list"
  lr_event :: string
  lr_replay :: bool

record ledger =
  l_trades :: "trade_row list"
  l_legs :: "(string \<times> int \<times> pydict) list"
  l_events :: "event_row list"
  l_idem :: "((string \<times> string) \<times> lifecycle_response) list"

subsection \<open>Identifiers and callers\<close>

text \<open>\<open>UUID(s)\<close>: braces and dashes are dropped; what remains is 32 hexadecimal digits.\<close>

definition is_hex :: "char \<Rightarrow> bool" where
  "is_hex c \<longleftrightarrow> is_digit c \<or> c \<in> {CHR ''a'', CHR ''b'', CHR ''c'', CHR ''d'', CHR ''e'', CHR ''f''}"

definition parse_uuid :: "string \<Rightarrow> string option" where
  "parse_uuid s =
     (let h = filter (\<lambda>c. c \<noteq> CHR ''-'' \<and> c \<noteq> CHR ''{'' \<and> c \<noteq> CHR ''}'') (str_lower s)
      in if length h = 32 \<and> list_all is_hex h then Some h else None)"

definition write_roles :: "string list" where
  "write_roles = [''trader'', ''admin'']"

text \<open>\<open>(user.get("user_metadata") or {}).get("role", "viewer").lower()\<close>\<close>

definition claims_role :: "pydict \<Rightarrow> string option" where
  "claims_role user =
     (let m = get user ''user_metadata''
      in if \<not> truthy m then Some ''viewer''
         else (case m of
             PDict d \<Rightarrow> (case dict_get d ''role'' of None \<Rightarrow> Some ''viewer'' | Some (PStr s) \<Rightarrow> Some (str_lower s) | _ \<Rightarrow> None)
           | _ \<Rightarrow> None))"

definition user_uuid :: "pydict \<Rightarrow> (http_error, string) res" where
  "user_uuid user = (case get user ''sub'' of PStr s \<Rightarrow> (case parse_uuid s of None \<Rightarrow> Inl Crash | Some u \<Rightarrow> Inr u) | _ \<Rightarrow> Inl Crash)"

definition check_write_role :: "pydict \<Rightarrow> (http_error, string) res" where
  "check_write_role user = (case claims_role user of None \<Rightarrow> Inl Crash
     | Some r \<Rightarrow> if r \<notin> set write_roles then Inl (Http 403) else user_uuid user)"

definition parse_trade_uuid :: "string \<Rightarrow> (http_error, string) res" where
  "parse_trade_uuid s = (case parse_uuid s of None \<Rightarrow> Inl (Http 400) | Some u \<Rightarrow> Inr u)"

definition validate_idempotency_header :: "string option \<Rightarrow> (http_error, unit) res" where
  "validate_idempotency_header key = (case key of None \<Rightarrow> Inr () | Some k \<Rightarrow> if parse_uuid k = None then Inl (Http 400) else Inr ())"

subsection \<open>Reading the store\<close>

definition find_trade :: "ledger \<Rightarrow> string \<Rightarrow> string \<Rightarrow> trade_row option" where
  "find_trade db tid user = List.find (\<lambda>t. t_id t = tid \<and> t_user t = user) (l_trades db)"

definition trade_events_of :: "ledger \<Rightarrow> string \<Rightarrow> event_row list" where
  "trade_events_of db tid = filter (\<lambda>e. e_trade e = tid) (l_events db)"

text \<open>The insert trigger: one more than the largest sequence number of the trade.\<close>

definition next_seq :: "ledger \<Rightarrow> string \<Rightarrow> int" where
  "next_seq db tid = foldl max 0 (map e_seq (trade_events_of db tid)) + 1"

definition as_event :: "event_row \<Rightarrow> string \<times> event_like" where
  "as_event e = (e_trade e, \<lparr>event_seq = e_seq e, event_type = e_type e, ev_payload = e_payload e\<rparr>)"

definition project_from_db :: "ledger \<Rightarrow> string \<Rightarrow> projection proj" where
  "project_from_db db tid = project_rows (map as_event (l_events db)) tid"

subsection \<open>Anchored trades\<close>

definition attested_types :: "string list" where
  "attested_types = [''CONFIRMED'', ''AMENDED'', ''TERMINATED'']"

definition latest_attested_event :: "ledger \<Rightarrow> string \<Rightarrow> event_row option" where
  "latest_attested_event db tid =
     (case rev (sort_key e_seq (filter (\<lambda>e. e_type e \<in> set attested_types) (trade_events_of db tid))) of
        [] \<Rightarrow> None | e # _ \<Rightarrow> Some e)"

definition current_attestation :: "ledger \<Rightarrow> string \<Rightarrow> pydict option" where
  "current_attestation db tid =
     (case latest_attested_event db tid of None \<Rightarrow> None
      | Some e \<Rightarrow> (case get (e_payload e) ''attestation'' of PDict d \<Rightarrow> if d = [] then None else Some d | _ \<Rightarrow> None))"

definition is_anchored :: "pydict \<Rightarrow> bool" where
  "is_anchored att = (case get att ''anchor'' of PDict a \<Rightarrow> truthy (get a ''anchored'') | _ \<Rightarrow> False)"

definition anchored_attestation :: "ledger \<Rightarrow> string \<Rightarrow> pydict option" where
  "anchored_attestation db tid =
     (case current_attestation db tid of None \<Rightarrow> None | Some att \<Rightarrow> if is_anchored att then Some att else None)"

definition is_terminated :: "pydict option \<Rightarrow> bool" where
  "is_terminated att = (case att of None \<Rightarrow> False | Some a \<Rightarrow> a \<noteq> [] \<and> truthy (get a ''terminated''))"

definition refuse_offchain_mutation :: "ledger \<Rightarrow> trade_row \<Rightarrow> (http_error, unit) res" where
  "refuse_offchain_mutation db t = (case anchored_attestation db (t_id t) of None \<Rightarrow> Inr () | Some _ \<Rightarrow> Inl (Http 409))"

subsection \<open>Appending a generic event\<close>

definition valid_event_types :: "string list" where
  "valid_event_types = [''BOOKED'', ''ACTIVATED'', ''AMENDED'', ''BOOK_TRANSFER'', ''STORE_CHANGE'', ''PARTIAL_TERMINATION'',
     ''NOVATED'', ''TERMINATED'', ''MATURED'', ''CANCELLED'', ''DEFAULTED'', ''COMPRESSION'', ''CREDIT_EVENT'']"

record event_create =
  ec_trade :: string
  ec_type :: string
  ec_payload :: pydict
  ec_pre :: "projection option"
  ec_post :: "projection option"
  ec_cp_confirmed :: bool
  ec_hash :: "string option"

definition validate_event_type :: "string \<Rightarrow> (http_error, unit) res" where
  "validate_event_type v = require (v \<in> set valid_event_types) (Http 422)"

definition append_trade_event :: "ledger \<Rightarrow> event_create \<Rightarrow> pydict \<Rightarrow> string \<Rightarrow> ledger \<times> (http_error, event_row) res" where
  "append_trade_event db body user eid =
     (case bind_res (validate_event_type (ec_type body)) (\<lambda>_.
           bind_res (check_write_role user) (\<lambda>u.
           case find_trade db (ec_trade body) u of
             None \<Rightarrow> Inl (Http 404)
           | Some t \<Rightarrow>
               bind_res (if ec_type body \<in> {''AMENDED'', ''TERMINATED'', ''PARTIAL_TERMINATION'', ''NOVATED'', ''CONFIRMED''}
                         then refuse_offchain_mutation db t else Inr ()) (\<lambda>_.
               if eid \<in> e_id ` set (l_events db) then Inl Crash else Inr u))) of
        Inl e \<Rightarrow> (db, Inl e)
      | Inr u \<Rightarrow>
          (let ev = \<lparr>e_id = eid, e_trade = ec_trade body, e_seq = next_seq db (ec_trade body), e_type = ec_type body,
                     e_payload = ec_payload body, e_pre = ec_pre body, e_post = ec_post body, e_user = u,
                     e_hash = ec_hash body, e_cp_confirmed = ec_cp_confirmed body\<rparr>
           in (db\<lparr>l_events := l_events db @ [ev]\<rparr>, Inr ev)))"

text \<open>The lists, newest first, with the bounds the query parameters declare.\<close>

definition page :: "int \<Rightarrow> int \<Rightarrow> 'a list \<Rightarrow> 'a list" where
  "page offset limit xs = take (nat limit) (drop (nat offset) xs)"

definition list_trade_events :: "ledger \<Rightarrow> string \<Rightarrow> int \<Rightarrow> int \<Rightarrow> pydict \<Rightarrow> (http_error, event_row list) res" where
  "list_trade_events db tid limit offset user =
     bind_res (require (1 \<le> limit \<and> limit \<le> 1000 \<and> 0 \<le> offset) (Http 422)) (\<lambda>_.
     bind_res (user_uuid user) (\<lambda>u.
     case find_trade db tid u of
       None \<Rightarrow> Inl (Http 404)
     | Some _ \<Rightarrow> Inr (page offset limit (filter (\<lambda>e. e_trade e = tid \<and> e_user e = u) (rev (l_events db))))))"

definition list_all_events :: "ledger \<Rightarrow> string option \<Rightarrow> int \<Rightarrow> int \<Rightarrow> pydict \<Rightarrow> (http_error, event_row list) res" where
  "list_all_events db ty limit offset user =
     bind_res (require (1 \<le> limit \<and> limit \<le> 500 \<and> 0 \<le> offset) (Http 422)) (\<lambda>_.
     bind_res (user_uuid user) (\<lambda>u.
     let mine = filter (\<lambda>e. e_user e = u) (rev (l_events db))
     in case ty of
          None \<Rightarrow> Inr (page offset limit mine)
        | Some s \<Rightarrow> if s = [] then Inr (page offset limit mine)
            else bind_res (require (s \<in> set valid_event_types) (Http 422)) (\<lambda>_.
                 Inr (page offset limit (filter (\<lambda>e. e_type e = s) mine)))))"

subsection \<open>The atomic lifecycle\<close>

definition lookup_idempotent :: "ledger \<Rightarrow> string \<Rightarrow> string option \<Rightarrow> lifecycle_response option" where
  "lookup_idempotent db user key =
     (case key of None \<Rightarrow> None
      | Some k \<Rightarrow> if k = [] then None else map_option (\<lambda>r. r\<lparr>lr_replay := True\<rparr>) (dict_get (l_idem db) (user, k)))"

definition load_pending_trade :: "ledger \<Rightarrow> string \<Rightarrow> string \<Rightarrow> (http_error, trade_row) res" where
  "load_pending_trade db tid user =
     (case find_trade db tid user of
        None \<Rightarrow> Inl (Http 404)
      | Some t \<Rightarrow> if t_status t \<noteq> ''PENDING'' then Inl (Http 409) else Inr t)"

definition set_status :: "string \<Rightarrow> projection \<Rightarrow> projection" where
  "set_status s p = set_trade ''status'' (PStr s) p"

definition build_response :: "ledger \<Rightarrow> trade_row \<Rightarrow> string \<Rightarrow> lifecycle_response" where
  "build_response db t eid =
     \<lparr>lr_trade = t, lr_legs = map (snd \<circ> snd) (sort_key (fst \<circ> snd) (filter (\<lambda>l. fst l = t_id t) (l_legs db))),
      lr_event = eid, lr_replay = False\<rparr>"

record transition =
  tr_user :: string
  tr_trade :: trade_row
  tr_type :: string
  tr_status :: string
  tr_payload :: pydict
  tr_key :: "string option"
  tr_hash :: "string option"
  tr_cp_confirmed :: bool

text \<open>\<open>_apply_lifecycle_transition\<close>: \<open>tr_trade\<close> is the row as the request loaded it. A primary-key conflict on the
  event rolls back with 409; one on the idempotency key returns the winner's answer.\<close>

definition apply_lifecycle_transition :: "ledger \<Rightarrow> transition \<Rightarrow> string \<Rightarrow> ledger \<times> (http_error, lifecycle_response) res" where
  "apply_lifecycle_transition db r eid =
     (let t = tr_trade r in
      case project_from_db db (t_id t) of
        Inl _ \<Rightarrow> (db, Inl Crash)
      | Inr pre \<Rightarrow>
          if eid \<in> e_id ` set (l_events db) then (db, Inl (Http 409))
          else
            (let ev = \<lparr>e_id = eid, e_trade = t_id t, e_seq = next_seq db (t_id t), e_type = tr_type r, e_payload = tr_payload r,
                       e_pre = Some pre, e_post = Some (set_status (tr_status r) pre), e_user = tr_user r, e_hash = tr_hash r,
                       e_cp_confirmed = tr_cp_confirmed r\<rparr>;
                 upd = (\<lambda>x. x\<lparr>t_status := tr_status r, t_latest := Some eid, t_version := t_version t + 1\<rparr>);
                 db1 = db\<lparr>l_events := l_events db @ [ev], l_trades := map (\<lambda>x. if t_id x = t_id t then upd x else x) (l_trades db)\<rparr>
             in case List.find (\<lambda>x. t_id x = t_id t) (l_trades db) of
                  None \<Rightarrow> (db, Inl (Http 500))
                | Some row \<Rightarrow>
                    (let result = build_response db1 (upd row) eid
                     in if tr_key r = None \<or> tr_key r = Some [] then (db1, Inr result)
                        else (case dict_get (l_idem db) (tr_user r, the (tr_key r)) of
                                Some cached \<Rightarrow> (db, Inr (cached\<lparr>lr_replay := True\<rparr>))
                              | None \<Rightarrow> (db1\<lparr>l_idem := ((tr_user r, the (tr_key r)), result) # l_idem db\<rparr>, Inr result)))))"

text \<open>The reading half of \<open>confirm_trade\<close> and \<open>cancel_trade\<close>: either a cached answer or the transition to apply.\<close>

definition begin_lifecycle ::
    "string \<Rightarrow> pydict \<Rightarrow> ledger \<Rightarrow> string \<Rightarrow> string option \<Rightarrow> pydict \<Rightarrow> (http_error, lifecycle_response + transition) res" where
  "begin_lifecycle ty payload db trade_id key user =
     bind_res (check_write_role user) (\<lambda>u.
     bind_res (validate_idempotency_header key) (\<lambda>_.
     case lookup_idempotent db u key of
       Some cached \<Rightarrow> Inr (Inl cached)
     | None \<Rightarrow>
         bind_res (parse_trade_uuid trade_id) (\<lambda>tid.
         bind_res (load_pending_trade db tid u) (\<lambda>t.
           Inr (Inr \<lparr>tr_user = u, tr_trade = t, tr_type = ty, tr_status = ty, tr_payload = payload, tr_key = key,
                     tr_hash = None, tr_cp_confirmed = False\<rparr>)))))"

definition run_lifecycle ::
    "string \<Rightarrow> pydict \<Rightarrow> ledger \<Rightarrow> string \<Rightarrow> string option \<Rightarrow> pydict \<Rightarrow> string \<Rightarrow> ledger \<times> (http_error, lifecycle_response) res" where
  "run_lifecycle ty payload db trade_id key user eid =
     (case begin_lifecycle ty payload db trade_id key user of
        Inl e \<Rightarrow> (db, Inl e)
      | Inr (Inl cached) \<Rightarrow> (db, Inr cached)
      | Inr (Inr r) \<Rightarrow> apply_lifecycle_transition db r eid)"

definition confirm_trade :: "ledger \<Rightarrow> string \<Rightarrow> string option \<Rightarrow> pydict \<Rightarrow> string \<Rightarrow> ledger \<times> (http_error, lifecycle_response) res" where
  "confirm_trade = run_lifecycle ''CONFIRMED'' []"

definition cancel_payload :: "string option \<Rightarrow> pydict" where
  "cancel_payload reason = (case reason of None \<Rightarrow> [] | Some s \<Rightarrow> if s = [] then [] else [(''reason'', PStr s)])"

definition cancel_trade ::
    "string option \<Rightarrow> ledger \<Rightarrow> string \<Rightarrow> string option \<Rightarrow> pydict \<Rightarrow> string \<Rightarrow> ledger \<times> (http_error, lifecycle_response) res" where
  "cancel_trade reason = run_lifecycle ''CANCELLED'' (cancel_payload reason)"

subsection \<open>Overlapping requests\<close>

inductive lstep :: "ledger \<times> transition list \<Rightarrow> ledger \<times> transition list \<Rightarrow> bool" where
  append: "append_trade_event db body user eid = (db', r) \<Longrightarrow> lstep (db, fs) (db', fs)"
| begin_req: "begin_lifecycle ty payload db tid key user = Inr (Inr r) \<Longrightarrow> ty \<in> {''CONFIRMED'', ''CANCELLED''} \<Longrightarrow>
     lstep (db, fs) (db, r # fs)"
| finish_req: "r \<in> set fs \<Longrightarrow> apply_lifecycle_transition db r eid = (db', x) \<Longrightarrow> lstep (db, fs) (db', remove1 r fs)"

inductive_cases lstepE: "lstep (db, fs) s"

subsection \<open>The invariant of the event table\<close>

definition ledger_ok :: "ledger \<Rightarrow> bool" where
  "ledger_ok db \<longleftrightarrow> distinct (map e_id (l_events db)) \<and> distinct (map t_id (l_trades db))
     \<and> (\<forall>tid. map e_seq (trade_events_of db tid) = [1..int (length (trade_events_of db tid))])"

lemma foldl_max_upto: "foldl max 0 [1..int n] = int n"
proof (induction n)
  case (Suc n)
  have "[1..int (Suc n)] = [1..int n] @ [int n + 1]" using upto_rec2[of 1 "int (Suc n)"] by simp
  with Suc show ?case by simp
qed simp

lemma next_seq_ok: "ledger_ok db \<Longrightarrow> next_seq db tid = int (length (trade_events_of db tid)) + 1"
  by (simp add: next_seq_def ledger_ok_def foldl_max_upto)

text \<open>Inserting one event with the trigger's number.\<close>

lemma ledger_ok_insert:
  assumes ok: "ledger_ok db" and ev: "e_id ev \<notin> e_id ` set (l_events db)" "e_seq ev = next_seq db (e_trade ev)"
    and db': "l_events db' = l_events db @ [ev]" "map t_id (l_trades db') = map t_id (l_trades db)"
  shows "ledger_ok db'"
proof -
  have t: "trade_events_of db' tid = trade_events_of db tid @ (if e_trade ev = tid then [ev] else [])" for tid
    by (simp add: trade_events_of_def db'(1))
  have "map e_seq (trade_events_of db' tid) = [1..int (length (trade_events_of db' tid))]" for tid
  proof (cases "e_trade ev = tid")
    case True
    let ?n = "int (length (trade_events_of db tid))"
    have "[1..?n + 1] = [1..?n] @ [?n + 1]" using upto_rec2[of 1 "?n + 1"] by simp
    with True ok ev(2) next_seq_ok[OF ok, of tid] show ?thesis by (simp add: t ledger_ok_def add.commute)
  next
    case False
    with ok show ?thesis by (simp add: t ledger_ok_def)
  qed
  with ok ev(1) db' show ?thesis by (simp add: ledger_ok_def)
qed

lemma map_if_id: "map t_id (map (\<lambda>x. if t_id x = i then x\<lparr>t_status := a, t_latest := b, t_version := c\<rparr> else x) xs) = map t_id xs"
  by (induction xs) simp_all

text \<open>What a transition does to the store: nothing, or one event and the row of its trade.\<close>

lemma apply_transition_cases:
  assumes "apply_lifecycle_transition db r eid = (db', x)"
  obtains (same) "db' = db" "\<And>v. x = Inr v \<Longrightarrow> lr_replay v"
  | (done_req) pre row where "project_from_db db (t_id (tr_trade r)) = Inr pre" "eid \<notin> e_id ` set (l_events db)"
      "List.find (\<lambda>x. t_id x = t_id (tr_trade r)) (l_trades db) = Some row"
      "l_events db' = l_events db @ [\<lparr>e_id = eid, e_trade = t_id (tr_trade r), e_seq = next_seq db (t_id (tr_trade r)),
          e_type = tr_type r, e_payload = tr_payload r, e_pre = Some pre, e_post = Some (set_status (tr_status r) pre),
          e_user = tr_user r, e_hash = tr_hash r, e_cp_confirmed = tr_cp_confirmed r\<rparr>]"
      "l_trades db' = map (\<lambda>x. if t_id x = t_id (tr_trade r)
          then x\<lparr>t_status := tr_status r, t_latest := Some eid, t_version := t_version (tr_trade r) + 1\<rparr> else x) (l_trades db)"
      "l_legs db' = l_legs db"
      "x = Inr (build_response (db\<lparr>l_events := l_events db', l_trades := l_trades db'\<rparr>)
          (row\<lparr>t_status := tr_status r, t_latest := Some eid, t_version := t_version (tr_trade r) + 1\<rparr>) eid)"
      "\<And>k. tr_key r = Some k \<Longrightarrow> k \<noteq> [] \<Longrightarrow> dict_get (l_idem db) (tr_user r, k) = None
          \<and> dict_get (l_idem db') (tr_user r, k) = Some (projr x)"
  using assms unfolding apply_lifecycle_transition_def Let_def
  by (auto split: sum.splits if_splits option.splits)

lemma ledger_ok_transition:
  assumes "ledger_ok db" "apply_lifecycle_transition db r eid = (db', x)"
  shows "ledger_ok db' \<and> (\<exists>new. l_events db' = l_events db @ new)"
  using assms(2)
proof (cases rule: apply_transition_cases)
  case same
  with assms(1) show ?thesis by simp
next
  case (done_req pre row)
  then show ?thesis
    using ledger_ok_insert[OF assms(1) _ _ done_req(4)] by (simp add: map_if_id del: map_map)
qed

lemma ledger_ok_append:
  assumes ok: "ledger_ok db" and a: "append_trade_event db body user eid = (db', r)"
  shows "ledger_ok db' \<and> (\<exists>new. l_events db' = l_events db @ new)"
proof (cases "db' = db")
  case True
  with ok show ?thesis by simp
next
  case False
  with a obtain ev where "l_events db' = l_events db @ [ev]" "l_trades db' = l_trades db"
    "e_id ev \<notin> e_id ` set (l_events db)" "e_seq ev = next_seq db (e_trade ev)"
    by (auto simp: append_trade_event_def Let_def bind_res_Inr_iff split: sum.splits option.splits if_splits)
  with ledger_ok_insert[OF ok, of ev db'] show ?thesis by simp
qed

subsection \<open>The stored stream and the projection\<close>

lemma sort_key_id: "sorted (map k xs) \<Longrightarrow> sort_key k xs = xs"
  by (induction xs) (simp_all add: insort_is_Cons)

abbreviation stream_of :: "ledger \<Rightarrow> string \<Rightarrow> event_like list" where
  "stream_of db tid \<equiv> map (snd \<circ> as_event) (trade_events_of db tid)"

lemma stream_seqs: "map event_seq (stream_of db tid) = map e_seq (trade_events_of db tid)"
  by (simp add: as_event_def)

lemma project_stream: "ledger_ok db \<Longrightarrow> project_from_db db tid = project (stream_of db tid)"
proof -
  assume ok: "ledger_ok db"
  have "map snd (filter (\<lambda>r. fst r = tid) (map as_event (l_events db))) = stream_of db tid"
    by (simp add: filter_map comp_def as_event_def trade_events_of_def)
  moreover have "sort_key event_seq (stream_of db tid) = stream_of db tid"
    using ok by (intro sort_key_id) (simp add: stream_seqs ledger_ok_def del: map_map)
  ultimately show ?thesis by (simp add: project_from_db_def project_rows_def)
qed

text \<open>The projection after one more event of the trade.\<close>

lemma project_after_insert:
  assumes ok: "ledger_ok db" "ledger_ok db'" and db': "l_events db' = l_events db @ [ev]"
    and ev: "e_seq ev = next_seq db (e_trade ev)"
  shows "project_from_db db' (e_trade ev) =
    bind_res (project_from_db db (e_trade ev)) (\<lambda>p.
      case dict_get event_names (e_type ev) of None \<Rightarrow> Inl Projection_Error | Some et \<Rightarrow> apply_event p et (e_payload ev))"
proof -
  have s: "stream_of db' (e_trade ev) = stream_of db (e_trade ev) @ [snd (as_event ev)]"
    by (simp add: trade_events_of_def db')
  have e: "event_seq (snd (as_event ev)) = 1 + int (length (stream_of db (e_trade ev)))"
    "event_type (snd (as_event ev)) = e_type ev" "ev_payload (snd (as_event ev)) = e_payload ev"
    using ev next_seq_ok[OF ok(1)] by (simp_all add: as_event_def)
  have b: "bind_res m Inr = m" for m :: "projection proj" by (cases m) simp_all
  show ?thesis
    unfolding project_stream[OF ok(1)] project_stream[OF ok(2)] s project_def project_from_append
    using e by (cases "project_from 1 empty_projection (stream_of db (e_trade ev))"; cases "dict_get event_names (e_type ev)")
      (simp_all add: b del: map_map)
qed

lemma project_has_trade:
  assumes "ledger_ok db" "project_from_db db tid = Inr p" "trade_events_of db tid \<noteq> []"
  shows "p_trade p \<noteq> None"
proof -
  obtain e es where e: "stream_of db tid = e # es" using assms(3) by (cases "trade_events_of db tid") auto
  with assms have "project_from 1 empty_projection (e # es) = Inr p" by (simp add: project_stream project_def)
  then obtain et r where r: "apply_event empty_projection et (ev_payload e) = Inr r" and rest: "project_from 2 r es = Inr p"
    by (auto simp: bind_res_Inr_iff split: if_splits option.splits)
  then have "p_trade r \<noteq> None" using apply_event_booked[of empty_projection _ r]
    by (cases "et = BOOKED") (auto simp: apply_event_def empty_projection_def split: if_splits)
  with project_from_booked[OF rest] show ?thesis by simp
qed

subsection \<open>Properties\<close>

text \<open>C3: However the requests overlap (generic appends, confirms and cancels in any interleaving of their reading and
  writing halves), the event table stays append-only and every trade's sequence numbers stay 1, 2, ..., n in order of
  insertion, with distinct event ids: what the projection requires of a stream.\<close>

theorem events_append_only:
  assumes "lstep\<^sup>*\<^sup>* (db, fs) (db', fs')" and "ledger_ok db"
  shows "ledger_ok db' \<and> (\<exists>new. l_events db' = l_events db @ new)"
proof -
  have "ledger_ok (fst s') \<and> (\<exists>new. l_events (fst s') = l_events (fst s) @ new)" if "lstep\<^sup>*\<^sup>* s s'" "ledger_ok (fst s)" for s s'
    using that
  proof (induction rule: rtranclp_induct)
    case (step y z)
    then have ok: "ledger_ok (fst y)" by blast
    from step.hyps(2) have "ledger_ok (fst z) \<and> (\<exists>new. l_events (fst z) = l_events (fst y) @ new)"
    proof (cases rule: lstep.cases)
      case (append db body user eid db' r fs)
      with ok show ?thesis using ledger_ok_append[of db body user eid db' r] by simp
    next
      case (begin_req ty payload db tid key user r fs)
      with ok show ?thesis by simp
    next
      case (finish_req r fs db eid db' x)
      with ok show ?thesis using ledger_ok_transition[of db r eid db' x] by simp
    qed
    with step show ?case by auto
  qed simp
  from this[of "(db, fs)" "(db', fs')"] assms show ?thesis by simp
qed

definition demo_user :: pydict where
  "demo_user = [(''sub'', PStr ''0123456789abcdef0123456789abcdef''), (''user_metadata'', PDict [(''role'', PStr ''trader'')])]"

definition demo_tid :: string where
  "demo_tid = ''aaaaaaaaaaaaaaaaaaaaaaaaaaaaaaaa''"

definition demo_db :: ledger where
  "demo_db = \<lparr>l_trades = [\<lparr>t_id = demo_tid, t_user = ''0123456789abcdef0123456789abcdef'', t_ref = ''T-1'', t_status = ''PENDING'',
        t_latest = None, t_version = 1\<rparr>],
      l_legs = [],
      l_events = [\<lparr>e_id = ''e1'', e_trade = demo_tid, e_seq = 1, e_type = ''BOOKED'',
        e_payload = [(''trade'', PDict [(''book'', PStr ''X'')])], e_pre = None, e_post = None,
        e_user = ''0123456789abcdef0123456789abcdef'', e_hash = None, e_cp_confirmed = False\<rparr>],
      l_idem = []\<rparr>"

lemma demo_db_ok: "ledger_ok demo_db"
  by (simp add: ledger_ok_def demo_db_def trade_events_of_def)

definition demo_request :: "string \<Rightarrow> transition" where
  "demo_request ty = \<lparr>tr_user = ''0123456789abcdef0123456789abcdef'', tr_trade = hd (l_trades demo_db), tr_type = ty, tr_status = ty,
     tr_payload = [], tr_key = None, tr_hash = None, tr_cp_confirmed = False\<rparr>"

lemma demo_begin:
  "begin_lifecycle ''CONFIRMED'' [] demo_db demo_tid None demo_user = Inr (Inr (demo_request ''CONFIRMED''))"
  "begin_lifecycle ''CANCELLED'' [] demo_db demo_tid None demo_user = Inr (Inr (demo_request ''CANCELLED''))"
  by code_simp+

definition demo_db1 :: ledger where
  "demo_db1 = fst (apply_lifecycle_transition demo_db (demo_request ''CONFIRMED'') ''e2'')"

definition demo_db2 :: ledger where
  "demo_db2 = fst (apply_lifecycle_transition demo_db1 (demo_request ''CANCELLED'') ''e3'')"

text \<open>Two requests read the pending trade, then both write.\<close>

lemma demo_race: "lstep\<^sup>*\<^sup>* (demo_db, []) (demo_db2, [])"
proof -
  let ?c = "demo_request ''CONFIRMED''" and ?x = "demo_request ''CANCELLED''"
  have 1: "lstep (demo_db, []) (demo_db, [?c])" using demo_begin(1) by (rule begin_req) simp
  have 2: "lstep (demo_db, [?c]) (demo_db, [?x, ?c])" using demo_begin(2) by (rule begin_req) simp
  have ne: "?x \<noteq> ?c" by (simp add: demo_request_def)
  have 3: "lstep (demo_db, [?x, ?c]) (demo_db1, [?x])"
    using finish_req[of ?c "[?x, ?c]" demo_db "''e2''" demo_db1 "snd (apply_lifecycle_transition demo_db ?c ''e2'')"] ne
    by (simp add: demo_db1_def)
  have 4: "lstep (demo_db1, [?x]) (demo_db2, [])"
    using finish_req[of ?x "[?x]" demo_db1 "''e3''" demo_db2 "snd (apply_lifecycle_transition demo_db1 ?x ''e3'')"]
    by (simp add: demo_db2_def)
  from 1 2 3 4 show ?thesis by (meson converse_rtranclp_into_rtranclp rtranclp.rtrancl_refl)
qed

theorem events_append_only_witness:
  "lstep\<^sup>*\<^sup>* (demo_db, []) (demo_db2, []) \<and> ledger_ok demo_db2 \<and> (\<exists>new. l_events demo_db2 = l_events demo_db @ new)"
  using events_append_only[OF demo_race demo_db_ok] demo_race by simp

lemma run_lifecycle_fresh:
  assumes "run_lifecycle ty payload db trade_id key user eid = (db', Inr resp)" "\<not> lr_replay resp"
  obtains r u t where "begin_lifecycle ty payload db trade_id key user = Inr (Inr r)" "check_write_role user = Inr u"
    "parse_uuid trade_id = Some (t_id t)" "find_trade db (t_id t) u = Some t" "t_status t = ''PENDING''"
    "r = \<lparr>tr_user = u, tr_trade = t, tr_type = ty, tr_status = ty, tr_payload = payload, tr_key = key, tr_hash = None, tr_cp_confirmed = False\<rparr>"
    "lookup_idempotent db u key = None" "apply_lifecycle_transition db r eid = (db', Inr resp)"
proof -
  have c: "lr_replay c" if "lookup_idempotent db u key = Some c" for u c
    using that by (auto simp: lookup_idempotent_def split: option.splits if_splits)
  have ft: "t_id t = i" if "find_trade db i u = Some t" for i u t
    using that by (auto simp: find_trade_def find_Some_iff)
  have cached: "lr_replay x" if "begin_lifecycle ty payload db trade_id key user = Inr (Inl x)" for x
    using that c by (auto simp: begin_lifecycle_def bind_res_Inr_iff split: option.splits)
  obtain r where b: "begin_lifecycle ty payload db trade_id key user = Inr (Inr r)" and ap: "apply_lifecycle_transition db r eid = (db', Inr resp)"
    using assms cached by (auto simp: run_lifecycle_def split: sum.splits)
  from b obtain u i t where 1: "check_write_role user = Inr u" "lookup_idempotent db u key = None" "parse_uuid trade_id = Some i"
    "load_pending_trade db i u = Inr t"
    "r = \<lparr>tr_user = u, tr_trade = t, tr_type = ty, tr_status = ty, tr_payload = payload, tr_key = key, tr_hash = None, tr_cp_confirmed = False\<rparr>"
    by (auto simp: begin_lifecycle_def bind_res_Inr_iff parse_trade_uuid_def split: option.splits)
  have 2: "find_trade db i u = Some t" "t_status t = ''PENDING''"
    using 1(4) by (auto simp: load_pending_trade_def split: option.splits if_splits)
  show ?thesis using that[OF b 1(1) _ _ 2(2) 1(5,2) ap] 1(3) 2(1) ft[OF 2(1)] by simp
qed

definition lifecycle_types :: "string list" where
  "lifecycle_types = [''CONFIRMED'', ''CANCELLED'']"

lemma lifecycle_event:
  assumes "ty \<in> set lifecycle_types"
  shows "\<exists>et. dict_get event_names ty = Some et \<and> et \<noteq> BOOKED \<and> status_only et = Some ty"
proof -
  have "dict_get event_names ''CONFIRMED'' = Some CONFIRMED" "dict_get event_names ''CANCELLED'' = Some CANCELLED" by code_simp+
  with assms show ?thesis by (auto simp: lifecycle_types_def status_only_def)
qed

text \<open>C1: The stored row and the event stream agree after a lifecycle transition. When a confirm or a cancel of a booked
  trade succeeds afresh, the caller owns the trade and it was PENDING; the stream now projects to the earlier
  projection with the new status, which is also what the event's post-state records; the trade row carries the
  new status, the new event and the next version; and no other trade's row or stream has changed.\<close>

theorem lifecycle_refines_projection:
  assumes ok: "ledger_ok db" and ty: "ty \<in> set lifecycle_types"
    and r: "run_lifecycle ty payload db trade_id key user eid = (db', Inr resp)" and fresh: "\<not> lr_replay resp"
    and bk: "\<And>tid. parse_uuid trade_id = Some tid \<Longrightarrow> trade_events_of db tid \<noteq> []"
  shows "\<exists>u t p. check_write_role user = Inr u \<and> parse_uuid trade_id = Some (t_id t) \<and> find_trade db (t_id t) u = Some t
    \<and> t_status t = ''PENDING''
    \<and> project_from_db db (t_id t) = Inr p \<and> project_from_db db' (t_id t) = Inr (set_status ty p)
    \<and> e_post (last (l_events db')) = Some (set_status ty p) \<and> e_type (last (l_events db')) = ty
    \<and> find_trade db' (t_id t) u = Some (t\<lparr>t_status := ty, t_latest := Some eid, t_version := t_version t + 1\<rparr>)
    \<and> lr_trade resp = t\<lparr>t_status := ty, t_latest := Some eid, t_version := t_version t + 1\<rparr>
    \<and> (\<forall>i. i \<noteq> t_id t \<longrightarrow> trade_events_of db' i = trade_events_of db i
          \<and> filter (\<lambda>x. t_id x = i) (l_trades db') = filter (\<lambda>x. t_id x = i) (l_trades db))"
proof -
  obtain q u t where q: "check_write_role user = Inr u" "parse_uuid trade_id = Some (t_id t)" "find_trade db (t_id t) u = Some t"
    "t_status t = ''PENDING''" "apply_lifecycle_transition db q eid = (db', Inr resp)"
    "q = \<lparr>tr_user = u, tr_trade = t, tr_type = ty, tr_status = ty, tr_payload = payload, tr_key = key, tr_hash = None, tr_cp_confirmed = False\<rparr>"
    "lookup_idempotent db u key = None"
    by (rule run_lifecycle_fresh[OF r fresh]) blast
  from q(5) show ?thesis
  proof (cases rule: apply_transition_cases)
    case same
    with fresh show ?thesis by blast
  next
    case (done_req pre row)
    obtain ev where ev: "l_events db' = l_events db @ [ev]" "e_trade ev = t_id t" "e_seq ev = next_seq db (t_id t)" "e_type ev = ty"
      "e_post ev = Some (set_status ty pre)" "e_payload ev = payload" using done_req(4) q(6) by simp
    have ok': "ledger_ok db'" using ledger_ok_transition[OF ok q(5)] by simp
    have tr: "p_trade pre \<noteq> None" using project_has_trade[OF ok] done_req(1) bk[OF q(2)] q(6) by simp
    obtain et where et: "dict_get event_names ty = Some et" "et \<noteq> BOOKED" "status_only et = Some ty"
      using lifecycle_event[OF ty] by blast
    have pre: "project_from_db db (e_trade ev) = Inr pre" using done_req(1) q(6) ev(2) by simp
    have "apply_event pre et payload = Inr (set_status ty pre)"
      using et(2,3) tr by (simp add: apply_event_def set_status_def)
    then have "project_from_db db' (t_id t) = Inr (set_status ty pre)"
      using project_after_insert[OF ok ok' ev(1)] ev(2,3,4,6) pre et(1) by simp
    moreover have "row = t"
    proof -
      have "row \<in> set (l_trades db)" "t \<in> set (l_trades db)" "t_id row = t_id t"
        using done_req(3) q(3,6) by (auto simp: find_trade_def find_Some_iff)
      with ok show ?thesis by (auto simp: ledger_ok_def distinct_map inj_on_def)
    qed
    moreover have lt: "l_trades db' = map (\<lambda>x. if t_id x = t_id t
          then x\<lparr>t_status := ty, t_latest := Some eid, t_version := t_version t + 1\<rparr> else x) (l_trades db)"
      using done_req(5) unfolding q(6) by simp
    moreover have "find_trade db' (t_id t) u = Some (t\<lparr>t_status := ty, t_latest := Some eid, t_version := t_version t + 1\<rparr>)"
    proof -
      let ?f = "\<lambda>x. if t_id x = t_id t then x\<lparr>t_status := ty, t_latest := Some eid, t_version := t_version t + 1\<rparr> else x"
      have m: "List.find (\<lambda>x. t_id x = t_id t \<and> t_user x = u) (map ?f xs) = map_option ?f (List.find (\<lambda>x. t_id x = t_id t \<and> t_user x = u) xs)" for xs
        by (induction xs) auto
      show ?thesis unfolding find_trade_def lt m using q(3) by (simp add: find_trade_def)
    qed
    moreover have "\<forall>i. i \<noteq> t_id t \<longrightarrow> trade_events_of db' i = trade_events_of db i
        \<and> filter (\<lambda>x. t_id x = i) (l_trades db') = filter (\<lambda>x. t_id x = i) (l_trades db)"
    proof (intro allI impI conjI)
      fix i assume i: "i \<noteq> t_id t"
      show "trade_events_of db' i = trade_events_of db i" using i ev(1,2) by (simp add: trade_events_of_def)
      have "filter (\<lambda>x. t_id x = i) (map (\<lambda>x. if t_id x = t_id t then x\<lparr>t_status := a, t_latest := b, t_version := c\<rparr> else x) xs)
          = filter (\<lambda>x. t_id x = i) xs" for a b c xs using i by (induction xs) auto
      then show "filter (\<lambda>x. t_id x = i) (l_trades db') = filter (\<lambda>x. t_id x = i) (l_trades db)" using lt by simp
    qed
    moreover have "lr_trade resp = row\<lparr>t_status := ty, t_latest := Some eid, t_version := t_version t + 1\<rparr>"
      using done_req(7) unfolding q(6) by (simp add: build_response_def)
    moreover have "project_from_db db (t_id t) = Inr pre" using pre ev(2) by simp
    moreover have "last (l_events db') = ev" using ev(1) by simp
    ultimately show ?thesis using q(1-4) ev(4,5) by (intro exI[of _ u] exI[of _ t] exI[of _ pre]) simp
  qed
qed

theorem lifecycle_refines_projection_witness:
  "\<exists>resp db' p. confirm_trade demo_db demo_tid None demo_user ''e2'' = (db', Inr resp)
     \<and> project_from_db db' demo_tid = Inr (set_status ''CONFIRMED'' p) \<and> t_status (lr_trade resp) = ''CONFIRMED''"
proof -
  have c: "case confirm_trade demo_db demo_tid None demo_user ''e2'' of (_, Inr resp) \<Rightarrow> \<not> lr_replay resp | _ \<Rightarrow> False"
    unfolding confirm_trade_def run_lifecycle_def demo_begin(1) by code_simp
  then obtain db' resp where r: "run_lifecycle ''CONFIRMED'' [] demo_db demo_tid None demo_user ''e2'' = (db', Inr resp)" "\<not> lr_replay resp"
    by (auto simp: confirm_trade_def split: prod.splits sum.splits)
  have tid: "parse_uuid demo_tid = Some demo_tid" "trade_events_of demo_db demo_tid \<noteq> []" by code_simp+
  have "\<And>t. parse_uuid demo_tid = Some t \<Longrightarrow> trade_events_of demo_db t \<noteq> []" using tid by simp
  from lifecycle_refines_projection[OF demo_db_ok _ r this] tid(1)
  have "\<exists>p. project_from_db db' demo_tid = Inr (set_status ''CONFIRMED'' p) \<and> t_status (lr_trade resp) = ''CONFIRMED''"
    by (auto simp: lifecycle_types_def)
  with r show ?thesis by (auto simp: confirm_trade_def)
qed

lemma header_nonempty: "validate_idempotency_header (Some k) = Inr () \<Longrightarrow> k \<noteq> []"
proof
  assume "validate_idempotency_header (Some k) = Inr ()" "k = []"
  moreover have "parse_uuid [] = None" by code_simp
  ultimately show False by (simp add: validate_idempotency_header_def)
qed

lemma run_lifecycle_checked:
  "run_lifecycle ty payload db trade_id key user eid = (db', Inr resp) \<Longrightarrow>
     \<exists>u. check_write_role user = Inr u \<and> validate_idempotency_header key = Inr ()"
  by (cases "check_write_role user"; cases "validate_idempotency_header key")
     (auto simp: run_lifecycle_def begin_lifecycle_def)

text \<open>C26: A request repeated under its idempotency key is answered from the cache: after a confirm or a cancel that
  succeeded with a key, the same call, whatever fresh event id it would have used, returns the same answer marked as
  a replay and changes nothing.\<close>

theorem lifecycle_idempotent:
  assumes r: "run_lifecycle ty payload db trade_id (Some k) user eid = (db', Inr resp)"
  shows "run_lifecycle ty' payload' db' trade_id' (Some k) user eid' = (db', Inr (resp\<lparr>lr_replay := True\<rparr>))"
proof (cases "lr_replay resp")
  case False
  obtain q u t where q: "check_write_role user = Inr u" "apply_lifecycle_transition db q eid = (db', Inr resp)"
    "q = \<lparr>tr_user = u, tr_trade = t, tr_type = ty, tr_status = ty, tr_payload = payload, tr_key = Some k, tr_hash = None, tr_cp_confirmed = False\<rparr>"
    by (rule run_lifecycle_fresh[OF r False]) blast
  have k: "validate_idempotency_header (Some k) = Inr ()" "k \<noteq> []"
    using run_lifecycle_checked[OF r] header_nonempty by auto
  from q(2) have "dict_get (l_idem db') (u, k) = Some resp"
  proof (cases rule: apply_transition_cases)
    case same
    with False show ?thesis by blast
  next
    case (done_req pre row)
    with q(3) k(2) show ?thesis by simp
  qed
  then show ?thesis using q(1) k by (simp add: run_lifecycle_def begin_lifecycle_def lookup_idempotent_def)
next
  case True
  obtain u where u: "check_write_role user = Inr u" and k: "validate_idempotency_header (Some k) = Inr ()" "k \<noteq> []"
    using run_lifecycle_checked[OF r] header_nonempty by auto
  have "db' = db \<and> (\<exists>c. dict_get (l_idem db) (u, k) = Some c \<and> resp = c\<lparr>lr_replay := True\<rparr>)"
    using r True u k
    by (auto simp: run_lifecycle_def begin_lifecycle_def lookup_idempotent_def apply_lifecycle_transition_def Let_def build_response_def bind_res_def
        split: sum.splits option.splits if_splits prod.splits)
  then show ?thesis using u k by (auto simp: run_lifecycle_def begin_lifecycle_def lookup_idempotent_def)
qed

definition demo_key :: string where
  "demo_key = ''cccccccc-cccc-cccc-cccc-cccccccccccc''"

theorem lifecycle_idempotent_witness:
  "\<exists>db' resp. confirm_trade demo_db demo_tid (Some demo_key) demo_user ''e2'' = (db', Inr resp)
     \<and> confirm_trade db' demo_tid (Some demo_key) demo_user ''e3'' = (db', Inr (resp\<lparr>lr_replay := True\<rparr>))"
proof -
  have "case confirm_trade demo_db demo_tid (Some demo_key) demo_user ''e2'' of (_, Inr resp) \<Rightarrow> True | _ \<Rightarrow> False"
    by code_simp
  then obtain db' resp where "run_lifecycle ''CONFIRMED'' [] demo_db demo_tid (Some demo_key) demo_user ''e2'' = (db', Inr resp)"
    by (auto simp: confirm_trade_def split: prod.splits sum.splits)
  from lifecycle_idempotent[OF this] this show ?thesis by (auto simp: confirm_trade_def)
qed

text \<open>The generic append accepts BOOKED and COMPRESSION for a trade that is already booked, and either one makes the
  trade's stream unprojectable for good: from then on every confirm, cancel or other lifecycle transition of the trade
  fails before it writes anything.\<close>

theorem append_booked_breaks_stream:
  assumes ok: "ledger_ok db" and bk: "trade_events_of db (ec_trade body) \<noteq> []"
    and a: "append_trade_event db body user eid = (db', Inr ev)" and ty: "ec_type body \<in> {''BOOKED'', ''COMPRESSION''}"
    and later: "ledger_ok db2" "l_events db2 = l_events db' @ newer"
  shows "\<exists>e. project_from_db db2 (ec_trade body) = Inl e
    \<and> (\<forall>r i. t_id (tr_trade r) = ec_trade body \<longrightarrow> apply_lifecycle_transition db2 r i = (db2, Inl Crash))"
proof -
  let ?t = "ec_trade body"
  from a have ev: "l_events db' = l_events db @ [ev]" "e_trade ev = ?t" "e_type ev = ec_type body"
    by (auto simp: append_trade_event_def Let_def split: sum.splits)
  have s: "stream_of db2 ?t = stream_of db ?t @ snd (as_event ev) # map (snd \<circ> as_event) (filter (\<lambda>e. e_trade e = ?t) newer)"
    by (simp add: trade_events_of_def later(2) ev)
  have "\<exists>e. project (stream_of db2 ?t) = Inl e"
  proof (rule ccontr)
    assume "\<nexists>e. project (stream_of db2 ?t) = Inl e"
    then obtain p where p: "project (stream_of db2 ?t) = Inr p" by (cases "project (stream_of db2 ?t)") auto
    obtain x xs where x: "stream_of db ?t = x # xs" using bk by (cases "trade_events_of db ?t") auto
    have "snd (as_event ev) \<in> set (tl (stream_of db2 ?t))" unfolding s x by simp
    moreover have "event_type (snd (as_event ev)) = ec_type body" using ev by (simp add: as_event_def)
    ultimately show False using stream_shape[OF p] ty s x by fastforce
  qed
  with project_stream[OF later(1)] show ?thesis by (auto simp: apply_lifecycle_transition_def)
qed

definition demo_append :: event_create where
  "demo_append = \<lparr>ec_trade = demo_tid, ec_type = ''BOOKED'', ec_payload = [], ec_pre = None, ec_post = None,
     ec_cp_confirmed = False, ec_hash = None\<rparr>"

theorem append_booked_breaks_stream_witness:
  "\<exists>ev db' e. append_trade_event demo_db demo_append demo_user ''e2'' = (db', Inr ev) \<and> project_from_db db' demo_tid = Inl e"
proof -
  have "case append_trade_event demo_db demo_append demo_user ''e2'' of (_, Inr ev) \<Rightarrow> True | _ \<Rightarrow> False" by code_simp
  then obtain db' ev where a: "append_trade_event demo_db demo_append demo_user ''e2'' = (db', Inr ev)"
    by (auto split: prod.splits sum.splits)
  have "trade_events_of demo_db (ec_trade demo_append) \<noteq> []" "ec_type demo_append \<in> {''BOOKED'', ''COMPRESSION''}" by code_simp+
  from append_booked_breaks_stream[OF demo_db_ok this(1) a this(2) _, of db' "[]"] ledger_ok_append[OF demo_db_ok a] a
  show ?thesis by (auto simp: demo_append_def)
qed

text \<open>Handled one after another, a confirm and a cancel exclude each other: once one of them has succeeded for a trade,
  every later confirm or cancel of it by anyone, unless it is answered from the cache, is refused and writes nothing.\<close>

theorem serial_transitions_exclude:
  assumes ok: "ledger_ok db" and r: "run_lifecycle ty payload db trade_id key user eid = (db', Inr resp)" "\<not> lr_replay resp"
    and ty: "ty \<in> set lifecycle_types"
    and again: "run_lifecycle ty' payload' db' trade_id' key' user' eid' = (db2, x)" "parse_uuid trade_id' = parse_uuid trade_id"
  shows "db2 = db' \<and> ((\<exists>e. x = Inl e) \<or> (\<exists>c. x = Inr c \<and> lr_replay c))"
proof -
  obtain q u t where q: "parse_uuid trade_id = Some (t_id t)" "apply_lifecycle_transition db q eid = (db', Inr resp)"
    "q = \<lparr>tr_user = u, tr_trade = t, tr_type = ty, tr_status = ty, tr_payload = payload, tr_key = key, tr_hash = None, tr_cp_confirmed = False\<rparr>"
    by (rule run_lifecycle_fresh[OF r]) blast
  have st: "t_status y = ty" if "find_trade db' (t_id t) v = Some y" for v y
    using q(2)
  proof (cases rule: apply_transition_cases)
    case same
    with r(2) show ?thesis by blast
  next
    case (done_req pre row)
    from that have y: "y \<in> set (l_trades db')" "t_id y = t_id t" by (auto simp: find_trade_def find_Some_iff)
    have lt: "l_trades db' = map (\<lambda>x. if t_id x = t_id t
          then x\<lparr>t_status := ty, t_latest := Some eid, t_version := t_version t + 1\<rparr> else x) (l_trades db)"
      using done_req(5) unfolding q(3) by simp
    from y show ?thesis unfolding lt by (auto split: if_splits)
  qed
  have np: "ty \<noteq> ''PENDING''" using ty by (auto simp: lifecycle_types_def)
  have lr: "lr_replay c" if "lookup_idempotent db' v key' = Some c" for v c
    using that by (auto simp: lookup_idempotent_def split: option.splits if_splits)
  have "begin_lifecycle ty' payload' db' trade_id' key' user' \<noteq> Inr (Inr z)" for z
    using st np q(1) again(2)
    by (auto simp: begin_lifecycle_def bind_res_Inr_iff parse_trade_uuid_def load_pending_trade_def split: option.splits if_splits)
  moreover have "lr_replay c" if "begin_lifecycle ty' payload' db' trade_id' key' user' = Inr (Inl c)" for c
    using that lr by (auto simp: begin_lifecycle_def bind_res_Inr_iff split: option.splits)
  ultimately show ?thesis using again(1) by (auto simp: run_lifecycle_def split: sum.splits)
qed

theorem serial_transitions_exclude_witness:
  "\<exists>db' resp e. confirm_trade demo_db demo_tid None demo_user ''e2'' = (db', Inr resp)
     \<and> cancel_trade None db' demo_tid None demo_user ''e3'' = (db', Inl e)"
proof -
  have c: "case confirm_trade demo_db demo_tid None demo_user ''e2'' of (_, Inr resp) \<Rightarrow> \<not> lr_replay resp | _ \<Rightarrow> False"
    by code_simp
  then obtain db' resp where r: "run_lifecycle ''CONFIRMED'' [] demo_db demo_tid None demo_user ''e2'' = (db', Inr resp)" "\<not> lr_replay resp"
    by (auto simp: confirm_trade_def split: prod.splits sum.splits)
  obtain db2 x where x: "run_lifecycle ''CANCELLED'' [] db' demo_tid None demo_user ''e3'' = (db2, x)" by fastforce
  have "\<not> (\<exists>c. x = Inr c \<and> lr_replay c)"
    using x by (auto simp: run_lifecycle_def begin_lifecycle_def bind_res_Inr_iff lookup_idempotent_def apply_lifecycle_transition_def
        Let_def build_response_def split: sum.splits option.splits if_splits)
  with serial_transitions_exclude[OF demo_db_ok r _ x refl] x r show ?thesis
    by (auto simp: confirm_trade_def cancel_trade_def cancel_payload_def lifecycle_types_def)
qed

text \<open>Overlapping requests are not excluded: the trade is read without a lock, so a confirm and a cancel that both read
  it while PENDING both go through, and the trade ends up with a CONFIRMED event followed by a CANCELLED event.\<close>

theorem overlapping_confirm_and_cancel:
  "\<exists>db db' tid. ledger_ok db \<and> (\<exists>t. find_trade db tid (t_user t) = Some t \<and> t_status t = ''PENDING'')
     \<and> lstep\<^sup>*\<^sup>* (db, []) (db', [])
     \<and> map e_type (trade_events_of db' tid) = [''BOOKED'', ''CONFIRMED'', ''CANCELLED'']
     \<and> map t_status (l_trades db') = [''CANCELLED'']"
proof -
  have "find_trade demo_db demo_tid (t_user (hd (l_trades demo_db))) = Some (hd (l_trades demo_db))"
    "t_status (hd (l_trades demo_db)) = ''PENDING''"
    "map e_type (trade_events_of demo_db2 demo_tid) = [''BOOKED'', ''CONFIRMED'', ''CANCELLED'']"
    "map t_status (l_trades demo_db2) = [''CANCELLED'']"
    by code_simp+
  with demo_db_ok demo_race show ?thesis
    by (intro exI[of _ demo_db] exI[of _ demo_db2] exI[of _ demo_tid] conjI exI[of _ "hd (l_trades demo_db)"]) simp_all
qed

end
