(* ===== verification/Attestation.thy ===== *)
theory Attestation
  imports Json
begin

section \<open>Anchoring on a chain (chain/attestation.py)\<close>

text \<open>
  The chain backend: the receipt of an anchor, the backend without a chain, and the EVM backend that signs
  with the relayer, submits, waits and reconciles with the registry. The node behind \<open>web3\<close> is not part of
  the repository: it is the record \<open>node_api\<close> of functions over an arbitrary node state, each answering a
  value, a transient connection failure, a \<open>ValueError\<close> with its text (\<open>Refused\<close>) or any other exception
  (\<open>Broken\<close>). Waiting and sleeping have no counterpart; the delays of the retries are \<open>retry_delays\<close>. The
  float arithmetic of the fee ceiling is exact here.
\<close>

record anchor_receipt =
  ar_anchored :: bool
  ar_chain :: int
  ar_registry :: "string option"
  ar_tx :: "string option"
  ar_block :: "int option"
  ar_confirmed :: "int option"
  ar_explorer :: "string option"
  ar_note :: "string option"

record chain_record =
  rr_party_a :: string
  rr_party_b :: string
  rr_confirmed :: int
  rr_block :: int
  rr_prev :: string
  rr_status :: string

definition opt_str :: "string option \<Rightarrow> pyval" where
  "opt_str x = (case x of None \<Rightarrow> PNone | Some s \<Rightarrow> PStr s)"

definition int_val :: "int \<Rightarrow> pyval" where
  "int_val i = PNum (Dec (i < 0) (nat \<bar>i\<bar>) 0)"

definition opt_int :: "int option \<Rightarrow> pyval" where
  "opt_int x = (case x of None \<Rightarrow> PNone | Some i \<Rightarrow> int_val i)"

definition receipt_dict :: "anchor_receipt \<Rightarrow> pyval" where
  "receipt_dict r = PDict [(''anchored'', PBool (ar_anchored r)), (''chain_id'', int_val (ar_chain r)), (''registry'', opt_str (ar_registry r)),
     (''tx_hash'', opt_str (ar_tx r)), (''block_number'', opt_int (ar_block r)), (''confirmed_at'', opt_int (ar_confirmed r)),
     (''explorer_tx'', opt_str (ar_explorer r)), (''note'', opt_str (ar_note r))]"

subsection \<open>The backend without a chain\<close>

definition null_receipt :: anchor_receipt where
  "null_receipt = \<lparr>ar_anchored = False, ar_chain = 0, ar_registry = None, ar_tx = None, ar_block = None, ar_confirmed = None,
     ar_explorer = None, ar_note = Some ''No chain configured (RIJEKA_CHAIN_RPC unset): attestation stored off-chain only.''\<rparr>"

subsection \<open>Fees\<close>

text \<open>\<open>int(float(raw) * 1e9)\<close>, 100 gwei when the variable is empty or not a number; \<open>None\<close> when the number is not finite.\<close>

definition max_fee_wei :: "string option \<Rightarrow> int option" where
  "max_fee_wei env =
     (let raw = str_strip (case env of None \<Rightarrow> [] | Some s \<Rightarrow> s)
      in case (if raw = [] then None else dec_of_string raw) of
           None \<Rightarrow> Some 100000000000
         | Some (Dec n c e) \<Rightarrow> Some ((if n then - 1 else 1) * \<lfloor>\<bar>dval (Dec n c e)\<bar> * 1000000000\<rfloor>)
         | Some _ \<Rightarrow> None)"

type_synonym fees = "(int \<times> int) option"

text \<open>\<open>_fees\<close>: the maximum fee and the priority fee, \<open>None\<close> when the node gives no base fee; an error above the ceiling.\<close>

datatype send_error = Fee_Too_High | Anchor_Pending string string | Nonce_Taken | Reverted string | Chain_Failure string

definition fees_for :: "int option \<Rightarrow> int option \<Rightarrow> int \<Rightarrow> (send_error, fees) res" where
  "fees_for base tip_answer cap =
     (case base of
        None \<Rightarrow> Inr None
      | Some b \<Rightarrow>
          (let tip = (case tip_answer of None \<Rightarrow> 1500000000 | Some t \<Rightarrow> t)
           in if cap < b + tip then Inl Fee_Too_High
              else Inr (Some (min (2 * b + tip) cap, min tip cap))))"

subsection \<open>The node and the retries\<close>

datatype 'a answer = Ok 'a | Transient | Refused string | Broken string

record 'n node_api =
  na_base_fee :: "'n \<Rightarrow> int option"
  na_tip :: "'n \<Rightarrow> int option"
  na_nonce :: "'n \<Rightarrow> 'n \<times> int answer"
  na_build :: "int \<Rightarrow> fees \<Rightarrow> 'n \<Rightarrow> 'n \<times> string answer"
  na_send :: "string \<Rightarrow> 'n \<Rightarrow> 'n \<times> string answer"
  na_hash :: "string \<Rightarrow> string"
  na_receipt :: "string \<Rightarrow> 'n \<Rightarrow> 'n \<times> (int \<times> int) answer"
  na_block_time :: "int \<Rightarrow> 'n \<Rightarrow> 'n \<times> int answer"
  na_lookup :: "string \<Rightarrow> 'n \<Rightarrow> 'n \<times> (string \<times> string \<times> int \<times> int \<times> string \<times> nat) answer"

record 'n client =
  cl_node :: 'n
  cl_fallback :: "'n option"
  cl_switched :: bool

definition on_node :: "('n \<Rightarrow> 'n \<times> 'a) \<Rightarrow> 'n client \<Rightarrow> 'n client \<times> 'a" where
  "on_node f c = (case f (cl_node c) of (n, a) \<Rightarrow> (c\<lparr>cl_node := n\<rparr>, a))"

definition use_fallback :: "'n client \<Rightarrow> 'n client" where
  "use_fallback c =
     (if cl_fallback c = None \<or> cl_switched c then c else c\<lparr>cl_node := the (cl_fallback c), cl_switched := True\<rparr>)"

definition rpc_attempts :: nat where "rpc_attempts = 4"

text \<open>The loop of \<open>_retry\<close> with the attempts left; after the second failure the fallback node takes over.\<close>

fun retry_from :: "nat \<Rightarrow> ('n client \<Rightarrow> 'n client \<times> 'a answer) \<Rightarrow> 'n client \<Rightarrow> 'n client \<times> 'a answer" where
  "retry_from 0 call c = (c, Transient)"
| "retry_from (Suc left) call c =
     (case call c of
        (c', Transient) \<Rightarrow>
          if left = 0 then (c', Transient)
          else retry_from left call (if 2 \<le> rpc_attempts - left then use_fallback c' else c')
      | r \<Rightarrow> r)"

definition retry :: "('n client \<Rightarrow> 'n client \<times> 'a answer) \<Rightarrow> 'n client \<Rightarrow> 'n client \<times> 'a answer" where
  "retry = retry_from rpc_attempts"

fun retry_delays :: "nat \<Rightarrow> nat \<Rightarrow> nat list" where
  "retry_delays 0 d = []"
| "retry_delays (Suc n) d = d # retry_delays n (min (2 * d) 8)"

subsection \<open>Reading the registry\<close>

definition status_names :: "string list" where
  "status_names = [''None'', ''Confirmed'', ''Superseded'', ''Terminated'']"

definition evm_get :: "'n node_api \<Rightarrow> string \<Rightarrow> 'n client \<Rightarrow> 'n client \<times> chain_record option answer" where
  "evm_get api h c =
     (case on_node (na_lookup api h) c of
        (c', Ok (a, b, ts, blk, prev, st)) \<Rightarrow>
          (c', if st = 0 then Ok None
               else if length status_names \<le> st then Broken ''IndexError''
               else Ok (Some \<lparr>rr_party_a = a, rr_party_b = b, rr_confirmed = ts, rr_block = blk, rr_prev = ''0x'' @ prev,
                              rr_status = status_names ! st\<rparr>))
      | (c', Transient) \<Rightarrow> (c', Transient)
      | (c', Refused m) \<Rightarrow> (c', Refused m)
      | (c', Broken m) \<Rightarrow> (c', Broken m))"

text \<open>The reconcile callback of \<open>terminate\<close> takes only a terminated record.\<close>

definition get_terminated :: "'n node_api \<Rightarrow> string \<Rightarrow> 'n client \<Rightarrow> 'n client \<times> chain_record option answer" where
  "get_terminated api h c =
     (case evm_get api h c of
        (c', Ok (Some r)) \<Rightarrow> (c', Ok (if rr_status r = ''Terminated'' then Some r else None))
      | x \<Rightarrow> x)"

record evm_config =
  ec_chain_id :: int
  ec_registry :: string
  ec_explorer :: "string option"
  ec_ceiling :: int

definition explorer_tx :: "evm_config \<Rightarrow> string \<Rightarrow> string option" where
  "explorer_tx cfg tx = map_option (\<lambda>e. e @ ''/tx/'' @ tx) (ec_explorer cfg)"

definition recorded_receipt :: "evm_config \<Rightarrow> chain_record \<Rightarrow> anchor_receipt" where
  "recorded_receipt cfg r = \<lparr>ar_anchored = True, ar_chain = ec_chain_id cfg, ar_registry = Some (ec_registry cfg), ar_tx = None,
     ar_block = Some (rr_block r), ar_confirmed = Some (rr_confirmed r),
     ar_explorer = map_option (\<lambda>e. e @ ''/address/'' @ ec_registry cfg) (ec_explorer cfg),
     ar_note = Some ''recorded on the registry by an earlier transaction; no new transaction was mined''\<rparr>"

definition recorded ::
    "evm_config \<Rightarrow> ('n client \<Rightarrow> 'n client \<times> chain_record option answer) \<Rightarrow> 'n client \<Rightarrow> 'n client \<times> anchor_receipt option" where
  "recorded cfg reconcile c =
     (case reconcile c of
        (c', Ok (Some r)) \<Rightarrow> (c', if rr_status r = ''None'' then None else Some (recorded_receipt cfg r))
      | (c', _) \<Rightarrow> (c', None))"

subsection \<open>Sending a transaction\<close>

definition already_sent :: "string list" where
  "already_sent = [''already known'', ''already imported'', ''nonce too low'', ''known transaction'', ''replacement transaction underpriced'']"

text \<open>The closure \<open>broadcast\<close>: \<open>None\<close> when the nonce is spent, the transaction's own hash when the node already has it.\<close>

definition broadcast :: "'n node_api \<Rightarrow> string \<Rightarrow> 'n client \<Rightarrow> 'n client \<times> string option answer" where
  "broadcast api tx c =
     (case on_node (na_send api tx) c of
        (c', Ok h) \<Rightarrow> (c', Ok (Some h))
      | (c', Transient) \<Rightarrow> (c', Transient)
      | (c', Broken m) \<Rightarrow> (c', Broken m)
      | (c', Refused m) \<Rightarrow>
          (let msg = str_lower m
           in if has_substring ''nonce too low'' msg then (c', Ok None)
              else if list_ex (\<lambda>k. has_substring k msg) already_sent then (c', Ok (Some (na_hash api tx)))
              else (c', Refused m)))"

definition failure_text :: "'a answer \<Rightarrow> string" where
  "failure_text a = (case a of Ok _ \<Rightarrow> [] | Transient \<Rightarrow> ''connection'' | Refused m \<Rightarrow> m | Broken m \<Rightarrow> m)"

definition hex_prefixed :: "string \<Rightarrow> string" where
  "hex_prefixed s = (if starts_with ''0x'' s then s else ''0x'' @ s)"

definition mined_receipt :: "evm_config \<Rightarrow> string \<Rightarrow> int \<Rightarrow> int \<Rightarrow> anchor_receipt" where
  "mined_receipt cfg tx blk ts = \<lparr>ar_anchored = True, ar_chain = ec_chain_id cfg, ar_registry = Some (ec_registry cfg), ar_tx = Some tx,
     ar_block = Some blk, ar_confirmed = Some ts, ar_explorer = explorer_tx cfg tx, ar_note = None\<rparr>"

text \<open>After a broadcast: wait for the receipt, or take the registry's record, or hand over to the reconciliation.
  \<open>wait\<close> says whether the caller gave a wait of its own.\<close>

definition follow ::
    "evm_config \<Rightarrow> 'n node_api \<Rightarrow> ('n client \<Rightarrow> 'n client \<times> chain_record option answer) \<Rightarrow> bool \<Rightarrow> string \<Rightarrow> 'n client
       \<Rightarrow> 'n client \<times> (send_error, anchor_receipt) res" where
  "follow cfg api reconcile wait h c =
     (case retry (on_node (na_receipt api h)) c of
        (c1, Ok (status, blk)) \<Rightarrow>
          if status \<noteq> 1 then
            (case recorded cfg reconcile c1 of
               (c2, Some r) \<Rightarrow> (c2, Inr r) | (c2, None) \<Rightarrow> (c2, Inl (Reverted h)))
          else (case retry (on_node (na_block_time api blk)) c1 of
                  (c2, Ok ts) \<Rightarrow> (c2, Inr (mined_receipt cfg (hex_prefixed h) blk ts))
                | (c2, a) \<Rightarrow> (c2, Inl (Chain_Failure (failure_text a))))
      | (c1, a) \<Rightarrow>
          (case recorded cfg reconcile c1 of
             (c2, Some r) \<Rightarrow> (c2, Inr r)
           | (c2, None) \<Rightarrow>
               (c2, Inl (if wait then Anchor_Pending (hex_prefixed h) (case explorer_tx cfg (hex_prefixed h) of None \<Rightarrow> [] | Some e \<Rightarrow> e)
                         else Chain_Failure (failure_text a)))))"

text \<open>The rounds of \<open>_send_locked\<close>: build and broadcast with the pending nonce; a spent nonce is checked against the registry
  and tried once more.\<close>

fun send_rounds ::
    "nat \<Rightarrow> evm_config \<Rightarrow> 'n node_api \<Rightarrow> ('n client \<Rightarrow> 'n client \<times> chain_record option answer) \<Rightarrow> bool \<Rightarrow> fees \<Rightarrow> 'n client
       \<Rightarrow> 'n client \<times> (send_error, anchor_receipt) res" where
  "send_rounds 0 cfg api reconcile wait fs c = (c, Inl Nonce_Taken)"
| "send_rounds (Suc left) cfg api reconcile wait fs c =
     (case retry (on_node (na_nonce api)) c of
        (c1, Ok nonce) \<Rightarrow>
          (case retry (on_node (na_build api nonce fs)) c1 of
             (c2, Ok tx) \<Rightarrow>
               (case retry (broadcast api tx) c2 of
                  (c3, Ok (Some h)) \<Rightarrow> follow cfg api reconcile wait h c3
                | (c3, Ok None) \<Rightarrow>
                    (case recorded cfg reconcile c3 of
                       (c4, Some r) \<Rightarrow> (c4, Inr r)
                     | (c4, None) \<Rightarrow> send_rounds left cfg api reconcile wait fs c4)
                | (c3, a) \<Rightarrow> (c3, Inl (Chain_Failure (failure_text a))))
           | (c2, a) \<Rightarrow> (c2, Inl (Chain_Failure (failure_text a))))
      | (c1, a) \<Rightarrow> (c1, Inl (Chain_Failure (failure_text a))))"

definition send_locked ::
    "evm_config \<Rightarrow> 'n node_api \<Rightarrow> ('n client \<Rightarrow> 'n client \<times> chain_record option answer) \<Rightarrow> bool \<Rightarrow> 'n client
       \<Rightarrow> 'n client \<times> (send_error, anchor_receipt) res" where
  "send_locked cfg api reconcile wait c =
     (case fees_for (na_base_fee api (cl_node c)) (na_tip api (cl_node c)) (ec_ceiling cfg) of
        Inl e \<Rightarrow> (c, Inl e)
      | Inr fs \<Rightarrow> send_rounds 2 cfg api reconcile wait fs c)"

definition evm_confirm :: "evm_config \<Rightarrow> 'n node_api \<Rightarrow> string \<Rightarrow> bool \<Rightarrow> 'n client \<Rightarrow> 'n client \<times> (send_error, anchor_receipt) res" where
  "evm_confirm cfg api h wait = send_locked cfg api (evm_get api h) wait"

definition evm_amend :: "evm_config \<Rightarrow> 'n node_api \<Rightarrow> string \<Rightarrow> 'n client \<Rightarrow> 'n client \<times> (send_error, anchor_receipt) res" where
  "evm_amend cfg api new_hash = send_locked cfg api (evm_get api new_hash) False"

definition evm_terminate :: "evm_config \<Rightarrow> 'n node_api \<Rightarrow> string \<Rightarrow> 'n client \<Rightarrow> 'n client \<times> (send_error, anchor_receipt) res" where
  "evm_terminate cfg api h = send_locked cfg api (get_terminated api h) False"

subsection \<open>Where a sent transaction stands\<close>

record tx_state =
  tx_st :: string
  tx_block :: "int option"
  tx_confirmed :: "int option"

text \<open>\<open>tx_state\<close>: the receipt call answers \<open>None\<close> for an unknown transaction, and \<open>known\<close> tells whether the node holds it.\<close>

definition tx_state_of ::
    "(string \<Rightarrow> 'n \<Rightarrow> 'n \<times> (int \<times> int) option answer) \<Rightarrow> (string \<Rightarrow> 'n \<Rightarrow> 'n \<times> bool answer) \<Rightarrow> 'n node_api \<Rightarrow> string \<Rightarrow> 'n client
       \<Rightarrow> 'n client \<times> tx_state answer" where
  "tx_state_of receipt known api h c =
     (case retry (on_node (receipt h)) c of
        (c1, Ok (Some (status, blk))) \<Rightarrow>
          if status \<noteq> 1 then (c1, Ok \<lparr>tx_st = ''reverted'', tx_block = Some blk, tx_confirmed = None\<rparr>)
          else (case retry (on_node (na_block_time api blk)) c1 of
                  (c2, Ok ts) \<Rightarrow> (c2, Ok \<lparr>tx_st = ''mined'', tx_block = Some blk, tx_confirmed = Some ts\<rparr>)
                | (c2, a) \<Rightarrow> (c2, Broken (failure_text a)))
      | (c1, Ok None) \<Rightarrow>
          (case retry (on_node (known h)) c1 of
             (c2, Ok b) \<Rightarrow> (c2, Ok \<lparr>tx_st = (if b then ''pending'' else ''unknown''), tx_block = None, tx_confirmed = None\<rparr>)
           | (c2, a) \<Rightarrow> (c2, Broken (failure_text a)))
      | (c1, a) \<Rightarrow> (c1, Broken (failure_text a)))"

lemma retry_from_call: "retry_from left call c = (c', a) \<Longrightarrow> a \<noteq> Transient \<Longrightarrow> \<exists>s. call s = (c', a)"
proof (induction left arbitrary: c)
  case (Suc left)
  obtain c1 b where b: "call c = (c1, b)" by fastforce
  show ?case
  proof (cases b)
    case Transient
    with Suc b show ?thesis by (auto split: if_splits)
  qed (use Suc.prems b in auto)
qed simp

lemma retry_Ok:
  assumes "retry (on_node f) c = (c', Ok a)"
  shows "\<exists>n. snd (f n) = Ok a"
proof -
  from assms obtain s where "on_node f s = (c', Ok a)"
    unfolding retry_def using retry_from_call[of rpc_attempts "on_node f" c c' "Ok a"] by auto
  then have "snd (f (cl_node s)) = Ok a" by (auto simp: on_node_def split: prod.splits)
  then show ?thesis ..
qed

definition registry_said :: "('n client \<Rightarrow> 'n client \<times> chain_record option answer) \<Rightarrow> evm_config \<Rightarrow> anchor_receipt \<Rightarrow> bool" where
  "registry_said reconcile cfg r \<longleftrightarrow>
     (\<exists>s rec. snd (reconcile s) = Ok (Some rec) \<and> rr_status rec \<noteq> ''None'' \<and> r = recorded_receipt cfg rec)"

definition node_mined :: "'n node_api \<Rightarrow> evm_config \<Rightarrow> anchor_receipt \<Rightarrow> bool" where
  "node_mined api cfg r \<longleftrightarrow>
     (\<exists>h blk ts n n'. snd (na_receipt api h n) = Ok (1, blk) \<and> snd (na_block_time api blk n') = Ok ts
        \<and> r = mined_receipt cfg (hex_prefixed h) blk ts)"

lemma recorded_said:
  assumes "recorded cfg reconcile c = (c', Some r)"
  shows "registry_said reconcile cfg r"
proof -
  from assms obtain x where "reconcile c = (c', Ok (Some x))" "rr_status x \<noteq> ''None''" "r = recorded_receipt cfg x"
    by (auto simp: recorded_def split: prod.splits answer.splits option.splits if_splits)
  then show ?thesis unfolding registry_said_def by (intro exI[of _ c] exI[of _ x]) simp
qed

lemma follow_evidence:
  assumes "follow cfg api reconcile wait h c = (c', Inr r)"
  shows "registry_said reconcile cfg r \<or> node_mined api cfg r"
proof -
  obtain c1 a where a: "retry (on_node (na_receipt api h)) c = (c1, a)" by fastforce
  show ?thesis
  proof (cases a)
    case (Ok p)
    obtain status blk where p: "p = (status, blk)" by fastforce
    show ?thesis
    proof (cases "status = 1")
      case False
      with assms a Ok p show ?thesis by (auto simp: follow_def recorded_said split: prod.splits option.splits)
    next
      case True
      with assms a Ok p obtain c2 ts where ts: "retry (on_node (na_block_time api blk)) c1 = (c2, answer.Ok ts)"
        "r = mined_receipt cfg (hex_prefixed h) blk ts"
        by (auto simp: follow_def split: prod.splits answer.splits)
      have "\<exists>n. snd (na_receipt api h n) = answer.Ok (1, blk)" using a Ok p True retry_Ok[of "na_receipt api h" c c1] by simp
      moreover have "\<exists>n. snd (na_block_time api blk n) = answer.Ok ts" using retry_Ok[OF ts(1)] .
      ultimately show ?thesis using ts(2) by (auto simp: node_mined_def)
    qed
  qed (use assms a in \<open>auto simp: follow_def recorded_said split: prod.splits option.splits\<close>)
qed

lemma send_rounds_evidence:
  "send_rounds left cfg api reconcile wait fs c = (c', Inr r) \<Longrightarrow> registry_said reconcile cfg r \<or> node_mined api cfg r"
proof (induction left arbitrary: c)
  case (Suc left)
  then show ?case
    by (auto split: prod.splits answer.splits option.splits dest: follow_evidence recorded_said)
qed simp

subsection \<open>Properties\<close>

text \<open>The relayer never bids above the operator's ceiling: whenever fees are set, both the maximum fee and the
  priority fee are within the ceiling, the tip is within the maximum fee, and the maximum fee covers the node's
  base fee and tip; a network fee above the ceiling refuses the send before anything is sent.\<close>

theorem fees_within_ceiling:
  assumes "0 \<le> base" and "0 \<le> tip"
  shows "(case fees_for (Some base) (Some tip) cap of
       Inr (Some (m, p)) \<Rightarrow> m \<le> cap \<and> p \<le> cap \<and> p \<le> m \<and> base + tip \<le> m
     | Inr None \<Rightarrow> False
     | Inl e \<Rightarrow> e = Fee_Too_High \<and> cap < base + tip)"
  using assms by (auto simp: fees_for_def min_def)

theorem fees_within_ceiling_witness:
  "fees_for (Some 30) (Some 2) 50 = Inr (Some (50, 2)) \<and> (50::int) \<le> 50 \<and> fees_for (Some 49) (Some 2) 50 = Inl Fee_Too_High"
  using fees_within_ceiling[of 30 2 50] fees_within_ceiling[of 49 2 50] by (auto simp: fees_for_def)


text \<open>A node whose first broadcast finds the nonce spent while the registry already has the record.\<close>

definition demo_api :: "unit node_api" where
  "demo_api = \<lparr>na_base_fee = \<lambda>_. Some 10, na_tip = \<lambda>_. None, na_nonce = \<lambda>n. (n, Ok 7), na_build = \<lambda>i f n. (n, Ok ''tx''),
     na_send = \<lambda>t n. (n, Refused ''Nonce too low''), na_hash = \<lambda>t. ''aa'', na_receipt = \<lambda>h n. (n, Transient),
     na_block_time = \<lambda>b n. (n, Transient), na_lookup = \<lambda>h n. (n, Ok (''A'', ''B'', 99, 12, ''00'', 1))\<rparr>"

definition demo_cfg :: evm_config where
  "demo_cfg = \<lparr>ec_chain_id = 1, ec_registry = ''0xR'', ec_explorer = None, ec_ceiling = 100000000000\<rparr>"


end
