(* ===== verification/Pending.thy ===== *)
theory Pending
  imports Ledger Attestation
begin

section \<open>Anchors in flight (chain/pending.py)\<close>

text \<open>
  A confirm whose transaction was not mined in time leaves a row in \<open>pending_anchors\<close>; the reconciliation
  follows it to ANCHORED, with the CONFIRMED event of the trade in the same transaction, or to FAILED.
  The state is the table and the ledger of \<open>Ledger\<close>. The chain backend is a parameter: what the registry
  and the node answer, \<open>None\<close> when the call raises. Times are microseconds.
\<close>

type_synonym time = int

record backend =
  bk_chain :: int
  bk_registry :: "string option"
  bk_explorer :: "string option"
  bk_anchored :: bool
  bk_get :: "string \<Rightarrow> chain_record option option"
  bk_tx :: "string \<Rightarrow> tx_state option option"

record pending_row =
  pr_id :: string
  pr_trade :: string
  pr_user :: string
  pr_hash :: string
  pr_tx :: "string option"
  pr_explorer :: "string option"
  pr_attestation :: pydict
  pr_key :: "string option"
  pr_status :: string
  pr_reason :: "string option"
  pr_submitted :: time
  pr_checked :: "time option"
  pr_resolved :: "time option"
  pr_attempts :: int

record pend_state =
  ps_rows :: "pending_row list"
  ps_ledger :: ledger

definition seconds :: "int \<Rightarrow> time" where
  "seconds n = n * 1000000"

definition dropped_after :: time where "dropped_after = seconds (15 * 60)"
definition no_hash_after :: time where "no_hash_after = seconds (30 * 60)"
definition max_age :: time where "max_age = seconds (2 * 3600)"

subsection \<open>Rows\<close>

definition coalesce :: "'a option \<Rightarrow> 'a option \<Rightarrow> 'a option" where
  "coalesce a b = (case a of None \<Rightarrow> b | Some x \<Rightarrow> Some x)"

text \<open>\<open>record\<close>: insert, or on a conflict with the trade's open row refresh it.\<close>

definition record_anchor ::
    "pend_state \<Rightarrow> string \<Rightarrow> string \<Rightarrow> string \<Rightarrow> string \<Rightarrow> pydict \<Rightarrow> string option \<Rightarrow> string option \<Rightarrow> string option \<Rightarrow> string option
       \<Rightarrow> time \<Rightarrow> pend_state" where
  "record_anchor s new_id trade user h att key tx ex note now =
     (if \<exists>r \<in> set (ps_rows s). pr_trade r = trade \<and> pr_status r = ''PENDING'' then
        s\<lparr>ps_rows := map (\<lambda>r. if pr_trade r = trade \<and> pr_status r = ''PENDING''
            then r\<lparr>pr_tx := coalesce tx (pr_tx r), pr_explorer := coalesce ex (pr_explorer r), pr_attestation := att,
                   pr_key := coalesce key (pr_key r), pr_reason := note\<rparr> else r) (ps_rows s)\<rparr>
      else s\<lparr>ps_rows := ps_rows s @ [\<lparr>pr_id = new_id, pr_trade = trade, pr_user = user, pr_hash = h, pr_tx = tx, pr_explorer = ex,
               pr_attestation = att, pr_key = key, pr_status = ''PENDING'', pr_reason = note, pr_submitted = now,
               pr_checked = None, pr_resolved = None, pr_attempts = 0\<rparr>]\<rparr>)"

definition open_for_trade :: "pend_state \<Rightarrow> string \<Rightarrow> pending_row option" where
  "open_for_trade s trade = List.find (\<lambda>r. pr_trade r = trade \<and> pr_status r = ''PENDING'') (ps_rows s)"

definition latest_for_trade :: "pend_state \<Rightarrow> string \<Rightarrow> pending_row option" where
  "latest_for_trade s trade =
     (case rev (sort_key pr_submitted (filter (\<lambda>r. pr_trade r = trade) (ps_rows s))) of [] \<Rightarrow> None | r # _ \<Rightarrow> Some r)"

definition open_rows :: "pend_state \<Rightarrow> nat \<Rightarrow> pending_row list" where
  "open_rows s limit = take limit (sort_key pr_submitted (filter (\<lambda>r. pr_status r = ''PENDING'') (ps_rows s)))"

subsection \<open>The check against the chain\<close>

datatype check_result = Anchored anchor_receipt | Waiting string | Failed string

definition opt_text :: "string option \<Rightarrow> string" where
  "opt_text x = (case x of None \<Rightarrow> ''None'' | Some s \<Rightarrow> s)"

definition unknown_tx :: tx_state where
  "unknown_tx = \<lparr>tx_st = ''unknown'', tx_block = None, tx_confirmed = None\<rparr>"

definition has_hash :: "pending_row \<Rightarrow> bool" where
  "has_hash row \<longleftrightarrow> pr_tx row \<noteq> None \<and> pr_tx row \<noteq> Some []"

text \<open>What the registry and the node say about a row; a failed read counts as no record, and as the state \<open>error\<close>.\<close>

definition registry_read :: "backend \<Rightarrow> pending_row \<Rightarrow> chain_record option" where
  "registry_read be row = (case bk_get be (drop 2 (pr_hash row)) of None \<Rightarrow> None
     | Some None \<Rightarrow> None | Some (Some r) \<Rightarrow> if rr_status r = ''None'' then None else Some r)"

definition tx_read :: "backend \<Rightarrow> pending_row \<Rightarrow> tx_state" where
  "tx_read be row =
     (if has_hash row
      then (case bk_tx be (the (pr_tx row)) of
              None \<Rightarrow> unknown_tx\<lparr>tx_st := ''error''\<rparr> | Some None \<Rightarrow> unknown_tx | Some (Some x) \<Rightarrow> x)
      else unknown_tx)"

definition mk_receipt :: "backend \<Rightarrow> pending_row \<Rightarrow> int \<Rightarrow> int \<Rightarrow> string option \<Rightarrow> string option \<Rightarrow> check_result" where
  "mk_receipt be row b c ex note = Anchored \<lparr>ar_anchored = True, ar_chain = bk_chain be, ar_registry = bk_registry be, ar_tx = pr_tx row,
     ar_block = Some b, ar_confirmed = Some c, ar_explorer = ex, ar_note = note\<rparr>"

definition registry_page :: "backend \<Rightarrow> string option" where
  "registry_page be = (case bk_explorer be of None \<Rightarrow> None | Some x \<Rightarrow>
     if x = [] then None else Some (x @ ''/address/'' @ opt_text (bk_registry be)))"

text \<open>\<open>check\<close>; \<open>None\<close> when it raises (a mined state without its block number).\<close>

definition check_row :: "backend \<Rightarrow> pending_row \<Rightarrow> time \<Rightarrow> check_result option" where
  "check_row be row now =
     (let age = now - pr_submitted row;
          st = tx_read be row;
          conf = (case tx_confirmed st of None \<Rightarrow> 0 | Some c \<Rightarrow> c);
          block = (case tx_block st of None \<Rightarrow> ''None'' | Some b \<Rightarrow> int_str b)
      in case registry_read be row of
           Some r \<Rightarrow>
             if tx_st st = ''mined''
             then map_option (\<lambda>b. mk_receipt be row b (if conf \<noteq> 0 then conf else rr_confirmed r) (pr_explorer row) None) (tx_block st)
             else Some (mk_receipt be row (rr_block r) (rr_confirmed r)
                    (if pr_explorer row = None \<or> pr_explorer row = Some [] then registry_page be else pr_explorer row)
                    (Some ''recorded on the registry; the anchor is read from the record''))
         | None \<Rightarrow>
             if tx_st st = ''mined'' then
               map_option (\<lambda>b. mk_receipt be row b conf (pr_explorer row)
                 (Some ''mined; the registry read had not caught up when the anchor was taken'')) (tx_block st)
             else if tx_st st = ''reverted''
               then Some (Failed (''transaction '' @ opt_text (pr_tx row) @ '' reverted in block '' @ block @ ''; the registry has no record''))
             else if max_age < age then Some (Failed ''not mined after 2 hours; the registry has no record'')
             else if tx_st st = ''pending'' then Some (Waiting ''the node holds the transaction; waiting for a block'')
             else if has_hash row \<and> tx_st st = ''unknown'' \<and> dropped_after < age
               then Some (Failed (''transaction '' @ opt_text (pr_tx row)
                      @ '' is no longer known to the node after 15 minutes (dropped); the registry has no record''))
             else if \<not> has_hash row \<and> no_hash_after < age
               then Some (Failed ''no transaction hash and no registry record after 30 minutes'')
             else Some (Waiting (if has_hash row then ''waiting for the transaction to be mined'' else ''waiting for the registry record'')))"

subsection \<open>Acting on the result\<close>

text \<open>\<open>apply_confirmed\<close>: the transition of the trade's owner, with the attestation in the event.\<close>

definition apply_confirmed ::
    "ledger \<Rightarrow> trade_row \<Rightarrow> pydict \<Rightarrow> string \<Rightarrow> string option \<Rightarrow> string \<Rightarrow> ledger \<times> (http_error, lifecycle_response) res" where
  "apply_confirmed db t att h key eid =
     apply_lifecycle_transition db \<lparr>tr_user = t_user t, tr_trade = t, tr_type = ''CONFIRMED'', tr_status = ''CONFIRMED'',
       tr_payload = [(''attestation'', PDict att)], tr_key = key, tr_hash = Some h, tr_cp_confirmed = True\<rparr> eid"

definition load_trade :: "ledger \<Rightarrow> string \<Rightarrow> trade_row option" where
  "load_trade db tid = List.find (\<lambda>t. t_id t = tid) (l_trades db)"

definition update_row :: "pend_state \<Rightarrow> string \<Rightarrow> (pending_row \<Rightarrow> pending_row) \<Rightarrow> pend_state" where
  "update_row s i f = s\<lparr>ps_rows := map (\<lambda>r. if pr_id r = i then f r else r) (ps_rows s)\<rparr>"

definition attempted :: "time \<Rightarrow> pending_row \<Rightarrow> pending_row" where
  "attempted now r = r\<lparr>pr_attempts := pr_attempts r + 1, pr_checked := Some now\<rparr>"

definition close_row :: "string \<Rightarrow> string option \<Rightarrow> time \<Rightarrow> pending_row \<Rightarrow> pending_row" where
  "close_row st why now r = (attempted now r)\<lparr>pr_status := st, pr_resolved := Some now, pr_reason := why\<rparr>"

datatype outcome = Applied lifecycle_response | Pending_Still | Failed_Row string | Gone | Raised http_error

text \<open>\<open>resolve\<close>. The transition commits the row's new status with the event. When it raises, or when it falls back to the
  cached answer of the idempotency key (which rolls the transaction back), the row keeps its old contents.\<close>

definition resolve :: "pend_state \<Rightarrow> string \<Rightarrow> backend \<Rightarrow> time \<Rightarrow> string \<Rightarrow> pend_state \<times> outcome" where
  "resolve s row_id be now eid =
     (case List.find (\<lambda>r. pr_id r = row_id \<and> pr_status r = ''PENDING'') (ps_rows s) of
        None \<Rightarrow> (s, Gone)
      | Some row \<Rightarrow>
          (case check_row be row now of
             None \<Rightarrow> (update_row s row_id (attempted now), Pending_Still)
           | Some (Waiting note) \<Rightarrow> (update_row s row_id (\<lambda>r. (attempted now r)\<lparr>pr_reason := Some (take 300 note)\<rparr>), Pending_Still)
           | Some (Failed why) \<Rightarrow> (update_row s row_id (close_row ''FAILED'' (Some (take 300 why)) now), Failed_Row why)
           | Some (Anchored receipt) \<Rightarrow>
               (case load_trade (ps_ledger s) (pr_trade row) of
                  None \<Rightarrow> (update_row s row_id (close_row ''ANCHORED'' (Some ''trade not found'') now), Gone)
                | Some t \<Rightarrow>
                    if t_status t \<noteq> ''PENDING''
                    then (update_row s row_id (close_row ''ANCHORED'' (Some (''trade already '' @ t_status t)) now), Gone)
                    else (case apply_confirmed (ps_ledger s) t (dict_set ''anchor'' (receipt_dict receipt) (pr_attestation row))
                                 (pr_hash row) (pr_key row) eid of
                            (l', Inr resp) \<Rightarrow>
                              (if lr_replay resp then (s, Applied resp)
                               else (update_row (s\<lparr>ps_ledger := l'\<rparr>) row_id (close_row ''ANCHORED'' None now), Applied resp))
                          | (l', Inl e) \<Rightarrow> (update_row s row_id (attempted now), Raised e)))))"

subsection \<open>Entry points\<close>

record trade_answer =
  ta_pending :: bool
  ta_applied :: bool
  ta_failed :: bool
  ta_status :: string
  ta_reason :: "string option"
  ta_row :: "pending_row option"
  ta_result :: "lifecycle_response option"

definition answer_of :: "string \<Rightarrow> pending_row option \<Rightarrow> trade_answer" where
  "answer_of st row = \<lparr>ta_pending = False, ta_applied = False, ta_failed = False, ta_status = st, ta_reason = None, ta_row = row, ta_result = None\<rparr>"

definition find_row :: "pend_state \<Rightarrow> string \<Rightarrow> pending_row option" where
  "find_row s i = List.find (\<lambda>r. pr_id r = i) (ps_rows s)"

definition reconcile_trade :: "pend_state \<Rightarrow> trade_row \<Rightarrow> backend \<Rightarrow> time \<Rightarrow> string \<Rightarrow> pend_state \<times> (http_error, trade_answer) res" where
  "reconcile_trade s t be now eid =
     (case open_for_trade s (t_id t) of
        None \<Rightarrow>
          (let last = latest_for_trade s (t_id t)
           in (s, Inr (case last of
                Some r \<Rightarrow> if pr_status r = ''FAILED'' then (answer_of (t_status t) last)\<lparr>ta_failed := True, ta_reason := pr_reason r\<rparr>
                          else answer_of (t_status t) last
              | None \<Rightarrow> answer_of (t_status t) None)))
      | Some row \<Rightarrow>
          (case resolve s (pr_id row) be now eid of
             (s', Applied resp) \<Rightarrow> (s', Inr ((answer_of ''CONFIRMED'' (Some (row\<lparr>pr_status := ''ANCHORED''\<rparr>)))\<lparr>ta_applied := True, ta_result := Some resp\<rparr>))
           | (s', Failed_Row why) \<Rightarrow>
               (s', Inr ((answer_of ''PENDING'' (Some (row\<lparr>pr_status := ''FAILED'', pr_reason := Some why\<rparr>)))\<lparr>ta_failed := True, ta_reason := Some why\<rparr>))
           | (s', Gone) \<Rightarrow>
               (s', Inr (answer_of (case load_trade (ps_ledger s') (t_id t) of None \<Rightarrow> t_status t | Some x \<Rightarrow> t_status x) (find_row s' (pr_id row))))
           | (s', Pending_Still) \<Rightarrow> (s', Inr ((answer_of ''PENDING'' (find_row s' (pr_id row)))\<lparr>ta_pending := True\<rparr>))
           | (s', Raised e) \<Rightarrow> (s', Inl e)))"

record counts =
  c_open :: nat
  c_applied :: nat
  c_pending :: nat
  c_failed :: nat
  c_gone :: nat
  c_errors :: nat

definition count_outcome :: "outcome \<Rightarrow> counts \<Rightarrow> counts" where
  "count_outcome out c = (case out of
       Applied _ \<Rightarrow> c\<lparr>c_applied := c_applied c + 1\<rparr> | Pending_Still \<Rightarrow> c\<lparr>c_pending := c_pending c + 1\<rparr>
     | Failed_Row _ \<Rightarrow> c\<lparr>c_failed := c_failed c + 1\<rparr> | Gone \<Rightarrow> c\<lparr>c_gone := c_gone c + 1\<rparr>
     | Raised _ \<Rightarrow> c\<lparr>c_errors := c_errors c + 1\<rparr>)"

fun reconcile_rows :: "pend_state \<Rightarrow> counts \<Rightarrow> backend \<Rightarrow> time \<Rightarrow> (string \<times> string) list \<Rightarrow> pend_state \<times> counts" where
  "reconcile_rows s c be now [] = (s, c)"
| "reconcile_rows s c be now ((i, eid) # rows) =
     (case resolve s i be now eid of (s', out) \<Rightarrow> reconcile_rows s' (count_outcome out c) be now rows)"

datatype summary = Table_Missing | None_Open | No_Backend nat | Done counts

text \<open>\<open>reconcile_pending\<close>; \<open>eids\<close> are the fresh event ids, one per row.\<close>

definition reconcile_pending :: "bool \<Rightarrow> pend_state \<Rightarrow> backend \<Rightarrow> nat \<Rightarrow> time \<Rightarrow> string list \<Rightarrow> pend_state \<times> summary" where
  "reconcile_pending table s be limit now eids =
     (let rows = open_rows s limit
      in if \<not> table then (s, Table_Missing)
         else if rows = [] then (s, None_Open)
         else if \<not> bk_anchored be then (s, No_Backend (length rows))
         else (case reconcile_rows s \<lparr>c_open = length rows, c_applied = 0, c_pending = 0, c_failed = 0, c_gone = 0, c_errors = 0\<rparr> be now
                      (zip (map pr_id rows) eids) of (s', c) \<Rightarrow> (s', Done c)))"

subsection \<open>The invariant of the table\<close>

text \<open>Distinct ids, and at most one open row per trade.\<close>

definition pend_ok :: "pend_state \<Rightarrow> bool" where
  "pend_ok s \<longleftrightarrow> distinct (map pr_id (ps_rows s))
     \<and> (\<forall>r \<in> set (ps_rows s). \<forall>r' \<in> set (ps_rows s). pr_status r = ''PENDING'' \<longrightarrow> pr_status r' = ''PENDING''
          \<longrightarrow> pr_trade r = pr_trade r' \<longrightarrow> pr_id r = pr_id r')"

definition terminal_kept :: "pend_state \<Rightarrow> pend_state \<Rightarrow> bool" where
  "terminal_kept s s' \<longleftrightarrow> (\<forall>r \<in> set (ps_rows s). pr_status r \<noteq> ''PENDING'' \<longrightarrow> r \<in> set (ps_rows s'))"

text \<open>Anything that happens to the table: recording an anchor, resolving a row, and any other change of the ledger.\<close>

inductive pstep :: "pend_state \<Rightarrow> pend_state \<Rightarrow> bool" where
  recording: "new_id \<notin> pr_id ` set (ps_rows s) \<Longrightarrow> pstep s (record_anchor s new_id trade user h att key tx ex note now)"
| resolving: "resolve s i be now eid = (s', out) \<Longrightarrow> pstep s s'"
| elsewhere: "pstep s (s\<lparr>ps_ledger := l\<rparr>)"

definition keeps_identity :: "(pending_row \<Rightarrow> pending_row) \<Rightarrow> bool" where
  "keeps_identity f \<longleftrightarrow> (\<forall>r. pr_id (f r) = pr_id r \<and> pr_trade (f r) = pr_trade r \<and> (pr_status (f r) = ''PENDING'' \<longrightarrow> pr_status r = ''PENDING''))"

lemma keeps_identity_intros [inv_intros]:
  "keeps_identity (attempted now)"
  "keeps_identity (close_row ''FAILED'' why now)" "keeps_identity (close_row ''ANCHORED'' why now)"
  "keeps_identity (\<lambda>r. (attempted now r)\<lparr>pr_reason := why\<rparr>)"
  by (simp_all add: keeps_identity_def attempted_def close_row_def)

lemma mapped_ok:
  assumes "pend_ok s" and "keeps_identity f" and "ps_rows s' = map (\<lambda>r. if P r then f r else r) (ps_rows s)"
  shows "pend_ok s'"
proof -
  have i: "map pr_id (ps_rows s') = map pr_id (ps_rows s)" using assms(2,3) by (simp add: keeps_identity_def)
  have e: "\<exists>q \<in> set (ps_rows s). pr_status q = ''PENDING'' \<and> pr_trade q = pr_trade r \<and> pr_id q = pr_id r"
    if "r \<in> set (ps_rows s')" "pr_status r = ''PENDING''" for r
    using that assms(2,3) by (auto simp: keeps_identity_def split: if_splits)
  show ?thesis
    unfolding pend_ok_def i
  proof (intro conjI ballI impI)
    show "distinct (map pr_id (ps_rows s))" using assms(1) by (simp add: pend_ok_def)
  next
    fix r r' assume "r \<in> set (ps_rows s')" "r' \<in> set (ps_rows s')" "pr_status r = ''PENDING''" "pr_status r' = ''PENDING''" "pr_trade r = pr_trade r'"
    with e[of r] e[of r'] assms(1) show "pr_id r = pr_id r'" unfolding pend_ok_def by metis
  qed
qed

lemma update_row_ok: "pend_ok s \<Longrightarrow> keeps_identity f \<Longrightarrow> pend_ok (update_row s i f)"
  by (rule mapped_ok[of s f _ "\<lambda>r. pr_id r = i"]) (simp_all add: update_row_def)

lemma find_open:
  "List.find (\<lambda>r. pr_id r = i \<and> pr_status r = ''PENDING'') rows = Some row \<Longrightarrow> row \<in> set rows \<and> pr_id row = i \<and> pr_status row = ''PENDING''"
  by (auto simp: find_Some_iff)

text \<open>With distinct ids the updated row is the open one, so every closed row stays.\<close>

lemma update_row_terminal:
  assumes ok: "pend_ok s" and row: "row \<in> set (ps_rows s)" "pr_id row = i" "pr_status row = ''PENDING''"
  shows "terminal_kept s (update_row s i f)"
  unfolding terminal_kept_def update_row_def
proof (intro ballI impI)
  fix r assume r: "r \<in> set (ps_rows s)" "pr_status r \<noteq> ''PENDING''"
  have "inj_on pr_id (set (ps_rows s))" using ok by (simp add: pend_ok_def distinct_map)
  then have "pr_id r \<noteq> i" using r row by (metis inj_onD)
  moreover have "(if pr_id r = i then f r else r) \<in> (\<lambda>r. if pr_id r = i then f r else r) ` set (ps_rows s)"
    using r(1) by (rule imageI)
  ultimately show "r \<in> set (ps_rows (s\<lparr>ps_rows := map (\<lambda>r. if pr_id r = i then f r else r) (ps_rows s)\<rparr>))" by simp
qed

text \<open>What \<open>resolve\<close> does to the rows.\<close>

lemma update_row_ledger [simp]:
  "ps_rows (update_row (s\<lparr>ps_ledger := l\<rparr>) i f) = ps_rows (update_row s i f)" "ps_ledger (update_row s i f) = ps_ledger s"
  by (simp_all add: update_row_def)

lemma resolve_rows:
  assumes "resolve s i be now eid = (s', out)"
  shows "ps_rows s' = ps_rows s \<or>
    (\<exists>row f. row \<in> set (ps_rows s) \<and> pr_id row = i \<and> pr_status row = ''PENDING'' \<and> keeps_identity f
       \<and> ps_rows s' = ps_rows (update_row s i f))"
proof (cases "List.find (\<lambda>r. pr_id r = i \<and> pr_status r = ''PENDING'') (ps_rows s)")
  case None
  with assms show ?thesis by (simp add: resolve_def)
next
  case (Some row)
  have "ps_rows s' = ps_rows s \<or> (\<exists>f. keeps_identity f \<and> ps_rows s' = ps_rows (update_row s i f))"
    using assms Some
    by (auto simp: resolve_def update_row_ledger intro: keeps_identity_intros split: option.splits check_result.splits if_splits prod.splits sum.splits)
  with find_open[OF Some] show ?thesis by blast
qed

lemma rows_only: "ps_rows s' = ps_rows s'' \<Longrightarrow> pend_ok s' = pend_ok s'' \<and> terminal_kept s s' = terminal_kept s s''"
  by (simp add: pend_ok_def terminal_kept_def)

lemma append_ok:
  assumes ok: "pend_ok s" and r: "ps_rows s' = ps_rows s @ [n]" and fresh: "pr_id n \<notin> pr_id ` set (ps_rows s)"
    and none: "\<forall>x \<in> set (ps_rows s). \<not> (pr_trade x = pr_trade n \<and> pr_status x = ''PENDING'')"
  shows "pend_ok s'"
  unfolding pend_ok_def
proof (intro conjI ballI impI)
  show "distinct (map pr_id (ps_rows s'))" using ok r fresh by (simp add: pend_ok_def)
next
  fix x y assume xy: "x \<in> set (ps_rows s')" "y \<in> set (ps_rows s')" "pr_status x = ''PENDING''" "pr_status y = ''PENDING''" "pr_trade x = pr_trade y"
  from xy(1,2) r have "x \<in> set (ps_rows s) \<or> x = n" "y \<in> set (ps_rows s) \<or> y = n" by auto
  then show "pr_id x = pr_id y"
  proof (elim disjE)
    assume "x \<in> set (ps_rows s)" "y \<in> set (ps_rows s)"
    with ok xy(3-5) show ?thesis unfolding pend_ok_def by blast
  next
    assume "x \<in> set (ps_rows s)" "y = n" with none xy(3,5) show ?thesis by auto
  next
    assume "x = n" "y \<in> set (ps_rows s)" with none xy(4,5) show ?thesis by auto
  qed simp
qed

lemma pstep_inv:
  assumes "pstep s s'" "pend_ok s"
  shows "pend_ok s' \<and> terminal_kept s s'"
  using assms
proof (cases rule: pstep.cases)
  case (recording new_id trade user h att key tx ex nt now)
  show ?thesis
  proof (cases "\<exists>r \<in> set (ps_rows s). pr_trade r = trade \<and> pr_status r = ''PENDING''")
    case True
    let ?f = "\<lambda>r. r\<lparr>pr_tx := coalesce tx (pr_tx r), pr_explorer := coalesce ex (pr_explorer r), pr_attestation := att,
                   pr_key := coalesce key (pr_key r), pr_reason := nt\<rparr>"
    have r: "ps_rows s' = map (\<lambda>r. if pr_trade r = trade \<and> pr_status r = ''PENDING'' then ?f r else r) (ps_rows s)"
      using True recording(1) by (simp add: record_anchor_def)
    have "keeps_identity ?f" by (simp add: keeps_identity_def)
    from mapped_ok[OF assms(2) this r] have "pend_ok s'" .
    moreover have "terminal_kept s s'"
      unfolding terminal_kept_def r
    proof (intro ballI impI)
      fix x assume x: "x \<in> set (ps_rows s)" "pr_status x \<noteq> ''PENDING''"
      have "(if pr_trade x = trade \<and> pr_status x = ''PENDING'' then ?f x else x)
          \<in> (\<lambda>r. if pr_trade r = trade \<and> pr_status r = ''PENDING'' then ?f r else r) ` set (ps_rows s)" using x(1) by (rule imageI)
      with x(2) show "x \<in> set (map (\<lambda>r. if pr_trade r = trade \<and> pr_status r = ''PENDING'' then ?f r else r) (ps_rows s))" by simp
    qed
    ultimately show ?thesis ..
  next
    case False
    define n where "n = \<lparr>pr_id = new_id, pr_trade = trade, pr_user = user, pr_hash = h, pr_tx = tx, pr_explorer = ex, pr_attestation = att,
      pr_key = key, pr_status = ''PENDING'', pr_reason = nt, pr_submitted = now, pr_checked = None, pr_resolved = None, pr_attempts = 0\<rparr>"
    have n: "pr_id n = new_id" "pr_trade n = trade" by (simp_all add: n_def)
    have r: "ps_rows s' = ps_rows s @ [n]" using False recording(1) unfolding n_def by (simp add: record_anchor_def)
    have "pend_ok s'"
      by (rule append_ok[OF assms(2) r]) (use recording(2) n in simp, use False n in simp)
    moreover have "terminal_kept s s'" by (simp add: terminal_kept_def r)
    ultimately show ?thesis ..
  qed
next
  case (resolving i be now eid out)
  from resolve_rows[OF resolving(1)] show ?thesis
  proof (elim disjE exE conjE)
    assume same: "ps_rows s' = ps_rows s"
    have "terminal_kept s s" by (simp add: terminal_kept_def)
    with assms(2) show ?thesis unfolding rows_only[OF same, of s, THEN conjunct1] rows_only[OF same, of s, THEN conjunct2] ..
  next
    fix row f assume f: "row \<in> set (ps_rows s)" "pr_id row = i" "pr_status row = ''PENDING''" "keeps_identity f"
      "ps_rows s' = ps_rows (update_row s i f)"
    note u = update_row_ok[OF assms(2) f(4), of i] update_row_terminal[OF assms(2) f(1-3), of f]
    show ?thesis unfolding rows_only[OF f(5), of s, THEN conjunct1] rows_only[OF f(5), of s, THEN conjunct2]
      by (rule conjI[OF u])
  qed
next
  case (elsewhere l)
  then have same: "ps_rows s' = ps_rows s" by simp
  have "terminal_kept s s" by (simp add: terminal_kept_def)
  with assms(2) show ?thesis unfolding rows_only[OF same, of s, THEN conjunct1] rows_only[OF same, of s, THEN conjunct2] ..
qed

subsection \<open>Properties\<close>


definition demo_pending_row :: pending_row where
  "demo_pending_row = \<lparr>pr_id = ''p1'', pr_trade = demo_tid, pr_user = ''u'', pr_hash = ''0xaa'', pr_tx = Some ''0xbb'', pr_explorer = None,
     pr_attestation = [(''digest'', PStr ''0xaa'')], pr_key = None, pr_status = ''PENDING'', pr_reason = None, pr_submitted = 0,
     pr_checked = None, pr_resolved = None, pr_attempts = 0\<rparr>"

definition demo_pend :: pend_state where
  "demo_pend = \<lparr>ps_rows = [demo_pending_row], ps_ledger = demo_db\<rparr>"

text \<open>A node that has mined the transaction, with the registry read behind it; and one that answers nothing.\<close>

definition demo_backend :: backend where
  "demo_backend = \<lparr>bk_chain = 1, bk_registry = Some ''0xR'', bk_explorer = None, bk_anchored = True, bk_get = (\<lambda>_. Some None),
     bk_tx = (\<lambda>_. Some (Some \<lparr>tx_st = ''mined'', tx_block = Some 7, tx_confirmed = Some 99\<rparr>))\<rparr>"

definition silent_backend :: backend where
  "silent_backend = demo_backend\<lparr>bk_get := (\<lambda>_. None), bk_tx := (\<lambda>_. None)\<rparr>"


lemma check_row_registry:
  "registry_read be row = Some r \<Longrightarrow> check_row be row now \<noteq> Some (Failed why) \<and> check_row be row now \<noteq> Some (Waiting n)"
  by (auto simp: check_row_def Let_def mk_receipt_def)

lemma check_row_failed:
  "check_row be row now = Some (Failed why) \<Longrightarrow> registry_read be row = None \<and> tx_st (tx_read be row) \<noteq> ''mined''"
  by (auto simp: check_row_def Let_def mk_receipt_def split: option.splits if_splits)

lemma check_row_anchored:
  "check_row be row now = Some (Anchored a) \<Longrightarrow> ar_anchored a \<and> (registry_read be row \<noteq> None \<or> tx_st (tx_read be row) = ''mined'')"
  by (auto simp: check_row_def Let_def mk_receipt_def split: option.splits if_splits)

lemma update_row_none:
  "(\<And>r. pr_status (f r) \<noteq> ''PENDING'') \<Longrightarrow>
     List.find (\<lambda>r. pr_id r = i \<and> pr_status r = ''PENDING'') (map (\<lambda>r. if pr_id r = i then f r else r) rows) = None"
  by (auto simp: find_None_iff)

lemma resolve_gone:
  "List.find (\<lambda>r. pr_id r = i \<and> pr_status r = ''PENDING'') (ps_rows s) = None \<Longrightarrow> resolve s i be now eid = (s, Gone)"
  by (simp add: resolve_def)

text \<open>C4: A confirmation is written once and only on evidence. When a resolution writes the CONFIRMED event, the row was open,
  its trade was PENDING, and the registry held the record or the node had mined the transaction; exactly one event is
  appended, of type CONFIRMED, for that trade and with the row's hash; and any later resolution of the same row, by
  whichever reconciler and whatever the chain then says, finds it gone and changes nothing.\<close>

theorem resolve_applies_once:
  assumes r: "resolve s i be now eid = (s', Applied resp)" and fresh: "\<not> lr_replay resp"
  shows "\<exists>row t ev. row \<in> set (ps_rows s) \<and> pr_id row = i \<and> pr_status row = ''PENDING''
    \<and> load_trade (ps_ledger s) (pr_trade row) = Some t \<and> t_status t = ''PENDING''
    \<and> (registry_read be row \<noteq> None \<or> tx_st (tx_read be row) = ''mined'')
    \<and> l_events (ps_ledger s') = l_events (ps_ledger s) @ [ev]
    \<and> e_type ev = ''CONFIRMED'' \<and> e_trade ev = pr_trade row \<and> e_hash ev = Some (pr_hash row)
    \<and> resolve s' i be' now' eid' = (s', Gone)"
proof -
  obtain row where row: "List.find (\<lambda>r. pr_id r = i \<and> pr_status r = ''PENDING'') (ps_rows s) = Some row"
    using r by (cases "List.find (\<lambda>r. pr_id r = i \<and> pr_status r = ''PENDING'') (ps_rows s)") (auto simp: resolve_def)
  obtain a where a: "check_row be row now = Some (Anchored a)"
    using r row by (auto simp: resolve_def split: option.splits check_result.splits)
  obtain t where t: "load_trade (ps_ledger s) (pr_trade row) = Some t" "t_status t = ''PENDING''"
    using r row a by (auto simp: resolve_def split: option.splits if_splits)
  let ?att = "dict_set ''anchor'' (receipt_dict a) (pr_attestation row)"
  obtain l' where l: "apply_confirmed (ps_ledger s) t ?att (pr_hash row) (pr_key row) eid = (l', Inr resp)"
    and s': "s' = update_row (s\<lparr>ps_ledger := l'\<rparr>) i (close_row ''ANCHORED'' None now)"
    using r row a t fresh by (auto simp: resolve_def split: prod.splits sum.splits if_splits)
  have tid: "t_id t = pr_trade row" using t(1) by (auto simp: load_trade_def find_Some_iff)
  obtain ev where ev: "l_events l' = l_events (ps_ledger s) @ [ev]" "e_type ev = ''CONFIRMED''" "e_trade ev = t_id t" "e_hash ev = Some (pr_hash row)"
    using l[unfolded apply_confirmed_def]
  proof (cases rule: apply_transition_cases)
    case same
    with fresh have False by blast
    then show ?thesis ..
  next
    case (done_req pre row')
    then show ?thesis using that by simp
  qed
  have "resolve s' i be' now' eid' = (s', Gone)"
    by (rule resolve_gone) (simp add: s' update_row_def update_row_none close_row_def)
  moreover have "ps_ledger s' = l'" by (simp add: s')
  ultimately show ?thesis using find_open[OF row] t check_row_anchored[OF a] ev tid
    by (intro exI[of _ row] exI[of _ t] exI[of _ ev]) simp
qed

theorem resolve_applies_once_witness:
  "\<exists>s' resp. resolve demo_pend ''p1'' demo_backend 5 ''e2'' = (s', Applied resp)
     \<and> resolve s' ''p1'' silent_backend 6 ''e3'' = (s', Gone) \<and> length (l_events (ps_ledger s')) = 2"
proof -
  have "case resolve demo_pend ''p1'' demo_backend 5 ''e2'' of (_, Applied resp) \<Rightarrow> \<not> lr_replay resp | _ \<Rightarrow> False" by code_simp
  then obtain s' resp where r: "resolve demo_pend ''p1'' demo_backend 5 ''e2'' = (s', Applied resp)" "\<not> lr_replay resp"
    by (auto split: prod.splits outcome.splits)
  from resolve_applies_once[OF this, of silent_backend 6 "''e3''"] r(1) show ?thesis
    by (auto simp: demo_pend_def demo_db_def)
qed

text \<open>A row is closed as FAILED only without evidence of an anchor: the row was open, no record of its hash was read from
  the registry, and the node did not report its transaction mined. The ledger is untouched, so the trade stays as it was.\<close>

theorem resolve_trusts_registry:
  assumes "resolve s i be now eid = (s', Failed_Row why)"
  shows "ps_ledger s' = ps_ledger s \<and> (\<exists>row. row \<in> set (ps_rows s) \<and> pr_id row = i \<and> pr_status row = ''PENDING''
    \<and> registry_read be row = None \<and> tx_st (tx_read be row) \<noteq> ''mined'')"
proof -
  obtain row where row: "List.find (\<lambda>r. pr_id r = i \<and> pr_status r = ''PENDING'') (ps_rows s) = Some row"
    using assms by (cases "List.find (\<lambda>r. pr_id r = i \<and> pr_status r = ''PENDING'') (ps_rows s)") (auto simp: resolve_def)
  have "check_row be row now = Some (Failed why) \<and> s' = update_row s i (close_row ''FAILED'' (Some (take 300 why)) now)"
    using assms row by (auto simp: resolve_def split: option.splits check_result.splits if_splits prod.splits sum.splits)
  with find_open[OF row] check_row_failed[of be row now why] show ?thesis by auto
qed

theorem resolve_trusts_registry_witness:
  "\<exists>s' why. resolve demo_pend ''p1'' silent_backend (seconds 7201) ''e2'' = (s', Failed_Row why) \<and> ps_ledger s' = demo_db"
proof -
  have "case resolve demo_pend ''p1'' silent_backend (seconds 7201) ''e2'' of (_, Failed_Row _) \<Rightarrow> True | _ \<Rightarrow> False" by code_simp
  then obtain s' why where "resolve demo_pend ''p1'' silent_backend (seconds 7201) ''e2'' = (s', Failed_Row why)"
    by (auto split: prod.splits outcome.splits)
  with resolve_trusts_registry[OF this] show ?thesis by (auto simp: demo_pend_def)
qed

text \<open>An unreadable chain is taken for an absent record: when neither the registry nor the node can be read, an open row is
  closed as FAILED as soon as it is two hours old, with the reason that the registry has no record.\<close>

theorem unreadable_chain_fails_row:
  assumes row: "List.find (\<lambda>r. pr_id r = i \<and> pr_status r = ''PENDING'') (ps_rows s) = Some row"
    and dead: "bk_get be (drop 2 (pr_hash row)) = None" "\<And>h. bk_tx be h = None" and old: "seconds (2 * 3600) < now - pr_submitted row"
  shows "resolve s i be now eid = (update_row s i (close_row ''FAILED'' (Some ''not mined after 2 hours; the registry has no record'') now),
    Failed_Row ''not mined after 2 hours; the registry has no record'')"
proof -
  have "tx_st (tx_read be row) \<in> {''error'', ''unknown''}" using dead(2) by (auto simp: tx_read_def unknown_tx_def split: option.splits)
  then have "check_row be row now = Some (Failed ''not mined after 2 hours; the registry has no record'')"
    using dead(1) old by (auto simp: check_row_def registry_read_def Let_def max_age_def)
  with row show ?thesis by (simp add: resolve_def)
qed

theorem unreadable_chain_fails_row_witness:
  "\<exists>s'. resolve demo_pend ''p1'' silent_backend (seconds 7201) ''e2'' =
     (s', Failed_Row ''not mined after 2 hours; the registry has no record'') \<and> map pr_status (ps_rows s') = [''FAILED'']"
  using unreadable_chain_fails_row[of "''p1''" demo_pend demo_pending_row silent_backend "seconds 7201" "''e2''"]
  by (simp add: demo_pend_def demo_pending_row_def silent_backend_def seconds_def update_row_def close_row_def)

end
