(* ===== verification/Budget.thy ===== *)
theory Budget
  imports Ledger
begin

section \<open>Spend limits (chain/budget.py, api/routes/_limits.py)\<close>

text \<open>
  Two guards count what a caller has done in a rolling window: the relayer budget counts anchoring attempts of the last
  24 hours per user, per firm and in total, and \<open>heavy\<close> counts a user's expensive requests of the last minute. Both are
  instances of one contract, \<open>rolling\<close>: admitting a stamp only while the window before it is not full keeps every window,
  wherever it ends, within the cap. Times are microseconds. The advisory lock makes \<open>charge\<close> atomic; the database's
  answers (is the table there, did the insert go through, did the reads work) are inputs of each call.
\<close>

type_synonym stamp = int

definition window :: stamp where "window = 24 * 3600 * 1000000"
definition minute :: stamp where "minute = 60 * 1000000"

subsection \<open>Rolling windows\<close>

definition window_count :: "(stamp \<Rightarrow> stamp \<Rightarrow> bool) \<Rightarrow> stamp \<Rightarrow> stamp list \<Rightarrow> nat" where
  "window_count inside t ts = length (filter (\<lambda>x. x \<le> t \<and> inside t x) ts)"

definition window_ok :: "(stamp \<Rightarrow> stamp \<Rightarrow> bool) \<Rightarrow> nat \<Rightarrow> stamp list \<Rightarrow> bool" where
  "window_ok inside cap ts \<longleftrightarrow> (\<forall>t. window_count inside t ts \<le> cap)"

text \<open>\<open>inside t x\<close>: the stamp \<open>x\<close> counts at time \<open>t\<close>. A stamp that still counts later also counted before.\<close>

locale rolling =
  fixes inside :: "stamp \<Rightarrow> stamp \<Rightarrow> bool"
  assumes counted_before: "inside t x \<Longrightarrow> now \<le> t \<Longrightarrow> inside now x"
begin

lemma admit:
  assumes ok: "window_ok inside cap ts" and past: "\<forall>x \<in> set ts. x \<le> now" and room: "length (filter (inside now) ts) < cap"
  shows "window_ok inside cap (ts @ [now])"
  unfolding window_ok_def
proof
  fix t
  show "window_count inside t (ts @ [now]) \<le> cap"
  proof (cases "now \<le> t")
    case True
    have "length (filter (\<lambda>x. x \<le> t \<and> inside t x) ts) \<le> length (filter (inside now) ts)"
      by (rule length_filter_le_card_mono) (use counted_before True in blast)
    with room show ?thesis by (simp add: window_count_def)
  next
    case False
    with ok show ?thesis by (simp add: window_ok_def window_count_def)
  qed
qed

end

definition in_day :: "stamp \<Rightarrow> stamp \<Rightarrow> bool" where
  "in_day t x \<longleftrightarrow> t - window < x"

definition in_minute :: "stamp \<Rightarrow> stamp \<Rightarrow> bool" where
  "in_minute t x \<longleftrightarrow> t - x \<le> minute"

interpretation day: rolling in_day
  by unfold_locales (simp add: in_day_def)

interpretation mins: rolling in_minute
  by unfold_locales (simp add: in_minute_def)

subsection \<open>Caps\<close>

type_synonym env = "(string \<times> string) list"

definition int_env :: "env \<Rightarrow> string \<Rightarrow> int \<Rightarrow> int" where
  "int_env env name d =
     (let raw = str_strip (case dict_get env name of None \<Rightarrow> [] | Some v \<Rightarrow> v)
      in if raw = [] then d else (case py_int raw of None \<Rightarrow> d | Some n \<Rightarrow> max 0 n))"

record caps =
  cap_user :: int
  cap_firm :: int
  cap_global :: int

definition default_global :: int where "default_global = 200"

definition limits :: "env \<Rightarrow> caps" where
  "limits env =
     (let user = int_env env ''RIJEKA_CHAIN_DAILY_LIMIT'' 0
      in \<lparr>cap_user = user, cap_firm = int_env env ''RIJEKA_CHAIN_FIRM_DAILY_LIMIT'' (3 * user),
          cap_global = int_env env ''RIJEKA_CHAIN_GLOBAL_DAILY_LIMIT'' (if user \<noteq> 0 then default_global else 0)\<rparr>)"

subsection \<open>Attempts\<close>

record attempt =
  at_time :: stamp
  at_user :: string
  at_firm :: "string option"
  at_kind :: string

text \<open>\<open>bg_table\<close>: whether \<open>chain_attempts\<close> exists; \<open>bg_memory\<close>: the in-process deque used without it; \<open>bg_events\<close>: user, type and
  time of the stored trade events.\<close>

record budget =
  bg_table :: bool
  bg_rows :: "attempt list"
  bg_memory :: "attempt list"
  bg_events :: "(string \<times> string \<times> stamp) list"
  bg_members :: "(string \<times> string) list"

record charge_req =
  rq_user :: string
  rq_firm :: "string option"
  rq_kind :: string
  rq_now :: stamp
  rq_reads :: bool
  rq_inserts :: bool

definition firm_of :: "bool \<Rightarrow> budget \<Rightarrow> string \<Rightarrow> string option" where
  "firm_of reads s user =
     (if reads then (case dict_get (bg_members s) user of Some f \<Rightarrow> if f = [] then None else Some f | None \<Rightarrow> None) else None)"

definition anchoring_events :: "string list" where
  "anchoring_events = [''CONFIRMED'', ''AMENDED'', ''TERMINATED'']"

definition events_count :: "bool \<Rightarrow> budget \<Rightarrow> string \<Rightarrow> stamp \<Rightarrow> nat" where
  "events_count reads s user since =
     (if reads then length (filter (\<lambda>(u, ty, made). u = user \<and> ty \<in> set anchoring_events \<and> since < made) (bg_events s)) else 0)"

record counts3 =
  n_user :: nat
  n_firm :: nat
  n_global :: nat

definition named :: "string option \<Rightarrow> bool" where
  "named f \<longleftrightarrow> f \<noteq> None \<and> f \<noteq> Some []"

definition counts_at :: "bool \<Rightarrow> budget \<Rightarrow> string \<Rightarrow> string option \<Rightarrow> stamp \<Rightarrow> counts3" where
  "counts_at reads s user firm now =
     (let since = now - window;
          rows = filter (\<lambda>r. since < at_time r) (if bg_table s then bg_rows s else bg_memory s);
          u = length (filter (\<lambda>r. at_user r = user) rows);
          f = (if named firm then length (filter (\<lambda>r. at_firm r = firm) rows) else 0)
      in \<lparr>n_user = if bg_table s then u else max u (events_count reads s user since), n_firm = f, n_global = length rows\<rparr>)"

definition memory_size :: nat where "memory_size = 20000"

definition remember :: "attempt \<Rightarrow> attempt list \<Rightarrow> attempt list" where
  "remember a xs = (let ys = xs @ [a] in drop (length ys - memory_size) ys)"

datatype scope = User | Firm | Global

datatype stored = Nowhere | In_Db | In_Memory

definition full :: "int \<Rightarrow> nat \<Rightarrow> bool" where
  "full cap n \<longleftrightarrow> cap \<noteq> 0 \<and> cap \<le> int n"

text \<open>\<open>charge\<close>: the caps in the order user, firm, global; \<open>Inl\<close> is the 429 with the scope that refused.\<close>

definition charge :: "env \<Rightarrow> budget \<Rightarrow> charge_req \<Rightarrow> budget \<times> (scope, counts3 \<times> stored) res" where
  "charge env s q =
     (let lim = limits env
      in if cap_user lim = 0 \<and> cap_firm lim = 0 \<and> cap_global lim = 0
         then (s, Inr (\<lparr>n_user = 0, n_firm = 0, n_global = 0\<rparr>, Nowhere))
         else
           (let firm = (if rq_firm q = None then firm_of (rq_reads q) s (rq_user q) else rq_firm q);
                c = counts_at (rq_reads q) s (rq_user q) firm (rq_now q);
                a = \<lparr>at_time = rq_now q, at_user = rq_user q, at_firm = firm, at_kind = rq_kind q\<rparr>;
                up = \<lparr>n_user = n_user c + 1, n_firm = n_firm c + 1, n_global = n_global c + 1\<rparr>
            in if full (cap_user lim) (n_user c) then (s, Inl User)
               else if full (cap_firm lim) (n_firm c) then (s, Inl Firm)
               else if full (cap_global lim) (n_global c) then (s, Inl Global)
               else if bg_table s \<and> rq_inserts q then (s\<lparr>bg_rows := bg_rows s @ [a]\<rparr>, Inr (up, In_Db))
               else (s\<lparr>bg_memory := remember a (bg_memory s)\<rparr>, Inr (up, In_Memory))))"

fun run_charges :: "env \<Rightarrow> budget \<Rightarrow> charge_req list \<Rightarrow> budget \<times> (scope, counts3 \<times> stored) res list" where
  "run_charges env s [] = (s, [])"
| "run_charges env s (q # qs) =
     (case charge env s q of (s', r) \<Rightarrow> (case run_charges env s' qs of (s'', rs) \<Rightarrow> (s'', r # rs)))"

subsection \<open>Heavy requests\<close>

type_synonym buckets = "(string \<times> stamp list) list"

definition bucket_name :: "string option \<Rightarrow> string \<Rightarrow> string" where
  "bucket_name sub key = key @ '':'' @ (case sub of None \<Rightarrow> ''anon'' | Some s \<Rightarrow> if s = [] then ''anon'' else s)"

definition bucket_of :: "buckets \<Rightarrow> string \<Rightarrow> stamp list" where
  "bucket_of bs b = (case dict_get bs b of None \<Rightarrow> [] | Some q \<Rightarrow> q)"

definition stale :: "stamp \<Rightarrow> stamp list \<Rightarrow> bool" where
  "stale now v \<longleftrightarrow> v = [] \<or> minute < now - last v"

definition sweep :: "stamp \<Rightarrow> buckets \<Rightarrow> buckets" where
  "sweep now bs = (if 10000 < length bs then filter (\<lambda>(k, v). \<not> stale now v) bs else bs)"

text \<open>\<open>heavy\<close>: False is the 429.\<close>

definition heavy :: "buckets \<Rightarrow> string option \<Rightarrow> string \<Rightarrow> nat \<Rightarrow> stamp \<Rightarrow> buckets \<times> bool" where
  "heavy bs sub key per_minute now =
     (let b = bucket_name sub key; q = dropWhile (\<lambda>x. minute < now - x) (bucket_of bs b)
      in if per_minute \<le> length q then (dict_set b q bs, False)
         else (sweep now (dict_set b (q @ [now]) bs), True))"

fun run_heavy :: "(string \<Rightarrow> nat) \<Rightarrow> buckets \<Rightarrow> (string option \<times> string \<times> stamp) list \<Rightarrow> (string \<times> stamp) list" where
  "run_heavy per bs [] = []"
| "run_heavy per bs ((sub, key, now) # rs) =
     (case heavy bs sub key (per key) now of
        (bs', ok) \<Rightarrow> (if ok then [(bucket_name sub key, now)] else []) @ run_heavy per bs' rs)"

subsection \<open>The relayer budget\<close>

definition stamps :: "(attempt \<Rightarrow> bool) \<Rightarrow> attempt list \<Rightarrow> stamp list" where
  "stamps P rows = map at_time (filter P rows)"

text \<open>No 24 hours, whenever they end, hold more attempts of one user, one firm or everyone than the cap (0 is off).\<close>

definition caps_ok :: "env \<Rightarrow> budget \<Rightarrow> bool" where
  "caps_ok env s \<longleftrightarrow>
     (0 < cap_user (limits env) \<longrightarrow> (\<forall>u. window_ok in_day (nat (cap_user (limits env))) (stamps (\<lambda>r. at_user r = u) (bg_rows s))))
   \<and> (0 < cap_firm (limits env) \<longrightarrow> (\<forall>f. f \<noteq> [] \<longrightarrow> window_ok in_day (nat (cap_firm (limits env))) (stamps (\<lambda>r. at_firm r = Some f) (bg_rows s))))
   \<and> (0 < cap_global (limits env) \<longrightarrow> window_ok in_day (nat (cap_global (limits env))) (stamps (\<lambda>r. True) (bg_rows s)))"

definition in_past :: "stamp \<Rightarrow> budget \<Rightarrow> bool" where
  "in_past now s \<longleftrightarrow> (\<forall>r \<in> set (bg_rows s). at_time r \<le> now)"

lemma stamps_snoc: "stamps P (rows @ [a]) = (if P a then stamps P rows @ [at_time a] else stamps P rows)"
  by (simp add: stamps_def)

lemma stamps_in_day: "length (filter (in_day now) (stamps P rows)) = length (filter P (filter (\<lambda>r. now - window < at_time r) rows))"
  by (simp add: stamps_def in_day_def filter_map comp_def conj_commute)

lemma cap_step:
  assumes ok: "window_ok in_day (nat cap) (stamps P rows)" and past: "\<forall>r \<in> set rows. at_time r \<le> at_time a"
    and room: "P a \<Longrightarrow> int (length (filter P (filter (\<lambda>r. at_time a - window < at_time r) rows))) < cap"
  shows "window_ok in_day (nat cap) (stamps P (rows @ [a]))"
proof (cases "P a")
  case True
  have "\<forall>x \<in> set (stamps P rows). x \<le> at_time a" using past by (auto simp: stamps_def)
  moreover have "length (filter (in_day (at_time a)) (stamps P rows)) < nat cap"
    unfolding stamps_in_day using room[OF True] by linarith
  ultimately show ?thesis using day.admit[OF ok] True by (simp add: stamps_snoc)
next
  case False
  with ok show ?thesis by (simp add: stamps_snoc)
qed

text \<open>A charge either leaves the table as it is, or appends one row that every cap had room for.\<close>

lemma charge_cases:
  assumes "charge env s q = (s', r)" "bg_table s" "rq_inserts q"
  obtains (same) "bg_rows s' = bg_rows s" "bg_table s'"
  | (added) a where "bg_rows s' = bg_rows s @ [a]" "bg_table s'" "at_time a = rq_now q"
      "\<not> full (cap_user (limits env)) (n_user (counts_at (rq_reads q) s (at_user a) (at_firm a) (rq_now q)))"
      "\<not> full (cap_firm (limits env)) (n_firm (counts_at (rq_reads q) s (at_user a) (at_firm a) (rq_now q)))"
      "\<not> full (cap_global (limits env)) (n_global (counts_at (rq_reads q) s (at_user a) (at_firm a) (rq_now q)))"
proof (cases "bg_rows s' = bg_rows s")
  case True
  moreover have "bg_table s'" using assms by (auto simp: charge_def Let_def split: if_splits)
  ultimately show ?thesis by (rule same)
next
  case False
  let ?f = "if rq_firm q = None then firm_of (rq_reads q) s (rq_user q) else rq_firm q"
  let ?a = "\<lparr>at_time = rq_now q, at_user = rq_user q, at_firm = ?f, at_kind = rq_kind q\<rparr>"
  have "bg_rows s' = bg_rows s @ [?a] \<and> bg_table s'
      \<and> \<not> full (cap_user (limits env)) (n_user (counts_at (rq_reads q) s (rq_user q) ?f (rq_now q)))
      \<and> \<not> full (cap_firm (limits env)) (n_firm (counts_at (rq_reads q) s (rq_user q) ?f (rq_now q)))
      \<and> \<not> full (cap_global (limits env)) (n_global (counts_at (rq_reads q) s (rq_user q) ?f (rq_now q)))"
    using assms False unfolding charge_def Let_def
    by (auto simp del: full_def split: if_split_asm)
  then show ?thesis using added[of ?a] by simp
qed

lemma not_full: "\<not> full cap n \<Longrightarrow> 0 < cap \<Longrightarrow> int n < cap"
  by (auto simp: full_def)

lemma in_past_later: "in_past now s \<Longrightarrow> now \<le> later \<Longrightarrow> in_past later s"
  by (force simp: in_past_def)

lemma charge_step:
  assumes c: "charge env s q = (s', r)" "bg_table s" "rq_inserts q" and ok: "caps_ok env s" and past: "in_past (rq_now q) s"
  shows "caps_ok env s' \<and> bg_table s' \<and> in_past (rq_now q) s'"
  using c
proof (cases rule: charge_cases)
  case same
  with ok past show ?thesis by (simp add: caps_ok_def in_past_def)
next
  case (added a)
  let ?l = "limits env"
  have p: "\<forall>x \<in> set (bg_rows s). at_time x \<le> at_time a" using past added(3) by (simp add: in_past_def)
  have "window_ok in_day (nat (cap_user ?l)) (stamps (\<lambda>r. at_user r = u) (bg_rows s'))" if "0 < cap_user ?l" for u
    unfolding added(1) using ok that not_full[OF added(4) that] added(3) c(2)
    by (intro cap_step[OF _ p]) (auto simp: caps_ok_def counts_at_def Let_def)
  moreover have "window_ok in_day (nat (cap_firm ?l)) (stamps (\<lambda>r. at_firm r = Some f) (bg_rows s'))" if "0 < cap_firm ?l" "f \<noteq> []" for f
    unfolding added(1) using ok that not_full[OF added(5) that(1)] added(3) c(2)
    by (intro cap_step[OF _ p]) (auto simp: caps_ok_def counts_at_def Let_def named_def)
  moreover have "window_ok in_day (nat (cap_global ?l)) (stamps (\<lambda>r. True) (bg_rows s'))" if "0 < cap_global ?l"
    unfolding added(1) using ok that not_full[OF added(6) that] added(3) c(2)
    by (intro cap_step[OF _ p]) (auto simp: caps_ok_def counts_at_def Let_def)
  ultimately show ?thesis using added(1-3) p by (auto simp: caps_ok_def in_past_def)
qed

text \<open>C21: The relayer's caps hold in every window. While attempts are stored in the table, charges made one after another never let
  more attempts of a user, of a firm or of everyone into any 24 hours than the configured cap, wherever those 24 hours end.\<close>

theorem charge_caps_hold:
  assumes "run_charges env s qs = (s', rs)" and "bg_table s" and "caps_ok env s" and "\<And>q. q \<in> set qs \<Longrightarrow> rq_inserts q"
    and "sorted (map rq_now qs)" and "\<And>q. q \<in> set qs \<Longrightarrow> in_past (rq_now q) s"
  shows "caps_ok env s'"
  using assms
proof (induction qs arbitrary: s rs)
  case (Cons q qs)
  obtain s1 r where c: "charge env s q = (s1, r)" by fastforce
  obtain rs' where rest: "run_charges env s1 qs = (s', rs')" using Cons.prems(1) c by (auto split: prod.splits)
  have step: "caps_ok env s1" "bg_table s1" "in_past (rq_now q) s1"
    using charge_step[OF c] Cons.prems by simp_all
  have "in_past (rq_now x) s1" if "x \<in> set qs" for x
    using in_past_later[OF step(3)] Cons.prems(5) that by simp
  then show ?case using Cons.IH[OF rest step(2,1)] Cons.prems(4,5) by simp
qed simp

definition demo_env :: env where
  "demo_env = [(''RIJEKA_CHAIN_DAILY_LIMIT'', '' 1'')]"

definition demo_budget :: budget where
  "demo_budget = \<lparr>bg_table = True, bg_rows = [], bg_memory = [], bg_events = [], bg_members = [(''ann'', ''f1'')]\<rparr>"

definition demo_charge :: "stamp \<Rightarrow> bool \<Rightarrow> charge_req" where
  "demo_charge t ins = \<lparr>rq_user = ''ann'', rq_firm = None, rq_kind = ''confirm'', rq_now = t, rq_reads = True, rq_inserts = ins\<rparr>"

theorem charge_caps_hold_witness:
  "\<exists>s'. run_charges demo_env demo_budget [demo_charge 5 True, demo_charge 6 True, demo_charge 86400000005 True]
        = (s', [Inr (\<lparr>n_user = 1, n_firm = 1, n_global = 1\<rparr>, In_Db), Inl User, Inr (\<lparr>n_user = 1, n_firm = 1, n_global = 1\<rparr>, In_Db)])
      \<and> caps_ok demo_env s'"
proof -
  let ?qs = "[demo_charge 5 True, demo_charge 6 True, demo_charge 86400000005 True]"
  obtain s' rs where r: "run_charges demo_env demo_budget ?qs = (s', rs)" by fastforce
  have "snd (run_charges demo_env demo_budget ?qs) = [Inr (\<lparr>n_user = 1, n_firm = 1, n_global = 1\<rparr>, In_Db), Inl User,
      Inr (\<lparr>n_user = 1, n_firm = 1, n_global = 1\<rparr>, In_Db)]" by code_simp
  moreover have "caps_ok demo_env s'"
    by (rule charge_caps_hold[OF r])
       (auto simp: demo_budget_def demo_charge_def caps_ok_def in_past_def stamps_def window_ok_def window_count_def)
  ultimately show ?thesis using r by simp
qed

text \<open>An attempt whose row cannot be written is never counted: with the table present and its inserts failing, any number of charges
  that the caps let through at the start all succeed, each remembered only in memory, which the counts do not read while the table is there.\<close>

theorem failed_insert_uncounted:
  assumes table: "bg_table s" and q: "\<not> rq_inserts q" and once: "charge env s q = (s1, Inr x)"
  shows "snd (run_charges env s (replicate n q)) = replicate n (Inr x) \<and> bg_rows (fst (run_charges env s (replicate n q))) = bg_rows s"
proof -
  define same where "same s2 \<longleftrightarrow> bg_table s2 \<and> bg_rows s2 = bg_rows s \<and> bg_events s2 = bg_events s \<and> bg_members s2 = bg_members s" for s2 :: budget
  have step: "\<exists>s3. charge env s2 q = (s3, Inr x) \<and> same s3" if "same s2" for s2
  proof -
    have c: "counts_at reads s2 u f t = counts_at reads s u f t" "firm_of reads s2 u = firm_of reads s u" for reads u f t
      using that table by (simp_all add: same_def counts_at_def firm_of_def Let_def)
    show ?thesis using once q table that unfolding charge_def Let_def c
      by (auto simp: same_def split: if_split_asm)
  qed
  have "snd (run_charges env s2 (replicate n q)) = replicate n (Inr x) \<and> same (fst (run_charges env s2 (replicate n q)))" if "same s2" for s2
    using that
  proof (induction n arbitrary: s2)
    case (Suc n)
    then obtain s3 where "charge env s2 q = (s3, Inr x)" "same s3" using step by blast
    with Suc.IH[of s3] show ?case by (auto split: prod.splits)
  qed simp
  from this[of s] table show ?thesis by (simp add: same_def)
qed

theorem failed_insert_uncounted_witness:
  "snd (run_charges demo_env demo_budget (replicate 50 (demo_charge 5 False)))
     = replicate 50 (Inr (\<lparr>n_user = 1, n_firm = 1, n_global = 1\<rparr>, In_Memory))"
proof -
  obtain s1 where "charge demo_env demo_budget (demo_charge 5 False) = (s1, Inr (\<lparr>n_user = 1, n_firm = 1, n_global = 1\<rparr>, In_Memory))"
  proof -
    have "snd (charge demo_env demo_budget (demo_charge 5 False)) = Inr (\<lparr>n_user = 1, n_firm = 1, n_global = 1\<rparr>, In_Memory)" by code_simp
    then show ?thesis using that by (metis prod.collapse)
  qed
  from failed_insert_uncounted[OF _ _ this, of 50] show ?thesis by (simp add: demo_budget_def demo_charge_def)
qed

subsection \<open>Heavy requests\<close>

text \<open>A bucket holds the end of its history of admitted stamps; what it has dropped is more than a minute old.\<close>

definition tracks :: "nat \<Rightarrow> string \<Rightarrow> buckets \<Rightarrow> stamp \<Rightarrow> stamp list \<Rightarrow> bool" where
  "tracks p b bs now hist \<longleftrightarrow> distinct (map fst bs) \<and> sorted hist \<and> (\<forall>x \<in> set hist. x \<le> now) \<and> window_ok in_minute p hist
     \<and> (\<exists>old. hist = old @ bucket_of bs b \<and> (\<forall>x \<in> set old. minute < now - x))"

lemma bucket_of_set: "bucket_of (dict_set k v bs) b = (if b = k then v else bucket_of bs b)"
  by (simp add: bucket_of_def dict_get_set)

lemma map_of_filter_distinct:
  "distinct (map fst xs) \<Longrightarrow> map_of (filter (\<lambda>(k, v). P v) xs) b = (case map_of xs b of None \<Rightarrow> None | Some v \<Rightarrow> if P v then Some v else None)"
proof (induction xs)
  case (Cons x xs)
  have "map_of (filter (\<lambda>(k, v). P v) xs) (fst x) = None" using Cons.prems by (auto simp: map_of_eq_None_iff)
  with Cons show ?case by (cases x) (auto split: option.splits)
qed simp

lemma tracks_sweep:
  assumes t: "tracks p b bs now hist"
  shows "tracks p b (sweep now bs) now hist"
proof -
  from t have d: "distinct (map fst bs)" by (simp add: tracks_def)
  have b: "bucket_of (sweep now bs) b = (if 10000 < length bs \<and> stale now (bucket_of bs b) then [] else bucket_of bs b)"
    using map_of_filter_distinct[OF d, of "\<lambda>v. \<not> stale now v" b] by (auto simp: sweep_def bucket_of_def stale_def split: option.splits)
  have d': "distinct (map fst (sweep now bs))" using d by (simp add: sweep_def distinct_map_filter)
  obtain old where old: "hist = old @ bucket_of bs b" "\<forall>x \<in> set old. minute < now - x" using t by (auto simp: tracks_def)
  have old_last: "minute < now - x" if st: "stale now (bucket_of bs b)" and x: "x \<in> set (bucket_of bs b)" for x
  proof -
    obtain ys z where z: "bucket_of bs b = ys @ [z]" using x by (cases "bucket_of bs b" rule: rev_cases) auto
    have "sorted (old @ ys @ [z])" using t old(1) z by (simp add: tracks_def)
    with st x z have "x \<le> z" "minute < now - z" by (auto simp: sorted_append stale_def)
    then show ?thesis by linarith
  qed
  have "\<exists>old. hist = old @ bucket_of (sweep now bs) b \<and> (\<forall>x \<in> set old. minute < now - x)"
  proof (cases "10000 < length bs \<and> stale now (bucket_of bs b)")
    case True
    with b old old_last show ?thesis by (intro exI[of _ hist]) auto
  next
    case False
    with b old show ?thesis by (intro exI[of _ old]) auto
  qed
  with t d' show ?thesis by (simp add: tracks_def)
qed

lemma tracks_later:
  assumes t: "tracks p b bs t0 hist" and now: "t0 \<le> now"
  shows "tracks p b bs now hist"
proof -
  obtain old where old: "hist = old @ bucket_of bs b" "\<forall>x \<in> set old. minute < t0 - x" using t by (auto simp: tracks_def)
  have "\<forall>x \<in> set old. minute < now - x" "\<forall>x \<in> set hist. x \<le> now" using old(2) t now by (auto simp: tracks_def)
  with t old(1) show ?thesis by (auto simp: tracks_def)
qed

lemma tracks_pruned:
  assumes t: "tracks p b bs now hist"
  shows "tracks p b (dict_set k (dropWhile (\<lambda>x. minute < now - x) (bucket_of bs k)) bs) now hist"
proof -
  let ?P = "\<lambda>x. minute < now - x"
  obtain old where old: "hist = old @ bucket_of bs b" "\<forall>x \<in> set old. ?P x" using t by (auto simp: tracks_def)
  have "\<exists>old'. hist = old' @ (if b = k then dropWhile ?P (bucket_of bs k) else bucket_of bs b) \<and> (\<forall>x \<in> set old'. ?P x)"
  proof (cases "b = k")
    case True
    have "\<forall>x \<in> set (takeWhile ?P (bucket_of bs k)). ?P x" by (meson set_takeWhileD)
    with True old show ?thesis by (intro exI[of _ "old @ takeWhile ?P (bucket_of bs k)"]) auto
  next
    case False
    with old show ?thesis by auto
  qed
  with t show ?thesis by (simp add: tracks_def bucket_of_set distinct_update)
qed

lemma tracks_admit:
  assumes t: "tracks p b bs now hist" and room: "length (bucket_of bs b) < p"
  shows "tracks p b (dict_set b (bucket_of bs b @ [now]) bs) now (hist @ [now])"
proof -
  obtain old where old: "hist = old @ bucket_of bs b" "\<forall>x \<in> set old. minute < now - x" using t by (auto simp: tracks_def)
  have "filter (in_minute now) old = []" using old(2) by (auto simp: in_minute_def filter_empty_conv)
  then have "length (filter (in_minute now) hist) < p" 
    using old(1) room le_less_trans[OF length_filter_le[of "in_minute now" "bucket_of bs b"]] by simp
  then have "window_ok in_minute p (hist @ [now])" using t by (intro mins.admit) (auto simp: tracks_def)
  with t old show ?thesis by (auto simp: tracks_def bucket_of_set distinct_update sorted_append)
qed

lemma tracks_other:
  "tracks p b bs now hist \<Longrightarrow> b \<noteq> k \<Longrightarrow> tracks p b (dict_set k v bs) now hist"
  by (simp add: tracks_def bucket_of_set distinct_update)

lemma dict_set_twice: "dict_set k v (dict_set k w d) = dict_set k v d"
  by (induction d) auto

lemma heavy_tracks:
  assumes h: "heavy bs sub key p' now = (bs', ok)" and t: "tracks p b bs now hist" and p: "bucket_name sub key = b \<Longrightarrow> p' = p"
  shows "tracks p b bs' now (hist @ (if ok \<and> bucket_name sub key = b then [now] else []))"
proof -
  let ?k = "bucket_name sub key" and ?q = "dropWhile (\<lambda>x. minute < now - x) (bucket_of bs (bucket_name sub key))"
  note pr = tracks_pruned[OF t, of ?k]
  show ?thesis
  proof (cases "p' \<le> length ?q")
    case True
    with h pr show ?thesis by (auto simp: heavy_def Let_def)
  next
    case False
    then have bs': "bs' = sweep now (dict_set ?k (?q @ [now]) bs)" "ok" using h by (auto simp: heavy_def Let_def)
    show ?thesis
    proof (cases "?k = b")
      case True
      have "tracks p b (dict_set b (?q @ [now]) (dict_set b ?q bs)) now (hist @ [now])"
        using tracks_admit[of p b "dict_set b ?q bs" now hist] pr True False p by (simp add: bucket_of_set)
      then show ?thesis using tracks_sweep bs' True by (simp add: dict_set_twice)
    next
      case k: False
      have "tracks p b (dict_set ?k (?q @ [now]) bs) now hist" using tracks_other[OF t] k by metis
      then show ?thesis using tracks_sweep bs' k by simp
    qed
  qed
qed

text \<open>The per-minute guard holds in every minute: whatever requests arrive in time order, however their buckets are pruned and swept,
  no closed window of 60 seconds contains more admitted requests of one bucket than its rate.\<close>

theorem heavy_rate_bound:
  assumes "sorted (map (\<lambda>(sub, key, now). now) rs)"
    and "\<And>sub key now. (sub, key, now) \<in> set rs \<Longrightarrow> bucket_name sub key = b \<Longrightarrow> per key = p"
  shows "window_ok in_minute p (map snd (filter (\<lambda>a. fst a = b) (run_heavy per [] rs)))"
proof -
  have run: "window_ok in_minute p (hist @ map snd (filter (\<lambda>a. fst a = b) (run_heavy per bs rs)))"
    if "tracks p b bs t0 hist" "sorted (map (\<lambda>(sub, key, now). now) rs)" "\<forall>(sub, key, now) \<in> set rs. t0 \<le> now"
      "\<And>sub key now. (sub, key, now) \<in> set rs \<Longrightarrow> bucket_name sub key = b \<Longrightarrow> per key = p" for bs t0 hist rs
    using that
  proof (induction rs arbitrary: bs t0 hist)
    case (Cons r rs)
    obtain sub key now where r: "r = (sub, key, now)" by (cases r)
    obtain bs' ok where h: "heavy bs sub key (per key) now = (bs', ok)" by fastforce
    have "tracks p b bs now hist" using tracks_later[OF Cons.prems(1)] Cons.prems(3) r by auto
    then have "tracks p b bs' now (hist @ (if ok \<and> bucket_name sub key = b then [now] else []))"
      by (rule heavy_tracks[OF h]) (use Cons.prems(4) r in auto)
    from Cons.IH[OF this] Cons.prems(2,4) r h show ?case by fastforce
  qed (simp add: tracks_def)
  show ?thesis
  proof (cases rs)
    case (Cons r rs')
    obtain sub key now where r: "r = (sub, key, now)" by (cases r)
    have "tracks p b [] now []" by (simp add: tracks_def window_ok_def window_count_def bucket_of_def)
    from run[OF this assms(1)] assms Cons r show ?thesis by fastforce
  qed (simp add: window_ok_def window_count_def)
qed

definition demo_requests :: "(string option \<times> string \<times> stamp) list" where
  "demo_requests = [(Some ''u'', ''risk'', 0), (None, ''risk'', 5), (Some ''u'', ''risk'', 6), (Some ''u'', ''risk'', 60000001)]"

theorem heavy_rate_bound_witness:
  "run_heavy (\<lambda>_. 1) [] demo_requests = [(''risk:u'', 0), (''risk:anon'', 5), (''risk:u'', 60000001)]
     \<and> window_ok in_minute 1 (map snd (filter (\<lambda>a. fst a = ''risk:u'') (run_heavy (\<lambda>_. 1) [] demo_requests)))"
proof -
  have "run_heavy (\<lambda>_. 1) [] demo_requests = [(''risk:u'', 0), (''risk:anon'', 5), (''risk:u'', 60000001)]" by code_simp
  moreover have "window_ok in_minute 1 (map snd (filter (\<lambda>a. fst a = ''risk:u'') (run_heavy (\<lambda>_. 1) [] demo_requests)))"
    by (rule heavy_rate_bound) (simp_all add: demo_requests_def)
  ultimately show ?thesis by blast
qed

end
