(* ===== verification/Jobs.thy ===== *)
theory Jobs
  imports Json
begin

section \<open>The job queue and its worker (jobs/queue.py, worker.py)\<close>

text \<open>
  The state is the \<open>jobs\<close> table in insertion order and the workers' heartbeats; times are seconds. Each operation of the queue is one
  committed statement, so a run of several workers is a sequence of such steps (\<open>jstep\<close>). The handlers are parameters: what a handler
  returns or raises is an input of \<open>run_job\<close>.
\<close>

type_synonym sec = int

record job =
  j_id :: string
  j_user :: string
  j_kind :: string
  j_params :: pydict
  j_status :: string
  j_progress :: pydict
  j_result :: "pyval option"
  j_error :: "string option"
  j_created :: sec
  j_started :: "sec option"
  j_finished :: "sec option"
  j_worker :: "string option"
  j_attempts :: nat

record beat =
  hb_worker :: string
  hb_at :: sec
  hb_kinds :: "string list"
  hb_started :: sec
  hb_job :: "string option"

record jobs_db =
  jd_jobs :: "job list"
  jd_beats :: "beat list"

definition active :: "string list" where
  "active = [''QUEUED'', ''RUNNING'']"

subsection \<open>Is the table there\<close>

text \<open>The cached answer, and the probe of \<open>to_regclass\<close>: \<open>None\<close> when it raises.\<close>

definition tables_present :: "sec \<times> bool option \<Rightarrow> bool option \<Rightarrow> sec \<Rightarrow> bool \<times> (sec \<times> bool option)" where
  "tables_present cache probe now =
     (case snd cache of
        Some b \<Rightarrow> if now - fst cache < 300 then (b, cache) else (probe = Some True, (now, Some (probe = Some True)))
      | None \<Rightarrow> (probe = Some True, (now, Some (probe = Some True))))"

definition worker_expected :: "string option \<Rightarrow> string option \<Rightarrow> bool \<Rightarrow> bool" where
  "worker_expected setting render present =
     (let v = str_lower (str_strip (case setting of None \<Rightarrow> ''auto'' | Some s \<Rightarrow> s))
      in if v \<in> {''0'', ''false'', ''no'', ''off''} then False
         else if v \<in> {''1'', ''true'', ''yes'', ''on''} then present
         else render \<noteq> None \<and> render \<noteq> Some [] \<and> present)"

subsection \<open>Queue operations\<close>

definition update_job :: "string \<Rightarrow> (job \<Rightarrow> job) \<Rightarrow> jobs_db \<Rightarrow> jobs_db" where
  "update_job i f db = db\<lparr>jd_jobs := map (\<lambda>j. if j_id j = i then f j else j) (jd_jobs db)\<rparr>"

definition enqueue :: "jobs_db \<Rightarrow> string \<Rightarrow> string \<Rightarrow> string \<Rightarrow> pydict \<Rightarrow> sec \<Rightarrow> jobs_db" where
  "enqueue db new_id user kind params now =
     db\<lparr>jd_jobs := jd_jobs db @ [\<lparr>j_id = new_id, j_user = user, j_kind = kind, j_params = params, j_status = ''QUEUED'', j_progress = [],
       j_result = None, j_error = None, j_created = now, j_started = None, j_finished = None, j_worker = None, j_attempts = 0\<rparr>]\<rparr>"

definition waiting :: "string list \<Rightarrow> job \<Rightarrow> bool" where
  "waiting kinds j \<longleftrightarrow> j_status j = ''QUEUED'' \<and> j_kind j \<in> set kinds"

definition oldest :: "string list \<Rightarrow> job list \<Rightarrow> job option" where
  "oldest kinds jobs = (case sort_key j_created (filter (waiting kinds) jobs) of [] \<Rightarrow> None | j # _ \<Rightarrow> Some j)"

definition taken :: "string \<Rightarrow> sec \<Rightarrow> job \<Rightarrow> job" where
  "taken name now j = j\<lparr>j_status := ''RUNNING'', j_started := Some now, j_worker := Some name, j_attempts := j_attempts j + 1\<rparr>"

definition claim :: "jobs_db \<Rightarrow> string \<Rightarrow> string list \<Rightarrow> sec \<Rightarrow> jobs_db \<times> job option" where
  "claim db name kinds now =
     (if kinds = [] then (db, None)
      else (case oldest kinds (jd_jobs db) of None \<Rightarrow> (db, None)
            | Some j \<Rightarrow> (update_job (j_id j) (taken name now) db, Some (taken name now j))))"

text \<open>\<open>progress || patch\<close>: the patch's keys win.\<close>

definition merge_dict :: "pydict \<Rightarrow> pydict \<Rightarrow> pydict" where
  "merge_dict d patch = foldl (\<lambda>acc (k, v). dict_set k v acc) d patch"

definition report_progress :: "jobs_db \<Rightarrow> string \<Rightarrow> pydict \<Rightarrow> jobs_db" where
  "report_progress db i patch = update_job i (\<lambda>j. j\<lparr>j_progress := merge_dict (j_progress j) patch\<rparr>) db"

definition finish_job :: "jobs_db \<Rightarrow> string \<Rightarrow> pyval \<Rightarrow> sec \<Rightarrow> jobs_db" where
  "finish_job db i result now =
     update_job i (\<lambda>j. j\<lparr>j_status := ''DONE'', j_result := Some result, j_finished := Some now, j_error := None\<rparr>) db"

definition fail_job :: "jobs_db \<Rightarrow> string \<Rightarrow> string \<Rightarrow> sec \<Rightarrow> jobs_db" where
  "fail_job db i err now = update_job i (\<lambda>j. j\<lparr>j_status := ''FAILED'', j_error := Some (take 300 err), j_finished := Some now\<rparr>) db"

definition latest_job :: "jobs_db \<Rightarrow> string option \<Rightarrow> string \<Rightarrow> job option" where
  "latest_job db user kind =
     (case rev (sort_key j_created (filter (\<lambda>j. j_kind j = kind \<and> (case user of None \<Rightarrow> True | Some u \<Rightarrow> j_user j = u)) (jd_jobs db))) of
        [] \<Rightarrow> None | j # _ \<Rightarrow> Some j)"

definition is_stale :: "sec \<Rightarrow> job \<Rightarrow> bool" where
  "is_stale cutoff j \<longleftrightarrow> j_status j = ''RUNNING'' \<and> (case j_started j of Some t \<Rightarrow> t | None \<Rightarrow> j_created j) < cutoff"

definition give_back :: "nat \<Rightarrow> sec \<Rightarrow> job \<Rightarrow> job" where
  "give_back most now j =
     (if j_attempts j < most then j\<lparr>j_status := ''QUEUED'', j_finished := None, j_worker := None\<rparr>
      else j\<lparr>j_status := ''FAILED'', j_error := Some ''the worker running this job stopped'', j_finished := Some now, j_worker := None\<rparr>)"

definition requeue_stale :: "jobs_db \<Rightarrow> int \<Rightarrow> nat \<Rightarrow> sec \<Rightarrow> jobs_db \<times> nat" where
  "requeue_stale db minutes most now =
     (let cutoff = now - minutes * 60
      in (db\<lparr>jd_jobs := map (\<lambda>j. if is_stale cutoff j then give_back most now j else j) (jd_jobs db)\<rparr>,
          length (filter (is_stale cutoff) (jd_jobs db))))"

record job_status =
  st_running :: bool
  st_queued :: bool
  st_status :: string
  st_job :: string
  st_started :: sec
  st_finished :: "sec option"
  st_error :: "string option"
  st_result :: "pyval option"
  st_worker :: "string option"
  st_current :: pyval
  st_done :: pyval
  st_total :: pyval

definition as_status :: "job \<Rightarrow> job_status" where
  "as_status j =
     \<lparr>st_running = j_status j \<in> set active, st_queued = j_status j = ''QUEUED'', st_status = j_status j, st_job = j_id j,
      st_started = (case j_started j of Some t \<Rightarrow> t | None \<Rightarrow> j_created j), st_finished = j_finished j, st_error = j_error j,
      st_result = j_result j, st_worker = j_worker j, st_current = get (j_progress j) ''current'',
      st_done = (case dict_get (j_progress j) ''done'' of None \<Rightarrow> PNum (Dec False 0 0) | Some v \<Rightarrow> v),
      st_total = (case dict_get (j_progress j) ''total'' of None \<Rightarrow> PNum (Dec False 0 0) | Some v \<Rightarrow> v)\<rparr>"

definition heartbeat :: "jobs_db \<Rightarrow> string \<Rightarrow> string list \<Rightarrow> sec \<Rightarrow> string option \<Rightarrow> sec \<Rightarrow> jobs_db" where
  "heartbeat db name kinds started current now =
     (if name \<in> hb_worker ` set (jd_beats db)
      then db\<lparr>jd_beats := map (\<lambda>b. if hb_worker b = name then b\<lparr>hb_at := now, hb_kinds := kinds, hb_job := current\<rparr> else b) (jd_beats db)\<rparr>
      else db\<lparr>jd_beats := jd_beats db @ [\<lparr>hb_worker = name, hb_at = now, hb_kinds = kinds, hb_started = started, hb_job = current\<rparr>]\<rparr>)"

definition in_status :: "string \<Rightarrow> jobs_db \<Rightarrow> nat" where
  "in_status st db = length (filter (\<lambda>j. j_status j = st) (jd_jobs db))"

datatype worker_report =
    No_Table
  | Read_Error
  | No_Beat nat nat
  | Beating bool beat sec nat nat

definition worker_status :: "bool \<Rightarrow> bool \<Rightarrow> jobs_db \<Rightarrow> sec \<Rightarrow> sec \<Rightarrow> worker_report" where
  "worker_status present readable db stale_after now =
     (if \<not> present then No_Table else if \<not> readable then Read_Error
      else (case rev (sort_key hb_at (jd_beats db)) of
              [] \<Rightarrow> No_Beat (in_status ''QUEUED'' db) (in_status ''RUNNING'' db)
            | b # _ \<Rightarrow> Beating (now - hb_at b \<le> stale_after) b (now - hb_at b) (in_status ''QUEUED'' db) (in_status ''RUNNING'' db)))"

subsection \<open>The worker\<close>

definition handler_kinds :: "string list" where
  "handler_kinds = [''ccr_run'', ''risk_backfill'', ''capital_run'', ''ipv_run'']"

definition worker_kinds :: "string option \<Rightarrow> string list" where
  "worker_kinds setting =
     (let raw = str_strip (case setting of None \<Rightarrow> [] | Some s \<Rightarrow> s);
          wanted = (if raw = [] then handler_kinds else filter (\<lambda>k. k \<noteq> []) (map str_strip (str_split CHR '','' raw)))
      in filter (\<lambda>k. k \<in> set handler_kinds) wanted)"

definition poll_s :: sec where "poll_s = 2"
definition idle_max_s :: sec where "idle_max_s = 10"
definition heartbeat_every_s :: sec where "heartbeat_every_s = 15"

definition next_delay :: "sec \<Rightarrow> bool \<Rightarrow> sec" where
  "next_delay current idle = (if idle then min (max current poll_s * 2) idle_max_s else poll_s)"

text \<open>What a handler does: the progress it reports, then a result or an exception (its type and message).\<close>

datatype outcome = Returns pyval | Raises string string

definition run_job :: "jobs_db \<Rightarrow> job \<Rightarrow> (string \<times> (job \<Rightarrow> pydict list \<times> outcome)) list \<Rightarrow> sec \<Rightarrow> jobs_db \<times> bool" where
  "run_job db job handlers now =
     (case dict_get handlers (j_kind job) of
        None \<Rightarrow> (fail_job db (j_id job) (''no handler for kind '' @ [CHR 0x27] @ j_kind job @ [CHR 0x27]) now, False)
      | Some h \<Rightarrow>
          (let (patches, out) = h job; db1 = foldl (\<lambda>d p. report_progress d (j_id job) p) db patches
           in case out of
                Returns r \<Rightarrow> (finish_job db1 (j_id job) r now, True)
              | Raises ty msg \<Rightarrow> (fail_job db1 (j_id job) (ty @ '': '' @ take 250 msg) now, False)))"

text \<open>One pass of \<open>loop\<close>: \<open>readable\<close> is False when the claim raises; the delay that follows is part of the loop's state.\<close>

record worker_state =
  ws_db :: jobs_db
  ws_delay :: sec
  ws_beat :: sec
  ws_ran :: nat

record pass =
  pa_now :: sec
  pa_readable :: bool
  pa_after :: sec

definition loop_pass ::
    "string \<Rightarrow> string list \<Rightarrow> sec \<Rightarrow> (string \<times> (job \<Rightarrow> pydict list \<times> outcome)) list \<Rightarrow> worker_state \<Rightarrow> pass \<Rightarrow> worker_state" where
  "loop_pass name kinds started handlers w p =
     (let beats = heartbeat_every_s \<le> pa_now p - ws_beat w;
          db1 = (if beats then heartbeat (ws_db w) name kinds started None (pa_now p) else ws_db w);
          beat1 = (if beats then pa_now p else ws_beat w);
          (db2, got) = (if pa_readable p then claim db1 name kinds (pa_now p) else (db1, None))
      in case got of
           None \<Rightarrow> w\<lparr>ws_db := db2, ws_beat := beat1, ws_delay := next_delay (ws_delay w) True\<rparr>
         | Some j \<Rightarrow>
             (let db3 = heartbeat db2 name kinds started (Some (j_id j)) (pa_now p)
              in \<lparr>ws_db = fst (run_job db3 j handlers (pa_after p)), ws_delay = next_delay (ws_delay w) False, ws_beat = pa_now p,
                  ws_ran = ws_ran w + 1\<rparr>))"

definition start_worker :: "bool \<Rightarrow> jobs_db \<Rightarrow> sec \<Rightarrow> worker_state option" where
  "start_worker present db now =
     (if present then Some \<lparr>ws_db = fst (requeue_stale db 90 3 now), ws_delay = poll_s, ws_beat = 0, ws_ran = 0\<rparr> else None)"

definition worker_loop ::
    "bool \<Rightarrow> jobs_db \<Rightarrow> string \<Rightarrow> string list \<Rightarrow> sec \<Rightarrow> (string \<times> (job \<Rightarrow> pydict list \<times> outcome)) list \<Rightarrow> pass list \<Rightarrow> jobs_db \<times> nat" where
  "worker_loop present db name kinds now handlers passes =
     (case start_worker present db now of None \<Rightarrow> (db, 0)
      | Some w \<Rightarrow> (let w' = foldl (loop_pass name kinds now handlers) w passes in (ws_db w', ws_ran w')))"

subsection \<open>Several workers\<close>

text \<open>Any committed operation of the queue, by whatever worker or route, in any order.\<close>

inductive jstep :: "jobs_db \<Rightarrow> jobs_db \<Rightarrow> bool" where
  enqueuing: "new_id \<notin> j_id ` set (jd_jobs db) \<Longrightarrow> jstep db (enqueue db new_id user kind params now)"
| claiming: "claim db name kinds now = (db', got) \<Longrightarrow> jstep db db'"
| reporting: "jstep db (report_progress db i patch)"
| finishing: "jstep db (finish_job db i result now)"
| failing: "jstep db (fail_job db i err now)"
| requeuing: "requeue_stale db minutes 3 now = (db', n) \<Longrightarrow> jstep db db'"
| beating: "jstep db (heartbeat db name kinds started current now)"

definition job_ok :: "job \<Rightarrow> bool" where
  "job_ok j \<longleftrightarrow> j_status j \<in> {''QUEUED'', ''RUNNING'', ''DONE'', ''FAILED''} \<and> j_attempts j \<le> 3 \<and> (j_status j = ''QUEUED'' \<longrightarrow> j_attempts j < 3)
     \<and> (j_status j = ''RUNNING'' \<longrightarrow> j_worker j \<noteq> None \<and> j_started j \<noteq> None)"

definition jobs_ok :: "jobs_db \<Rightarrow> bool" where
  "jobs_ok db \<longleftrightarrow> distinct (map j_id (jd_jobs db)) \<and> (\<forall>j \<in> set (jd_jobs db). job_ok j)"

lemma update_job_ok:
  assumes "jobs_ok db" and "\<And>j. j_id (f j) = j_id j" and "\<And>j. j \<in> set (jd_jobs db) \<Longrightarrow> j_id j = i \<Longrightarrow> job_ok j \<Longrightarrow> job_ok (f j)"
  shows "jobs_ok (update_job i f db)"
proof -
  have "map j_id (jd_jobs (update_job i f db)) = map j_id (jd_jobs db)" using assms(2) by (simp add: update_job_def)
  moreover have "job_ok j" if "j \<in> set (jd_jobs (update_job i f db))" for j
    using that assms(1,3) by (auto simp: update_job_def jobs_ok_def split: if_splits)
  ultimately show ?thesis using assms(1) by (simp add: jobs_ok_def)
qed

lemma oldest_Some:
  assumes "oldest kinds jobs = Some j"
  shows "j \<in> set jobs \<and> waiting kinds j \<and> (\<forall>x \<in> set jobs. waiting kinds x \<longrightarrow> j_created j \<le> j_created x)"
proof -
  obtain xs where xs: "sort_key j_created (filter (waiting kinds) jobs) = j # xs" using assms by (auto simp: oldest_def split: list.splits)
  then have s: "set (j # xs) = {x \<in> set jobs. waiting kinds x}" by (metis set_filter set_sort)
  have "sorted (map j_created (j # xs))" using xs by (metis sorted_sort_key)
  with s show ?thesis by auto
qed

lemma oldest_None: "oldest kinds jobs = None \<longleftrightarrow> (\<forall>x \<in> set jobs. \<not> waiting kinds x)"
proof -
  have "oldest kinds jobs = None \<longleftrightarrow> sort_key j_created (filter (waiting kinds) jobs) = []"
    by (cases "sort_key j_created (filter (waiting kinds) jobs)") (simp_all add: oldest_def)
  also have "\<dots> \<longleftrightarrow> filter (waiting kinds) jobs = []" by (metis length_0_conv length_sort)
  finally show ?thesis by (simp add: filter_empty_conv)
qed

lemma claim_cases:
  assumes "claim db name kinds now = (db', got)"
  obtains (nothing) "db' = db" "got = None" "\<forall>x \<in> set (jd_jobs db). \<not> waiting kinds x"
    | (one) j where "oldest kinds (jd_jobs db) = Some j" "got = Some (taken name now j)" "db' = update_job (j_id j) (taken name now) db"
proof (cases "kinds = []")
  case True
  then have "db' = db" "got = None" "\<forall>x \<in> set (jd_jobs db). \<not> waiting kinds x" using assms by (auto simp: claim_def waiting_def)
  then show ?thesis by (rule nothing)
next
  case False
  show ?thesis
  proof (cases "oldest kinds (jd_jobs db)")
    case None
    then have "db' = db" "got = None" using assms False by (simp_all add: claim_def)
    then show ?thesis using None unfolding oldest_None by (rule nothing)
  next
    case (Some j)
    then have "got = Some (taken name now j)" "db' = update_job (j_id j) (taken name now) db" using assms False by (simp_all add: claim_def)
    with Some show ?thesis by (rule one)
  qed
qed

lemma same_id: "jobs_ok db \<Longrightarrow> x \<in> set (jd_jobs db) \<Longrightarrow> y \<in> set (jd_jobs db) \<Longrightarrow> j_id x = j_id y \<Longrightarrow> x = y"
  by (auto simp: jobs_ok_def distinct_map inj_on_def)

lemma claim_ok:
  assumes "claim db name kinds now = (db', got)" "jobs_ok db"
  shows "jobs_ok db'"
  using assms(1)
proof (cases rule: claim_cases)
  case (one j)
  have "job_ok (taken name now x)" if "x \<in> set (jd_jobs db)" "j_id x = j_id j" "job_ok x" for x
    using oldest_Some[OF one(1)] same_id[OF assms(2)] that by (auto simp: job_ok_def waiting_def taken_def)
  then show ?thesis unfolding one(3) by (intro update_job_ok[OF assms(2)]) (simp_all add: taken_def)
qed (use assms in simp)

lemma jstep_ok:
  assumes "jstep db db'" "jobs_ok db"
  shows "jobs_ok db'"
  using assms(1)
proof (cases rule: jstep.cases)
  case (enqueuing new_id user kind params now)
  with assms(2) show ?thesis by (auto simp: jobs_ok_def enqueue_def job_ok_def)
next
  case (claiming name kinds now got)
  then show ?thesis by (rule claim_ok[OF _ assms(2)])
next
  case (reporting i patch)
  then show ?thesis using update_job_ok[OF assms(2), of "\<lambda>j. j\<lparr>j_progress := merge_dict (j_progress j) patch\<rparr>" i]
    by (simp add: report_progress_def job_ok_def)
next
  case (finishing i result now)
  then show ?thesis using update_job_ok[OF assms(2), of "\<lambda>j. j\<lparr>j_status := ''DONE'', j_result := Some result, j_finished := Some now, j_error := None\<rparr>" i]
    by (simp add: finish_job_def job_ok_def)
next
  case (failing i err now)
  then show ?thesis using update_job_ok[OF assms(2), of "\<lambda>j. j\<lparr>j_status := ''FAILED'', j_error := Some (take 300 err), j_finished := Some now\<rparr>" i]
    by (simp add: fail_job_def job_ok_def)
next
  case (requeuing minutes now n)
  let ?f = "\<lambda>j. if is_stale (now - minutes * 60) j then give_back 3 now j else j"
  have db': "jd_jobs db' = map ?f (jd_jobs db)" using requeuing by (auto simp: requeue_stale_def Let_def)
  have "job_ok (?f j)" if "job_ok j" for j
    using that by (auto simp: give_back_def job_ok_def is_stale_def)
  then have "\<forall>j \<in> set (map ?f (jd_jobs db)). job_ok j" using assms(2) unfolding jobs_ok_def set_map by blast
  moreover have "map j_id (map ?f (jd_jobs db)) = map j_id (jd_jobs db)" by (simp add: give_back_def)
  ultimately show ?thesis using assms(2) unfolding jobs_ok_def db' by metis
next
  case (beating name kinds started current now)
  with assms(2) show ?thesis by (auto simp: jobs_ok_def heartbeat_def)
qed


definition empty_jobs :: jobs_db where
  "empty_jobs = \<lparr>jd_jobs = [], jd_beats = []\<rparr>"

definition demo_queue :: jobs_db where
  "demo_queue = enqueue empty_jobs ''j1'' ''u'' ''ipv_run'' [] 0"

lemma demo_queue_ok: "jobs_ok demo_queue"
  by (simp add: jobs_ok_def demo_queue_def enqueue_def empty_jobs_def job_ok_def)

lemma demo_queue_steps: "jstep\<^sup>*\<^sup>* empty_jobs demo_queue"
  unfolding demo_queue_def by (rule r_into_rtranclp, rule enqueuing) (simp add: empty_jobs_def)


text \<open>A claim takes the oldest waiting job of the worker's kinds and touches nothing else: it returns nothing exactly when no queued job
  is of those kinds; otherwise the job it returns was queued, no queued job of those kinds was created earlier, its row becomes the returned
  one (running, owned by the caller, one attempt more), every other row is as before, and a second claim cannot get the same job.\<close>

theorem claim_oldest:
  assumes ok: "jobs_ok db" and c: "claim db name kinds now = (db', got)"
  shows "(got = None \<longleftrightarrow> (\<forall>x \<in> set (jd_jobs db). \<not> waiting kinds x)) \<and> (got = None \<longrightarrow> db' = db)
    \<and> (\<forall>g. got = Some g \<longrightarrow> (\<exists>j. j \<in> set (jd_jobs db) \<and> waiting kinds j \<and> g = taken name now j
          \<and> (\<forall>x \<in> set (jd_jobs db). waiting kinds x \<longrightarrow> j_created j \<le> j_created x)
          \<and> set (jd_jobs db') = insert g (set (jd_jobs db) - {j})
          \<and> snd (claim db' name' kinds' now') \<noteq> Some (taken name' now' g)))"
  using c
proof (cases rule: claim_cases)
  case nothing
  then show ?thesis by simp
next
  case (one j)
  note j = oldest_Some[OF one(1)]
  have "set (jd_jobs db') = insert (taken name now j) (set (jd_jobs db) - {j})"
  proof -
    have "\<not> waiting kinds (taken name now x)" for x by (simp add: waiting_def taken_def)
    then show ?thesis using same_id[OF ok, of _ j] j unfolding one(3) update_job_def by (auto simp: image_iff)
  qed
  moreover have "snd (claim db' name' kinds' now') \<noteq> Some (taken name' now' (taken name now j))"
  proof
    assume a: "snd (claim db' name' kinds' now') = Some (taken name' now' (taken name now j))"
    obtain db2 where "claim db' name' kinds' now' = (db2, Some (taken name' now' (taken name now j)))" using a by (metis prod.collapse)
    then obtain x where x: "oldest kinds' (jd_jobs db') = Some x" "taken name' now' x = taken name' now' (taken name now j)"
      by (cases rule: claim_cases) auto
    have "j_id x = j_id (taken name now j)" using arg_cong[OF x(2), of j_id] by (simp add: taken_def)
    moreover have "taken name now j \<in> set (jd_jobs db')" using calculation \<open>set (jd_jobs db') = _\<close> by blast
    ultimately have "x = taken name now j" using same_id[OF claim_ok[OF c ok]] oldest_Some[OF x(1)] by blast
    with oldest_Some[OF x(1)] show False by (simp add: waiting_def taken_def)
  qed
  ultimately show ?thesis using j one(2) by auto
qed

theorem claim_oldest_witness:
  "\<exists>db' g. claim demo_queue ''w1'' [''ipv_run''] 5 = (db', Some g) \<and> j_status g = ''RUNNING'' \<and> snd (claim db' ''w2'' [''ipv_run''] 6) = None"
proof -
  have c: "case claim demo_queue ''w1'' [''ipv_run''] 5 of (db', Some g) \<Rightarrow> j_status g = ''RUNNING'' \<and> snd (claim db' ''w2'' [''ipv_run''] 6) = None | _ \<Rightarrow> False"
    by code_simp
  obtain db' got where r: "claim demo_queue ''w1'' [''ipv_run''] 5 = (db', got)" by fastforce
  from claim_oldest[OF demo_queue_ok r] have "got = None \<longrightarrow> db' = demo_queue" by simp
  with r c show ?thesis by (cases got) auto
qed

text \<open>Running a claimed job always settles its row: whatever the handler reports, returns or raises, and also when no handler is known for
  its kind, the row ends DONE with the result and no error (exactly when the run counts as a success) or FAILED with an error of at most
  300 characters, and no other row is touched.\<close>

lemma foldl_progress:
  "\<exists>pr. jd_jobs (foldl (\<lambda>d p. report_progress d i p) db ps) = map (\<lambda>j. if j_id j = i then j\<lparr>j_progress := pr j\<rparr> else j) (jd_jobs db)"
proof (induction ps arbitrary: db)
  case Nil
  have "(\<lambda>j :: job. if j_id j = i then j\<lparr>j_progress := j_progress j\<rparr> else j) = id" by (rule ext) simp
  then show ?case by (intro exI[of _ j_progress]) simp
next
  case (Cons p ps)
  from Cons.IH[of "report_progress db i p"] obtain pr where
    pr: "jd_jobs (foldl (\<lambda>d p. report_progress d i p) (report_progress db i p) ps)
        = map (\<lambda>j. if j_id j = i then j\<lparr>j_progress := pr j\<rparr> else j) (jd_jobs (report_progress db i p))" by blast
  show ?case
    by (rule exI[of _ "\<lambda>j. pr (j\<lparr>j_progress := merge_dict (j_progress j) p\<rparr>)"]) (simp add: pr, simp add: report_progress_def update_job_def)
qed

theorem run_job_settles:
  assumes "run_job db job handlers now = (db', ok)"
  shows "length (jd_jobs db') = length (jd_jobs db)
    \<and> (\<forall>n < length (jd_jobs db). if j_id (jd_jobs db ! n) \<noteq> j_id job then jd_jobs db' ! n = jd_jobs db ! n
         else j_finished (jd_jobs db' ! n) = Some now
           \<and> (if ok then j_status (jd_jobs db' ! n) = ''DONE'' \<and> j_error (jd_jobs db' ! n) = None \<and> j_result (jd_jobs db' ! n) \<noteq> None
              else j_status (jd_jobs db' ! n) = ''FAILED'' \<and> (\<exists>e. j_error (jd_jobs db' ! n) = Some e \<and> length e \<le> 300)))"
proof (cases "dict_get handlers (j_kind job)")
  case None
  with assms show ?thesis by (auto simp: run_job_def fail_job_def update_job_def)
next
  case (Some h)
  obtain patches out where h: "h job = (patches, out)" by fastforce
  from foldl_progress[of "j_id job" db patches] obtain pr where
    pr: "jd_jobs (foldl (\<lambda>d p. report_progress d (j_id job) p) db patches) = map (\<lambda>j. if j_id j = j_id job then j\<lparr>j_progress := pr j\<rparr> else j) (jd_jobs db)"
    by blast
  from assms Some h pr show ?thesis
    by (cases out) (auto simp: run_job_def finish_job_def fail_job_def update_job_def)
qed

theorem run_job_settles_witness:
  "\<exists>db'. run_job (fst (claim demo_queue ''w1'' [''ipv_run''] 5)) (the (snd (claim demo_queue ''w1'' [''ipv_run''] 5)))
       [(''ipv_run'', \<lambda>_. ([[(''done'', PStr ''1'')]], Raises ''ValueError'' ''bad''))] 9 = (db', False)
     \<and> length (jd_jobs db') = 1 \<and> j_status (jd_jobs db' ! 0) = ''FAILED'' \<and> j_finished (jd_jobs db' ! 0) = Some 9"
proof -
  let ?db = "fst (claim demo_queue ''w1'' [''ipv_run''] 5)" and ?j = "the (snd (claim demo_queue ''w1'' [''ipv_run''] 5))"
  let ?h = "[(''ipv_run'', \<lambda>_. ([[(''done'', PStr ''1'')]], Raises ''ValueError'' ''bad''))]"
  obtain db' ok where r: "run_job ?db ?j ?h 9 = (db', ok)" by fastforce
  have c: "snd (run_job ?db ?j ?h 9) = False" "length (jd_jobs ?db) = 1" "j_id (jd_jobs ?db ! 0) = j_id ?j" by code_simp+
  from run_job_settles[OF r] c r show ?thesis by auto
qed

text \<open>A settled job need not stay settled. The outcome of a run is written without looking at the row, and a job counts as abandoned by its
  start time alone, so when a run takes longer than 90 minutes and a worker starts meanwhile, the job is run twice at once, and the slower
  run's failure overwrites the row of the finished one.\<close>

theorem finished_job_reopens:
  "\<exists>db1 db2 db3 db4. jobs_ok demo_queue \<and> claim demo_queue ''w1'' [''ipv_run''] 0 = (db1, Some (hd (jd_jobs db1)))
     \<and> requeue_stale db1 90 3 5401 = (db2, 1) \<and> claim db2 ''w2'' [''ipv_run''] 5402 = (db3, Some (hd (jd_jobs db3)))
     \<and> db4 = finish_job db3 ''j1'' PNone 5500 \<and> map j_status (jd_jobs db4) = [''DONE'']
     \<and> map (\<lambda>j. (j_status j, j_error j)) (jd_jobs (fail_job db4 ''j1'' ''Timeout'' 5600)) = [(''FAILED'', Some ''Timeout'')]"
proof -
  define db1 where "db1 = fst (claim demo_queue ''w1'' [''ipv_run''] 0)"
  define db2 where "db2 = fst (requeue_stale db1 90 3 5401)"
  define db3 where "db3 = fst (claim db2 ''w2'' [''ipv_run''] 5402)"
  have c: "snd (claim demo_queue ''w1'' [''ipv_run''] 0) = Some (hd (jd_jobs db1))" "snd (requeue_stale db1 90 3 5401) = 1"
    "snd (claim db2 ''w2'' [''ipv_run''] 5402) = Some (hd (jd_jobs db3))"
    "map j_status (jd_jobs (finish_job db3 ''j1'' PNone 5500)) = [''DONE'']"
    "map (\<lambda>j. (j_status j, j_error j)) (jd_jobs (fail_job (finish_job db3 ''j1'' PNone 5500) ''j1'' ''Timeout'' 5600)) = [(''FAILED'', Some ''Timeout'')]"
    unfolding db3_def db2_def db1_def by code_simp+
  have "claim demo_queue ''w1'' [''ipv_run''] 0 = (db1, Some (hd (jd_jobs db1)))" "requeue_stale db1 90 3 5401 = (db2, 1)"
    "claim db2 ''w2'' [''ipv_run''] 5402 = (db3, Some (hd (jd_jobs db3)))"
    using c(1-3) by (simp_all only: db1_def[symmetric] db2_def[symmetric] db3_def[symmetric] prod_eq_iff fst_conv snd_conv simp_thms)
  with c(4,5) demo_queue_ok show ?thesis
    by (intro exI[of _ db1] exI[of _ db2] exI[of _ db3] exI[of _ "finish_job db3 ''j1'' PNone 5500"] conjI refl)
qed

end
