(* ===== verification/Scheduler.thy ===== *)
theory Scheduler
  imports Json
begin

section \<open>The scheduler (scheduler.py)\<close>

text \<open>
  One thread of the API process runs the groups of batch steps and, after a deploy, moves the release branch. The state is when each group
  last ran and the outcome recorded for each step. What a step does is a parameter of the cycle; GitHub is a function from calls to
  answers, and the calls that write are returned in order. Times are seconds; the periods are whole minutes and hours.
\<close>

type_synonym sec = int

definition scheduler_enabled :: "string option \<Rightarrow> string option \<Rightarrow> bool" where
  "scheduler_enabled setting render =
     (let v = str_lower (str_strip (case setting of None \<Rightarrow> ''auto'' | Some s \<Rightarrow> s))
      in if v \<in> {''1'', ''true'', ''yes'', ''on''} then True
         else if v \<in> {''0'', ''false'', ''no'', ''off''} then False
         else render \<noteq> None \<and> render \<noteq> Some [])"

definition define_steps :: "(string \<times> string) list" where
  "define_steps = [(''news'', ''half_hourly''), (''summaries'', ''half_hourly''), (''spots'', ''half_hourly''),
     (''market_data'', ''daily''), (''pnl'', ''daily''), (''risk'', ''daily''), (''ccr'', ''daily''), (''chain_reconcile'', ''every_cycle'')]"

record periods =
  pe_minutes :: int
  pe_hours :: int

datatype step_outcome = Step_Done string | Step_Raised string

record step_record =
  sr_at :: sec
  sr_ok :: bool
  sr_detail :: string

record sched =
  sc_last :: "(string \<times> sec) list"
  sc_steps :: "(string \<times> step_record) list"
  sc_cycle :: "sec option"

definition record_step :: "string \<Rightarrow> bool \<Rightarrow> string \<Rightarrow> sec \<Rightarrow> sched \<Rightarrow> sched" where
  "record_step name ok detail now s = s\<lparr>sc_steps := dict_set name \<lparr>sr_at = now, sr_ok = ok, sr_detail = take 200 detail\<rparr> (sc_steps s)\<rparr>"

definition period_of :: "periods \<Rightarrow> string \<Rightarrow> sec" where
  "period_of cfg grp = (if grp = ''half_hourly'' then pe_minutes cfg * 60 else pe_hours cfg * 3600)"

definition due :: "periods \<Rightarrow> sched \<Rightarrow> string \<Rightarrow> sec \<Rightarrow> bool" where
  "due cfg s grp now =
     (if grp = ''every_cycle'' then True
      else (case dict_get (sc_last s) grp of None \<Rightarrow> True | Some l \<Rightarrow> period_of cfg grp - 5 \<le> now - l))"

definition run_step :: "string \<Rightarrow> step_outcome \<Rightarrow> string \<Rightarrow> sec \<Rightarrow> sched \<Rightarrow> sched \<times> bool" where
  "run_step name out secret now s =
     (if secret = [] then (record_step name False ''RIJEKA_CRON_SECRET is not set'' now s, False)
      else (case out of
              Step_Done text \<Rightarrow> (record_step name True text now s, True)
            | Step_Raised ty \<Rightarrow> (record_step name False (ty @ '' (the message is in the server log)'') now s, False)))"

definition run_steps :: "string list \<Rightarrow> (string \<Rightarrow> step_outcome) \<Rightarrow> string \<Rightarrow> sec \<Rightarrow> sched \<Rightarrow> sched" where
  "run_steps names behave secret now s = foldl (\<lambda>s name. fst (run_step name (behave name) secret now s)) s names"

definition steps_in :: "string \<Rightarrow> (string \<times> string) list \<Rightarrow> string list" where
  "steps_in grp steps = map fst (filter (\<lambda>(name, g). g = grp) steps)"

definition run_group ::
    "periods \<Rightarrow> (string \<times> string) list \<Rightarrow> (string \<Rightarrow> step_outcome) \<Rightarrow> string \<Rightarrow> sec \<Rightarrow> sched \<times> string list \<Rightarrow> string \<Rightarrow> sched \<times> string list" where
  "run_group cfg steps behave secret now sr grp =
     (if \<not> due cfg (fst sr) grp now then sr
      else (run_steps (steps_in grp steps) behave secret now ((fst sr)\<lparr>sc_last := dict_set grp now (sc_last (fst sr))\<rparr>),
            snd sr @ steps_in grp steps))"

definition groups :: "string list" where
  "groups = [''half_hourly'', ''daily'', ''every_cycle'']"

definition run_cycle :: "periods \<Rightarrow> (string \<times> string) list \<Rightarrow> (string \<Rightarrow> step_outcome) \<Rightarrow> string \<Rightarrow> sec \<Rightarrow> sched \<Rightarrow> sched \<times> string list" where
  "run_cycle cfg steps behave secret now s =
     (case foldl (run_group cfg steps behave secret now) (s, []) groups of (s', done_names) \<Rightarrow> (s'\<lparr>sc_cycle := Some now\<rparr>, done_names))"

text \<open>The cycles of a process's life: their times and what the steps do in each; the result lists when a group ran.\<close>

fun group_runs ::
    "periods \<Rightarrow> (string \<times> string) list \<Rightarrow> string \<Rightarrow> string \<Rightarrow> sched \<Rightarrow> (sec \<times> (string \<Rightarrow> step_outcome)) list \<Rightarrow> sec list" where
  "group_runs cfg steps secret grp s [] = []"
| "group_runs cfg steps secret grp s ((now, behave) # cs) =
     (if due cfg s grp now then [now] else []) @ group_runs cfg steps secret grp (fst (run_cycle cfg steps behave secret now s)) cs"

subsection \<open>Release sync\<close>

record gh_json =
  gj_sha :: "string option"
  gj_status :: "string option"
  gj_files :: "string list"

text \<open>A call is a method, a path and the commit in its body; an answer is a status code and the body, if it parsed.\<close>

type_synonym github = "string \<Rightarrow> string \<Rightarrow> string option \<Rightarrow> int \<times> gh_json option"

definition api_paths_excluded :: "string list" where
  "api_paths_excluded = [''frontend/'', ''netlify_drop/'', ''docs/'', ''.github/'']"

definition frontend_only :: "string list \<Rightarrow> bool" where
  "frontend_only files \<longleftrightarrow> files \<noteq> [] \<and> list_all (\<lambda>f. list_ex (\<lambda>p. starts_with p f) api_paths_excluded \<or> ends_with ''.md'' f) files"

definition sha_of :: "int \<times> gh_json option \<Rightarrow> string option" where
  "sha_of r = (case snd r of Some j \<Rightarrow> if fst r = 200 then gj_sha j else None | None \<Rightarrow> None)"

definition status_text :: "gh_json option \<Rightarrow> string option" where
  "status_text j = (case j of None \<Rightarrow> None | Some x \<Rightarrow> gj_status x)"

text \<open>Where the branch should go: this process's commit, or the head of the base branch when that is ahead by frontend changes only.\<close>

definition release_target :: "github \<Rightarrow> string \<Rightarrow> string \<Rightarrow> string \<Rightarrow> string option \<Rightarrow> string" where
  "release_target gh repo base own status =
     (if status = Some ''behind'' then
        (let ahead = gh ''GET'' (''/repos/'' @ repo @ ''/compare/'' @ own @ ''...'' @ base) None;
             files = (if fst ahead = 200 then (case snd ahead of None \<Rightarrow> [] | Some j \<Rightarrow> gj_files j) else [])
         in if frontend_only files
            then (case sha_of (gh ''GET'' (''/repos/'' @ repo @ ''/git/ref/heads/'' @ base) None) of
                    Some h \<Rightarrow> if h = [] then own else h | None \<Rightarrow> own)
            else own)
      else own)"

definition sync_release :: "github \<Rightarrow> string \<Rightarrow> string \<Rightarrow> string \<Rightarrow> string \<Rightarrow> string \<times> (string \<times> string \<times> string) list" where
  "sync_release gh repo branch base own =
     (let current = sha_of (gh ''GET'' (''/repos/'' @ repo @ ''/git/ref/heads/'' @ branch) None);
          cmp = gh ''GET'' (''/repos/'' @ repo @ ''/compare/'' @ base @ ''...'' @ own) None;
          status = status_text (snd cmp)
      in if fst cmp \<noteq> 200 \<or> status \<notin> {Some ''identical'', Some ''behind''}
         then (''commit is not on '' @ base @ '' (compare '' @ int_str (fst cmp) @ '': '' @ (case status of None \<Rightarrow> ''None'' | Some t \<Rightarrow> t)
                 @ ''); left alone'', [])
         else
           (let target = release_target gh repo base own status
            in if current = Some target then (''release already at this commit'', [])
               else
                 (let m = (if current = None then ''POST'' else ''PATCH'');
                      path = ''/repos/'' @ repo @ (if current = None then ''/git/refs'' else ''/git/refs/heads/'' @ branch);
                      code = fst (gh m path (Some target))
                  in (if code \<in> {200, 201} then ''release -> '' @ take 7 target
                      else ''GitHub refused the move ('' @ int_str code @ '')'', [(m, path, target)]))))"

text \<open>Waiting until the public URL serves this commit: each poll says whether the process is stopping, the time and the commit served.\<close>

fun await_live :: "string \<Rightarrow> sec \<Rightarrow> (bool \<times> sec \<times> string option) list \<Rightarrow> bool" where
  "await_live own deadline [] = False"
| "await_live own deadline ((stopping, now, served) # ps) =
     (if stopping \<or> deadline \<le> now then False else if served = Some own then True else await_live own deadline ps)"

record sync_env =
  se_commit :: string
  se_token :: string
  se_repo :: string
  se_url :: string

definition release_sync_once :: "sync_env \<Rightarrow> github \<Rightarrow> sec \<Rightarrow> (bool \<times> sec \<times> string option) list \<Rightarrow> string \<times> (string \<times> string \<times> string) list" where
  "release_sync_once env gh now polls =
     (if se_commit env = [] \<or> se_token env = [] \<or> se_url env = []
      then (''off: needs RENDER_GIT_COMMIT, RIJEKA_GITHUB_TOKEN and a public URL'', [])
      else if await_live (se_commit env) (now + 900) polls then sync_release gh (se_repo env) ''release'' ''main'' (se_commit env)
      else (''the public URL never reported this commit; release left alone'', []))"

subsection \<open>Cycles\<close>

lemma run_step_last [simp]: "sc_last (fst (run_step name out secret now s)) = sc_last s"
  by (simp add: run_step_def record_step_def split: step_outcome.splits)

lemma run_steps_last [simp]: "sc_last (run_steps names behave secret now s) = sc_last s"
  unfolding run_steps_def by (induction names arbitrary: s) simp_all

definition outcome_ok :: "string \<Rightarrow> step_outcome \<Rightarrow> bool" where
  "outcome_ok secret out \<longleftrightarrow> secret \<noteq> [] \<and> (case out of Step_Done _ \<Rightarrow> True | Step_Raised _ \<Rightarrow> False)"

definition outcome_at :: "sched \<Rightarrow> string \<Rightarrow> (sec \<times> bool) option" where
  "outcome_at s n = map_option (\<lambda>r. (sr_at r, sr_ok r)) (dict_get (sc_steps s) n)"

lemma outcome_at_updates [simp]:
  "outcome_at (s\<lparr>sc_last := l\<rparr>) n = outcome_at s n" "outcome_at (s\<lparr>sc_cycle := c\<rparr>) n = outcome_at s n"
  by (simp_all add: outcome_at_def)

text \<open>After a list of steps each of them has its own outcome recorded, whatever the others did.\<close>

lemma run_steps_records:
  "outcome_at (run_steps names behave secret now s) n =
     (if n \<in> set names then Some (now, outcome_ok secret (behave n))
      else outcome_at s n)"
proof (induction names arbitrary: s)
  case Nil
  show ?case by (simp add: run_steps_def)
next
  case (Cons m names)
  have "outcome_at (fst (run_step m (behave m) secret now s)) n =
     (if n = m then Some (now, outcome_ok secret (behave m)) else outcome_at s n)"
    by (auto simp: outcome_at_def run_step_def record_step_def outcome_ok_def dict_get_set split: step_outcome.splits)
  with Cons[of "fst (run_step m (behave m) secret now s)"] show ?case by (cases "n = m") (simp_all add: run_steps_def)
qed

lemma due_last: "dict_get (sc_last s) g = dict_get (sc_last s') g \<Longrightarrow> due cfg s g now = due cfg s' g now"
  by (simp add: due_def)

fun names_due :: "periods \<Rightarrow> (string \<times> string) list \<Rightarrow> sec \<Rightarrow> sched \<Rightarrow> string list \<Rightarrow> string list" where
  "names_due cfg steps now s [] = []"
| "names_due cfg steps now s (g # gs) = (if due cfg s g now then steps_in g steps else []) @ names_due cfg steps now s gs"

lemma names_due_cong:
  "(\<And>g. g \<in> set gs \<Longrightarrow> due cfg s g now = due cfg s' g now) \<Longrightarrow> names_due cfg steps now s gs = names_due cfg steps now s' gs"
  by (induction gs) auto

lemma run_group_due:
  "g \<noteq> g' \<Longrightarrow> due cfg (fst (run_group cfg steps behave secret now sr g)) g' now = due cfg (fst sr) g' now"
  by (rule due_last) (simp add: run_group_def dict_get_set)

lemma run_group_result:
  "run_group cfg steps behave secret now sr g = (if due cfg (fst sr) g now
     then (run_steps (steps_in g steps) behave secret now ((fst sr)\<lparr>sc_last := dict_set g now (sc_last (fst sr))\<rparr>), snd sr @ steps_in g steps) else sr)"
  by (simp add: run_group_def)

lemma run_groups:
  assumes "distinct gs"
  shows "snd (foldl (run_group cfg steps behave secret now) sr gs) = snd sr @ names_due cfg steps now (fst sr) gs
    \<and> outcome_at (fst (foldl (run_group cfg steps behave secret now) sr gs)) n =
       (if n \<in> set (names_due cfg steps now (fst sr) gs) then Some (now, outcome_ok secret (behave n))
        else outcome_at (fst sr) n)
    \<and> (\<forall>g. dict_get (sc_last (fst (foldl (run_group cfg steps behave secret now) sr gs))) g
        = (if g \<in> set gs \<and> due cfg (fst sr) g now then Some now else dict_get (sc_last (fst sr)) g))"
  using assms
proof (induction gs arbitrary: sr)
  case (Cons g gs)
  let ?sr = "run_group cfg steps behave secret now sr g"
  have d: "due cfg (fst ?sr) g' now = due cfg (fst sr) g' now" if "g' \<in> set gs" for g'
    using that Cons.prems by (intro run_group_due) auto
  have m: "names_due cfg steps now (fst ?sr) gs = names_due cfg steps now (fst sr) gs" using d by (rule names_due_cong)
  from Cons have ih: "snd (foldl (run_group cfg steps behave secret now) ?sr gs)
        = snd ?sr @ names_due cfg steps now (fst sr) gs"
      "outcome_at (fst (foldl (run_group cfg steps behave secret now) ?sr gs)) n =
       (if n \<in> set (names_due cfg steps now (fst sr) gs) then Some (now, outcome_ok secret (behave n))
        else outcome_at (fst ?sr) n)"
      "\<forall>g. dict_get (sc_last (fst (foldl (run_group cfg steps behave secret now) ?sr gs))) g
        = (if g \<in> set gs \<and> due cfg (fst ?sr) g now then Some now else dict_get (sc_last (fst ?sr)) g)"
    unfolding m[symmetric] by simp_all
  have "snd ?sr = snd sr @ (if due cfg (fst sr) g now then steps_in g steps else [])"
    by (simp add: run_group_result)
  moreover have "outcome_at (fst ?sr) n =
      (if due cfg (fst sr) g now \<and> n \<in> set (steps_in g steps) then Some (now, outcome_ok secret (behave n))
       else outcome_at (fst sr) n)"
    by (simp add: run_group_result run_steps_records)
  moreover have "dict_get (sc_last (fst ?sr)) h = (if h = g \<and> due cfg (fst sr) g now then Some now else dict_get (sc_last (fst sr)) h)" for h
    by (simp add: run_group_result dict_get_set)
  ultimately show ?case using ih d by auto
qed simp

text \<open>C33: A failing step never stops the others. A cycle runs exactly the steps of the groups that are due, in order; each of them has its own
  outcome and time recorded, whatever the other steps did; the records of the steps that did not run are kept; and exactly the groups that
  ran restart their period.\<close>

theorem cycle_runs_due_steps:
  assumes "run_cycle cfg steps behave secret now s = (s', done_names)"
  shows "done_names = names_due cfg steps now s groups
    \<and> outcome_at s' n =
       (if n \<in> set done_names then Some (now, outcome_ok secret (behave n)) else outcome_at s n)
    \<and> (\<forall>g. dict_get (sc_last s') g = (if g \<in> set groups \<and> due cfg s g now then Some now else dict_get (sc_last s) g))"
proof -
  have d: "distinct groups" by (simp add: groups_def)
  obtain s1 where f: "foldl (run_group cfg steps behave secret now) (s, []) groups = (s1, done_names)" "s' = s1\<lparr>sc_cycle := Some now\<rparr>"
    using assms by (auto simp: run_cycle_def split: prod.splits)
  from run_groups[OF d, of cfg steps behave secret now "(s, [])" n] f show ?thesis by simp
qed

definition demo_periods :: periods where
  "demo_periods = \<lparr>pe_minutes = 30, pe_hours = 2\<rparr>"

definition fresh_sched :: sched where
  "fresh_sched = \<lparr>sc_last = [], sc_steps = [], sc_cycle = None\<rparr>"

definition demo_behave :: "string \<Rightarrow> step_outcome" where
  "demo_behave n = (if n = ''news'' then Step_Raised ''Timeout'' else Step_Done ''ok'')"

theorem cycle_runs_due_steps_witness:
  "\<exists>s'. run_cycle demo_periods define_steps demo_behave ''x'' 100 fresh_sched = (s', map fst define_steps)
     \<and> outcome_at s' ''news'' = Some (100, False) \<and> outcome_at s' ''ccr'' = Some (100, True)"
proof -
  obtain s' done_names where r: "run_cycle demo_periods define_steps demo_behave ''x'' 100 fresh_sched = (s', done_names)" by fastforce
  have done_names: "names_due demo_periods define_steps 100 fresh_sched groups = map fst define_steps" by code_simp
  have m: "''news'' \<in> set (map fst define_steps)" "''ccr'' \<in> set (map fst define_steps)" by code_simp+
  from cycle_runs_due_steps[OF r, of "''news''"] cycle_runs_due_steps[OF r, of "''ccr''"] done_names m
  have "outcome_at s' ''news'' = Some (100, False)" "outcome_at s' ''ccr'' = Some (100, True)" "done_names = map fst define_steps"
    by (auto simp: outcome_ok_def demo_behave_def)
  with r show ?thesis by blast
qed

text \<open>A group never runs early: over all the cycles of a process, at times in order, two runs of the half-hourly or of the daily group are at
  least its period less five seconds apart, whatever the steps do.\<close>

lemma run_cycle_last:
  "dict_get (sc_last (fst (run_cycle cfg steps behave secret now s))) g = (if g \<in> set groups \<and> due cfg s g now then Some now else dict_get (sc_last s) g)"
proof -
  have d: "distinct groups" by (simp add: groups_def)
  obtain s1 done_names where f: "foldl (run_group cfg steps behave secret now) (s, []) groups = (s1, done_names)" by fastforce
  from run_groups[OF d, of cfg steps behave secret now "(s, [])" "[]"] f show ?thesis by (simp add: run_cycle_def)
qed

lemma group_runs_spaced:
  assumes "g \<in> {''half_hourly'', ''daily''}" "sorted (map fst cs)"
  shows "sorted_wrt (\<lambda>a b. period_of cfg g - 5 \<le> b - a) (group_runs cfg steps secret g s cs)
    \<and> set (group_runs cfg steps secret g s cs) \<subseteq> set (map fst cs)
    \<and> (\<forall>x \<in> set (group_runs cfg steps secret g s cs). \<forall>l. dict_get (sc_last s) g = Some l \<longrightarrow> period_of cfg g - 5 \<le> x - l)"
  using assms(2)
proof (induction cs arbitrary: s)
  case (Cons c cs)
  obtain now behave where c: "c = (now, behave)" by (cases c)
  let ?s = "fst (run_cycle cfg steps behave secret now s)"
  have ih: "sorted_wrt (\<lambda>a b. period_of cfg g - 5 \<le> b - a) (group_runs cfg steps secret g ?s cs)"
    "set (group_runs cfg steps secret g ?s cs) \<subseteq> set (map fst cs)"
    "\<forall>x \<in> set (group_runs cfg steps secret g ?s cs). \<forall>l. dict_get (sc_last ?s) g = Some l \<longrightarrow> period_of cfg g - 5 \<le> x - l"
    using Cons by simp_all
  have later: "now \<le> x" if "x \<in> set (group_runs cfg steps secret g ?s cs)" for x
    using ih(2) that Cons.prems c by auto
  show ?case
  proof (cases "due cfg s g now")
    case True
    have "dict_get (sc_last ?s) g = Some now" using assms(1) True by (auto simp: run_cycle_last groups_def)
    moreover have "period_of cfg g - 5 \<le> now - l" if "dict_get (sc_last s) g = Some l" for l
      using True assms(1) that by (auto simp: due_def)
    ultimately show ?thesis using ih later True c by fastforce
  next
    case False
    then have "dict_get (sc_last ?s) g = dict_get (sc_last s) g" by (simp add: run_cycle_last)
    with ih False c show ?thesis by auto
  qed
qed simp

theorem group_spacing:
  assumes "g \<in> {''half_hourly'', ''daily''}" and "sorted (map fst cs)"
  shows "sorted_wrt (\<lambda>a b. period_of cfg g - 5 \<le> b - a) (group_runs cfg steps secret g s cs)"
  using group_runs_spaced[OF assms] by blast

theorem group_spacing_witness:
  "group_runs demo_periods define_steps ''x'' ''half_hourly'' fresh_sched [(0, demo_behave), (60, demo_behave), (1795, demo_behave), (1855, demo_behave)] = [0, 1795]
     \<and> sorted_wrt (\<lambda>a b. 1795 \<le> b - a) (group_runs demo_periods define_steps ''x'' ''half_hourly'' fresh_sched
           [(0, demo_behave), (60, demo_behave), (1795, demo_behave), (1855, demo_behave)])"
proof -
  have "group_runs demo_periods define_steps ''x'' ''half_hourly'' fresh_sched [(0, demo_behave), (60, demo_behave), (1795, demo_behave), (1855, demo_behave)] = [0, 1795]"
    by code_simp
  moreover have "period_of demo_periods ''half_hourly'' = 1800" by (simp add: period_of_def demo_periods_def)
  ultimately show ?thesis
    using group_spacing[of "''half_hourly''" "[(0, demo_behave), (60, demo_behave), (1795, demo_behave), (1855, demo_behave)]" demo_periods define_steps "''x''" fresh_sched]
    by simp
qed

text \<open>The release branch only ever moves to a commit that is on the base branch: whatever GitHub answers, a sync makes at most one write, and
  only after GitHub has placed this process's commit on the base branch; it moves the branch to that commit, or, when the base is ahead and
  every changed path is one the API does not ship, to the base's head; it never writes the commit the branch already has.\<close>

theorem sync_release_safe:
  assumes "sync_release gh repo branch base own = (msg, w # ws)"
  shows "ws = [] \<and> (\<exists>status. status \<in> {''identical'', ''behind''}
      \<and> fst (gh ''GET'' (''/repos/'' @ repo @ ''/compare/'' @ base @ ''...'' @ own) None) = 200
      \<and> status_text (snd (gh ''GET'' (''/repos/'' @ repo @ ''/compare/'' @ base @ ''...'' @ own) None)) = Some status
      \<and> (snd (snd w) = own
         \<or> status = ''behind'' \<and> sha_of (gh ''GET'' (''/repos/'' @ repo @ ''/git/ref/heads/'' @ base) None) = Some (snd (snd w))
           \<and> (\<exists>j. snd (gh ''GET'' (''/repos/'' @ repo @ ''/compare/'' @ own @ ''...'' @ base) None) = Some j \<and> frontend_only (gj_files j))))
    \<and> sha_of (gh ''GET'' (''/repos/'' @ repo @ ''/git/ref/heads/'' @ branch) None) \<noteq> Some (snd (snd w))"
proof -
  let ?cmp = "gh ''GET'' (''/repos/'' @ repo @ ''/compare/'' @ base @ ''...'' @ own) None"
  let ?st = "status_text (snd ?cmp)" and ?t = "release_target gh repo base own (status_text (snd ?cmp))"
  have c: "fst ?cmp = 200" "?st \<in> {Some ''identical'', Some ''behind''}"
    using assms unfolding sync_release_def Let_def by (auto split: if_split_asm)
  have w: "ws = []" "snd (snd w) = ?t" "sha_of (gh ''GET'' (''/repos/'' @ repo @ ''/git/ref/heads/'' @ branch) None) \<noteq> Some ?t"
    using assms c unfolding sync_release_def Let_def by (auto split: if_split_asm)
  have t: "?t = own \<or> ?st = Some ''behind'' \<and> sha_of (gh ''GET'' (''/repos/'' @ repo @ ''/git/ref/heads/'' @ base) None) = Some ?t
      \<and> (\<exists>j. snd (gh ''GET'' (''/repos/'' @ repo @ ''/compare/'' @ own @ ''...'' @ base) None) = Some j \<and> frontend_only (gj_files j))"
    unfolding release_target_def Let_def by (auto simp: frontend_only_def split: option.splits)
  from c w t show ?thesis by auto
qed

definition demo_github :: github where
  "demo_github m path body =
     (if path = ''/repos/r/compare/main...abc'' then (200, Some \<lparr>gj_sha = None, gj_status = Some ''behind'', gj_files = []\<rparr>)
      else if path = ''/repos/r/compare/abc...main'' then (200, Some \<lparr>gj_sha = None, gj_status = Some ''ahead'', gj_files = [''frontend/x.js'']\<rparr>)
      else if path = ''/repos/r/git/ref/heads/main'' then (200, Some \<lparr>gj_sha = Some ''def'', gj_status = None, gj_files = []\<rparr>)
      else (404, None))"

theorem sync_release_safe_witness:
  "sync_release demo_github ''r'' ''release'' ''main'' ''abc'' = (''GitHub refused the move (404)'', [(''POST'', ''/repos/r/git/refs'', ''def'')])
     \<and> sha_of (demo_github ''GET'' (''/repos/r/git/ref/heads/main'') None) = Some ''def''"
proof -
  have r: "sync_release demo_github ''r'' ''release'' ''main'' ''abc'' = (''GitHub refused the move (404)'', [(''POST'', ''/repos/r/git/refs'', ''def'')])"
    by code_simp
  from sync_release_safe[OF r] r show ?thesis by simp
qed

end
