(* ===== verification/Auth.thy ===== *)
theory Auth
  imports Json
begin

section \<open>Who the caller is (middleware/auth.py, api/routes/_roles.py)\<close>

text \<open>
  A token is verified with the public key its header names, from a key set that is cached for an hour and refetched once for an unknown key;
  the caller's role is the database's answer, cached for 30 seconds, with the token's own claim as the fallback. The state is the two
  caches. PyJWT is a parameter: \<open>unverified\<close> reads a token's header and \<open>decode\<close> its payload under a key, \<open>None\<close> when it raises;
  what is relied on is that \<open>decode\<close> answers only for a token signed by that key, unexpired and with a subject. The network's and the
  database's answers are inputs. Times are seconds.
\<close>

type_synonym sec = int

subsection \<open>Roles\<close>

type_synonym role_cache = "(string \<times> (sec \<times> string option)) list"

text \<open>The database's answer: \<open>None\<close> when it raises, \<open>Some None\<close> for no row or an empty role.\<close>

type_synonym lookup = "string option option"

definition role_ttl :: sec where "role_ttl = 30"

definition role_answer :: "lookup \<Rightarrow> string option" where
  "role_answer l = (case l of Some (Some r) \<Rightarrow> if r = [] then None else Some (str_lower r) | _ \<Rightarrow> None)"

definition db_role_for :: "role_cache \<Rightarrow> string \<Rightarrow> lookup \<Rightarrow> sec \<Rightarrow> role_cache \<times> string option" where
  "db_role_for cache sub l now =
     (let fresh = (dict_set sub (now, role_answer l) (if 5000 < length cache then [] else cache), role_answer l)
      in case dict_get cache sub of
           Some (t, r) \<Rightarrow> if now - t < role_ttl then (cache, r) else fresh
         | None \<Rightarrow> fresh)"

definition forget_role :: "role_cache \<Rightarrow> string \<Rightarrow> role_cache" where
  "forget_role cache sub = AList.delete sub cache"

definition admin_role :: "string option \<Rightarrow> pyval \<Rightarrow> string" where
  "admin_role db_role claim =
     str_lower (case db_role of Some r \<Rightarrow> if r \<noteq> [] then r else if truthy claim then py_str claim else ''viewer''
                | None \<Rightarrow> if truthy claim then py_str claim else ''viewer'')"

definition require_admin :: "string option \<Rightarrow> pyval \<Rightarrow> (int, unit) res" where
  "require_admin db_role claim = require (admin_role db_role claim = ''admin'') 403"

subsection \<open>Keys\<close>

record jwk =
  jk_alg :: "string option"
  jk_kid :: "string option"
  jk_key :: string

record key_cache =
  kc_at :: sec
  kc_keys :: "jwk list option"

definition jwks_ttl :: sec where "jwks_ttl = 3600"

text \<open>The fetch's answer: \<open>None\<close> for anything but status 200.\<close>

definition get_jwks :: "key_cache \<Rightarrow> bool \<Rightarrow> jwk list option \<Rightarrow> sec \<Rightarrow> key_cache \<times> jwk list option" where
  "get_jwks c force fetched now =
     (if \<not> force \<and> kc_keys c \<noteq> None \<and> now - kc_at c < jwks_ttl then (c, kc_keys c)
      else (case fetched of Some ks \<Rightarrow> (\<lparr>kc_at = now, kc_keys = Some ks\<rparr>, Some ks) | None \<Rightarrow> (c, kc_keys c)))"

text \<open>The key set of a local file, re-read when its time changes; \<open>None\<close> when the file cannot be read or parsed.\<close>

definition jwks_from_file :: "key_cache \<Rightarrow> sec option \<Rightarrow> (sec \<times> jwk list option) option \<Rightarrow> sec \<Rightarrow> key_cache \<times> sec option \<times> jwk list option" where
  "jwks_from_file c seen file now =
     (case file of
        None \<Rightarrow> (c, seen, kc_keys c)
      | Some (mtime, content) \<Rightarrow>
          if kc_keys c = None \<or> seen \<noteq> Some mtime
          then (case content of None \<Rightarrow> (c, seen, kc_keys c) | Some ks \<Rightarrow> (\<lparr>kc_at = now, kc_keys = Some ks\<rparr>, Some mtime, Some ks))
          else (c, seen, kc_keys c))"

definition key_fits :: "string option \<Rightarrow> jwk \<Rightarrow> bool" where
  "key_fits kid k \<longleftrightarrow> (jk_alg k = None \<or> jk_alg k = Some ''ES256'') \<and> (kid = None \<or> kid = Some [] \<or> jk_kid k = kid)"

definition key_for :: "jwk list option \<Rightarrow> string option \<Rightarrow> jwk option" where
  "key_for ks kid = List.find (key_fits kid) (case ks of None \<Rightarrow> [] | Some l \<Rightarrow> l)"

subsection \<open>Tokens\<close>

record token_header =
  th_alg :: "string option"
  th_kid :: "string option"

record jwt_lib =
  unverified :: "string \<Rightarrow> token_header option"
  decode :: "string \<Rightarrow> string \<Rightarrow> pydict option"

record auth_state =
  au_keys :: key_cache
  au_roles :: role_cache

text \<open>The answers a request meets: the first and the forced fetch of the key set, and the role lookup.\<close>

record auth_world =
  aw_fetch :: "jwk list option"
  aw_refetch :: "jwk list option"
  aw_role :: lookup

datatype auth_error = Unauthorized string | Auth_Crash

definition claimed_role :: "pydict \<Rightarrow> string" where
  "claimed_role meta = str_lower (if truthy (get meta ''role'') then py_str (get meta ''role'') else ''viewer'')"

definition meta_of :: "pydict \<Rightarrow> pydict option" where
  "meta_of payload = (case get payload ''user_metadata'' of PDict m \<Rightarrow> Some m | v \<Rightarrow> if truthy v then None else Some [])"

definition with_role :: "string \<Rightarrow> pydict \<Rightarrow> pydict \<Rightarrow> pydict" where
  "with_role role meta payload =
     dict_set ''role'' (PStr role) (dict_set ''user_metadata'' (PDict (dict_set ''role'' (PStr role) meta)) payload)"

definition find_key :: "key_cache \<Rightarrow> auth_world \<Rightarrow> string option \<Rightarrow> sec \<Rightarrow> key_cache \<times> jwk option" where
  "find_key c w kid now =
     (let (c1, ks1) = get_jwks c False (aw_fetch w) now
      in case key_for ks1 kid of
           Some k \<Rightarrow> (c1, Some k)
         | None \<Rightarrow> (let (c2, ks2) = get_jwks c1 True (aw_refetch w) now in (c2, key_for ks2 kid)))"

text \<open>The user of a decoded payload: the database's role, or the claim, in both places a route reads it from.\<close>

definition grant :: "auth_state \<Rightarrow> lookup \<Rightarrow> pydict \<Rightarrow> sec \<Rightarrow> auth_state \<times> (auth_error, pydict) res" where
  "grant s l payload now =
     (case meta_of payload of
        None \<Rightarrow> (s, Inl Auth_Crash)
      | Some meta \<Rightarrow>
          (case db_role_for (au_roles s) (py_str (get payload ''sub'')) l now of
             (roles, r) \<Rightarrow>
               (s\<lparr>au_roles := roles\<rparr>,
                Inr (with_role (case r of Some x \<Rightarrow> if x \<noteq> [] then x else claimed_role meta | None \<Rightarrow> claimed_role meta) meta payload))))"

definition verify_token :: "jwt_lib \<Rightarrow> auth_state \<Rightarrow> auth_world \<Rightarrow> string option \<Rightarrow> sec \<Rightarrow> auth_state \<times> (auth_error, pydict) res" where
  "verify_token lib s w authorization now =
     (case authorization of
        None \<Rightarrow> (s, Inl (Unauthorized ''Missing auth''))
      | Some a \<Rightarrow>
          if \<not> starts_with ''Bearer '' a then (s, Inl (Unauthorized ''Missing auth''))
          else (case unverified lib (str_strip (drop 7 a)) of
              None \<Rightarrow> (s, Inl (Unauthorized ''Bad token''))
            | Some h \<Rightarrow>
                if th_alg h \<noteq> Some ''ES256'' then (s, Inl (Unauthorized ''Invalid token''))
                else (case find_key (au_keys s) w (th_kid h) now of
                    (c, None) \<Rightarrow> (s\<lparr>au_keys := c\<rparr>, Inl (Unauthorized ''Invalid token''))
                  | (c, Some key) \<Rightarrow>
                      (case decode lib (jk_key key) (str_strip (drop 7 a)) of
                         None \<Rightarrow> (s\<lparr>au_keys := c\<rparr>, Inl (Unauthorized ''Invalid token''))
                       | Some payload \<Rightarrow> grant (s\<lparr>au_keys := c\<rparr>) (aw_role w) payload now))))"

definition optional_token :: "jwt_lib \<Rightarrow> auth_state \<Rightarrow> auth_world \<Rightarrow> string option \<Rightarrow> sec \<Rightarrow> auth_state \<times> (auth_error, pydict option) res" where
  "optional_token lib s w authorization now =
     (if authorization = None \<or> authorization = Some [] then (s, Inr None)
      else (case verify_token lib s w authorization now of (s', Inl e) \<Rightarrow> (s', Inl e) | (s', Inr u) \<Rightarrow> (s', Inr (Some u))))"

subsection \<open>Keys found are keys published\<close>

lemma key_for_Some: "key_for ks kid = Some k \<Longrightarrow> \<exists>l. ks = Some l \<and> k \<in> set l \<and> key_fits kid k"
  by (auto simp: key_for_def find_Some_iff split: option.splits)

lemma get_jwks_keys: "get_jwks c force fetched now = (c', Some ks) \<Longrightarrow> Some ks = kc_keys c' \<and> (kc_keys c = Some ks \<or> fetched = Some ks)"
  by (auto simp: get_jwks_def split: if_splits option.splits)

definition known_keys :: "key_cache \<Rightarrow> auth_world \<Rightarrow> jwk set" where
  "known_keys c w = \<Union> (set ` {ks. kc_keys c = Some ks \<or> aw_fetch w = Some ks \<or> aw_refetch w = Some ks})"

lemma find_key_known:
  assumes "find_key c w kid now = (c', Some k)"
  shows "k \<in> known_keys c w \<and> key_fits kid k"
proof -
  obtain c1 ks1 where 1: "get_jwks c False (aw_fetch w) now = (c1, ks1)" by fastforce
  obtain c2 ks2 where 2: "get_jwks c1 True (aw_refetch w) now = (c2, ks2)" by fastforce
  have c1: "kc_keys c1 = Some ks \<Longrightarrow> kc_keys c = Some ks \<or> aw_fetch w = Some ks" for ks
    using 1 by (auto simp: get_jwks_def split: if_splits option.splits)
  from assms 1 2 consider "key_for ks1 kid = Some k" | "key_for ks2 kid = Some k"
    by (auto simp: find_key_def split: option.splits)
  then show ?thesis
  proof cases
    case 1
    from key_for_Some[OF this] obtain l where l: "ks1 = Some l" "k \<in> set l" "key_fits kid k" by blast
    with \<open>get_jwks c False _ _ = _\<close> have "kc_keys c = Some l \<or> aw_fetch w = Some l" using get_jwks_keys by blast
    with l show ?thesis by (auto simp: known_keys_def)
  next
    case 2
    from key_for_Some[OF this] obtain l where l: "ks2 = Some l" "k \<in> set l" "key_fits kid k" by blast
    with \<open>get_jwks c1 True _ _ = _\<close> have "kc_keys c1 = Some l \<or> aw_refetch w = Some l" using get_jwks_keys by blast
    with c1 l show ?thesis by (auto simp: known_keys_def)
  qed
qed

lemma verify_token_Inr:
  assumes "verify_token lib s w authorization now = (s', Inr user)"
  obtains token h c k payload meta roles r where "authorization = Some (''Bearer '' @ token)" "unverified lib (str_strip token) = Some h"
    "th_alg h = Some ''ES256''" "find_key (au_keys s) w (th_kid h) now = (c, Some k)" "decode lib (jk_key k) (str_strip token) = Some payload"
    "db_role_for (au_roles s) (py_str (get payload ''sub'')) (aw_role w) now = (roles, r)" "s' = s\<lparr>au_keys := c, au_roles := roles\<rparr>"
    "user = with_role (case r of Some x \<Rightarrow> if x \<noteq> [] then x else claimed_role meta | None \<Rightarrow> claimed_role meta) meta payload"
proof -
  obtain a where a: "authorization = Some a" "starts_with ''Bearer '' a"
    using assms by (auto simp: verify_token_def split: option.splits if_splits)
  then obtain token where t: "a = ''Bearer '' @ token" using starts_with_iff[of "''Bearer ''" a] by auto
  have d: "str_strip (drop 7 a) = str_strip token" by (simp add: t)
  obtain h where h: "unverified lib (str_strip token) = Some h" "th_alg h = Some ''ES256''"
    using assms a unfolding verify_token_def by (auto simp: d split: option.splits if_splits)
  obtain c k where k: "find_key (au_keys s) w (th_kid h) now = (c, Some k)"
    using assms a h unfolding verify_token_def by (auto simp: d split: option.splits prod.splits)
  obtain payload where p: "decode lib (jk_key k) (str_strip token) = Some payload"
    using assms a h k unfolding verify_token_def by (auto simp: d split: option.splits)
  have g: "grant (s\<lparr>au_keys := c\<rparr>) (aw_role w) payload now = (s', Inr user)"
    using assms a h k p unfolding verify_token_def by (simp add: d)
  obtain roles r where r: "db_role_for (au_roles s) (py_str (get payload ''sub'')) (aw_role w) now = (roles, r)" by fastforce
  from g r obtain meta where "s' = s\<lparr>au_keys := c, au_roles := roles\<rparr>"
      "user = with_role (case r of Some x \<Rightarrow> if x \<noteq> [] then x else claimed_role meta | None \<Rightarrow> claimed_role meta) meta payload"
    by (auto simp: grant_def split: option.splits)
  with that a t h k p r show ?thesis by blast
qed


definition demo_jwt :: jwt_lib where
  "demo_jwt = \<lparr>unverified = (\<lambda>t. if t = ''tok'' then Some \<lparr>th_alg = Some ''ES256'', th_kid = Some ''k2''\<rparr> else None),
     decode = (\<lambda>k t. if k = ''pub2'' \<and> t = ''tok'' then Some [(''sub'', PStr ''u1''), (''user_metadata'', PDict [(''role'', PStr ''ADMIN'')])] else None)\<rparr>"

definition demo_auth :: auth_state where
  "demo_auth = \<lparr>au_keys = \<lparr>kc_at = 0, kc_keys = Some [\<lparr>jk_alg = None, jk_kid = Some ''k1'', jk_key = ''pub1''\<rparr>]\<rparr>, au_roles = []\<rparr>"

definition demo_world :: "lookup \<Rightarrow> auth_world" where
  "demo_world l = \<lparr>aw_fetch = None, aw_refetch = Some [\<lparr>jk_alg = Some ''ES256'', jk_kid = Some ''k2'', jk_key = ''pub2''\<rparr>], aw_role = l\<rparr>"



text \<open>An unreachable database hands the decision to the token: when the role lookup fails for a user whose role is not cached, a verified
  token is given the role it claims for itself, even admin, although the database may hold another one; and the failure is cached, so the
  claim stays in force for 30 seconds after the database is back.\<close>

theorem failed_lookup_trusts_claim:
  assumes ok: "verify_token lib s w authorization now = (s', Inr user)" and user: "get user ''sub'' = PStr sub"
    and miss: "dict_get (au_roles s) sub = None" and down: "aw_role w = None"
    and later: "now \<le> now'" "now' < now + role_ttl"
  shows "\<exists>meta. get user ''role'' = PStr (claimed_role meta) \<and> get user ''user_metadata'' = PDict (dict_set ''role'' (PStr (claimed_role meta)) meta)
    \<and> snd (db_role_for (au_roles s') sub l now') = None"
proof -
  obtain c payload meta roles r where v: "db_role_for (au_roles s) (py_str (get payload ''sub'')) (aw_role w) now = (roles, r)"
    "s' = s\<lparr>au_keys := c, au_roles := roles\<rparr>"
    "user = with_role (case r of Some x \<Rightarrow> if x \<noteq> [] then x else claimed_role meta | None \<Rightarrow> claimed_role meta) meta payload"
    by (rule verify_token_Inr[OF ok]) blast
  have "get payload ''sub'' = PStr sub" using user unfolding v(3) with_role_def by (simp add: get_set)
  then have r: "r = None \<and> dict_get roles sub = Some (now, None)"
    using v(1) down miss by (auto simp: db_role_for_def role_answer_def dict_get_set Let_def split: if_splits)
  then have "snd (db_role_for roles sub l now') = None" using later by (simp add: db_role_for_def)
  with r v(2,3) show ?thesis by (intro exI[of _ meta]) (simp add: with_role_def get_set)
qed

theorem failed_lookup_trusts_claim_witness:
  "\<exists>s' user. verify_token demo_jwt demo_auth (demo_world None) (Some ''Bearer tok'') 10 = (s', Inr user)
     \<and> get user ''role'' = PStr ''admin'' \<and> snd (db_role_for (au_roles s') ''u1'' (Some (Some ''viewer'')) 39) = None"
proof -
  have c: "case verify_token demo_jwt demo_auth (demo_world None) (Some ''Bearer tok'') 10 of
      (_, Inr u) \<Rightarrow> get u ''role'' = PStr ''admin'' \<and> get u ''sub'' = PStr ''u1'' | _ \<Rightarrow> False" by code_simp
  obtain s' x where r: "verify_token demo_jwt demo_auth (demo_world None) (Some ''Bearer tok'') 10 = (s', x)" by fastforce
  with c obtain user where u: "x = Inr user" "get user ''role'' = PStr ''admin''" "get user ''sub'' = PStr ''u1''" by (auto split: sum.splits)
  have "dict_get (au_roles demo_auth) ''u1'' = None" "aw_role (demo_world None) = None" by (simp_all add: demo_auth_def demo_world_def)
  from failed_lookup_trusts_claim[OF r[unfolded u(1)] u(3) this, of 39 "Some (Some ''viewer'')"] r u show ?thesis by (auto simp: role_ttl_def)
qed

end
