(* ===== verification/Leg_Defaults.thy ===== *)
theory Leg_Defaults
  imports Json Schedule
begin

section \<open>Completing a booked leg (api/routes/_leg_defaults.py, _instrument_alias.py)\<close>

text \<open>
  Booking fills in what the client left out of a leg, so that every reader can schedule the stored row. A leg is a dictionary; the trade's
  dates and curves are the keyword arguments of \<open>complete_leg\<close>. The schedule generator of \<open>Schedule\<close> is the reader the last property is about.
\<close>

definition ccy_curve :: "(string \<times> string) list" where
  "ccy_curve = [(''USD'', ''USD_SOFR''), (''EUR'', ''EUR_ESTR''), (''GBP'', ''GBP_SONIA''), (''JPY'', ''JPY_TONAR''),
     (''CHF'', ''CHF_SARON''), (''AUD'', ''AUD_AONIA''), (''CAD'', ''CAD_CORRA''), (''SGD'', ''SGD_SORA''),
     (''SEK'', ''SEK_SWESTR''), (''NOK'', ''NOK_NOWA''), (''NZD'', ''NZD_NZIONA''), (''HKD'', ''HKD_HONIA''),
     (''DKK'', ''DKK_DESTR''), (''MXN'', ''MXN_TIIE'')]"

definition ccy_day_count :: "(string \<times> string) list" where
  "ccy_day_count = map (\<lambda>c. (c, ''ACT/360'')) [''USD'', ''EUR'', ''CHF'', ''SEK'', ''DKK'', ''MXN'']
     @ map (\<lambda>c. (c, ''ACT/365F'')) [''GBP'', ''JPY'', ''AUD'', ''CAD'', ''SGD'', ''NOK'', ''NZD'', ''HKD'']"

definition canonical_frequencies :: "string list" where
  "canonical_frequencies = [''DAILY'', ''WEEKLY'', ''MONTHLY'', ''QUARTERLY'', ''SEMI_ANNUAL'', ''ANNUAL'', ''ZERO_COUPON'']"

definition frequency_aliases :: "(string \<times> string) list" where
  "frequency_aliases =
     [(''D'', ''DAILY''), (''1D'', ''DAILY''), (''W'', ''WEEKLY''), (''1W'', ''WEEKLY''),
      (''M'', ''MONTHLY''), (''1M'', ''MONTHLY''), (''Q'', ''QUARTERLY''), (''3M'', ''QUARTERLY''),
      (''S'', ''SEMI_ANNUAL''), (''SA'', ''SEMI_ANNUAL''), (''6M'', ''SEMI_ANNUAL''), (''SEMIANNUAL'', ''SEMI_ANNUAL''), (''SEMI-ANNUAL'', ''SEMI_ANNUAL''),
      (''A'', ''ANNUAL''), (''Y'', ''ANNUAL''), (''1Y'', ''ANNUAL''), (''12M'', ''ANNUAL''), (''YEARLY'', ''ANNUAL''),
      (''ZC'', ''ZERO_COUPON''), (''ZERO'', ''ZERO_COUPON''), (''BULLET'', ''ZERO_COUPON'')]"

text \<open>A name as \<open>strip().upper().replace(" ", "_")\<close> leaves it, and its canonical spelling.\<close>

definition freq_text :: "string \<Rightarrow> string" where
  "freq_text s = str_replace CHR '' '' CHR ''_'' (str_upper (str_strip s))"

definition canonical_name :: "string \<Rightarrow> string" where
  "canonical_name s = (if s \<in> set canonical_frequencies then s else (case dict_get frequency_aliases s of Some c \<Rightarrow> c | None \<Rightarrow> s))"

definition canonical_frequency :: "pyval \<Rightarrow> pyval \<Rightarrow> pyval" where
  "canonical_frequency v d =
     (if v = PNone \<or> str_strip (py_str v) = [] then d else PStr (canonical_name (freq_text (py_str v))))"

record leg_context =
  lc_effective :: pyval
  lc_maturity :: pyval
  lc_discount :: pyval
  lc_forecast :: pyval
  lc_currency :: pyval

text \<open>\<open>if not out.get(k): out[k] = v\<close>, and \<open>a or b\<close>.\<close>

definition fill :: "string \<Rightarrow> pyval \<Rightarrow> pydict \<Rightarrow> pydict" where
  "fill k v d = (if truthy (get d k) then d else dict_set k v d)"

definition or_else :: "pyval \<Rightarrow> pyval \<Rightarrow> pyval" where
  "or_else a b = (if truthy a then a else b)"

definition leg_kind :: "pydict \<Rightarrow> string" where
  "leg_kind leg = str_upper (str_or (get leg ''leg_type''))"

definition lookup_or :: "(string \<times> string) list \<Rightarrow> string \<Rightarrow> string \<Rightarrow> pyval" where
  "lookup_or table k d = PStr (case dict_get table k of Some v \<Rightarrow> v | None \<Rightarrow> d)"

definition leg_currency :: "pydict \<Rightarrow> leg_context \<Rightarrow> string" where
  "leg_currency leg c = str_upper (py_str (or_else (or_else (get leg ''currency'') (lc_currency c)) (PStr ''USD'')))"

definition set_frequencies :: "string \<Rightarrow> pydict \<Rightarrow> pydict" where
  "set_frequencies kind d =
     (let pay = canonical_frequency (get d ''payment_frequency'') (PStr (if kind = ''ZERO_COUPON'' then ''ZERO_COUPON'' else ''ANNUAL''));
          d1 = dict_set ''payment_frequency'' pay d
      in if kind = ''FLOAT''
         then dict_set ''reset_frequency'' (canonical_frequency (get d1 ''reset_frequency'') (if truthy (get d1 ''ois_compounding'') then PStr ''DAILY'' else pay)) d1
         else if truthy (get d1 ''reset_frequency'')
         then dict_set ''reset_frequency'' (canonical_frequency (get d1 ''reset_frequency'') PNone) d1
         else d1)"

definition needs_forecast :: "string \<Rightarrow> bool" where
  "needs_forecast kind \<longleftrightarrow> kind = ''FLOAT'' \<or> kind = ''FRA''"

definition set_dates :: "leg_context \<Rightarrow> string \<Rightarrow> pydict \<Rightarrow> pydict" where
  "set_dates c ccy leg =
     fill ''maturity_date'' (lc_maturity c) (fill ''effective_date'' (lc_effective c) (dict_set ''currency'' (PStr ccy) leg))"

definition set_conventions :: "string \<Rightarrow> pydict \<Rightarrow> pydict" where
  "set_conventions ccy d =
     fill ''stub_type'' (PStr ''SHORT_FRONT'') (fill ''bdc'' (PStr ''MOD_FOLLOWING'') (fill ''day_count'' (lookup_or ccy_day_count ccy ''ACT/360'') d))"

definition set_curves :: "leg_context \<Rightarrow> string \<Rightarrow> string \<Rightarrow> pydict \<Rightarrow> pydict" where
  "set_curves c ccy kind d =
     (let e = fill ''discount_curve_id'' (or_else (lc_discount c) (lookup_or ccy_curve ccy (ccy @ ''_OIS''))) d
      in if needs_forecast kind then fill ''forecast_curve_id'' (or_else (lc_forecast c) (get e ''discount_curve_id'')) e else e)"

definition complete_leg :: "leg_context \<Rightarrow> pydict \<Rightarrow> pydict" where
  "complete_leg c leg =
     (let ccy = leg_currency leg c; kind = leg_kind leg
      in set_curves c ccy kind (set_conventions ccy (set_frequencies kind (set_dates c ccy leg))))"

definition needed_fields :: "string \<Rightarrow> string list" where
  "needed_fields kind = [''effective_date'', ''maturity_date'', ''payment_frequency'', ''day_count'', ''discount_curve_id'']
     @ (if needs_forecast kind then [''forecast_curve_id''] else [])"

definition leg_is_complete :: "pydict \<Rightarrow> bool" where
  "leg_is_complete leg \<longleftrightarrow> list_all (\<lambda>k. truthy (get leg k)) (needed_fields (leg_kind leg))
     \<and> (case get leg ''payment_frequency'' of PStr f \<Rightarrow> f \<in> set canonical_frequencies | _ \<Rightarrow> False)"

subsection \<open>Instrument names\<close>

definition instrument_legacy_map :: "(string \<times> string) list" where
  "instrument_legacy_map = [(''INTEREST_RATE_SWAP'', ''IR_SWAP''), (''INTEREST_RATE_SWAPTION'', ''IR_SWAPTION''), (''INTEREST_RATE_CAP'', ''IR_CAP''),
     (''INTEREST_RATE_FLOOR'', ''IR_FLOOR''), (''INTEREST_RATE_COLLAR'', ''IR_COLLAR'')]"

definition normalize_instrument_type :: "pyval \<Rightarrow> pyval" where
  "normalize_instrument_type v = (case v of PStr s \<Rightarrow> lookup_or instrument_legacy_map s s | _ \<Rightarrow> v)"

subsection \<open>What completion keeps and sets\<close>

lemma get_fill: "get (fill k v d) k' = (if k' = k \<and> \<not> truthy (get d k) then v else get d k')"
  by (simp add: fill_def get_set)

lemma truthy_or_else: "truthy (or_else a b) \<longleftrightarrow> truthy a \<or> truthy b"
  by (simp add: or_else_def)

lemma canonical_frequency_str: "\<exists>s. canonical_frequency v (PStr d) = PStr s"
  by (simp add: canonical_frequency_def)

lemma canonical_frequency_known:
  "str_strip (py_str v) = [] \<or> v = PNone \<or> canonical_name (freq_text (py_str v)) \<in> set canonical_frequencies \<Longrightarrow> d \<in> set canonical_frequencies \<Longrightarrow>
     \<exists>f. canonical_frequency v (PStr d) = PStr f \<and> f \<in> set canonical_frequencies"
  by (auto simp: canonical_frequency_def)

lemma get_set_frequencies:
  "k \<noteq> ''payment_frequency'' \<Longrightarrow> k \<noteq> ''reset_frequency'' \<Longrightarrow> get (set_frequencies kind d) k = get d k"
  "get (set_frequencies kind d) ''payment_frequency'' =
     canonical_frequency (get d ''payment_frequency'') (PStr (if kind = ''ZERO_COUPON'' then ''ZERO_COUPON'' else ''ANNUAL''))"
  by (simp_all add: set_frequencies_def Let_def get_set)

definition own_or :: "pydict \<Rightarrow> string \<Rightarrow> pyval \<Rightarrow> pyval" where
  "own_or leg k v = or_else (get leg k) v"

lemma get_fill_own: "get (fill k v d) k = own_or d k v"
  by (simp add: get_fill own_or_def or_else_def)

lemma get_fill_other: "k' \<noteq> k \<Longrightarrow> get (fill k v d) k' = get d k'"
  by (simp add: get_fill)

lemma own_or_cong: "get d k = get e k \<Longrightarrow> own_or d k v = own_or e k v"
  by (simp add: own_or_def)

lemma get_set_dates:
  "get (set_dates c ccy leg) ''currency'' = PStr ccy"
  "get (set_dates c ccy leg) ''effective_date'' = own_or leg ''effective_date'' (lc_effective c)"
  "get (set_dates c ccy leg) ''maturity_date'' = own_or leg ''maturity_date'' (lc_maturity c)"
  "k \<noteq> ''currency'' \<Longrightarrow> k \<noteq> ''effective_date'' \<Longrightarrow> k \<noteq> ''maturity_date'' \<Longrightarrow> get (set_dates c ccy leg) k = get leg k"
  by (simp_all add: set_dates_def get_fill_own get_fill_other get_set own_or_def)

lemma get_set_conventions:
  "get (set_conventions ccy d) ''day_count'' = own_or d ''day_count'' (lookup_or ccy_day_count ccy ''ACT/360'')"
  "get (set_conventions ccy d) ''bdc'' = own_or d ''bdc'' (PStr ''MOD_FOLLOWING'')"
  "get (set_conventions ccy d) ''stub_type'' = own_or d ''stub_type'' (PStr ''SHORT_FRONT'')"
  "k \<noteq> ''day_count'' \<Longrightarrow> k \<noteq> ''bdc'' \<Longrightarrow> k \<noteq> ''stub_type'' \<Longrightarrow> get (set_conventions ccy d) k = get d k"
  by (simp_all add: set_conventions_def get_fill_own get_fill_other own_or_def)

lemma get_set_curves:
  "get (set_curves c ccy kind d) ''discount_curve_id'' = own_or d ''discount_curve_id'' (or_else (lc_discount c) (lookup_or ccy_curve ccy (ccy @ ''_OIS'')))"
  "needs_forecast kind \<Longrightarrow> get (set_curves c ccy kind d) ''forecast_curve_id'' =
     own_or d ''forecast_curve_id'' (or_else (lc_forecast c) (get (set_curves c ccy kind d) ''discount_curve_id''))"
  "\<not> needs_forecast kind \<Longrightarrow> get (set_curves c ccy kind d) ''forecast_curve_id'' = get d ''forecast_curve_id''"
  "k \<noteq> ''discount_curve_id'' \<Longrightarrow> k \<noteq> ''forecast_curve_id'' \<Longrightarrow> get (set_curves c ccy kind d) k = get d k"
  by (simp_all add: set_curves_def Let_def get_fill_own get_fill_other own_or_def)

lemmas complete_leg_get = complete_leg_def Let_def get_set_curves get_set_conventions get_set_frequencies get_set_dates own_or_def

text \<open>Every field of a completed leg.\<close>

lemma complete_leg_fields:
  "get (complete_leg c leg) ''leg_type'' = get leg ''leg_type''"
  "get (complete_leg c leg) ''effective_date'' = own_or leg ''effective_date'' (lc_effective c)"
  "get (complete_leg c leg) ''maturity_date'' = own_or leg ''maturity_date'' (lc_maturity c)"
  "get (complete_leg c leg) ''payment_frequency'' =
     canonical_frequency (get leg ''payment_frequency'') (PStr (if leg_kind leg = ''ZERO_COUPON'' then ''ZERO_COUPON'' else ''ANNUAL''))"
  "get (complete_leg c leg) ''day_count'' = own_or leg ''day_count'' (lookup_or ccy_day_count (leg_currency leg c) ''ACT/360'')"
  "get (complete_leg c leg) ''bdc'' = own_or leg ''bdc'' (PStr ''MOD_FOLLOWING'')"
  "get (complete_leg c leg) ''stub_type'' = own_or leg ''stub_type'' (PStr ''SHORT_FRONT'')"
  "get (complete_leg c leg) ''discount_curve_id'' =
     own_or leg ''discount_curve_id'' (or_else (lc_discount c) (lookup_or ccy_curve (leg_currency leg c) (leg_currency leg c @ ''_OIS'')))"
  by (simp_all add: complete_leg_get)

lemma complete_leg_forecast:
  "get (complete_leg c leg) ''forecast_curve_id'' =
     (if needs_forecast (leg_kind leg) then own_or leg ''forecast_curve_id'' (or_else (lc_forecast c) (get (complete_leg c leg) ''discount_curve_id''))
      else get leg ''forecast_curve_id'')"
  by (cases "needs_forecast (leg_kind leg)")
     (simp_all add: complete_leg_def Let_def get_set_curves(2,3) get_set_conventions(4) get_set_frequencies(1) get_set_dates(4) own_or_def)

definition filled_fields :: "string list" where
  "filled_fields = [''currency'', ''effective_date'', ''maturity_date'', ''payment_frequency'', ''reset_frequency'', ''day_count'', ''bdc'', ''stub_type'',
     ''discount_curve_id'', ''forecast_curve_id'']"

lemma complete_leg_other:
  assumes "k \<notin> set filled_fields"
  shows "get (complete_leg c leg) k = get leg k"
proof -
  have n: "k \<noteq> ''currency''" "k \<noteq> ''effective_date''" "k \<noteq> ''maturity_date''" "k \<noteq> ''payment_frequency''" "k \<noteq> ''reset_frequency''"
    "k \<noteq> ''day_count''" "k \<noteq> ''bdc''" "k \<noteq> ''stub_type''" "k \<noteq> ''discount_curve_id''" "k \<noteq> ''forecast_curve_id''"
    using assms unfolding filled_fields_def by auto
  show ?thesis
    unfolding complete_leg_def Let_def get_set_curves(4)[OF n(9,10)] get_set_conventions(4)[OF n(6-8)] get_set_frequencies(1)[OF n(4,5)]
      get_set_dates(4)[OF n(1-3)] ..
qed

lemma leg_kind_complete [simp]: "leg_kind (complete_leg c leg) = leg_kind leg"
  by (simp add: leg_kind_def complete_leg_fields)

definition kept_fields :: "string list" where
  "kept_fields = [''effective_date'', ''maturity_date'', ''day_count'', ''bdc'', ''stub_type'', ''discount_curve_id'', ''forecast_curve_id'']"

lemma kept_fields_all: "set filled_fields \<subseteq> {''currency'', ''payment_frequency'', ''reset_frequency''} \<union> set kept_fields"
  by code_simp

lemma kept_fields_keep: "list_all (\<lambda>k. truthy (get leg k) \<longrightarrow> get (complete_leg c leg) k = get leg k) kept_fields"
  unfolding kept_fields_def list.pred_inject(2) list.pred_inject(1) complete_leg_fields complete_leg_forecast own_or_def or_else_def by simp

text \<open>A completed leg is complete, and it is the client's leg: given dates on the leg or on the trade and a payment frequency whose name is
  known (or none at all), the completed leg passes \<open>leg_is_complete\<close>; every value the client had set is unchanged, apart from the spelling of the
  currency and of the two frequencies.\<close>

theorem complete_leg_completes:
  assumes "truthy (get leg ''effective_date'') \<or> truthy (lc_effective c)" and "truthy (get leg ''maturity_date'') \<or> truthy (lc_maturity c)"
    and "str_strip (py_str (get leg ''payment_frequency'')) = [] \<or> get leg ''payment_frequency'' = PNone
       \<or> canonical_name (freq_text (py_str (get leg ''payment_frequency''))) \<in> set canonical_frequencies"
  shows "leg_is_complete (complete_leg c leg)
    \<and> (\<forall>k. truthy (get leg k) \<longrightarrow> k \<notin> {''currency'', ''payment_frequency'', ''reset_frequency''} \<longrightarrow> get (complete_leg c leg) k = get leg k)"
proof
  let ?o = "complete_leg c leg"
  have t: "truthy (lookup_or ccy_day_count k ''ACT/360'')" "truthy (lookup_or ccy_curve k (k @ ''_OIS''))" for k
    by (auto simp: lookup_or_def truthy_def ccy_day_count_def ccy_curve_def)
  have dc: "truthy (get ?o ''discount_curve_id'')" by (simp add: complete_leg_fields own_or_def truthy_or_else t)
  have m: "(if leg_kind leg = ''ZERO_COUPON'' then ''ZERO_COUPON'' else ''ANNUAL'') \<in> set canonical_frequencies"
    by (simp add: canonical_frequencies_def)
  obtain f where f: "get ?o ''payment_frequency'' = PStr f" "f \<in> set canonical_frequencies"
    unfolding complete_leg_fields(4) using canonical_frequency_known[OF assms(3) m] by blast
  have "truthy (get ?o ''payment_frequency'')" using f by (auto simp: truthy_def canonical_frequencies_def)
  moreover have "truthy (get ?o ''forecast_curve_id'')" if "needs_forecast (leg_kind leg)"
    unfolding complete_leg_forecast using that dc by (simp add: own_or_def truthy_or_else)
  ultimately show "leg_is_complete ?o"
    using assms(1,2) dc f by (simp add: leg_is_complete_def needed_fields_def complete_leg_fields(2,3,5) own_or_def truthy_or_else t)
next
  show "\<forall>k. truthy (get leg k) \<longrightarrow> k \<notin> {''currency'', ''payment_frequency'', ''reset_frequency''} \<longrightarrow> get (complete_leg c leg) k = get leg k"
  proof (intro allI impI)
    fix k assume k: "truthy (get leg k)" "k \<notin> {''currency'', ''payment_frequency'', ''reset_frequency''}"
    show "get (complete_leg c leg) k = get leg k"
    proof (cases "k \<in> set filled_fields")
      case True
      then have "k \<in> set kept_fields" using k(2) kept_fields_all by blast
      with kept_fields_keep[of leg c] k(1) show ?thesis unfolding list_all_iff by blast
    qed (rule complete_leg_other)
  qed
qed

definition demo_context :: leg_context where
  "demo_context = \<lparr>lc_effective = PDate (Date 2026 3 2), lc_maturity = PDate (Date 2031 3 3), lc_discount = PNone, lc_forecast = PNone, lc_currency = PNone\<rparr>"

definition bare_leg :: pydict where
  "bare_leg = [(''leg_type'', PStr ''float''), (''payment_frequency'', PStr '' 6m''), (''currency'', PStr ''gbp'')]"

theorem complete_leg_completes_witness:
  "leg_is_complete (complete_leg demo_context bare_leg) \<and> get (complete_leg demo_context bare_leg) ''forecast_curve_id'' = PStr ''GBP_SONIA''
     \<and> get (complete_leg demo_context bare_leg) ''payment_frequency'' = PStr ''SEMI_ANNUAL''"
proof -
  have h: "truthy (lc_effective demo_context)" "truthy (lc_maturity demo_context)"
    "canonical_name (freq_text (py_str (get bare_leg ''payment_frequency''))) \<in> set canonical_frequencies" by code_simp+
  have "get (complete_leg demo_context bare_leg) ''forecast_curve_id'' = PStr ''GBP_SONIA''"
    "get (complete_leg demo_context bare_leg) ''payment_frequency'' = PStr ''SEMI_ANNUAL''" by code_simp+
  with complete_leg_completes[of bare_leg demo_context] h show ?thesis by blast
qed

subsection \<open>The reader\<close>

lemma collect_error_aux: "collect step stop k acc = Some r \<Longrightarrow> \<forall>e. r = Inl e \<longrightarrow> e = Out_Of_Range"
proof (rule collect.raw_induct[of "\<lambda>step stop k acc r. \<forall>e. r = Inl e \<longrightarrow> e = Out_Of_Range"])
  fix rc step stop k acc r
  assume "\<And>step stop k acc r. rc step stop k acc = Some r \<Longrightarrow> \<forall>e. r = Inl e \<longrightarrow> e = Out_Of_Range"
    and "(case step k of None \<Rightarrow> Some (Inl Out_Of_Range)
        | Some d \<Rightarrow> if stop d then Some (Inr acc) else rc step stop (k + 1) (acc @ [d])) = Some r"
  then show "\<forall>e. r = Inl e \<longrightarrow> e = Out_Of_Range" by (auto split: option.splits if_splits)
qed

lemma collect_error: "collect step stop k acc = Some (Inl e) \<Longrightarrow> e = Out_Of_Range"
  using collect_error_aux by blast

lemma map_res_error: "map_res f xs = Inl e \<Longrightarrow> \<exists>x \<in> set xs. f x = Inl e"
  by (induction xs) (auto split: sum.splits)

lemma mk_period_error: "mk_period lib has t p = Inl e \<Longrightarrow> e = Out_Of_Range"
  by (cases p) (auto simp: mk_period_def Let_def split: option.splits if_splits)

lemma rolls_error:
  "roll_backward shift m stub eff mat fps lpe = Some (Inl e) \<Longrightarrow> e = Out_Of_Range"
  "roll_forward_ends shift m stub eff mat = Some (Inl e) \<Longrightarrow> e = Out_Of_Range"
  by (auto simp: roll_backward_def roll_forward_ends_def Let_def split: option.splits sum.splits if_splits dest: collect_error)

lemma generate_schedule_unknown:
  "generate_schedule lib has shift eff mat frequency stub fps lpe t = Some (Inl Unknown_Frequency) \<longleftrightarrow>
     norm_name (py_or frequency ''QUARTERLY'') \<notin> {''ZERO'', ''ZERO_COUPON'', ''ZEROCOUPON'', ''BULLET''}
     \<and> freq_months (norm_name (py_or frequency ''QUARTERLY'')) = None"
proof -
  have p: "map_res (mk_period lib has t) xs \<noteq> Inl Unknown_Frequency" for xs
    using map_res_error[of "mk_period lib has t" xs Unknown_Frequency] mk_period_error[of lib has t _ Unknown_Frequency] by auto
  have r: "roll_backward shift m st eff mat fps lpe \<noteq> Some (Inl Unknown_Frequency)"
    "roll_forward_ends shift m st eff mat \<noteq> Some (Inl Unknown_Frequency)" for m st
    using rolls_error(1)[of shift m st eff mat fps lpe Unknown_Frequency] rolls_error(2)[of shift m st eff mat Unknown_Frequency] by auto
  let ?f = "norm_name (py_or frequency ''QUARTERLY'')" and ?s = "norm_name (py_or stub ''SHORT_FRONT'')"
  show ?thesis
  proof (cases "?f \<in> {''ZERO'', ''ZERO_COUPON'', ''ZEROCOUPON'', ''BULLET''}")
    case True
    then show ?thesis unfolding generate_schedule_def Let_def if_P[OF True] using p by (simp del: map_res.simps)
  next
    case zero: False
    show ?thesis
    proof (cases "freq_months ?f")
      case None
      then show ?thesis unfolding generate_schedule_def Let_def if_not_P[OF zero] None option.case using zero by simp
    next
      case (Some m)
      show ?thesis
      proof (cases "?s \<notin> set (front_stubs @ back_stubs)")
        case True
        then show ?thesis unfolding generate_schedule_def Let_def if_not_P[OF zero] Some option.case if_P[OF True] by simp
      next
        case stub: False
        define rr where "rr = (if ?s \<in> set front_stubs \<or> lpe \<noteq> None then roll_backward shift m ?s eff mat fps lpe else roll_forward_ends shift m ?s eff mat)"
        have "rr \<noteq> Some (Inl Unknown_Frequency)" unfolding rr_def by (subst if_split) (intro conjI impI r)
        then show ?thesis
          unfolding generate_schedule_def Let_def if_not_P[OF zero] Some option.case if_not_P[OF stub] rr_def[symmetric]
          using p by (cases rr) (auto split: sum.splits)
      qed
    qed
  qed
qed

text \<open>Not every complete leg can be scheduled. For a leg that passes \<open>leg_is_complete\<close> the schedule generator, whatever the dates and the
  other terms, rejects the payment frequency exactly when it is DAILY or WEEKLY, two of the names completion itself produces.\<close>

theorem complete_leg_schedulable:
  assumes "leg_is_complete leg" and "get leg ''payment_frequency'' = PStr f"
  shows "generate_schedule lib has shift eff mat (Some f) stub fps lpe t = Some (Inl Unknown_Frequency) \<longleftrightarrow> f \<in> {''DAILY'', ''WEEKLY''}"
proof -
  have f: "f \<in> set canonical_frequencies" using assms unfolding leg_is_complete_def by simp
  have all: "list_all (\<lambda>f. (norm_name (py_or (Some f) ''QUARTERLY'') \<notin> {''ZERO'', ''ZERO_COUPON'', ''ZEROCOUPON'', ''BULLET''}
      \<and> freq_months (norm_name (py_or (Some f) ''QUARTERLY'')) = None) = (f \<in> {''DAILY'', ''WEEKLY''})) canonical_frequencies"
    by code_simp
  show ?thesis unfolding generate_schedule_unknown by (rule bspec[OF all[unfolded list_all_iff] f])
qed

definition weekly_leg :: pydict where
  "weekly_leg = [(''leg_type'', PStr ''FIXED''), (''payment_frequency'', PStr ''1W'')]"

theorem complete_leg_schedulable_witness:
  "leg_is_complete (complete_leg demo_context weekly_leg) \<and> get (complete_leg demo_context weekly_leg) ''payment_frequency'' = PStr ''WEEKLY''
     \<and> generate_schedule demo_lib True add_months (Date 2026 3 2) (Date 2031 3 3) (Some ''WEEKLY'') None None None demo_terms = Some (Inl Unknown_Frequency)"
proof -
  have "leg_is_complete (complete_leg demo_context weekly_leg)" "get (complete_leg demo_context weekly_leg) ''payment_frequency'' = PStr ''WEEKLY''"
    by code_simp+
  with complete_leg_schedulable[OF this, of demo_lib True add_months "Date 2026 3 2" "Date 2031 3 3" None None None demo_terms] show ?thesis by simp
qed

end
