(* ===== verification/Cashflows.thy ===== *)
theory Cashflows
  imports Schedule "HOL-Library.Product_Lexorder"
begin

section \<open>Stored cashflows and their overrides (api/routes/cashflows.py, _cashflow_overrides.py, pricer.py)\<close>

text \<open>
  The state is the \<open>cashflows\<close> table and the owners of the trades. A projected schedule is wiped and written anew on every pricing; the user's
  amount overrides are taken off the old rows first and put onto the new rows with the same leg and period. What the pricing engine computes
  is an input. An insert is refused as a whole when a row breaks a constraint of the table (docs/schema.sql). Amounts are exact rationals.
\<close>

type_synonym stamp = int
type_synonym period_key = "string \<times> date \<times> date"

record cashflow =
  cf_id :: string
  cf_trade :: string
  cf_leg :: string
  cf_user :: "string option"
  cf_start :: date
  cf_end :: date
  cf_pay :: date
  cf_fix :: "date option"
  cf_ccy :: string
  cf_notional :: "rat option"
  cf_rate :: "rat option"
  cf_dcf :: "rat option"
  cf_amount :: rat
  cf_override :: "rat option"
  cf_over :: bool
  cf_status :: string
  cf_modified :: "stamp option"
  cf_by :: "string option"

record cash_db =
  cd_rows :: "cashflow list"
  cd_trades :: "(string \<times> string) list"

datatype cash_error = Forbidden | Not_Found | Unprocessable | Not_Implemented | Server_Error

definition cash_write_roles :: "string list" where
  "cash_write_roles = [''trader'', ''admin'']"

definition valid_status :: "string list" where
  "valid_status = [''PROJECTED'', ''CONFIRMED'', ''SETTLED'', ''CANCELLED'']"

definition period_key :: "cashflow \<Rightarrow> period_key" where
  "period_key r = (cf_leg r, cf_start r, cf_end r)"

subsection \<open>The table\<close>

text \<open>NOT NULL user, a positive period, payment not before the period's end, a known status, a non-zero amount.\<close>

definition row_allowed :: "cashflow \<Rightarrow> bool" where
  "row_allowed r \<longleftrightarrow> cf_user r \<noteq> None \<and> cf_start r < cf_end r \<and> cf_end r \<le> cf_pay r \<and> cf_status r \<in> set valid_status \<and> cf_amount r \<noteq> 0"

definition insert_rows :: "cashflow list \<Rightarrow> cashflow list \<Rightarrow> cashflow list option" where
  "insert_rows rows new =
     (if list_all row_allowed new \<and> distinct (map cf_id new) \<and> (\<forall>r \<in> set new. cf_id r \<notin> cf_id ` set rows) then Some (rows @ new) else None)"

definition projected_of :: "string \<Rightarrow> string \<Rightarrow> cashflow \<Rightarrow> bool" where
  "projected_of trade user r \<longleftrightarrow> cf_trade r = trade \<and> cf_user r = Some user \<and> cf_status r = ''PROJECTED''"

definition owns :: "cash_db \<Rightarrow> string \<Rightarrow> string \<Rightarrow> bool" where
  "owns db user trade \<longleftrightarrow> (trade, user) \<in> set (cd_trades db)"

subsection \<open>Overrides\<close>

record override =
  ov_amount :: "rat option"
  ov_at :: "stamp option"
  ov_by :: "string option"

type_synonym snapshot = "(period_key \<times> override) list"

definition override_of :: "cashflow \<Rightarrow> override" where
  "override_of r = \<lparr>ov_amount = cf_override r, ov_at = cf_modified r, ov_by = cf_by r\<rparr>"

definition overridden :: "string \<Rightarrow> string \<Rightarrow> cashflow \<Rightarrow> bool" where
  "overridden trade user r \<longleftrightarrow> projected_of trade user r \<and> cf_over r"

definition snapshot_overrides :: "cashflow list \<Rightarrow> string \<Rightarrow> string \<Rightarrow> snapshot" where
  "snapshot_overrides rows trade user =
     foldl (\<lambda>s r. dict_set (period_key r) (override_of r) s) [] (filter (overridden trade user) rows)"

definition apply_snapshot :: "cashflow \<Rightarrow> snapshot \<Rightarrow> period_key set \<Rightarrow> cashflow \<times> period_key set" where
  "apply_snapshot r snap consumed =
     (case dict_get snap (period_key r) of
        None \<Rightarrow> (r, consumed)
      | Some o' \<Rightarrow> (r\<lparr>cf_override := ov_amount o', cf_over := True, cf_modified := ov_at o', cf_by := ov_by o'\<rparr>, insert (period_key r) consumed))"

record orphan =
  or_leg :: string
  or_start :: date
  or_end :: date
  or_amount :: "rat option"

definition orphans_from_snapshot :: "snapshot \<Rightarrow> period_key set \<Rightarrow> orphan list" where
  "orphans_from_snapshot snap consumed =
     sort_key (\<lambda>o'. (or_leg o', or_start o'))
       (map (\<lambda>((l, s, e), o'). \<lparr>or_leg = l, or_start = s, or_end = e, or_amount = ov_amount o'\<rparr>)
         (filter (\<lambda>(k, o'). k \<notin> consumed) snap))"

subsection \<open>Reading\<close>

definition list_cashflows_for_trade :: "cash_db \<Rightarrow> string \<Rightarrow> string \<Rightarrow> cashflow list" where
  "list_cashflows_for_trade db trade user =
     sort_key (\<lambda>r. (cf_pay r, cf_leg r)) (filter (\<lambda>r. cf_trade r = trade \<and> cf_user r = Some user) (cd_rows db))"

definition list_cashflows_for_leg :: "cash_db \<Rightarrow> string \<Rightarrow> string \<Rightarrow> cashflow list" where
  "list_cashflows_for_leg db leg user = sort_key cf_pay (filter (\<lambda>r. cf_leg r = leg \<and> cf_user r = Some user) (cd_rows db))"

subsection \<open>Writing a schedule\<close>

record cash_in =
  ci_trade :: string
  ci_leg :: string
  ci_start :: date
  ci_end :: date
  ci_pay :: date
  ci_fix :: "date option"
  ci_ccy :: string
  ci_notional :: "rat option"
  ci_rate :: "rat option"
  ci_dcf :: "rat option"
  ci_amount :: rat

definition fresh_row :: "string option \<Rightarrow> string \<Rightarrow> cash_in \<Rightarrow> cashflow" where
  "fresh_row user i c =
     \<lparr>cf_id = i, cf_trade = ci_trade c, cf_leg = ci_leg c, cf_user = user, cf_start = ci_start c, cf_end = ci_end c, cf_pay = ci_pay c,
      cf_fix = ci_fix c, cf_ccy = ci_ccy c, cf_notional = ci_notional c, cf_rate = ci_rate c, cf_dcf = ci_dcf c, cf_amount = ci_amount c,
      cf_override = None, cf_over = False, cf_status = ''PROJECTED'', cf_modified = None, cf_by = None\<rparr>"

fun restore_all :: "snapshot \<Rightarrow> cashflow list \<Rightarrow> period_key set \<Rightarrow> cashflow list \<times> period_key set" where
  "restore_all snap [] consumed = ([], consumed)"
| "restore_all snap (r # rs) consumed =
     (case apply_snapshot r snap consumed of (r', c1) \<Rightarrow> (case restore_all snap rs c1 of (rs', c2) \<Rightarrow> (r' # rs', c2)))"

text \<open>The bulk route: its rows are built without a \<open>user_id\<close>.\<close>

definition write_cashflow_schedule :: "cash_db \<Rightarrow> string \<Rightarrow> string \<Rightarrow> string \<Rightarrow> cash_in list \<Rightarrow> string list \<Rightarrow> cash_db \<times> (cash_error, cashflow list) res" where
  "write_cashflow_schedule db role user trade cfs ids =
     (if role \<notin> set cash_write_roles then (db, Inl Forbidden)
      else
        (let snap = snapshot_overrides (cd_rows db) trade user
         in if \<not> owns db user trade then (db, Inl Not_Found)
            else
              (let kept = filter (\<lambda>r. \<not> projected_of trade user r) (cd_rows db);
                   new = fst (restore_all snap (map2 (fresh_row None) ids cfs) {})
               in case insert_rows kept new of None \<Rightarrow> (db, Inl Server_Error) | Some rows \<Rightarrow> (db\<lparr>cd_rows := rows\<rparr>, Inr new))))"

text \<open>
  The pricer's route. Each leg is whether it carries embedded options; what the curves and the engine make of the legs is
  \<open>engine\<close>: a curve that could not be built, an engine that raised, or the priced periods, each with whether an amount
  was computed (it is stored as zero when none was).
\<close>

datatype engine = Curve_Failed | Engine_Raised | Priced "(cash_in \<times> bool) list"

definition swaption_gate :: "string option \<Rightarrow> bool list \<Rightarrow> bool" where
  "swaption_gate instrument legs \<longleftrightarrow> instrument = Some ''IR_SWAPTION'' \<and> list_ex (\<lambda>o'. o') legs"

definition priced_in :: "string \<Rightarrow> cash_in \<times> bool \<Rightarrow> cash_in" where
  "priced_in trade p = (fst p)\<lparr>ci_trade := trade, ci_amount := if snd p then ci_amount (fst p) else 0\<rparr>"

text \<open>What the route refuses before it prices anything.\<close>

definition generation_guard :: "cash_db \<Rightarrow> string \<Rightarrow> string \<Rightarrow> string \<Rightarrow> string option \<Rightarrow> bool list \<Rightarrow> cash_error option" where
  "generation_guard db role user trade instrument legs =
     (if role \<notin> set cash_write_roles then Some Forbidden
      else if \<not> owns db user trade then Some Not_Found
      else if legs = [] then Some Unprocessable
      else if swaption_gate instrument legs then Some Not_Implemented else None)"

definition generate_cashflows ::
    "cash_db \<Rightarrow> string \<Rightarrow> string \<Rightarrow> string \<Rightarrow> string option \<Rightarrow> bool list \<Rightarrow> engine \<Rightarrow> string list \<Rightarrow> cash_db \<times> (cash_error, nat \<times> orphan list) res" where
  "generate_cashflows db role user trade instrument legs engine ids =
     (case generation_guard db role user trade instrument legs of
        Some e \<Rightarrow> (db, Inl e)
      | None \<Rightarrow>
           (case engine of
              Curve_Failed \<Rightarrow> (db, Inl Unprocessable)
            | Engine_Raised \<Rightarrow> (db, Inl Server_Error)
            | Priced ps \<Rightarrow>
                (let snap = snapshot_overrides (cd_rows db) trade user;
                     kept = filter (\<lambda>r. \<not> projected_of trade user r) (cd_rows db);
                     (new, consumed) = restore_all snap (map2 (fresh_row (Some user)) ids (map (priced_in trade) ps)) {}
                 in case insert_rows kept new of
                      None \<Rightarrow> (db, Inl Server_Error)
                    | Some rows \<Rightarrow> (db\<lparr>cd_rows := rows\<rparr>, Inr (length new, orphans_from_snapshot snap consumed)))))"

subsection \<open>Changing a row\<close>

definition find_cashflow :: "cash_db \<Rightarrow> string \<Rightarrow> string \<Rightarrow> cashflow option" where
  "find_cashflow db user i = List.find (\<lambda>r. cf_id r = i \<and> cf_user r = Some user) (cd_rows db)"

definition change_row :: "cash_db \<Rightarrow> string \<Rightarrow> (cashflow \<Rightarrow> cashflow) \<Rightarrow> cash_db" where
  "change_row db i f = db\<lparr>cd_rows := map (\<lambda>r. if cf_id r = i then f r else r) (cd_rows db)\<rparr>"

definition override_cashflow :: "cash_db \<Rightarrow> string \<Rightarrow> string \<Rightarrow> string \<Rightarrow> rat \<Rightarrow> stamp \<Rightarrow> cash_db \<times> (cash_error, cashflow) res" where
  "override_cashflow db role user i amount now =
     (if role \<notin> set cash_write_roles then (db, Inl Forbidden)
      else (case find_cashflow db user i of
              None \<Rightarrow> (db, Inl Not_Found)
            | Some r \<Rightarrow>
                (let f = (\<lambda>r. r\<lparr>cf_override := Some amount, cf_over := True, cf_modified := Some now, cf_by := Some user\<rparr>)
                 in (change_row db i f, Inr (f r)))))"

definition update_cashflow_status :: "cash_db \<Rightarrow> string \<Rightarrow> string \<Rightarrow> string \<Rightarrow> string \<Rightarrow> stamp \<Rightarrow> cash_db \<times> (cash_error, cashflow) res" where
  "update_cashflow_status db role user i status now =
     (if role \<notin> set cash_write_roles then (db, Inl Forbidden)
      else if status \<notin> set valid_status then (db, Inl Unprocessable)
      else (case find_cashflow db user i of
              None \<Rightarrow> (db, Inl Not_Found)
            | Some r \<Rightarrow>
                (let f = (\<lambda>r. r\<lparr>cf_status := status, cf_modified := Some now, cf_by := Some user\<rparr>)
                 in (change_row db i f, Inr (f r)))))"

definition wipe_projected_cashflows :: "cash_db \<Rightarrow> string \<Rightarrow> string \<Rightarrow> string \<Rightarrow> cash_db \<times> (cash_error, unit) res" where
  "wipe_projected_cashflows db role user trade =
     (if role \<notin> set cash_write_roles then (db, Inl Forbidden)
      else (db\<lparr>cd_rows := filter (\<lambda>r. \<not> (projected_of trade user r \<and> \<not> cf_over r)) (cd_rows db)\<rparr>, Inr ()))"

subsection \<open>Snapshots\<close>

lemma snapshot_get:
  "dict_get (foldl (\<lambda>s r. dict_set (period_key r) (override_of r) s) acc rs) k =
     (case List.find (\<lambda>r. period_key r = k) (rev rs) of Some r \<Rightarrow> Some (override_of r) | None \<Rightarrow> dict_get acc k)"
proof (induction rs arbitrary: acc rule: rev_induct)
  case (snoc r rs)
  then show ?case by (simp add: dict_get_set)
qed simp

lemma snapshot_key:
  "k \<in> fst ` set (snapshot_overrides rows trade user) \<longleftrightarrow> (\<exists>r \<in> set rows. overridden trade user r \<and> period_key r = k)"
proof -
  have "dict_get (snapshot_overrides rows trade user) k \<noteq> None \<longleftrightarrow> (\<exists>r \<in> set rows. overridden trade user r \<and> period_key r = k)"
  proof (cases "List.find (\<lambda>r. period_key r = k) (rev (filter (overridden trade user) rows))")
    case None
    then have "dict_get (snapshot_overrides rows trade user) k = None" by (simp add: snapshot_overrides_def snapshot_get)
    with None show ?thesis by (auto simp: find_None_iff)
  next
    case (Some r)
    from find_SomeD[OF this] Some show ?thesis by (auto simp: snapshot_overrides_def snapshot_get)
  qed
  moreover have "dict_get (snapshot_overrides rows trade user) k \<noteq> None \<longleftrightarrow> k \<in> fst ` set (snapshot_overrides rows trade user)"
    by (simp add: map_of_eq_None_iff)
  ultimately show ?thesis by simp
qed

lemma snapshot_unique:
  assumes "r \<in> set rows" "overridden trade user r" and d: "distinct (map period_key (filter (overridden trade user) rows))"
  shows "dict_get (snapshot_overrides rows trade user) (period_key r) = Some (override_of r)"
proof -
  let ?rs = "filter (overridden trade user) rows"
  have r: "r \<in> set ?rs" using assms by simp
  obtain x where x: "List.find (\<lambda>q. period_key q = period_key r) (rev ?rs) = Some x"
    using r by (cases "List.find (\<lambda>q. period_key q = period_key r) (rev ?rs)") (auto simp: find_None_iff)
  from find_SomeD[OF x] have "x \<in> set (rev ?rs)" "period_key x = period_key r" by blast+
  then have "x = r" using d r by (simp add: distinct_map inj_on_def)
  with x show ?thesis by (simp add: snapshot_overrides_def snapshot_get)
qed

lemma restore_all_result:
  "restore_all snap rs consumed = (rs', c') \<Longrightarrow>
     rs' = map (\<lambda>r. fst (apply_snapshot r snap {})) rs \<and> c' = consumed \<union> {k. k \<in> period_key ` set rs \<and> dict_get snap k \<noteq> None}"
proof (induction rs arbitrary: consumed rs' c')
  case (Cons r rs)
  obtain r' c1 where 1: "apply_snapshot r snap consumed = (r', c1)" by fastforce
  obtain rs1 c2 where 2: "restore_all snap rs c1 = (rs1, c2)" by fastforce
  have "r' = fst (apply_snapshot r snap {})" "c1 = consumed \<union> (if dict_get snap (period_key r) \<noteq> None then {period_key r} else {})"
    using 1 by (auto simp: apply_snapshot_def split: option.splits)
  with Cons.IH[OF 2] Cons.prems 1 2 show ?case by (auto split: if_splits)
qed simp

lemma insert_rows_Some: "insert_rows rows new = Some rows' \<Longrightarrow> rows' = rows @ new \<and> list_all row_allowed new"
  by (auto simp: insert_rows_def split: if_splits)

subsection \<open>Properties\<close>


definition demo_cash :: cashflow where
  "demo_cash = \<lparr>cf_id = ''c1'', cf_trade = ''t'', cf_leg = ''l'', cf_user = Some ''u'', cf_start = Date 2026 1 2, cf_end = Date 2026 4 2, cf_pay = Date 2026 4 2,
     cf_fix = None, cf_ccy = ''USD'', cf_notional = None, cf_rate = None, cf_dcf = None, cf_amount = 100, cf_override = Some 42, cf_over = True,
     cf_status = ''PROJECTED'', cf_modified = Some 7, cf_by = Some ''u''\<rparr>"

definition demo_cash_db :: cash_db where
  "demo_cash_db = \<lparr>cd_rows = [demo_cash], cd_trades = [(''t'', ''u'')]\<rparr>"

definition demo_in :: "date \<Rightarrow> date \<Rightarrow> date \<Rightarrow> rat \<Rightarrow> cash_in" where
  "demo_in s e pay a = \<lparr>ci_trade = ''t'', ci_leg = ''l'', ci_start = s, ci_end = e, ci_pay = pay, ci_fix = None, ci_ccy = ''USD'', ci_notional = None,
     ci_rate = None, ci_dcf = None, ci_amount = a\<rparr>"


text \<open>The bulk route cannot write anything. It builds its rows without a user, which the table requires, so for the owner of the trade every
  non-empty schedule ends in a server error and leaves the table as it was, whatever the rows hold.\<close>

theorem bulk_write_always_fails:
  assumes "cfs \<noteq> []" and "length ids = length cfs" and "role \<in> set cash_write_roles" and "owns db user trade"
  shows "write_cashflow_schedule db role user trade cfs ids = (db, Inl Server_Error)"
proof -
  let ?snap = "snapshot_overrides (cd_rows db) trade user"
  obtain i js c cs where ic: "ids = i # js" "cfs = c # cs" using assms(1,2) by (cases ids; cases cfs) auto
  have "cf_user (fst (apply_snapshot (fresh_row None i c) ?snap {})) = None" by (simp add: apply_snapshot_def fresh_row_def split: option.splits)
  then have "\<not> list_all row_allowed (fst (restore_all ?snap (map2 (fresh_row None) ids cfs) {}))"
    by (auto simp: ic row_allowed_def split: prod.splits)
  then show ?thesis using assms(3,4) by (simp add: write_cashflow_schedule_def insert_rows_def Let_def)
qed

theorem bulk_write_always_fails_witness:
  "write_cashflow_schedule demo_cash_db ''trader'' ''u'' ''t'' [demo_in (Date 2026 4 2) (Date 2026 7 2) (Date 2026 7 2) 1] [''c2''] = (demo_cash_db, Inl Server_Error)"
  by (rule bulk_write_always_fails) (simp_all add: cash_write_roles_def owns_def demo_cash_db_def)

text \<open>The status order is not enforced, so a settled cashflow can be deleted: whatever the status of a row of the user that carries no
  override, the status route sets it back to PROJECTED, and the wipe of its trade then removes it.\<close>

theorem settled_row_can_be_wiped:
  assumes r: "find_cashflow db user i = Some r" and plain: "\<not> cf_over r" and role: "role \<in> set cash_write_roles"
  shows "\<exists>db1 q db2. update_cashflow_status db role user i ''PROJECTED'' now = (db1, Inr q)
    \<and> wipe_projected_cashflows db1 role user (cf_trade r) = (db2, Inr ()) \<and> r\<lparr>cf_status := ''PROJECTED'', cf_modified := Some now, cf_by := Some user\<rparr> \<in> set (cd_rows db1)
    \<and> (\<forall>x \<in> set (cd_rows db2). cf_id x = i \<longrightarrow> cf_user x \<noteq> Some user \<or> cf_trade x \<noteq> cf_trade r \<or> cf_over x)"
proof -
  let ?f = "\<lambda>r. r\<lparr>cf_status := ''PROJECTED'', cf_modified := Some now, cf_by := Some user\<rparr>"
  have u: "update_cashflow_status db role user i ''PROJECTED'' now = (change_row db i ?f, Inr (?f r))"
    using r role by (simp add: update_cashflow_status_def valid_status_def Let_def)
  obtain db2 where w: "wipe_projected_cashflows (change_row db i ?f) role user (cf_trade r) = (db2, Inr ())"
    using role by (simp add: wipe_projected_cashflows_def)
  have in1: "r \<in> set (cd_rows db)" "cf_id r = i" "cf_user r = Some user" using find_SomeD[OF r[unfolded find_cashflow_def]] by auto
  have "?f r \<in> set (cd_rows (change_row db i ?f))" using in1 by (force simp: change_row_def)
  moreover have "cf_user x \<noteq> Some user \<or> cf_trade x \<noteq> cf_trade r \<or> cf_over x" if "x \<in> set (cd_rows db2)" "cf_id x = i" for x
  proof -
    have "x \<in> set (cd_rows (change_row db i ?f))" and np: "\<not> (projected_of (cf_trade r) user x \<and> \<not> cf_over x)"
      using that(1) w role unfolding wipe_projected_cashflows_def by auto
    then have "x \<in> (\<lambda>y. if cf_id y = i then ?f y else y) ` set (cd_rows db)" by (simp add: change_row_def)
    then obtain y where "x = (if cf_id y = i then ?f y else y)" by (rule imageE)
    with that(2) have "cf_status x = ''PROJECTED''" by (cases "cf_id y = i") simp_all
    with np show ?thesis by (simp add: projected_of_def)
  qed
  ultimately show ?thesis using u w by (intro exI[of _ "change_row db i ?f"] exI[of _ "?f r"] exI[of _ db2] conjI ballI impI) simp_all
qed

definition settled_db :: cash_db where
  "settled_db = \<lparr>cd_rows = [demo_cash\<lparr>cf_status := ''SETTLED'', cf_over := False\<rparr>], cd_trades = [(''t'', ''u'')]\<rparr>"

theorem settled_row_can_be_wiped_witness:
  "\<exists>db1 q db2. update_cashflow_status settled_db ''trader'' ''u'' ''c1'' ''PROJECTED'' 9 = (db1, Inr q)
     \<and> wipe_projected_cashflows db1 ''trader'' ''u'' ''t'' = (db2, Inr ())"
proof -
  have "find_cashflow settled_db ''u'' ''c1'' = Some (demo_cash\<lparr>cf_status := ''SETTLED'', cf_over := False\<rparr>)"
    by (simp add: find_cashflow_def settled_db_def demo_cash_def)
  from settled_row_can_be_wiped[OF this, of "''trader''" 9] show ?thesis by (auto simp: cash_write_roles_def demo_cash_def)
qed

text \<open>A schedule whose adjustment rolls back cannot be stored. If any period the engine priced pays before it ends, which the preceding
  conventions do and the default one does at a month's end, or has no length, the whole generation of the trade's cashflows fails and the
  table keeps its old rows.\<close>

theorem early_payment_blocks_generation:
  assumes "(c, computed) \<in> set ps" and "ci_pay c < ci_end c \<or> ci_end c \<le> ci_start c" and "length ids = length ps"
    and "role \<in> set cash_write_roles" and "owns db user trade" and "legs \<noteq> []" and "\<not> swaption_gate instrument legs"
  shows "generate_cashflows db role user trade instrument legs (Priced ps) ids = (db, Inl Server_Error)"
proof -
  let ?snap = "snapshot_overrides (cd_rows db) trade user"
  let ?raw = "map2 (fresh_row (Some user)) ids (map (priced_in trade) ps)"
  obtain new consumed where res: "restore_all ?snap ?raw {} = (new, consumed)" by fastforce
  have new: "new = map (\<lambda>r. fst (apply_snapshot r ?snap {})) ?raw" using restore_all_result[OF res] by simp
  obtain j where j: "j < length ps" "ps ! j = (c, computed)" using assms(1) by (auto simp: in_set_conv_nth)
  have "new ! j = fst (apply_snapshot (fresh_row (Some user) (ids ! j) (priced_in trade (c, computed))) ?snap {})"
    using j assms(3) by (simp add: new)
  moreover have "new ! j \<in> set new" using j assms(3) by (intro nth_mem) (simp add: new)
  moreover have "\<not> row_allowed (fst (apply_snapshot (fresh_row (Some user) (ids ! j) (priced_in trade (c, computed))) ?snap {}))"
    using assms(2) by (auto simp: row_allowed_def apply_snapshot_def fresh_row_def priced_in_def split: option.splits)
  ultimately have "\<not> list_all row_allowed new" unfolding list_all_iff by metis
  then show ?thesis using assms(4-7) res by (simp add: generate_cashflows_def generation_guard_def insert_rows_def Let_def)
qed

text \<open>A bullet leg to Saturday 31 January 2026 under the default convention pays on Friday the 30th.\<close>

theorem early_payment_blocks_generation_witness:
  "\<exists>p. generate_schedule demo_lib True add_months (Date 2025 10 31) (Date 2026 1 31) (Some ''BULLET'') None None None (demo_terms\<lparr>st_lag := 0, st_bdc := None\<rparr>) = Some (Inr [p])
     \<and> generate_cashflows demo_cash_db ''trader'' ''u'' ''t'' None [False]
         (Priced [(demo_in (period_start p) (period_end p) (payment_date p) 1, True)]) [''c2''] = (demo_cash_db, Inl Server_Error)"
proof -
  let ?g = "generate_schedule demo_lib True add_months (Date 2025 10 31) (Date 2026 1 31) (Some ''BULLET'') None None None (demo_terms\<lparr>st_lag := 0, st_bdc := None\<rparr>)"
  have "case ?g of Some (Inr ps) \<Rightarrow> map payment_date ps = [Date 2026 1 30] \<and> map period_end ps = [Date 2026 1 31] | _ \<Rightarrow> False" by code_simp
  then obtain ps where ps: "?g = Some (Inr ps)" "map payment_date ps = [Date 2026 1 30]" "map period_end ps = [Date 2026 1 31]"
    by (auto split: option.splits sum.splits)
  then obtain p where p: "ps = [p]" "payment_date p = Date 2026 1 30" "period_end p = Date 2026 1 31" by (cases ps) auto
  have "Date 2026 1 30 < Date 2026 1 31" by code_simp
  then have "generate_cashflows demo_cash_db ''trader'' ''u'' ''t'' None [False] (Priced [(demo_in (period_start p) (period_end p) (payment_date p) 1, True)]) [''c2'']
      = (demo_cash_db, Inl Server_Error)"
    using p by (intro early_payment_blocks_generation[where c = "demo_in (period_start p) (period_end p) (payment_date p) 1" and computed = True])
      (simp_all add: demo_in_def cash_write_roles_def owns_def demo_cash_db_def swaption_gate_def)
  with ps p show ?thesis by blast
qed

end
