(* ===== verification/Switches.thy ===== *)
theory Switches
  imports Auth
begin

section \<open>Module switches per firm\<close>

text \<open>
  \<open>modules.py\<close> and \<open>api/routes/modules.py\<close>: the switches of a firm, their presets, what a firm or user reads, and the
  change with its audit row. The database is the part these functions touch: whether the migration's columns exist
  (\<open>sw_columns\<close>), whether it answers (\<open>sw_up\<close>), the process's memory that the columns exist (\<open>sw_known\<close>), the firms, the
  members, the users' addresses and the events. Stored switches are JSON objects of any values. Times are microseconds.

  The lemmas: a stored map always reads back as exactly the known keys, and the audit row lists exactly what changed.
\<close>

type_synonym switches = "(string \<times> bool) list"

definition module_keys :: "string list" where
  "module_keys = [''CHAIN_CONFIRM'', ''PNL'', ''XVA'', ''MARKET_RISK'', ''COUNTERPARTY_CREDIT'', ''CAPITAL'', ''PROMETHEUS'',
     ''NEWS'', ''COLLATERAL'', ''XVA_RESERVES'', ''IPV'']"

text \<open>A preset is the keys it turns off.\<close>

definition module_presets :: "(string \<times> string list) list" where
  "module_presets = [(''DEALER'', []),
     (''CORPORATE'', [''MARKET_RISK'', ''COUNTERPARTY_CREDIT'', ''CAPITAL'', ''COLLATERAL'', ''IPV'', ''XVA_RESERVES'']),
     (''FUND'', [''CAPITAL'']), (''CLASSROOM'', [])]"

definition all_on :: switches where
  "all_on = map (\<lambda>k. (k, True)) module_keys"

record firm_row =
  fm_modules :: "pydict option"
  fm_preset :: "string option"

record module_event =
  me_firm :: string
  me_user :: string
  me_at :: int
  me_preset :: string
  me_before :: "switches option"
  me_after :: switches
  me_note :: "string option"

record switch_db =
  sw_up :: bool
  sw_columns :: bool
  sw_known :: bool
  sw_firms :: "(string \<times> firm_row) list"
  sw_members :: "(string \<times> string) list"
  sw_emails :: "(string \<times> string) list"
  sw_events :: "module_event list"

definition columns_present :: "switch_db \<Rightarrow> switch_db \<times> bool" where
  "columns_present db =
     (if sw_known db then (db, True) else if sw_up db \<and> sw_columns db then (db\<lparr>sw_known := True\<rparr>, True) else (db, False))"

text \<open>\<open>PRESETS[name.upper()]\<close> raises for an unknown name, which is \<open>None\<close>.\<close>

definition preset_modules :: "string \<Rightarrow> switches option" where
  "preset_modules name = map_option (\<lambda>off. map (\<lambda>k. (k, k \<notin> set off)) module_keys) (dict_get module_presets (str_upper name))"

definition normalise_switches :: "pydict \<Rightarrow> switches" where
  "normalise_switches d = foldl (\<lambda>out (k, v). if k \<in> fst ` set out then dict_set k (truthy v) out else out) all_on d"

subsection \<open>Reading\<close>

datatype source = From_Firm | Default

record switch_view =
  sv_modules :: switches
  sv_preset :: "string option"
  sv_source :: source

definition default_view :: "string option \<Rightarrow> switch_view" where
  "default_view p = \<lparr>sv_modules = all_on, sv_preset = p, sv_source = Default\<rparr>"

definition for_firm :: "switch_db \<Rightarrow> string option \<Rightarrow> switch_db \<times> switch_view" where
  "for_firm db firm =
     (case firm of None \<Rightarrow> (db, default_view None)
      | Some f \<Rightarrow>
          (let (db', present) = columns_present db in
           (db', if \<not> present \<or> \<not> sw_up db then default_view None
                 else (case dict_get (sw_firms db) f of None \<Rightarrow> default_view None
                       | Some row \<Rightarrow> (case fm_modules row of None \<Rightarrow> default_view (fm_preset row)
                           | Some d \<Rightarrow> \<lparr>sv_modules = normalise_switches d, sv_preset = fm_preset row, sv_source = From_Firm\<rparr>)))))"

definition firm_of_user :: "switch_db \<Rightarrow> string \<Rightarrow> string option" where
  "firm_of_user db uid = (if sw_up db then dict_get (sw_members db) uid else None)"

definition for_user :: "switch_db \<Rightarrow> string \<Rightarrow> switch_db \<times> switch_view" where
  "for_user db uid = for_firm db (firm_of_user db uid)"

definition is_on :: "switch_db \<Rightarrow> string \<Rightarrow> string \<Rightarrow> bool" where
  "is_on db uid key = (case dict_get (sv_modules (snd (for_user db uid))) key of None \<Rightarrow> True | Some b \<Rightarrow> b)"

subsection \<open>Changing\<close>

text \<open>The exceptions of \<open>set_for_firm\<close>: the missing migration, an unknown preset, a database that does not answer.\<close>

datatype switch_error = No_Migration | Unknown_Preset | Db_Down

text \<open>\<open>bool\<close> as a JSON value, read back as the same truth value.\<close>

definition as_json :: "switches \<Rightarrow> pydict" where
  "as_json m = map (\<lambda>(k, b). (k, PBool b)) m"

definition set_for_firm ::
    "switch_db \<Rightarrow> string \<Rightarrow> string \<Rightarrow> pydict option \<Rightarrow> string option \<Rightarrow> string option \<Rightarrow> int \<Rightarrow> switch_db \<times> (switch_error, switch_view) res" where
  "set_for_firm db f uid modules preset note_text now =
     (let (db1, present) = columns_present db in
      if \<not> present then (db1, Inl No_Migration)
      else
        (let before = snd (for_firm db1 (Some f));
             target = (case preset of
                 Some p \<Rightarrow> if p \<noteq> [] then map_option (\<lambda>m. (m, str_upper p)) (preset_modules p)
                           else Some (normalise_switches (case modules of None \<Rightarrow> [] | Some d \<Rightarrow> d), ''CUSTOM'')
               | None \<Rightarrow> Some (normalise_switches (case modules of None \<Rightarrow> [] | Some d \<Rightarrow> d), ''CUSTOM''))
         in case target of None \<Rightarrow> (db1, Inl Unknown_Preset)
            | Some (after, pname) \<Rightarrow>
                if \<not> sw_up db1 then (db1, Inl Db_Down)
                else (db1\<lparr>sw_firms := map (\<lambda>(k, r). if k = f then (k, \<lparr>fm_modules = Some (as_json after), fm_preset = Some pname\<rparr>) else (k, r)) (sw_firms db1),
                          sw_events := sw_events db1 @ [\<lparr>me_firm = f, me_user = uid, me_at = now, me_preset = pname,
                            me_before = (if sv_source before = From_Firm then Some (sv_modules before) else None),
                            me_after = after, me_note = note_text\<rparr>]\<rparr>,
                      Inr \<lparr>sv_modules = after, sv_preset = Some pname, sv_source = From_Firm\<rparr>)))"

subsection \<open>The audit trail\<close>

record event_view =
  ev_at :: int
  ev_user :: string
  ev_email :: "string option"
  ev_preset :: string
  ev_changed :: "string list"
  ev_after :: switches
  ev_note :: "string option"

definition switch_of :: "switches \<Rightarrow> string \<Rightarrow> bool" where
  "switch_of m k = (case dict_get m k of None \<Rightarrow> True | Some b \<Rightarrow> b)"

text \<open>The keys whose value differs; an event without a \<open>before\<close> (or with an empty one) is compared with everything on.\<close>

definition changed_keys :: "switches option \<Rightarrow> switches \<Rightarrow> string list" where
  "changed_keys before after =
     (let b = (case before of None \<Rightarrow> all_on | Some m \<Rightarrow> if m = [] then all_on else m)
      in sort (filter (\<lambda>k. switch_of b k \<noteq> switch_of after k) module_keys))"

definition view_event :: "switch_db \<Rightarrow> module_event \<Rightarrow> event_view" where
  "view_event db e = \<lparr>ev_at = me_at e, ev_user = me_user e, ev_email = dict_get (sw_emails db) (me_user e), ev_preset = me_preset e,
     ev_changed = changed_keys (me_before e) (me_after e), ev_after = me_after e, ev_note = me_note e\<rparr>"

definition switch_events :: "switch_db \<Rightarrow> string option \<Rightarrow> nat \<Rightarrow> event_view list" where
  "switch_events db firm limit =
     (case firm of None \<Rightarrow> []
      | Some f \<Rightarrow> if \<not> snd (columns_present db) \<or> \<not> sw_up db then []
                  else map (view_event db) (take limit (rev (sort_key me_at (filter (\<lambda>e. me_firm e = f) (sw_events db))))))"

subsection \<open>The route\<close>

text \<open>\<open>PUT /api/modules\<close>: the status code of a refusal, or what the change returned; an escaping exception is a server error.\<close>

definition put_modules ::
    "switch_db \<Rightarrow> string option \<Rightarrow> pyval \<Rightarrow> string \<Rightarrow> string option \<Rightarrow> pydict option \<Rightarrow> string option \<Rightarrow> int \<Rightarrow> switch_db \<times> (int, switch_view) res" where
  "put_modules db db_role claim uid preset modules note_text now =
     (case require_admin db_role claim of Inl code \<Rightarrow> (db, Inl code)
      | Inr _ \<Rightarrow>
          (case firm_of_user db uid of None \<Rightarrow> (db, Inl 422)
           | Some f \<Rightarrow>
               (let (db1, present) = columns_present db in
                if \<not> present then (db1, Inl 409)
                else if (case preset of None \<Rightarrow> False | Some p \<Rightarrow> p \<noteq> [] \<and> str_upper p \<notin> fst ` set module_presets) then (db1, Inl 422)
                else if (preset = None \<or> preset = Some []) \<and> (case modules of None \<Rightarrow> True | Some d \<Rightarrow> \<not> list_all (\<lambda>(k, _). k \<in> set module_keys) d)
                then (db1, Inl 422)
                else (case set_for_firm db1 f uid modules preset note_text now of
                        (db2, Inl _) \<Rightarrow> (db1, Inl 500) | (db2, Inr v) \<Rightarrow> (db2, Inr v)))))"

subsection \<open>The known keys, and reading a stored map back\<close>

lemma module_keys_distinct [simp]: "distinct module_keys"
  by (simp add: module_keys_def)

lemma module_keys_not_Nil: "module_keys \<noteq> []"
  by (simp add: module_keys_def)

lemma all_on_keys [simp]: "map fst all_on = module_keys"
  by (simp add: all_on_def comp_def)

lemma preset_keys: "preset_modules p = Some m \<Longrightarrow> map fst m = module_keys"
  by (auto simp: preset_modules_def comp_def)

definition merge_switch :: "switches \<Rightarrow> string \<times> pyval \<Rightarrow> switches" where
  "merge_switch out kv = (if fst kv \<in> fst ` set out then dict_set (fst kv) (truthy (snd kv)) out else out)"

lemma normalise_merge: "normalise_switches d = foldl merge_switch all_on d"
  unfolding normalise_switches_def by (rule foldl_cong) (simp_all add: merge_switch_def case_prod_beta')

lemma merge_keys: "map fst (foldl merge_switch out d) = map fst out"
  by (induction d arbitrary: out) (simp_all add: merge_switch_def update_keys)

lemma normalise_keys [simp]: "map fst (normalise_switches d) = module_keys"
  by (simp add: normalise_merge merge_keys)

lemma merge_get:
  "k \<in> fst ` set out \<Longrightarrow> distinct (map fst d) \<Longrightarrow>
   dict_get (foldl merge_switch out d) k = (case dict_get d k of None \<Rightarrow> dict_get out k | Some v \<Rightarrow> Some (truthy v))"
proof (induction d arbitrary: out)
  case Nil
  then show ?case by simp
next
  case (Cons kv d)
  have keys: "fst ` set (merge_switch out kv) = fst ` set out" using merge_keys[of out "[kv]"] by (metis foldl_Cons foldl_Nil set_map)
  show ?case
  proof (cases "fst kv = k")
    case True
    then have "dict_get d k = None" using Cons.prems(2) by (auto simp: map_of_eq_None_iff)
    then show ?thesis using Cons.IH[of "merge_switch out kv"] Cons.prems True keys
      by (cases kv) (simp add: merge_switch_def dict_get_set)
  next
    case False
    then have "dict_get (merge_switch out kv) k = dict_get out k" by (simp add: merge_switch_def dict_get_set)
    then show ?thesis using Cons.IH[of "merge_switch out kv"] Cons.prems False keys by (cases kv) (simp split: option.splits)
  qed
qed

lemma same_keys_same_lookups:
  "map fst xs = map fst ys \<Longrightarrow> distinct (map fst xs) \<Longrightarrow> (\<And>k. k \<in> fst ` set xs \<Longrightarrow> dict_get xs k = dict_get ys k) \<Longrightarrow> xs = ys"
proof (induction xs arbitrary: ys)
  case Nil
  then show ?case by simp
next
  case (Cons x xs)
  then obtain y zs where ys: "ys = y # zs" "fst y = fst x" "map fst zs = map fst xs" by (cases ys) auto
  have "snd y = snd x" using Cons.prems(3)[of "fst x"] ys by (cases x; cases y) simp
  then have "y = x" using ys by (simp add: prod_eq_iff)
  moreover have "dict_get xs k = dict_get zs k" if "k \<in> fst ` set xs" for k
    using Cons.prems(2) Cons.prems(3)[of k] that ys by (cases x; cases y) (auto split: if_splits)
  ultimately show ?case using Cons.IH[of zs] Cons.prems(2) ys by simp
qed

lemma as_json_get: "dict_get (as_json m) k = map_option PBool (dict_get m k)"
  by (induction m) (auto simp: as_json_def)

lemma normalise_as_json:
  assumes m: "map fst m = module_keys"
  shows "normalise_switches (as_json m) = m"
proof (rule same_keys_same_lookups)
  show "map fst (normalise_switches (as_json m)) = map fst m" by (simp add: m)
  show "distinct (map fst (normalise_switches (as_json m)))" by simp
  fix k assume "k \<in> fst ` set (normalise_switches (as_json m))"
  then have k: "k \<in> set module_keys" using normalise_keys[of "as_json m"] by (metis set_map)
  have d: "distinct (map fst (as_json m))" "map fst all_on = module_keys" using m by (simp_all add: as_json_def comp_def case_prod_beta')
  obtain b where "dict_get m k = Some b" using k m by (metis map_of_eq_None_iff not_None_eq set_map)
  then show "dict_get (normalise_switches (as_json m)) k = dict_get m k"
    using merge_get[of k all_on "as_json m"] d k by (simp add: normalise_merge as_json_get truthy_def flip: set_map)
qed

subsection \<open>What a change does\<close>

lemma sort_key_snoc: "(\<And>x. x \<in> set xs \<Longrightarrow> f x \<le> f e) \<Longrightarrow> sort_key f (xs @ [e]) = sort_key f xs @ [e]"
proof (induction xs)
  case Nil
  then show ?case by simp
next
  case (Cons a xs)
  have "insort_key f a (ys @ [e]) = insort_key f a ys @ [e]" for ys using Cons.prems[of a] by (induction ys) auto
  with Cons show ?case by simp
qed

lemma default_keys [simp]: "sv_modules (default_view p) = all_on"
  by (simp add: default_view_def)

lemma for_firm_view:
  "sw_up db \<Longrightarrow> snd (columns_present db) \<Longrightarrow> snd (for_firm db (Some f)) =
     (case dict_get (sw_firms db) f of None \<Rightarrow> default_view None
      | Some row \<Rightarrow> (case fm_modules row of None \<Rightarrow> default_view (fm_preset row)
          | Some d \<Rightarrow> \<lparr>sv_modules = normalise_switches d, sv_preset = fm_preset row, sv_source = From_Firm\<rparr>))"
  by (cases "columns_present db") (simp add: for_firm_def split: prod.splits)

lemma for_firm_keys: "map fst (sv_modules (snd (for_firm db firm))) = module_keys"
  by (auto simp: for_firm_def split: option.splits prod.splits)

lemma source_default: "sv_source (snd (for_firm db firm)) \<noteq> From_Firm \<Longrightarrow> sv_modules (snd (for_firm db firm)) = all_on"
  by (auto simp: for_firm_def split: option.splits prod.splits if_splits)

definition stored_change :: "switch_db \<Rightarrow> string \<Rightarrow> string \<Rightarrow> switches \<Rightarrow> string \<Rightarrow> string option \<Rightarrow> int \<Rightarrow> switch_db \<Rightarrow> bool" where
  "stored_change db f uid after pname note_text now db' \<longleftrightarrow>
     map fst after = module_keys \<and> sw_up db' \<and> sw_known db' \<and> sw_members db' = sw_members db \<and>
     sw_firms db' = map (\<lambda>(k, r). if k = f then (k, \<lparr>fm_modules = Some (as_json after), fm_preset = Some pname\<rparr>) else (k, r)) (sw_firms db) \<and>
     sw_events db' = sw_events db @ [\<lparr>me_firm = f, me_user = uid, me_at = now, me_preset = pname,
       me_before = (let v = snd (for_firm db (Some f)) in if sv_source v = From_Firm then Some (sv_modules v) else None),
       me_after = after, me_note = note_text\<rparr>]"

lemma put_modules_stores:
  assumes put: "put_modules db role claim uid preset modules n now = (db', Inr v)"
  obtains f where "firm_of_user db uid = Some f" and "sw_up db" and "snd (columns_present db)"
    and "stored_change db f uid (sv_modules v) (the (sv_preset v)) n now db'"
    and "v = \<lparr>sv_modules = sv_modules v, sv_preset = Some (the (sv_preset v)), sv_source = From_Firm\<rparr>"
proof -
  obtain f where f: "firm_of_user db uid = Some f"
    using put by (auto simp: put_modules_def split: sum.splits option.splits)
  then have up: "sw_up db" by (simp add: firm_of_user_def split: if_splits)
  obtain db1 where cp: "columns_present db = (db1, True)"
    using put f by (auto simp: put_modules_def split: sum.splits option.splits prod.splits if_splits)
  then have db1: "db1 = db\<lparr>sw_known := True\<rparr>" by (auto simp: columns_present_def split: if_splits)
  have set: "set_for_firm db1 f uid modules preset n now = (db', Inr v)"
    using put f cp by (auto simp: put_modules_def split: sum.splits option.splits prod.splits if_splits)
  have cp1: "columns_present db1 = (db1, True)" by (simp add: db1 columns_present_def)
  have same: "snd (for_firm db1 (Some f)) = snd (for_firm db (Some f))"
    using cp cp1 up by (simp add: for_firm_def db1)
  have keys: "map fst (sv_modules v) = module_keys"
    using set cp1 by (auto simp: set_for_firm_def Let_def preset_keys split: option.splits if_splits prod.splits)
  have "stored_change db f uid (sv_modules v) (the (sv_preset v)) n now db'"
    using set cp1 same keys up
    by (auto simp: set_for_firm_def Let_def stored_change_def db1 split: option.splits if_splits prod.splits)
  moreover have "v = \<lparr>sv_modules = sv_modules v, sv_preset = Some (the (sv_preset v)), sv_source = From_Firm\<rparr>"
    using set cp1 by (auto simp: set_for_firm_def Let_def split: option.splits if_splits prod.splits)
  ultimately show ?thesis using that f up cp by simp
qed

lemma stored_lookup:
  "dict_get (map (\<lambda>(k, r). if k = f then (k, x) else (k, r)) xs) g = (if g = f then map_option (\<lambda>_. x) (dict_get xs g) else dict_get xs g)"
  by (induction xs) auto

lemma stored_change_reads:
  assumes "stored_change db f uid after pname n now db'" and "f \<in> fst ` set (sw_firms db)"
  shows "snd (for_firm db' (Some f)) = \<lparr>sv_modules = after, sv_preset = Some pname, sv_source = From_Firm\<rparr>"
proof -
  obtain r where "dict_get (sw_firms db) f = Some r" using assms(2) by (metis map_of_eq_None_iff not_None_eq)
  then have "dict_get (sw_firms db') f = Some \<lparr>fm_modules = Some (as_json after), fm_preset = Some pname\<rparr>"
    using assms(1) by (simp add: stored_change_def stored_lookup)
  moreover have "sw_up db'" "snd (columns_present db')" using assms(1) by (simp_all add: stored_change_def columns_present_def)
  ultimately show ?thesis using assms(1) by (simp add: for_firm_view normalise_as_json stored_change_def)
qed

subsection \<open>Properties\<close>

text \<open>C36: A change of the switches reads back. When the route accepts a preset or a map for a firm that exists, every member of that firm
  reads exactly the switches the route returned, every known key once and no other, and every other firm reads what it read before.\<close>

theorem switches_roundtrip:
  assumes put: "put_modules db role claim uid preset modules n now = (db', Inr v)"
    and firm: "firm_of_user db uid = Some f" and known: "f \<in> fst ` set (sw_firms db)"
  shows "map fst (sv_modules v) = module_keys \<and> (\<forall>u. firm_of_user db u = Some f \<longrightarrow> snd (for_user db' u) = v)
    \<and> (\<forall>g. g \<noteq> f \<longrightarrow> snd (for_firm db' (Some g)) = snd (for_firm db (Some g)))"
proof -
  obtain f' where f': "firm_of_user db uid = Some f'" "sw_up db" "snd (columns_present db)"
    and st: "stored_change db f' uid (sv_modules v) (the (sv_preset v)) n now db'"
    and v: "v = \<lparr>sv_modules = sv_modules v, sv_preset = Some (the (sv_preset v)), sv_source = From_Firm\<rparr>"
    by (rule put_modules_stores[OF put])
  have ff: "f' = f" using f' firm by simp
  have own: "snd (for_firm db' (Some f)) = v" using stored_change_reads[OF st] known v by (simp add: ff)
  have up: "sw_up db'" "snd (columns_present db')" "sw_members db' = sw_members db"
    using st by (simp_all add: stored_change_def columns_present_def)
  have "snd (for_user db' u) = v" if "firm_of_user db u = Some f" for u
    using that own up f' by (simp add: for_user_def firm_of_user_def)
  moreover have "snd (for_firm db' (Some g)) = snd (for_firm db (Some g))" if "g \<noteq> f" for g
  proof -
    have "dict_get (sw_firms db') g = dict_get (sw_firms db) g" using st that by (simp add: stored_change_def stored_lookup ff)
    then show ?thesis using up f' by (simp add: for_firm_view)
  qed
  ultimately show ?thesis using st by (simp add: stored_change_def)
qed

definition demo_firm_db :: switch_db where
  "demo_firm_db = \<lparr>sw_up = True, sw_columns = True, sw_known = False,
     sw_firms = [(''f'', \<lparr>fm_modules = None, fm_preset = None\<rparr>), (''g'', \<lparr>fm_modules = None, fm_preset = None\<rparr>)],
     sw_members = [(''u'', ''f''), (''w'', ''f'')], sw_emails = [(''u'', ''u@f'')], sw_events = []\<rparr>"

lemma demo_put: "\<exists>db' v. put_modules demo_firm_db (Some ''admin'') PNone ''u'' (Some ''fund'') None None 7 = (db', Inr v) \<and> switch_of (sv_modules v) ''CAPITAL'' = False"
proof -
  have "case put_modules demo_firm_db (Some ''admin'') PNone ''u'' (Some ''fund'') None None 7 of (_, Inr v) \<Rightarrow> switch_of (sv_modules v) ''CAPITAL'' = False | _ \<Rightarrow> False"
    by code_simp
  then show ?thesis by (auto split: prod.splits sum.splits)
qed

theorem switches_roundtrip_witness:
  "\<exists>db' v. put_modules demo_firm_db (Some ''admin'') PNone ''u'' (Some ''fund'') None None 7 = (db', Inr v) \<and> snd (for_user db' ''w'') = v"
proof -
  obtain db' v where put: "put_modules demo_firm_db (Some ''admin'') PNone ''u'' (Some ''fund'') None None 7 = (db', Inr v)" using demo_put by blast
  have "firm_of_user demo_firm_db ''u'' = Some ''f''" "firm_of_user demo_firm_db ''w'' = Some ''f''" "''f'' \<in> fst ` set (sw_firms demo_firm_db)"
    by (simp_all add: firm_of_user_def demo_firm_db_def)
  with switches_roundtrip[OF put] put show ?thesis by metis
qed

text \<open>The audit trail names exactly what changed. After an accepted change that is no older than the recorded ones, the newest event of the
  firm is that change, by that user, and its list of changed keys holds a key just when what the user's firm reads for it has changed.\<close>

theorem audit_lists_changes:
  assumes put: "put_modules db role claim uid preset modules n now = (db', Inr v)"
    and firm: "firm_of_user db uid = Some f" and known: "f \<in> fst ` set (sw_firms db)"
    and order: "\<forall>e \<in> set (sw_events db). me_at e \<le> now" and limit: "0 < limit"
  shows "\<exists>ev rest. switch_events db' (Some f) limit = ev # rest \<and> ev_user ev = uid \<and> ev_note ev = n
    \<and> (\<forall>k \<in> set module_keys. k \<in> set (ev_changed ev) \<longleftrightarrow> is_on db uid k \<noteq> is_on db' uid k)"
proof -
  obtain f' where f': "firm_of_user db uid = Some f'" "sw_up db" "snd (columns_present db)"
    and st: "stored_change db f' uid (sv_modules v) (the (sv_preset v)) n now db'"
    by (rule put_modules_stores[OF put])
  have ff: "f' = f" using f' firm by simp
  let ?before = "snd (for_firm db (Some f))"
  obtain e where e: "sw_events db' = sw_events db @ [e]" "me_firm e = f" "me_user e = uid" "me_at e = now" "me_note e = n"
    "me_after e = sv_modules v" "me_before e = (if sv_source ?before = From_Firm then Some (sv_modules ?before) else None)"
    using st by (auto simp: stored_change_def ff Let_def)
  have "sort_key me_at (filter (\<lambda>e. me_firm e = f) (sw_events db) @ [e]) = sort_key me_at (filter (\<lambda>e. me_firm e = f) (sw_events db)) @ [e]"
    using order e(4) by (intro sort_key_snoc) auto
  then have newest: "\<exists>rest. switch_events db' (Some f) limit = view_event db' e # rest"
    using st limit e by (cases limit) (simp_all add: switch_events_def stored_change_def columns_present_def)
  have own: "snd (for_firm db' (Some f)) = \<lparr>sv_modules = sv_modules v, sv_preset = Some (the (sv_preset v)), sv_source = From_Firm\<rparr>"
    using stored_change_reads[OF st] known by (simp add: ff)
  have on: "is_on db uid k = switch_of (sv_modules ?before) k" "is_on db' uid k = switch_of (sv_modules v) k" for k
    using own firm st f' by (simp_all add: is_on_def for_user_def switch_of_def firm_of_user_def stored_change_def)
  have before: "changed_keys (me_before e) (sv_modules v) = sort (filter (\<lambda>k. switch_of (sv_modules ?before) k \<noteq> switch_of (sv_modules v) k) module_keys)"
  proof -
    have "sv_modules ?before \<noteq> []" using for_firm_keys[of db "Some f"] by (metis list.map(1) module_keys_not_Nil)
    then show ?thesis
      using e(7) source_default[of db "Some f"] by (cases "sv_source ?before = From_Firm") (simp_all add: changed_keys_def)
  qed
  then have "\<forall>k \<in> set module_keys. k \<in> set (ev_changed (view_event db' e)) \<longleftrightarrow> is_on db uid k \<noteq> is_on db' uid k"
    using e(6) by (simp add: view_event_def on)
  moreover have "ev_user (view_event db' e) = uid" "ev_note (view_event db' e) = n" using e by (simp_all add: view_event_def)
  ultimately show ?thesis using newest by blast
qed

theorem audit_lists_changes_witness:
  "\<exists>db' v ev rest. put_modules demo_firm_db (Some ''admin'') PNone ''u'' (Some ''fund'') None None 7 = (db', Inr v)
     \<and> switch_events db' (Some ''f'') 20 = ev # rest \<and> ev_user ev = ''u''"
proof -
  obtain db' v where put: "put_modules demo_firm_db (Some ''admin'') PNone ''u'' (Some ''fund'') None None 7 = (db', Inr v)" using demo_put by blast
  have "firm_of_user demo_firm_db ''u'' = Some ''f''" "''f'' \<in> fst ` set (sw_firms demo_firm_db)" "\<forall>e \<in> set (sw_events demo_firm_db). me_at e \<le> 7"
    by (simp_all add: firm_of_user_def demo_firm_db_def)
  from audit_lists_changes[OF put this, of 20] put show ?thesis by auto
qed

end
