(* ===== verification/Risk_Limits.thy ===== *)
theory Risk_Limits
  imports Prelude Complex_Main "HOL-Library.Product_Lexorder" "HOL-Library.Option_ord"
begin

section \<open>Risk limits\<close>

text \<open>
  \<open>risk/limits.py\<close> and the limit routes of \<open>api/routes/risk.py\<close>: the firm's limits (a table whose rows are never deleted,
  only made inactive) and their evaluation against a report. Numbers are rationals: the rounding of the floats is not
  modelled, the rounding of the columns (\<open>numeric(24,6)\<close>, \<open>numeric(6,2)\<close>) is.

  The lemmas: a firm's changes never touch another firm's limits, limits of the desks bound the book, and where a limit
  is silent.
\<close>

subsection \<open>The table\<close>

record limit_row =
  lr_id :: string
  lr_firm :: string
  lr_metric :: string
  lr_scope :: string
  lr_scope_name :: "string option"
  lr_limit :: rat
  lr_warn :: rat
  lr_note :: string
  lr_set_by :: string
  lr_set_by_name :: string
  lr_active :: bool
  lr_created :: int

record limits_db =
  ld_tables :: bool
  ld_members :: "(string \<times> (string \<times> string)) list"
  ld_rows :: "limit_row list"

text \<open>A value stored in a \<open>numeric\<close> column of \<open>d\<close> decimals: rounded half away from zero.\<close>

definition numeric_round :: "nat \<Rightarrow> rat \<Rightarrow> rat" where
  "numeric_round d x = (let s = 10 ^ d; n = \<lfloor>\<bar>x\<bar> * s + 1 / 2\<rfloor> in (if x < 0 then - of_int n else of_int n) / s)"

definition member_firm :: "limits_db \<Rightarrow> string \<Rightarrow> string option" where
  "member_firm db u = map_option fst (dict_get (ld_members db) u)"

text \<open>Ascending order with nulls last, on the scope, its name and the metric.\<close>

definition limit_key :: "limit_row \<Rightarrow> string \<times> (bool \<times> string) \<times> string" where
  "limit_key r = (lr_scope r, (case lr_scope_name r of None \<Rightarrow> (True, []) | Some s \<Rightarrow> (False, s)), lr_metric r)"

definition list_limits :: "limits_db \<Rightarrow> string option \<Rightarrow> limit_row list" where
  "list_limits db firm =
     (case firm of None \<Rightarrow> []
      | Some f \<Rightarrow> if \<not> ld_tables db then [] else sort_key limit_key (filter (\<lambda>r. lr_firm r = f \<and> lr_active r) (ld_rows db)))"

record limit_body =
  lb_metric :: string
  lb_scope :: string
  lb_scope_name :: "string option"
  lb_limit :: rat
  lb_warn :: rat
  lb_note :: string

text \<open>The inserted row; a value too large for its column raises, which is \<open>None\<close>.\<close>

definition limit_of :: "string \<Rightarrow> limit_body \<Rightarrow> string \<Rightarrow> string \<Rightarrow> string \<Rightarrow> int \<Rightarrow> limit_row" where
  "limit_of firm b uid uname new_id now =
     \<lparr>lr_id = new_id, lr_firm = firm, lr_metric = str_upper (str_strip (lb_metric b)), lr_scope = str_upper (lb_scope b),
      lr_scope_name = lb_scope_name b, lr_limit = numeric_round 6 (lb_limit b), lr_warn = numeric_round 2 (lb_warn b),
      lr_note = lb_note b, lr_set_by = uid, lr_set_by_name = uname, lr_active = True, lr_created = now\<rparr>"

definition add_limit :: "limits_db \<Rightarrow> string \<Rightarrow> limit_body \<Rightarrow> string \<Rightarrow> string \<Rightarrow> string \<Rightarrow> int \<Rightarrow> limits_db option" where
  "add_limit db firm b uid uname new_id now =
     (let r = limit_of firm b uid uname new_id now
      in if 10 ^ 18 \<le> \<bar>lr_limit r\<bar> \<or> 10 ^ 4 \<le> \<bar>lr_warn r\<bar> then None else Some (db\<lparr>ld_rows := ld_rows db @ [r]\<rparr>))"

definition remove_limit :: "limits_db \<Rightarrow> string \<Rightarrow> string \<Rightarrow> limits_db \<times> nat" where
  "remove_limit db firm limit_id =
     (db\<lparr>ld_rows := map (\<lambda>r. if lr_id r = limit_id \<and> lr_firm r = firm then r\<lparr>lr_active := False\<rparr> else r) (ld_rows db)\<rparr>,
      length (filter (\<lambda>r. lr_id r = limit_id \<and> lr_firm r = firm) (ld_rows db)))"

subsection \<open>The routes\<close>

definition risk_write_roles :: "string list" where
  "risk_write_roles = [''risk'', ''admin'']"

definition can_write :: "limits_db \<Rightarrow> string \<Rightarrow> string \<Rightarrow> bool" where
  "can_write db role u \<longleftrightarrow> role \<in> set risk_write_roles \<or> (case dict_get (ld_members db) u of None \<Rightarrow> False | Some (_, r) \<Rightarrow> r = ''ADMIN'')"

definition get_limits :: "limits_db \<Rightarrow> string \<Rightarrow> (int, limit_row list) res" where
  "get_limits db u = (case member_firm db u of None \<Rightarrow> Inl 404 | Some f \<Rightarrow> Inr (list_limits db (Some f)))"

definition post_limit :: "limits_db \<Rightarrow> string \<Rightarrow> string \<Rightarrow> string \<Rightarrow> limit_body \<Rightarrow> string \<Rightarrow> int \<Rightarrow> limits_db \<times> (int, limit_row list) res" where
  "post_limit db role u uname b new_id now =
     (case member_firm db u of None \<Rightarrow> (db, Inl 404)
      | Some f \<Rightarrow>
          if \<not> can_write db role u then (db, Inl 403)
          else if \<not> ld_tables db then (db, Inl 409)
          else if str_upper (lb_scope b) \<notin> {''ALL'', ''DESK'', ''BOOK''} then (db, Inl 422)
          else if str_upper (lb_scope b) \<noteq> ''ALL'' \<and> (lb_scope_name b = None \<or> lb_scope_name b = Some []) then (db, Inl 422)
          else if lb_limit b \<le> 0 then (db, Inl 422)
          else (case add_limit db f b u uname new_id now of None \<Rightarrow> (db, Inl 500)
                | Some db' \<Rightarrow> (db', Inr (list_limits db' (Some f)))))"

definition delete_limit :: "limits_db \<Rightarrow> string \<Rightarrow> string \<Rightarrow> string \<Rightarrow> limits_db \<times> (int, limit_row list) res" where
  "delete_limit db role u limit_id =
     (case member_firm db u of None \<Rightarrow> (db, Inl 404)
      | Some f \<Rightarrow>
          if \<not> can_write db role u then (db, Inl 403)
          else (let (db', n) = remove_limit db f limit_id in
                if n = 0 then (db', Inl 404) else (db', Inr (list_limits db' (Some f)))))"

subsection \<open>The report a limit is read from\<close>

record ladder_row =
  ld_desk :: string
  ld_book :: string
  ld_npv :: rat
  ld_ir01 :: rat
  ld_usd_rate :: "rat option"
  ld_kr01 :: "(string \<times> (string \<times> rat) list) list"
  ld_spot01 :: "(string \<times> rat) list"

record exposure =
  ex_peak :: rat
  ex_epe :: rat
  ex_current :: rat
  ex_buckets :: "(string \<times> rat) list"

record credit =
  cr_exposure :: exposure
  cr_xva :: "(string \<times> rat) list option"
  cr_cva :: "(string \<times> rat) list option"

record report =
  rp_var :: "(string \<times> rat) list"
  rp_rows :: "ladder_row list"
  rp_stress :: "(string \<times> rat) list"
  rp_ccr :: "(string \<times> credit) list"

definition get_or :: "('k \<times> 'v) list \<Rightarrow> 'k \<Rightarrow> 'v \<Rightarrow> 'v" where
  "get_or d k x = (case dict_get d k of None \<Rightarrow> x | Some v \<Rightarrow> v)"

text \<open>\<open>m.split(":", 1)[1]\<close> of a text with a colon.\<close>

definition after_colon :: "string \<Rightarrow> string" where
  "after_colon m = drop 1 (dropWhile (\<lambda>c. c \<noteq> CHR '':'') m)"

text \<open>The sum over the rows of a number times the row's dollar rate, in absolute value.\<close>

definition usd_total :: "(ladder_row \<Rightarrow> rat) \<Rightarrow> ladder_row list \<Rightarrow> rat" where
  "usd_total f rows = \<bar>sum_list (map (\<lambda>r. f r * (case ld_usd_rate r of None \<Rightarrow> 0 | Some x \<Rightarrow> x)) rows)\<bar>"

definition bucket_01 :: "string list \<Rightarrow> ladder_row \<Rightarrow> rat" where
  "bucket_01 parts r = (let ks = get_or (ld_kr01 r) (parts ! 1) []
     in if length parts < 3 then 0 else get_or ks (parts ! 2) 0)"

text \<open>What a rates, spot or mark metric reads off one row; \<open>None\<close> for every other metric.\<close>

definition ladder_number :: "string \<Rightarrow> (ladder_row \<Rightarrow> rat) option" where
  "ladder_number m =
     (if m = ''NPV'' then Some ld_npv
      else if m = ''IR01'' then Some ld_ir01
      else if starts_with ''IR01:'' m then Some (\<lambda>r. sum_list (map snd (get_or (ld_kr01 r) (after_colon m) [])))
      else if starts_with ''KR01:'' m then Some (bucket_01 (str_split CHR '':'' m))
      else if starts_with ''SPOT01:'' m then Some (\<lambda>r. get_or (ld_spot01 r) (after_colon m) 0)
      else None)"

definition upper_keys :: "(string \<times> 'v) list \<Rightarrow> (string \<times> 'v) list" where
  "upper_keys d = foldl (\<lambda>out (k, v). dict_set (str_upper k) v out) [] d"

definition cva_of :: "credit \<Rightarrow> rat" where
  "cva_of c = (let or_empty = (\<lambda>x. case x of None \<Rightarrow> [] | Some d \<Rightarrow> d);
                   d = (if or_empty (cr_xva c) \<noteq> [] then or_empty (cr_xva c) else or_empty (cr_cva c))
               in \<bar>get_or d ''cva_usd'' 0\<bar>)"

definition credit_number :: "string \<Rightarrow> report \<Rightarrow> rat option" where
  "credit_number m rep =
     (let ccr = upper_keys (rp_ccr rep) in
      if starts_with ''PFE_PEAK:'' m then map_option (\<lambda>c. ex_peak (cr_exposure c)) (dict_get ccr (after_colon m))
      else if starts_with ''EPE:'' m then map_option (\<lambda>c. ex_epe (cr_exposure c)) (dict_get ccr (after_colon m))
      else if starts_with ''CVA:'' m then map_option cva_of (dict_get ccr (after_colon m))
      else if starts_with ''CE:'' m then map_option (\<lambda>c. ex_current (cr_exposure c)) (dict_get ccr (after_colon m))
      else if starts_with ''PFE:'' m then
        (let parts = str_split CHR '':'' m in
         if length parts = 3 then Option.bind (dict_get ccr (parts ! 1)) (\<lambda>c. dict_get (ex_buckets (cr_exposure c)) (parts ! 2)) else None)
      else None)"

definition metric_value :: "string \<Rightarrow> report \<Rightarrow> ladder_row list \<Rightarrow> rat option" where
  "metric_value metric rep scope_rows =
     (let m = str_upper metric; v = rp_var rep in
      if m = ''VAR_99_1D'' then dict_get v ''var_1d''
      else if m = ''VAR_95_1D'' then dict_get v ''var_1d_secondary''
      else if m = ''ES_99_1D'' then dict_get v ''es_1d''
      else if m = ''VAR_H'' then dict_get v ''var_h''
      else (case ladder_number m of Some f \<Rightarrow> Some (usd_total f scope_rows)
            | None \<Rightarrow>
                if starts_with ''STRESS:'' m
                then map_option (\<lambda>p. max 0 (- snd p)) (List.find (\<lambda>p. fst p = after_colon m) (rp_stress rep))
                else credit_number m rep))"

subsection \<open>Evaluation\<close>

datatype limit_status = NA | OK | WARN | BREACH

record evaluated =
  ev_limit :: limit_row
  ev_value :: "rat option"
  ev_util :: "rat option"
  ev_status :: limit_status
  ev_book_level :: bool

definition book_level :: "string list" where
  "book_level = [''VAR'', ''ES'', ''STRESS'', ''PFE'', ''EPE'', ''CVA'', ''CE'']"

definition in_scope :: "limit_row \<Rightarrow> ladder_row list \<Rightarrow> ladder_row list" where
  "in_scope lm rows =
     (let scope = str_upper (lr_scope lm) in
      if scope = ''ALL'' then rows
      else filter (\<lambda>r. Some (if scope = ''DESK'' then ld_desk r else ld_book r) = lr_scope_name lm) rows)"

definition evaluate_one :: "report \<Rightarrow> limit_row \<Rightarrow> evaluated" where
  "evaluate_one rep lm =
     (let book = (str_upper (lr_scope lm) \<noteq> ''ALL'' \<and> list_ex (\<lambda>p. starts_with p (str_upper (lr_metric lm))) book_level);
          val = (if book then None else metric_value (lr_metric lm) rep (in_scope lm (rp_rows rep)));
          util = (case val of None \<Rightarrow> None | Some v \<Rightarrow> if lr_limit lm = 0 then None else Some (\<bar>v\<bar> / lr_limit lm * 100))
      in \<lparr>ev_limit = lm, ev_value = val, ev_util = util,
          ev_status = (case util of None \<Rightarrow> NA | Some x \<Rightarrow> if 100 \<le> x then BREACH else if lr_warn lm \<le> x then WARN else OK),
          ev_book_level = book\<rparr>)"

definition evaluate_limits :: "limit_row list \<Rightarrow> report \<Rightarrow> evaluated list" where
  "evaluate_limits lims rep = map (evaluate_one rep) lims"

subsection \<open>Sums over desks\<close>

lemma sum_list_by_key:
  "finite D \<Longrightarrow> h ` set rows \<subseteq> D \<Longrightarrow>
   sum_list (map g rows) = (\<Sum>d\<in>D. sum_list (map g (filter (\<lambda>r. h r = d) rows)))" for g :: "'a \<Rightarrow> rat"
proof (induction rows)
  case Nil
  then show ?case by simp
next
  case (Cons x rows)
  have "(\<Sum>d\<in>D. sum_list (map g (filter (\<lambda>r. h r = d) (x # rows)))) =
        (\<Sum>d\<in>D. (if h x = d then g x else 0) + sum_list (map g (filter (\<lambda>r. h r = d) rows)))"
    by (rule sum.cong) auto
  also have "\<dots> = g x + sum_list (map g rows)" using Cons by (simp add: sum.distrib)
  finally show ?case by simp
qed

lemma usd_total_by_desk:
  "usd_total f rows \<le> (\<Sum>d\<in>ld_desk ` set rows. usd_total f (filter (\<lambda>r. ld_desk r = d) rows))"
proof -
  let ?g = "\<lambda>r. f r * (case ld_usd_rate r of None \<Rightarrow> 0 | Some x \<Rightarrow> x)"
  have eq: "sum_list (map ?g rows) = (\<Sum>d\<in>ld_desk ` set rows. sum_list (map ?g (filter (\<lambda>r. ld_desk r = d) rows)))"
    by (rule sum_list_by_key) auto
  show ?thesis unfolding usd_total_def eq by (rule sum_abs)
qed

lemma ladder_not_book_level: "ladder_number m = Some f \<Longrightarrow> \<not> list_ex (\<lambda>p. starts_with p m) book_level"
  by (auto simp: ladder_number_def book_level_def starts_with_iff split: if_splits)

lemma ladder_metric_value:
  "ladder_number (str_upper m) = Some f \<Longrightarrow> metric_value m rep rows = Some (usd_total f rows)"
  by (auto simp: metric_value_def ladder_number_def Let_def split: if_splits)

lemma limit_of_simps [simp]: "lr_firm (limit_of f b u name i now) = f" "lr_id (limit_of f b u name i now) = i"
  "lr_active (limit_of f b u name i now)" "lr_limit (limit_of f b u name i now) = numeric_round 6 (lb_limit b)"
  by (simp_all add: limit_of_def)

lemma post_limit_db:
  "member_firm db u = Some f \<Longrightarrow>
   fst (post_limit db role u name b i now) = db \<or> fst (post_limit db role u name b i now) = db\<lparr>ld_rows := ld_rows db @ [limit_of f b u name i now]\<rparr>"
  by (simp add: post_limit_def add_limit_def Let_def)

lemma evaluate_ladder:
  assumes "ladder_number (str_upper (lr_metric l)) = Some f" and "0 < lr_limit l"
  shows "ev_status (evaluate_one rep l) = BREACH \<longleftrightarrow> lr_limit l \<le> usd_total f (in_scope l (rp_rows rep))"
proof -
  have "100 \<le> \<bar>v\<bar> / lr_limit l * 100 \<longleftrightarrow> lr_limit l \<le> \<bar>v\<bar>" for v using assms(2) by (simp add: field_simps)
  moreover have "\<bar>usd_total f rows\<bar> = usd_total f rows" for rows by (simp add: usd_total_def)
  ultimately show ?thesis
    using assms ladder_not_book_level[OF assms(1)] by (simp add: evaluate_one_def Let_def ladder_metric_value del: times_divide_eq_left)
qed

subsection \<open>Properties\<close>

text \<open>Limits belong to one firm. Whatever a member of a firm posts or deletes, every other firm lists the limits it listed before, and no row
  is ever lost: after a post each stays as it was, after a delete each stays as it was or has only become inactive.\<close>

theorem limits_isolated:
  assumes "member_firm db u = Some f" and "g \<noteq> f"
  shows "list_limits (fst (post_limit db role u name b i now)) (Some g) = list_limits db (Some g)
    \<and> list_limits (fst (delete_limit db role u j)) (Some g) = list_limits db (Some g)
    \<and> set (ld_rows db) \<subseteq> set (ld_rows (fst (post_limit db role u name b i now)))
    \<and> (\<forall>r \<in> set (ld_rows db). \<exists>r' \<in> set (ld_rows (fst (delete_limit db role u j))). r' = r \<or> lr_firm r = f \<and> r' = r\<lparr>lr_active := False\<rparr>)"
proof -
  let ?p = "fst (post_limit db role u name b i now)" and ?d = "fst (delete_limit db role u j)"
  have p: "?p = db \<or> (\<exists>r. lr_firm r = f \<and> ?p = db\<lparr>ld_rows := ld_rows db @ [r]\<rparr>)"
    using post_limit_db[OF assms(1), of role name b i now] limit_of_simps(1) by metis
  have d: "?d = db \<or> ?d = fst (remove_limit db f j)"
    using assms(1) by (auto simp: delete_limit_def Let_def split: prod.splits)
  have gone: "filter (\<lambda>r. lr_firm r = g \<and> lr_active r) (map (\<lambda>r. if lr_id r = j \<and> lr_firm r = f then r\<lparr>lr_active := False\<rparr> else r) rs)
      = filter (\<lambda>r. lr_firm r = g \<and> lr_active r) rs" for rs :: "limit_row list"
    using assms(2) by (induction rs) auto
  have "list_limits ?p (Some g) = list_limits db (Some g)" using p assms(2) by (auto simp: list_limits_def)
  moreover have "list_limits ?d (Some g) = list_limits db (Some g)" using d gone by (auto simp: list_limits_def remove_limit_def)
  moreover have "set (ld_rows db) \<subseteq> set (ld_rows ?p)" using p by auto
  moreover have "\<forall>r \<in> set (ld_rows db). \<exists>r' \<in> set (ld_rows ?d). r' = r \<or> lr_firm r = f \<and> r' = r\<lparr>lr_active := False\<rparr>"
  proof
    fix r assume r: "r \<in> set (ld_rows db)"
    from d show "\<exists>r' \<in> set (ld_rows ?d). r' = r \<or> lr_firm r = f \<and> r' = r\<lparr>lr_active := False\<rparr>"
    proof
      assume "?d = fst (remove_limit db f j)"
      then have "(if lr_id r = j \<and> lr_firm r = f then r\<lparr>lr_active := False\<rparr> else r) \<in> set (ld_rows ?d)"
        using r by (auto simp: remove_limit_def)
      then show ?thesis by (rule bexI[rotated]) simp
    qed (use r in auto)
  qed
  ultimately show ?thesis by blast
qed

definition demo_limit :: "string \<Rightarrow> limit_row" where
  "demo_limit f = \<lparr>lr_id = ''1'', lr_firm = f, lr_metric = ''IR01'', lr_scope = ''DESK'', lr_scope_name = Some ''rates'', lr_limit = 100, lr_warn = 80,
     lr_note = [], lr_set_by = ''u'', lr_set_by_name = ''U'', lr_active = True, lr_created = 0\<rparr>"

definition demo_limits_db :: limits_db where
  "demo_limits_db = \<lparr>ld_tables = True, ld_members = [(''u'', (''f'', ''ADMIN'')), (''v'', (''g'', ''MEMBER''))], ld_rows = [demo_limit ''g'']\<rparr>"

theorem limits_isolated_witness:
  "list_limits (fst (delete_limit demo_limits_db ''trader'' ''u'' ''1'')) (Some ''g'') = list_limits demo_limits_db (Some ''g'')"
  using limits_isolated[of demo_limits_db "''u''" "''f''" "''g''" "''trader''" _ _ _ _ "''1''"] by (simp add: member_firm_def demo_limits_db_def)


definition demo_ladder :: ladder_row where
  "demo_ladder = \<lparr>ld_desk = ''rates'', ld_book = ''b'', ld_npv = 5, ld_ir01 = -70, ld_usd_rate = Some 1, ld_kr01 = [], ld_spot01 = []\<rparr>"

definition demo_report :: report where
  "demo_report = \<lparr>rp_var = [], rp_rows = [demo_ladder, demo_ladder\<lparr>ld_ir01 := 20\<rparr>], rp_stress = [], rp_ccr = []\<rparr>"


text \<open>A limit can be accepted and never fire. The route refuses limits that are not positive, but the column keeps six decimals: a positive
  limit below half a millionth is stored as zero, listed, and evaluated as not applicable whatever any report says.\<close>

theorem tiny_limit_never_fires:
  assumes "member_firm db u = Some f" and "can_write db role u" and "ld_tables db" and "str_upper (lb_scope b) = ''ALL''"
    and "0 < lb_limit b" and "lb_limit b < 1 / 2000000" and "\<bar>numeric_round 2 (lb_warn b)\<bar> < 10000"
  shows "\<exists>db' lims r. post_limit db role u name b i now = (db', Inr lims) \<and> r \<in> set lims \<and> lr_id r = i
    \<and> (\<forall>rep. ev_status (evaluate_one rep r) = NA)"
proof -
  have "\<lfloor>lb_limit b * 1000000 + 1 / 2\<rfloor> = 0" using assms(5,6) by (simp add: floor_eq_iff)
  then have z: "numeric_round 6 (lb_limit b) = 0" using assms(5) by (simp add: numeric_round_def)
  obtain db' where add: "add_limit db f b u name i now = Some db'" and
    r: "\<exists>r \<in> set (ld_rows db'). lr_id r = i \<and> lr_firm r = f \<and> lr_active r \<and> lr_limit r = 0" and t: "ld_tables db' = ld_tables db"
    using assms(7) z by (simp add: add_limit_def limit_of_def)
  then obtain r where r: "r \<in> set (list_limits db' (Some f))" "lr_id r = i" "lr_limit r = 0" using assms(3) by (auto simp: list_limits_def)
  have "ev_status (evaluate_one rep r) = NA" for rep using r(3) by (simp add: evaluate_one_def Let_def split: option.splits)
  moreover have "post_limit db role u name b i now = (db', Inr (list_limits db' (Some f)))"
    using assms(1-5) add by (simp add: post_limit_def)
  ultimately show ?thesis using r by blast
qed

theorem tiny_limit_never_fires_witness:
  "\<exists>db' lims r. post_limit demo_limits_db ''risk'' ''u'' ''U'' \<lparr>lb_metric = ''NPV'', lb_scope = ''all'', lb_scope_name = None, lb_limit = 1 / 10000000, lb_warn = 80, lb_note = []\<rparr> ''2'' 0
     = (db', Inr lims) \<and> r \<in> set lims \<and> lr_id r = ''2''"
proof -
  have "str_upper ''all'' = ''ALL''" by code_simp
  then show ?thesis
    using tiny_limit_never_fires[of demo_limits_db "''u''" "''f''" "''risk''"
        "\<lparr>lb_metric = ''NPV'', lb_scope = ''all'', lb_scope_name = None, lb_limit = 1 / 10000000, lb_warn = 80, lb_note = []\<rparr>" "''U''" "''2''" 0]
    by (auto simp: member_firm_def can_write_def risk_write_roles_def demo_limits_db_def numeric_round_def)
qed

end
