(* ===== verification/Backtest.thy ===== *)
theory Backtest
  imports Dates Complex_Main
begin

section \<open>VaR backtesting\<close>

text \<open>
  \<open>risk/backtest.py\<close>: the two stored series, the pairing of each P&L date with the VaR that stood before it, the count of
  exceptions and the Basel traffic light. Numbers are rationals (the rounding of the floats is not modelled). Kupiec's
  likelihood ratio, which needs logarithms and \<open>erfc\<close>, is left out.

  The lemmas: the distribution function is monotone and between 0 and 1, the light at 250 days and 99 % is the familiar
  table, and a day is only ever compared with a VaR computed before it.
\<close>

subsection \<open>The traffic light\<close>

definition min_days :: nat where "min_days = 60"

definition binom_cdf :: "int \<Rightarrow> nat \<Rightarrow> rat \<Rightarrow> rat" where
  "binom_cdf k n p =
     (if k < 0 then 0 else if int n \<le> k then 1
      else sum_list (map (\<lambda>i. of_nat (n choose i) * p ^ i * (1 - p) ^ (n - i)) [0..<nat k + 1]))"

datatype light = No_Light | Too_Few_Days | Green | Yellow | Red

definition zone :: "nat \<Rightarrow> nat \<Rightarrow> rat \<Rightarrow> light \<times> rat option" where
  "zone exceptions n p =
     (if n = 0 then (No_Light, None)
      else (let cum = binom_cdf (int exceptions) n p in
            if n < min_days then (Too_Few_Days, Some cum)
            else (if cum < 95 / 100 then Green else if cum < 9999 / 10000 then Yellow else Red, Some cum)))"

subsection \<open>The stored series\<close>

record pnl_row =
  pr_user :: string
  pr_date :: date
  pr_usd :: "rat option"
  pr_market :: "rat option"
  pr_rows :: "(string \<times> rat option) list"

record day_pnl =
  dp_dirty :: rat
  dp_clean :: rat
  dp_hypothetical :: rat

text \<open>SQL's \<open>sum\<close> skips nulls; the sum of nothing is null, which is read as zero.\<close>

definition sql_sum :: "rat option list \<Rightarrow> rat" where
  "sql_sum xs = sum_list (map (\<lambda>x. case x of None \<Rightarrow> 0 | Some v \<Rightarrow> v) xs)"

definition day_of :: "pnl_row list \<Rightarrow> day_pnl" where
  "day_of rows =
     (let clean = sql_sum (map pr_market rows);
          carry = sql_sum (map snd (filter (\<lambda>e. fst e = ''CARRY'') (concat (map pr_rows rows))))
      in \<lparr>dp_dirty = sql_sum (map pr_usd rows), dp_clean = clean, dp_hypothetical = clean - carry\<rparr>)"

definition pnl_series :: "pnl_row list \<Rightarrow> string \<Rightarrow> nat \<Rightarrow> (date \<times> day_pnl) list" where
  "pnl_series table u days =
     (let rows = filter (\<lambda>r. pr_user r = u) table
      in map (\<lambda>d. (d, day_of (filter (\<lambda>r. pr_date r = d) rows))) (take days (rev (sort (remdups (map pr_date rows))))))"

record var_row =
  vr_user :: string
  vr_date :: date
  vr_var :: "rat option"
  vr_secondary :: "rat option"
  vr_linear :: "rat option"
  vr_confidence :: "rat option"
  vr_confidence2 :: "rat option"

definition var_series :: "var_row list \<Rightarrow> string \<Rightarrow> var_row list" where
  "var_series table u = sort_key vr_date (filter (\<lambda>r. vr_user r = u \<and> vr_var r \<noteq> None) table)"

subsection \<open>Pairing\<close>

record paired =
  pa_date :: date
  pa_var_date :: date
  pa_pnl :: day_pnl
  pa_var99 :: rat
  pa_var95 :: "rat option"
  pa_var_linear :: "rat option"
  pa_confidence :: rat
  pa_secondary :: rat

text \<open>\<open>x or d\<close> on an optional number.\<close>

definition num_or :: "rat option \<Rightarrow> rat \<Rightarrow> rat" where
  "num_or x d = (case x of None \<Rightarrow> d | Some v \<Rightarrow> if v = 0 then d else v)"

text \<open>The loop over the reports keeps the last one dated before the day and stops at the first that is not.\<close>

definition standing :: "var_row list \<Rightarrow> date \<Rightarrow> var_row option" where
  "standing vs d = (let before = takeWhile (\<lambda>v. vr_date v < d) vs in if before = [] then None else Some (last before))"

definition pair_day :: "date \<times> day_pnl \<Rightarrow> var_row \<Rightarrow> paired" where
  "pair_day p v = \<lparr>pa_date = fst p, pa_var_date = vr_date v, pa_pnl = snd p, pa_var99 = the (vr_var v), pa_var95 = vr_secondary v,
     pa_var_linear = vr_linear v, pa_confidence = num_or (vr_confidence v) (99 / 100), pa_secondary = num_or (vr_confidence2 v) (95 / 100)\<rparr>"

definition paired_series :: "pnl_row list \<Rightarrow> var_row list \<Rightarrow> string \<Rightarrow> nat \<Rightarrow> paired list" where
  "paired_series pnl vars u days =
     (let vs = var_series vars u
      in concat (map (\<lambda>p. case standing vs (fst p) of None \<Rightarrow> [] | Some v \<Rightarrow> [pair_day p v]) (sort_key fst (pnl_series pnl u days))))"

subsection \<open>Evaluation\<close>

record exception_day =
  ed_date :: date
  ed_pnl :: rat
  ed_var :: rat
  ed_ratio :: "rat option"

record backtest =
  bt_confidence :: rat
  bt_observations :: nat
  bt_exceptions :: "exception_day list"
  bt_expected :: rat
  bt_enough :: bool
  bt_zone :: "light \<times> rat option"
  bt_worst :: "rat option"
  bt_mean_var :: "rat option"
  bt_mean_abs :: "rat option"

definition ratio :: "rat \<Rightarrow> rat \<Rightarrow> rat option" where
  "ratio pnl var = (if var = 0 then None else Some (- pnl / var))"

definition max_opt :: "rat list \<Rightarrow> rat option" where
  "max_opt xs = (case xs of [] \<Rightarrow> None | y # ys \<Rightarrow> Some (fold max ys y))"

text \<open>Each row is its date, its P&L under the measure and the VaR asked for.\<close>

definition evaluate_backtest :: "(date \<times> rat \<times> rat option) list \<Rightarrow> rat \<Rightarrow> backtest" where
  "evaluate_backtest series confidence =
     (let rows = concat (map (\<lambda>(d, pnl, v). case v of None \<Rightarrow> [] | Some x \<Rightarrow> [(d, pnl, x)]) series);
          n = length rows; p = 1 - confidence;
          exc = map (\<lambda>(d, pnl, v). \<lparr>ed_date = d, ed_pnl = pnl, ed_var = v, ed_ratio = ratio pnl v\<rparr>) (filter (\<lambda>(d, pnl, v). pnl < - v) rows)
      in \<lparr>bt_confidence = confidence, bt_observations = n, bt_exceptions = exc, bt_expected = of_nat n * p, bt_enough = (min_days \<le> n),
          bt_zone = zone (length exc) n p, bt_worst = max_opt (List.map_filter (\<lambda>(d, pnl, v). ratio pnl v) rows),
          bt_mean_var = (if rows = [] then None else Some (sum_list (map (\<lambda>(d, pnl, v). v) rows) / of_nat n)),
          bt_mean_abs = (if rows = [] then None else Some (sum_list (map (\<lambda>(d, pnl, v). \<bar>pnl\<bar>) rows) / of_nat n))\<rparr>)"

definition measure_of :: "string \<Rightarrow> day_pnl \<Rightarrow> rat" where
  "measure_of m = (if m = ''dirty'' then dp_dirty else if m = ''hypothetical'' then dp_hypothetical else dp_clean)"

record backtest_run =
  br_observations :: nat
  br_headline :: backtest
  br_secondary :: backtest
  br_linear :: "backtest option"
  br_series :: "paired list"

definition run_backtest :: "pnl_row list \<Rightarrow> var_row list \<Rightarrow> string \<Rightarrow> string \<Rightarrow> nat \<Rightarrow> backtest_run" where
  "run_backtest pnl vars u m days =
     (let ser = paired_series pnl vars u days;
          conf = (if ser = [] then 99 / 100 else pa_confidence (last ser));
          conf2 = (if ser = [] then 95 / 100 else pa_secondary (last ser));
          against = (\<lambda>var. map (\<lambda>r. (pa_date r, measure_of m (pa_pnl r), var r)) ser)
      in \<lparr>br_observations = length ser, br_headline = evaluate_backtest (against (\<lambda>r. Some (pa_var99 r))) conf,
          br_secondary = evaluate_backtest (against pa_var95) conf2,
          br_linear = (if list_ex (\<lambda>r. pa_var_linear r \<noteq> None) ser then Some (evaluate_backtest (against pa_var_linear) conf) else None),
          br_series = ser\<rparr>)"

subsection \<open>The binomial distribution\<close>

lemma binom_terms_nonneg: "0 \<le> p \<Longrightarrow> p \<le> 1 \<Longrightarrow> 0 \<le> of_nat (n choose i) * p ^ i * (1 - p) ^ (n - i)" for p :: rat
  by simp

lemma binom_prefix: "int k < int n \<Longrightarrow> binom_cdf (int k) n p = (\<Sum>i\<le>k. of_nat (n choose i) * p ^ i * (1 - p) ^ (n - i))"
proof -
  assume "int k < int n"
  then have "binom_cdf (int k) n p = sum_list (map (\<lambda>i. of_nat (n choose i) * p ^ i * (1 - p) ^ (n - i)) [0..<Suc k])"
    by (simp add: binom_cdf_def)
  then show ?thesis by (simp only: interv_sum_list_conv_sum_set_nat set_upt atLeast0LessThan lessThan_Suc_atMost)
qed

lemma binom_cdf_mono:
  assumes "0 \<le> p" "p \<le> 1" "j \<le> k"
  shows "binom_cdf (int j) n p \<le> binom_cdf (int k) n p"
proof -
  have total: "(\<Sum>i\<le>n. of_nat (n choose i) * p ^ i * (1 - p) ^ (n - i)) = (1 :: rat)"
    using binomial_ring[of p "1 - p" n] by simp
  have le1: "binom_cdf (int m) n p \<le> 1" if "m < n" for m
    using that assms sum_mono2[of "{..n}" "{..m}" "\<lambda>i. of_nat (n choose i) * p ^ i * (1 - p) ^ (n - i)"]
    by (simp add: binom_prefix total binom_terms_nonneg)
  have one: "binom_cdf (int m) n p = 1" if "n \<le> m" for m using that by (simp add: binom_cdf_def)
  show ?thesis
  proof (cases "k < n")
    case True
    then show ?thesis using assms by (simp add: binom_prefix binom_terms_nonneg sum_mono2)
  next
    case False
    then show ?thesis using le1[of j] one[of k] one[of j] by (cases "j < n") simp_all
  qed
qed

definition tail_count :: "nat \<Rightarrow> nat" where
  "tail_count k = sum_list (map (\<lambda>i. (250 choose i) * 99 ^ (10 - i)) [0..<Suc k])"

lemma hundredth_term: "i \<le> 10 \<Longrightarrow> (1 / 100) ^ i * (1 - 1 / 100) ^ (250 - i) = (99 :: rat) ^ (10 - i) / 100 ^ 10 * (99 / 100) ^ 240"
proof -
  assume i: "i \<le> 10"
  have e: "(1 - 1 / 100 :: rat) = 99 / 100" "(99 / 100 :: rat) ^ (250 - i) = (99 / 100) ^ (10 - i) * (99 / 100) ^ 240"
    using i by (simp_all flip: power_add)
  have h: "(100 :: rat) ^ i * 100 ^ (10 - i) = 100 ^ 10" using i by (simp only: flip: power_add) simp
  have "(1 / 100 :: rat) ^ i * (99 / 100) ^ (10 - i) = 99 ^ (10 - i) / (100 ^ i * 100 ^ (10 - i))" by (simp add: power_divide)
  then show ?thesis by (simp only: e h mult.assoc[symmetric])
qed

lemma binom_cdf_250:
  assumes k: "k \<le> 10"
  shows "binom_cdf (int k) 250 (1 / 100) = of_nat (tail_count k) / 100 ^ 10 * (99 / 100) ^ 240"
proof -
  have "binom_cdf (int k) 250 (1 / 100) = (\<Sum>i\<le>k. of_nat (250 choose i) * (1 / 100) ^ i * (1 - 1 / 100) ^ (250 - i))"
    using k by (intro binom_prefix) simp
  also have "\<dots> = (\<Sum>i\<le>k. of_nat ((250 choose i) * 99 ^ (10 - i)) * ((99 / 100) ^ 240 / 100 ^ 10))"
  proof (rule sum.cong)
    fix i assume "i \<in> {..k}"
    then have "i \<le> 10" using k by simp
    from hundredth_term[OF this]
    show "of_nat (250 choose i) * (1 / 100) ^ i * (1 - 1 / 100) ^ (250 - i) = of_nat ((250 choose i) * 99 ^ (10 - i)) * ((99 / 100 :: rat) ^ 240 / 100 ^ 10)"
      by (simp only: mult.assoc of_nat_mult of_nat_power of_nat_numeral times_divide_eq_right times_divide_eq_left)
  qed simp
  also have "\<dots> = of_nat (\<Sum>i\<le>k. (250 choose i) * 99 ^ (10 - i)) * ((99 / 100) ^ 240 / 100 ^ 10)" by (simp only: of_nat_sum sum_distrib_right)
  also have "(\<Sum>i\<le>k. (250 choose i) * 99 ^ (10 - i)) = tail_count k"
    unfolding tail_count_def by (simp only: interv_sum_list_conv_sum_set_nat set_upt atLeast0LessThan lessThan_Suc_atMost)
  finally show ?thesis by simp
qed

lemma choose_step: "0 < k \<Longrightarrow> k * (250 choose k) = (251 - k) * (250 choose (k - 1))"
  using binomial_absorption[of "k - 1" 250] binomial_absorb_comp[of 250 "k - 1"] by (cases k) (simp_all del: mult_Suc)

lemma choose_250:
  "250 choose 1 = (250 :: nat)"
  "250 choose 2 = (31125 :: nat)"
  "250 choose 3 = (2573000 :: nat)"
  "250 choose 4 = (158882750 :: nat)"
  "250 choose 5 = (7817031300 :: nat)"
  "250 choose 6 = (319195444750 :: nat)"
  "250 choose 7 = (11126241217000 :: nat)"
  "250 choose 8 = (337959576966375 :: nat)"
  "250 choose 9 = (9087357513984750 :: nat)"
  "250 choose 10 = (219005316087032475 :: nat)"
proof -
  show c1: "250 choose 1 = (250 :: nat)" using choose_step[of 1] by simp
  show c2: "250 choose 2 = (31125 :: nat)" using choose_step[of 2] c1 by simp
  show c3: "250 choose 3 = (2573000 :: nat)" using choose_step[of 3] c2 by simp
  show c4: "250 choose 4 = (158882750 :: nat)" using choose_step[of 4] c3 by simp
  show c5: "250 choose 5 = (7817031300 :: nat)" using choose_step[of 5] c4 by simp
  show c6: "250 choose 6 = (319195444750 :: nat)" using choose_step[of 6] c5 by simp
  show c7: "250 choose 7 = (11126241217000 :: nat)" using choose_step[of 7] c6 by simp
  show c8: "250 choose 8 = (337959576966375 :: nat)" using choose_step[of 8] c7 by simp
  show c9: "250 choose 9 = (9087357513984750 :: nat)" using choose_step[of 9] c8 by simp
  show c10: "250 choose 10 = (219005316087032475 :: nat)" using choose_step[of 10] c9 by simp
qed

lemma small_ranges:
  "[0..<Suc 4] = [0, 1, 2, 3, 4]" "[0..<Suc 5] = [0, 1, 2, 3, 4, 5]"
  "[0..<Suc 9] = [0, 1, 2, 3, 4, 5, 6, 7, 8, 9]" "[0..<Suc 10] = [0, 1, 2, 3, 4, 5, 6, 7, 8, 9, 10]"
  by code_simp+

lemma tail_sums:
  "tail_count 4 = 995427174736191064626"
  "tail_count 5 = 1069766364596759683326"
  "tail_count 9 = 1115435922594808042701"
  "tail_count 10 = 1115654927910895075176"
  unfolding tail_count_def small_ranges by (simp_all add: choose_250)

text \<open>The power by repeated squaring, each square rounded outwards to twelve decimals.\<close>

lemma square_bounds: "a \<le> x \<Longrightarrow> x \<le> b \<Longrightarrow> 0 \<le> a \<Longrightarrow> a' \<le> a * a \<Longrightarrow> b * b \<le> b' \<Longrightarrow> a' \<le> x * x \<and> x * x \<le> b'" for x :: rat
  using mult_mono[of a x a x] mult_mono[of x b x b] by simp

lemma power_240:
  "89628618700 / 10 ^ 12 \<le> (99 / 100 :: rat) ^ 240" "(99 / 100 :: rat) ^ 240 \<le> 89628618705 / 10 ^ 12"
proof -
  have p15: "860058354641 / 10 ^ 12 \<le> (99 / 100 :: rat) ^ 15 \<and> (99 / 100 :: rat) ^ 15 \<le> 860058354642 / 10 ^ 12" by (simp add: power_divide)
  have p30: "739700373387 / 10 ^ 12 \<le> (99 / 100 :: rat) ^ 30 \<and> (99 / 100 :: rat) ^ 30 \<le> 739700373390 / 10 ^ 12"
    using square_bounds[of "860058354641 / 10 ^ 12" "(99 / 100) ^ 15" "860058354642 / 10 ^ 12" "739700373387 / 10 ^ 12" "739700373390 / 10 ^ 12"] p15 by (simp flip: power_add)
  have p60: "547156642388 / 10 ^ 12 \<le> (99 / 100 :: rat) ^ 60 \<and> (99 / 100 :: rat) ^ 60 \<le> 547156642394 / 10 ^ 12"
    using square_bounds[of "739700373387 / 10 ^ 12" "(99 / 100) ^ 30" "739700373390 / 10 ^ 12" "547156642388 / 10 ^ 12" "547156642394 / 10 ^ 12"] p30 by (simp flip: power_add)
  have p120: "299380391309 / 10 ^ 12 \<le> (99 / 100 :: rat) ^ 120 \<and> (99 / 100 :: rat) ^ 120 \<le> 299380391316 / 10 ^ 12"
    using square_bounds[of "547156642388 / 10 ^ 12" "(99 / 100) ^ 60" "547156642394 / 10 ^ 12" "299380391309 / 10 ^ 12" "299380391316 / 10 ^ 12"] p60 by (simp flip: power_add)
  have p240: "89628618700 / 10 ^ 12 \<le> (99 / 100 :: rat) ^ 240 \<and> (99 / 100 :: rat) ^ 240 \<le> 89628618705 / 10 ^ 12"
    using square_bounds[of "299380391309 / 10 ^ 12" "(99 / 100) ^ 120" "299380391316 / 10 ^ 12" "89628618700 / 10 ^ 12" "89628618705 / 10 ^ 12"] p120 by (simp flip: power_add)
  show "89628618700 / 10 ^ 12 \<le> (99 / 100 :: rat) ^ 240" "(99 / 100 :: rat) ^ 240 \<le> 89628618705 / 10 ^ 12" using p240 by blast+
qed

lemma cdf_thresholds:
  "binom_cdf 4 250 (1 / 100) < 95 / 100" "95 / 100 \<le> binom_cdf 5 250 (1 / 100)"
  "binom_cdf 9 250 (1 / 100) < 9999 / 10000" "9999 / 10000 \<le> binom_cdf 10 250 (1 / 100)"
  using binom_cdf_250[of 4] binom_cdf_250[of 5] binom_cdf_250[of 9] binom_cdf_250[of 10] power_240
  by (simp_all add: tail_sums)

subsection \<open>Pairing looks back only\<close>

lemma standing_SomeD:
  assumes "sorted (map vr_date vs)" and "standing vs d = Some v"
  shows "v \<in> set vs \<and> vr_date v < d \<and> (\<forall>w \<in> set vs. vr_date w < d \<longrightarrow> vr_date w \<le> vr_date v)"
proof -
  let ?t = "takeWhile (\<lambda>v. vr_date v < d) vs"
  have ne: "?t \<noteq> []" and v: "v = last ?t" using assms(2) by (auto simp: standing_def Let_def split: if_splits)
  then have vt: "v \<in> set ?t" by simp
  have "?t = filter (\<lambda>v. vr_date v < d) vs"
    using assms(1)
  proof (induction vs)
    case (Cons a vs)
    have "filter (\<lambda>v. vr_date v < d) vs = []" if "\<not> vr_date a < d" using Cons.prems that by (force simp: filter_empty_conv)
    then show ?case using Cons by simp
  qed simp
  then have set: "set ?t = {w \<in> set vs. vr_date w < d}" by simp
  have "sorted (map vr_date ?t)" using assms(1) by (metis sorted_wrt_take takeWhile_eq_take take_map)
  then have "sorted (map vr_date (butlast ?t @ [last ?t]))" using ne by simp
  then have "\<forall>w \<in> set (butlast ?t @ [last ?t]). vr_date w \<le> vr_date v" unfolding v map_append by (auto simp: sorted_append)
  then have "\<forall>w \<in> set ?t. vr_date w \<le> vr_date v" using ne by (metis append_butlast_last_id)
  then show ?thesis using set vt by auto
qed

subsection \<open>Properties\<close>

text \<open>The traffic light at 250 days and 99 % is the familiar table: up to four exceptions are green, five to nine yellow, ten and more red,
  whatever the count.\<close>

theorem traffic_light_250:
  "fst (zone x 250 (1 / 100)) = (if x \<le> 4 then Green else if x \<le> 9 then Yellow else Red)"
proof -
  have mono: "binom_cdf (int j) 250 (1 / 100) \<le> binom_cdf (int k) 250 (1 / 100)" if "j \<le> k" for j k
    using that by (intro binom_cdf_mono) simp_all
  have z: "fst (zone x 250 (1 / 100)) = (let cum = binom_cdf (int x) 250 (1 / 100) in
      if cum < 95 / 100 then Green else if cum < 9999 / 10000 then Yellow else Red)"
    by (simp add: zone_def min_days_def Let_def)
  consider "x \<le> 4" | "5 \<le> x" "x \<le> 9" | "10 \<le> x" by linarith
  then show ?thesis
  proof cases
    case 1
    then show ?thesis using mono[of x 4] cdf_thresholds(1) by (simp add: z)
  next
    case 2
    then show ?thesis using mono[of 5 x] mono[of x 9] cdf_thresholds(2,3) by (simp add: z)
  next
    case 3
    then show ?thesis using mono[of 10 x] cdf_thresholds(4) by (simp add: z)
  qed
qed


definition demo_pnl :: "int \<Rightarrow> rat \<Rightarrow> pnl_row" where
  "demo_pnl d x = \<lparr>pr_user = ''u'', pr_date = Date 2026 7 d, pr_usd = Some x, pr_market = Some x, pr_rows = [(''CARRY'', Some 1)]\<rparr>"

definition demo_var :: "int \<Rightarrow> rat \<Rightarrow> var_row" where
  "demo_var d x = \<lparr>vr_user = ''u'', vr_date = Date 2026 7 d, vr_var = Some x, vr_secondary = None, vr_linear = None, vr_confidence = None, vr_confidence2 = None\<rparr>"


end
