(* ===== verification/Booking.thy ===== *)
theory Booking
  imports Ledger Leg_Defaults
begin

section \<open>Atomic trade booking\<close>

text \<open>
  \<open>api/routes/booking.py\<close> with \<open>validated_structure\<close> of \<open>api/routes/trades.py\<close>: the validators of a booking request, its completion
  from the currency's conventions, the BOOKED payload, and the one transaction that writes the trade row, the event, the
  legs and the idempotency key. The state is the \<open>ledger\<close> of the trade events with the columns it does not hold.

  A request is what pydantic parsed (its strings and numbers are hashable): its trade-level fields as a dictionary and its legs as the dictionaries \<open>model_dump\<close>
  gives. \<open>flt\<close> is the conversion of a \<open>Decimal\<close> to a float; the \<open>Decimal\<close>s of a request are exactly its declared
  \<open>Decimal\<close> fields. \<open>rules\<close> are the checks the database makes on a trade and its legs. New identifiers and the clock are
  arguments.
\<close>

subsection \<open>Validation\<close>

definition embedded_option_types :: "string list" where
  "embedded_option_types = [''CAP'', ''FLOOR'']"

definition embedded_option_directions :: "string list" where
  "embedded_option_directions = [''BUY'', ''SELL'']"

definition in_names :: "pyval \<Rightarrow> string list \<Rightarrow> bool" where
  "in_names v names = (case v of PStr s \<Rightarrow> s \<in> set names | _ \<Rightarrow> False)"

definition valid_embedded_option :: "pyval \<Rightarrow> bool" where
  "valid_embedded_option entry =
     (case entry of
        PDict e \<Rightarrow> in_names (get e ''type'') embedded_option_types \<and> in_names (get e ''direction'') embedded_option_directions
          \<and> (get e ''strike_schedule'' \<noteq> PNone \<or> get e ''default_strike'' \<noteq> PNone)
          \<and> (case get e ''strike_schedule'' of PNone \<Rightarrow> True | PList _ \<Rightarrow> True | PDict _ \<Rightarrow> True | _ \<Rightarrow> False)
      | _ \<Rightarrow> False)"

definition valid_leg_input :: "pydict \<Rightarrow> bool" where
  "valid_leg_input leg \<longleftrightarrow> in_names (get leg ''direction'') [''PAY'', ''RECEIVE'']
     \<and> (case get leg ''embedded_options'' of PNone \<Rightarrow> True | PList xs \<Rightarrow> list_all valid_embedded_option xs | _ \<Rightarrow> False)"

definition no_leg_instruments :: "string list" where
  "no_leg_instruments = [''FX_SPOT'', ''FX_FORWARD'', ''NDF'', ''FX_OPTION'', ''CRYPTO_FORWARD'', ''CRYPTO_OPTION'']"

definition ir_swap_structures :: "string list" where
  "ir_swap_structures = [''VANILLA'', ''OIS'', ''BASIS'', ''ZERO_COUPON'', ''STEP_UP'', ''AMORTIZING'', ''ACCRETING'']"

definition fx_option_structures :: "string list" where
  "fx_option_structures = [''EUROPEAN'', ''AMERICAN'', ''DIGITAL'', ''BARRIER'', ''DOUBLE_BARRIER'', ''TOUCH'']"

definition fx_option_structure :: "pydict \<Rightarrow> string" where
  "fx_option_structure t = str_upper (py_str (or_else (get t ''style'') (or_else (get t ''exercise_style'') (PStr ''EUROPEAN''))))"

text \<open>\<open>ValueError\<close> is \<open>Http 422\<close>.\<close>

definition validated_structure :: "string \<Rightarrow> string option \<Rightarrow> pydict \<Rightarrow> (http_error, string option) res" where
  "validated_structure itype structure terms =
     (let s = (case structure of None \<Rightarrow> [] | Some x \<Rightarrow> x) in
      if itype = ''IR_SWAP''
      then (let s' = (if s = [] then ''VANILLA'' else s) in if s' \<in> set ir_swap_structures then Inr (Some s') else Inl (Http 422))
      else if itype \<in> {''FX_OPTION'', ''CRYPTO_OPTION''}
      then (let style = fx_option_structure terms in
            if style \<notin> set fx_option_structures then Inl (Http 422)
            else if s = [] \<or> str_upper s = ''VANILLA'' then Inr (Some style)
            else if str_upper s \<noteq> style then Inl (Http 422) else Inr (Some style))
      else Inr structure)"

record booking_request =
  bq_ref :: "string option"
  bq_fields :: pydict
  bq_legs :: "pydict list"

definition text_of :: "pyval \<Rightarrow> string option" where
  "text_of v = (case v of PStr s \<Rightarrow> Some s | _ \<Rightarrow> None)"

definition dict_of :: "pyval \<Rightarrow> pydict" where
  "dict_of v = (case v of PDict d \<Rightarrow> d | _ \<Rightarrow> [])"

definition opt_text :: "string option \<Rightarrow> pyval" where
  "opt_text s = (case s of None \<Rightarrow> PNone | Some x \<Rightarrow> PStr x)"

definition uuid_or_none :: "pyval \<Rightarrow> (http_error, pyval) res" where
  "uuid_or_none v = (if absent v then Inr PNone else (case parse_uuid (py_str v) of None \<Rightarrow> Inl (Http 422) | Some _ \<Rightarrow> Inr (PStr (py_str v))))"

definition positive_number :: "pyval \<Rightarrow> bool" where
  "positive_number v = (case v of PNum d \<Rightarrow> dec_less (Dec False 0 0) d = Some True | _ \<Rightarrow> False)"

definition dates_in_order :: "pyval \<Rightarrow> pyval \<Rightarrow> bool" where
  "dates_in_order a b = (case (a, b) of (PDate x, PDate y) \<Rightarrow> x \<le> y | _ \<Rightarrow> False)"

definition validate_booking :: "booking_request \<Rightarrow> (http_error, booking_request) res" where
  "validate_booking b =
     (let f = bq_fields b; instr = normalize_instrument_type (get f ''instrument_type'');
          itype = (case text_of instr of None \<Rightarrow> [] | Some s \<Rightarrow> s)
      in bind_res (require (list_all valid_leg_input (bq_legs b)) (Http 422)) (\<lambda>_.
         bind_res (require (positive_number (get f ''notional'')) (Http 422)) (\<lambda>_.
         bind_res (require (bq_legs b \<noteq> [] \<or> itype \<in> set no_leg_instruments) (Http 422)) (\<lambda>_.
         bind_res (require (dates_in_order (get f ''effective_date'') (get f ''maturity_date'')) (Http 422)) (\<lambda>_.
         bind_res (uuid_or_none (get f ''own_legal_entity_id'')) (\<lambda>le.
         bind_res (uuid_or_none (get f ''counterparty_id'')) (\<lambda>cp.
         bind_res (validated_structure itype (text_of (get f ''structure'')) (dict_of (get f ''terms''))) (\<lambda>s.
           Inr (b\<lparr>bq_fields := dict_set ''structure'' (opt_text s) (dict_set ''counterparty_id'' cp
                    (dict_set ''own_legal_entity_id'' le (dict_set ''instrument_type'' instr f)))\<rparr>))))))))) "

subsection \<open>Completion and the BOOKED payload\<close>

definition trade_context :: "pydict \<Rightarrow> leg_context" where
  "trade_context f = \<lparr>lc_effective = get f ''effective_date'', lc_maturity = get f ''maturity_date'', lc_discount = get f ''discount_curve_id'',
     lc_forecast = get f ''forecast_curve_id'', lc_currency = get f ''notional_ccy''\<rparr>"

definition complete_booking :: "booking_request \<Rightarrow> booking_request" where
  "complete_booking b =
     (let f = bq_fields b; legs = map (complete_leg (trade_context f)) (bq_legs b);
          f1 = (if \<not> truthy (get f ''discount_curve_id'') \<and> legs \<noteq> [] then dict_set ''discount_curve_id'' (get (hd legs) ''discount_curve_id'') f else f);
          f2 = (if truthy (get f ''forecast_curve_id'') then f1
                else (case List.find (\<lambda>l. truthy (get l ''forecast_curve_id'')) legs of
                        None \<Rightarrow> f1 | Some l \<Rightarrow> dict_set ''forecast_curve_id'' (get l ''forecast_curve_id'') f1))
      in b\<lparr>bq_fields := f2, bq_legs := legs\<rparr>)"

fun json_safe :: "pyval \<Rightarrow> pyval" and json_safe_list :: "pyval list \<Rightarrow> pyval list" and json_safe_items :: "pydict \<Rightarrow> pydict" where
  "json_safe (PDate d) = PStr (isoformat d)"
| "json_safe (PStamp s) = PStr s"
| "json_safe (POther s) = PStr s"
| "json_safe (PDict d) = PDict (json_safe_items d)"
| "json_safe (PList xs) = PList (json_safe_list xs)"
| "json_safe PNone = PNone"
| "json_safe (PBool b) = PBool b"
| "json_safe (PNum d) = PNum d"
| "json_safe (PStr s) = PStr s"
| "json_safe_list [] = []"
| "json_safe_list (x # xs) = json_safe x # json_safe_list xs"
| "json_safe_items [] = []"
| "json_safe_items (kv # kvs) = (fst kv, json_safe (snd kv)) # json_safe_items kvs"

definition decimal_fields :: "string list" where
  "decimal_fields = [''notional'', ''fixed_rate'', ''spread'', ''cap_rate'', ''floor_rate'', ''leverage'']"

definition safe_field :: "(decimal \<Rightarrow> decimal) \<Rightarrow> string \<Rightarrow> pyval \<Rightarrow> pyval" where
  "safe_field flt k v = (case v of PNum d \<Rightarrow> PNum (if k \<in> set decimal_fields then flt d else d) | _ \<Rightarrow> json_safe v)"

definition safe_fields :: "(decimal \<Rightarrow> decimal) \<Rightarrow> pydict \<Rightarrow> pydict" where
  "safe_fields flt d = map (\<lambda>(k, v). (k, safe_field flt k v)) d"

definition normalize_leg :: "pydict \<Rightarrow> pydict" where
  "normalize_leg leg = (if get leg ''embedded_options'' = PNone then dict_set ''embedded_options'' (PList []) leg else leg)"

definition booked_fields :: "string list" where
  "booked_fields = [''asset_class'', ''instrument_type'', ''structure'', ''store'', ''own_legal_entity_id'', ''counterparty_id'', ''notional'',
     ''notional_ccy'', ''trade_date'', ''effective_date'', ''maturity_date'', ''terms'', ''discount_curve_id'', ''forecast_curve_id'', ''desk'',
     ''book'', ''strategy'']"

definition leg_row :: "string \<Rightarrow> string \<Rightarrow> pydict \<Rightarrow> pydict" where
  "leg_row tid leg_id leg = dict_set ''trade_id'' (PStr tid) (dict_set ''id'' (PStr leg_id) (normalize_leg leg))"

definition booked_trade :: "(decimal \<Rightarrow> decimal) \<Rightarrow> booking_request \<Rightarrow> string \<Rightarrow> pydict" where
  "booked_trade flt b tid = safe_fields flt ((''id'', PStr tid) # (''trade_ref'', opt_text (bq_ref b)) # map (\<lambda>f. (f, get (bq_fields b) f)) booked_fields)"

definition booked_legs :: "(decimal \<Rightarrow> decimal) \<Rightarrow> booking_request \<Rightarrow> string \<Rightarrow> string list \<Rightarrow> pydict list" where
  "booked_legs flt b tid leg_ids = map2 (\<lambda>i l. safe_fields flt (leg_row tid i l)) leg_ids (bq_legs b)"

definition build_booked_payload :: "(decimal \<Rightarrow> decimal) \<Rightarrow> booking_request \<Rightarrow> string \<Rightarrow> string list \<Rightarrow> pydict" where
  "build_booked_payload flt b tid leg_ids =
     [(''trade'', PDict (booked_trade flt b tid)), (''legs'', PList (map PDict (booked_legs flt b tid leg_ids))), (''cashflows'', PList [])]"

subsection \<open>The answer\<close>

definition serialized_trade_fields :: "string list" where
  "serialized_trade_fields = [''store'', ''asset_class'', ''instrument_type'', ''structure'', ''counterparty_id'', ''own_legal_entity_id'', ''notional'',
     ''notional_ccy'', ''trade_date'', ''effective_date'', ''maturity_date'', ''terms'', ''discount_curve_id'', ''forecast_curve_id'', ''desk'',
     ''book'', ''strategy'']"

definition serialize_trade :: "(decimal \<Rightarrow> decimal) \<Rightarrow> trade_row \<Rightarrow> pydict \<Rightarrow> pydict" where
  "serialize_trade flt t columns =
     [(''id'', PStr (t_id t)), (''trade_ref'', PStr (t_ref t)), (''status'', PStr (t_status t))]
     @ map (\<lambda>f. (f, safe_field flt f (get columns f))) serialized_trade_fields
     @ [(''latest_event_id'', opt_text (t_latest t)), (''version_seq'', PNum (Dec (t_version t < 0) (nat \<bar>t_version t\<bar>) 0)), (''user_id'', PStr (t_user t))]"

definition serialized_leg_fields :: "string list" where
  "serialized_leg_fields = [''id'', ''trade_id'', ''leg_ref'', ''leg_seq'', ''leg_type'', ''direction'', ''currency'', ''notional'', ''notional_type'',
     ''effective_date'', ''maturity_date'', ''fixed_rate'', ''spread'', ''day_count'', ''payment_frequency'', ''reset_frequency'', ''bdc'',
     ''payment_calendar'', ''payment_lag'', ''forecast_curve_id'', ''discount_curve_id'', ''ois_compounding'', ''leverage'', ''cap_rate'',
     ''floor_rate'', ''embedded_options'', ''terms'']"

definition serialize_leg :: "(decimal \<Rightarrow> decimal) \<Rightarrow> pydict \<Rightarrow> pydict" where
  "serialize_leg flt l = map (\<lambda>f. (f, safe_field flt f (get l f))) serialized_leg_fields @ [(''version_seq'', PNum (Dec False 1 0))]"

record booking_result =
  br_trade :: pydict
  br_legs :: "pydict list"
  br_event :: string
  br_replay :: bool

subsection \<open>The transaction\<close>

text \<open>\<open>bd_rows\<close>: the columns of the trade rows that the ledger does not keep; \<open>bd_own\<close>: the callers' counterparties and entities, by kind,
  id and owner; the idempotency table is shared with the lifecycle routes (\<open>l_idem\<close>).\<close>

record book_db =
  bd_ledger :: ledger
  bd_rows :: "(string \<times> pydict) list"
  bd_counterparties :: "(string \<times> string) list"
  bd_entities :: "(string \<times> string) list"
  bd_idem :: "((string \<times> string) \<times> booking_result) list"

definition cached_booking :: "book_db \<Rightarrow> string \<Rightarrow> string \<Rightarrow> (booking_result + lifecycle_response) option" where
  "cached_booking db u k =
     (case dict_get (bd_idem db) (u, k) of
        Some r \<Rightarrow> Some (Inl (r\<lparr>br_replay := True\<rparr>))
      | None \<Rightarrow> map_option (\<lambda>r. Inr (r\<lparr>lr_replay := True\<rparr>)) (dict_get (l_idem (bd_ledger db)) (u, k)))"

definition owned :: "(string \<times> string) list \<Rightarrow> pyval \<Rightarrow> string \<Rightarrow> bool" where
  "owned table v u \<longleftrightarrow> \<not> truthy v \<or> (case parse_uuid (py_str v) of None \<Rightarrow> False | Some i \<Rightarrow> (i, u) \<in> set table)"

text \<open>The reading half: a refusal, a cached answer, or nothing in the way.\<close>

definition begin_booking :: "book_db \<Rightarrow> string \<Rightarrow> pydict \<Rightarrow> string option \<Rightarrow> (http_error, (booking_result + lifecycle_response) option) res" where
  "begin_booking db u fs key =
     (let k = (case key of None \<Rightarrow> [] | Some s \<Rightarrow> s) in
      if k \<noteq> [] \<and> parse_uuid k = None then Inl (Http 400)
      else (case (if k = [] then None else cached_booking db u k) of
              Some r \<Rightarrow> Inr (Some r)
            | None \<Rightarrow>
                if \<not> owned (bd_counterparties db) (get fs ''counterparty_id'') u then Inl (Http 422)
                else if \<not> owned (bd_entities db) (get fs ''own_legal_entity_id'') u then Inl (Http 422)
                else Inr None))"

definition int_field :: "pyval \<Rightarrow> int" where
  "int_field v = (case v of PNum (Dec n c e) \<Rightarrow> (if n then - 1 else 1) * int (c * 10 ^ nat e) | _ \<Rightarrow> 0)"

definition new_ref :: "booking_request \<Rightarrow> nat \<Rightarrow> string" where
  "new_ref b clock = (case bq_ref b of Some (c # cs) \<Rightarrow> c # cs | _ \<Rightarrow> ''TRD-'' @ rev (take 8 (rev (nat_digits clock))))"

record new_ids =
  ni_trade :: string
  ni_event :: string
  ni_legs :: "string list"

definition leg_ids_of :: "ledger \<Rightarrow> pyval list" where
  "leg_ids_of db = map (\<lambda>l. get (snd (snd l)) ''id'') (l_legs db)"

definition booked_ledger :: "(decimal \<Rightarrow> decimal) \<Rightarrow> ledger \<Rightarrow> string \<Rightarrow> booking_request \<Rightarrow> new_ids \<Rightarrow> string \<Rightarrow> ledger" where
  "booked_ledger flt l u b ids ref =
     l\<lparr>l_trades := l_trades l @ [\<lparr>t_id = ni_trade ids, t_user = u, t_ref = ref, t_status = ''PENDING'', t_latest = Some (ni_event ids), t_version = 1\<rparr>],
       l_legs := l_legs l @ map2 (\<lambda>i leg. (ni_trade ids, int_field (get leg ''leg_seq''), dict_set ''user_id'' (PStr u) (leg_row (ni_trade ids) i leg))) (ni_legs ids) (bq_legs b),
       l_events := l_events l @ [\<lparr>e_id = ni_event ids, e_trade = ni_trade ids, e_seq = next_seq l (ni_trade ids), e_type = ''BOOKED'',
         e_payload = build_booked_payload flt b (ni_trade ids) (ni_legs ids), e_pre = None,
         e_post = Some \<lparr>p_trade = Some (booked_trade flt b (ni_trade ids)), p_legs = booked_legs flt b (ni_trade ids) (ni_legs ids), p_cashflows = []\<rparr>,
         e_user = u, e_hash = None, e_cp_confirmed = False\<rparr>]\<rparr>"

text \<open>The writing half. The trade row is inserted first, so a repeated reference is found before a repeated key.\<close>

definition write_booking ::
    "(decimal \<Rightarrow> decimal) \<Rightarrow> (pydict \<Rightarrow> pydict list \<Rightarrow> bool) \<Rightarrow> book_db \<Rightarrow> string \<Rightarrow> booking_request \<Rightarrow> string option \<Rightarrow> string option \<Rightarrow> new_ids \<Rightarrow> nat
      \<Rightarrow> book_db \<times> (http_error, booking_result + lifecycle_response) res" where
  "write_booking flt rules db u b key uti ids clock =
     (let l = bd_ledger db; ref = new_ref b clock; k = (case key of None \<Rightarrow> [] | Some s \<Rightarrow> s);
          columns = dict_set ''uti'' (opt_text uti) (map (\<lambda>f. (f, get (bq_fields b) f)) booked_fields);
          l1 = booked_ledger flt l u b ids ref
      in if ni_trade ids \<in> t_id ` set (l_trades l) \<or> (u, ref) \<in> (\<lambda>t. (t_user t, t_ref t)) ` set (l_trades l) then (db, Inl (Http 409))
         else if ni_event ids \<in> e_id ` set (l_events l) \<or> \<not> distinct (ni_legs ids)
           \<or> PStr ` set (ni_legs ids) \<inter> set (leg_ids_of l) \<noteq> {} \<or> \<not> rules columns (bq_legs b) then (db, Inl (Http 409))
         else
           (let t = last (l_trades l1);
                result = \<lparr>br_trade = serialize_trade flt t columns,
                  br_legs = map (serialize_leg flt \<circ> snd \<circ> snd) (sort_key (fst \<circ> snd) (filter (\<lambda>x. fst x = ni_trade ids) (l_legs l1))),
                  br_event = ni_event ids, br_replay = False\<rparr>
            in if k = [] then (db\<lparr>bd_ledger := l1, bd_rows := bd_rows db @ [(ni_trade ids, columns)]\<rparr>, Inr (Inl result))
               else (case cached_booking db u k of
                       Some r \<Rightarrow> (db, Inr r)
                     | None \<Rightarrow> (db\<lparr>bd_ledger := l1, bd_rows := bd_rows db @ [(ni_trade ids, columns)],
                                   bd_idem := ((u, k), result) # bd_idem db\<rparr>, Inr (Inl result)))))"

definition book_trade ::
    "(decimal \<Rightarrow> decimal) \<Rightarrow> (pydict \<Rightarrow> pydict list \<Rightarrow> bool) \<Rightarrow> book_db \<Rightarrow> string \<Rightarrow> booking_request \<Rightarrow> string option \<Rightarrow> string option \<Rightarrow> new_ids \<Rightarrow> nat
      \<Rightarrow> book_db \<times> (http_error, booking_result + lifecycle_response) res" where
  "book_trade flt rules db u b0 key uti ids clock =
     (let b = complete_booking b0 in
      case begin_booking db u (bq_fields b) key of
        Inl e \<Rightarrow> (db, Inl e)
      | Inr (Some r) \<Rightarrow> (db, Inr r)
      | Inr None \<Rightarrow> write_booking flt rules db u b key uti ids clock)"

definition book_trade_atomic ::
    "(decimal \<Rightarrow> decimal) \<Rightarrow> (pydict \<Rightarrow> pydict list \<Rightarrow> bool) \<Rightarrow> book_db \<Rightarrow> pydict \<Rightarrow> booking_request \<Rightarrow> string option \<Rightarrow> new_ids \<Rightarrow> nat
      \<Rightarrow> book_db \<times> (http_error, booking_result + lifecycle_response) res" where
  "book_trade_atomic flt rules db user body key ids clock =
     (case bind_res (validate_booking body) (\<lambda>b. bind_res (check_write_role user) (\<lambda>u. Inr (b, u))) of
        Inl e \<Rightarrow> (db, Inl e)
      | Inr (b, u) \<Rightarrow> book_trade flt rules db u b key None ids clock)"

subsection \<open>Lookups\<close>

lemma safe_fields_get: "get (safe_fields flt d) k = (case dict_get d k of None \<Rightarrow> PNone | Some v \<Rightarrow> safe_field flt k v)"
  by (induction d) (auto simp: safe_fields_def get_def)

lemma dict_get_tabulate: "dict_get (map (\<lambda>f. (f, g f)) fs) k = (if k \<in> set fs then Some (g k) else None)"
  by (induction fs) auto

lemma safe_field_None [simp]: "safe_field flt k PNone = PNone" and safe_field_Str [simp]: "safe_field flt k (PStr s) = PStr s"
  by (simp_all add: safe_field_def)

lemma map_res_as_dict: "map_res as_dict (map PDict ds) = Inr ds"
  by (induction ds) (simp_all add: as_dict_def)

lemma booked_trade_get:
  "f \<in> set booked_fields \<Longrightarrow> get (booked_trade flt b tid) f = safe_field flt f (get (bq_fields b) f)"
  "get (booked_trade flt b tid) ''id'' = PStr tid"
  "get (booked_trade flt b tid) ''trade_ref'' = opt_text (bq_ref b)"
proof -
  assume f: "f \<in> set booked_fields"
  have "''id'' \<notin> set booked_fields" "''trade_ref'' \<notin> set booked_fields" by (simp_all add: booked_fields_def)
  with f have "f \<noteq> ''id''" "f \<noteq> ''trade_ref''" by metis+
  with f show "get (booked_trade flt b tid) f = safe_field flt f (get (bq_fields b) f)"
    by (simp add: booked_trade_def safe_fields_get dict_get_tabulate)
qed (simp_all add: booked_trade_def safe_fields_get opt_text_def split: option.splits)

subsection \<open>What a successful booking writes\<close>

definition replayed :: "booking_result + lifecycle_response \<Rightarrow> bool" where
  "replayed x = (case x of Inl r \<Rightarrow> br_replay r | Inr r \<Rightarrow> lr_replay r)"

lemma cached_replayed: "cached_booking db u k = Some x \<Longrightarrow> replayed x"
  by (auto simp: cached_booking_def replayed_def split: option.splits)

lemma begin_replayed: "begin_booking db u f key = Inr (Some x) \<Longrightarrow> replayed x"
  by (auto simp: begin_booking_def Let_def cached_replayed split: if_splits option.splits)

definition unchanged :: "book_db \<Rightarrow> book_db \<Rightarrow> (http_error, booking_result + lifecycle_response) res \<Rightarrow> bool" where
  "unchanged db db' r \<longleftrightarrow> db' = db \<and> (\<forall>x. r = Inr x \<longrightarrow> replayed x)"

definition booked ::
    "(decimal \<Rightarrow> decimal) \<Rightarrow> book_db \<Rightarrow> string \<Rightarrow> booking_request \<Rightarrow> string option \<Rightarrow> string option \<Rightarrow> new_ids \<Rightarrow> nat \<Rightarrow> book_db
      \<Rightarrow> (http_error, booking_result + lifecycle_response) res \<Rightarrow> bool" where
  "booked flt db u b key uti ids clock db' r \<longleftrightarrow>
     bd_ledger db' = booked_ledger flt (bd_ledger db) u b ids (new_ref b clock)
     \<and> ni_trade ids \<notin> t_id ` set (l_trades (bd_ledger db)) \<and> ni_event ids \<notin> e_id ` set (l_events (bd_ledger db))
     \<and> bd_rows db' = bd_rows db @ [(ni_trade ids, dict_set ''uti'' (opt_text uti) (map (\<lambda>f. (f, get (bq_fields b) f)) booked_fields))]
     \<and> (\<exists>res. r = Inr (Inl res) \<and> \<not> br_replay res \<and> br_event res = ni_event ids
          \<and> (\<forall>k. key = Some k \<longrightarrow> k \<noteq> [] \<longrightarrow> dict_get (bd_idem db') (u, k) = Some res))"

lemma write_booking_cases:
  assumes "write_booking flt rules db u b key uti ids clock = (db', r)"
  shows "unchanged db db' r \<or> booked flt db u b key uti ids clock db' r"
proof -
  define k where "k = (case key of None \<Rightarrow> [] | Some s \<Rightarrow> s)"
  have k: "key = Some k' \<Longrightarrow> k' = k" for k' by (simp add: k_def)
  show ?thesis
    using assms cached_replayed[of db u k] unfolding write_booking_def Let_def k_def[symmetric]
    by (auto simp: unchanged_def booked_def dest!: k split: if_splits option.splits)
qed

text \<open>The ledger's invariant with the foreign keys of the events and the legs.\<close>

definition book_ok :: "book_db \<Rightarrow> bool" where
  "book_ok db \<longleftrightarrow> ledger_ok (bd_ledger db) \<and> e_trade ` set (l_events (bd_ledger db)) \<subseteq> t_id ` set (l_trades (bd_ledger db))
     \<and> fst ` set (l_legs (bd_ledger db)) \<subseteq> t_id ` set (l_trades (bd_ledger db))"

lemma ledger_ok_new_trade:
  assumes "ledger_ok l" and "t_id t \<notin> t_id ` set (l_trades l)"
  shows "ledger_ok (l\<lparr>l_trades := l_trades l @ [t], l_legs := legs\<rparr>)"
  using assms by (simp add: ledger_ok_def trade_events_of_def)

lemma booked_ledger_ok:
  assumes ok: "ledger_ok l" and new: "ni_trade ids \<notin> t_id ` set (l_trades l)" "ni_event ids \<notin> e_id ` set (l_events l)"
  shows "ledger_ok (booked_ledger flt l u b ids ref)"
proof -
  let ?l' = "booked_ledger flt l u b ids ref"
  let ?l1 = "l\<lparr>l_trades := l_trades ?l', l_legs := l_legs ?l'\<rparr>"
  have l1: "ledger_ok ?l1" using ledger_ok_new_trade[OF ok] new(1) by (simp add: booked_ledger_def)
  show ?thesis
    by (rule ledger_ok_insert[OF l1, where ev = "last (l_events ?l')"])
      (use new(2) in \<open>simp_all add: booked_ledger_def next_seq_def trade_events_of_def\<close>)
qed

lemma no_events_yet: "book_ok db \<Longrightarrow> tid \<notin> t_id ` set (l_trades (bd_ledger db)) \<Longrightarrow> trade_events_of (bd_ledger db) tid = []"
  by (force simp: book_ok_def trade_events_of_def filter_empty_conv)

lemma no_legs_yet: "book_ok db \<Longrightarrow> tid \<notin> t_id ` set (l_trades (bd_ledger db)) \<Longrightarrow> filter (\<lambda>x. fst x = tid) (l_legs (bd_ledger db)) = []"
  by (force simp: book_ok_def filter_empty_conv)

lemma book_ok_booked:
  assumes "book_ok db" and "ni_trade ids \<notin> t_id ` set (l_trades (bd_ledger db))" "ni_event ids \<notin> e_id ` set (l_events (bd_ledger db))"
    and "bd_ledger db' = booked_ledger flt (bd_ledger db) u b ids ref"
  shows "book_ok db'"
  using assms booked_ledger_ok[of "bd_ledger db" ids flt u b ref]
  by (auto simp: book_ok_def booked_ledger_def set_zip)

lemma complete_booking_simps [simp]: "bq_ref (complete_booking b) = bq_ref b" "length (bq_legs (complete_booking b)) = length (bq_legs b)"
  by (simp_all add: complete_booking_def Let_def)

text \<open>One booking call: a refusal or a replay that changes nothing, or the booked ledger.\<close>

lemma book_trade_cases:
  assumes "book_trade flt rules db u b key uti ids clock = (db', r)"
  shows "unchanged db db' r \<or> booked flt db u (complete_booking b) key uti ids clock db' r"
proof (cases "begin_booking db u (bq_fields (complete_booking b)) key")
  case (Inl e)
  then show ?thesis using assms by (auto simp: book_trade_def unchanged_def Let_def)
next
  case (Inr m)
  show ?thesis
  proof (cases m)
    case None
    then show ?thesis using assms Inr by (intro write_booking_cases) (simp add: book_trade_def Let_def)
  next
    case (Some x)
    then show ?thesis using assms Inr begin_replayed[of db u _ key x] by (auto simp: book_trade_def unchanged_def Let_def)
  qed
qed

subsection \<open>Properties\<close>

text \<open>C13: Booking is atomic. Whatever the request, a call either changes nothing (a refusal, or the cached answer of its key) or adds exactly one
  trade, owned by the caller and PENDING, one BOOKED event, which is the trade's first and the one the trade points at, and one leg row per
  requested leg, and answers with that event; the invariant of the event table and its foreign keys hold either way.\<close>

theorem booking_atomic:
  assumes "book_trade flt rules db u b key uti ids clock = (db', r)" and ok: "book_ok db" and "length (ni_legs ids) = length (bq_legs b)"
  shows "book_ok db' \<and> (db' = db \<and> (\<forall>x. r = Inr x \<longrightarrow> replayed x)
    \<or> (\<exists>t ev legs res. r = Inr (Inl res) \<and> \<not> br_replay res \<and> br_event res = e_id ev
         \<and> l_trades (bd_ledger db') = l_trades (bd_ledger db) @ [t] \<and> l_events (bd_ledger db') = l_events (bd_ledger db) @ [ev]
         \<and> l_legs (bd_ledger db') = l_legs (bd_ledger db) @ legs
         \<and> t_user t = u \<and> t_status t = ''PENDING'' \<and> t_latest t = Some (e_id ev) \<and> t_version t = 1
         \<and> e_trade ev = t_id t \<and> e_type ev = ''BOOKED'' \<and> e_seq ev = 1
         \<and> length legs = length (bq_legs b) \<and> (\<forall>x \<in> set legs. fst x = t_id t)))"
  using book_trade_cases[OF assms(1)]
proof
  assume "unchanged db db' r"
  with ok show ?thesis unfolding unchanged_def by blast
next
  let ?c = "complete_booking b"
  assume "booked flt db u ?c key uti ids clock db' r"
  then have l: "bd_ledger db' = booked_ledger flt (bd_ledger db) u ?c ids (new_ref ?c clock)"
    and new: "ni_trade ids \<notin> t_id ` set (l_trades (bd_ledger db))" "ni_event ids \<notin> e_id ` set (l_events (bd_ledger db))"
    and res: "\<exists>res. r = Inr (Inl res) \<and> \<not> br_replay res \<and> br_event res = ni_event ids" unfolding booked_def by blast+
  have "next_seq (bd_ledger db) (ni_trade ids) = 1" using no_events_yet[OF ok new(1)] by (simp add: next_seq_def)
  then have "\<exists>t ev legs. l_trades (bd_ledger db') = l_trades (bd_ledger db) @ [t] \<and> l_events (bd_ledger db') = l_events (bd_ledger db) @ [ev]
         \<and> l_legs (bd_ledger db') = l_legs (bd_ledger db) @ legs
         \<and> t_user t = u \<and> t_status t = ''PENDING'' \<and> t_latest t = Some (e_id ev) \<and> t_version t = 1
         \<and> e_trade ev = t_id t \<and> e_type ev = ''BOOKED'' \<and> e_seq ev = 1 \<and> e_id ev = ni_event ids
         \<and> length legs = length (bq_legs b) \<and> (\<forall>x \<in> set legs. fst x = t_id t)"
    unfolding l booked_ledger_def using assms(3) by (auto simp: set_zip)
  with res book_ok_booked[OF ok new l] show ?thesis by metis
qed

definition plain_bytes :: "decimal \<Rightarrow> decimal" where
  "plain_bytes d = d"

definition demo_swap :: booking_request where
  "demo_swap = \<lparr>bq_ref = None,
     bq_fields = [(''asset_class'', PStr ''RATES''), (''instrument_type'', PStr ''IR_SWAP''), (''structure'', PStr ''VANILLA''), (''notional'', PNum (Dec False 1000000 0)),
       (''notional_ccy'', PStr ''USD''), (''effective_date'', PDate (Date 2026 3 2)), (''maturity_date'', PDate (Date 2031 3 3)), (''counterparty_id'', PNone)],
     bq_legs = [[(''leg_ref'', PStr ''L1''), (''leg_type'', PStr ''FIXED''), (''direction'', PStr ''PAY''), (''currency'', PStr ''USD'')]]\<rparr>"

definition empty_books :: book_db where
  "empty_books = \<lparr>bd_ledger = \<lparr>l_trades = [], l_legs = [], l_events = [], l_idem = []\<rparr>, bd_rows = [], bd_counterparties = [], bd_entities = [], bd_idem = []\<rparr>"

definition demo_ids :: new_ids where
  "demo_ids = \<lparr>ni_trade = ''t1'', ni_event = ''e1'', ni_legs = [''l1'']\<rparr>"

definition booking_key :: string where
  "booking_key = ''0123456789abcdef0123456789abcdef''"

lemma empty_books_ok: "book_ok empty_books"
  by (simp add: book_ok_def ledger_ok_def empty_books_def trade_events_of_def)

lemma complete_booking_keeps:
  "k \<noteq> ''discount_curve_id'' \<Longrightarrow> k \<noteq> ''forecast_curve_id'' \<Longrightarrow> get (bq_fields (complete_booking b)) k = get (bq_fields b) k"
  by (simp add: complete_booking_def Let_def get_set split: option.splits)

lemma first_booking:
  assumes "bq_fields b = bq_fields demo_swap" and "length (bq_legs b) = 1"
  shows "\<exists>db res. book_trade flt (\<lambda>_ _. True) empty_books ''u'' b (Some booking_key) None demo_ids clock = (db, Inr (Inl res)) \<and> \<not> br_replay res
    \<and> write_booking flt (\<lambda>_ _. True) empty_books ''u'' (complete_booking b) (Some booking_key) None demo_ids clock = (db, Inr (Inl res))
    \<and> map t_ref (l_trades (bd_ledger db)) = [new_ref (complete_booking b) clock]"
proof -
  have k: "parse_uuid booking_key \<noteq> None" "booking_key \<noteq> []" by code_simp+
  have f: "\<not> truthy (get (bq_fields (complete_booking b)) ''counterparty_id'')" "\<not> truthy (get (bq_fields (complete_booking b)) ''own_legal_entity_id'')"
    by (simp_all add: complete_booking_keeps assms(1)) (simp_all add: demo_swap_def get_def truthy_def)
  have "begin_booking empty_books ''u'' (bq_fields (complete_booking b)) (Some booking_key) = Inr None"
    using k f by (simp add: begin_booking_def cached_booking_def owned_def empty_books_def)
  moreover have "\<exists>db res. write_booking flt (\<lambda>_ _. True) empty_books ''u'' (complete_booking b) (Some booking_key) None demo_ids clock = (db, Inr (Inl res))
      \<and> \<not> br_replay res \<and> map t_ref (l_trades (bd_ledger db)) = [new_ref (complete_booking b) clock]"
    using k by (simp add: write_booking_def cached_booking_def empty_books_def demo_ids_def leg_ids_of_def booked_ledger_def Let_def)
  ultimately show ?thesis by (auto simp: book_trade_def Let_def)
qed

lemma demo_books:
  "\<exists>db res. book_trade plain_bytes (\<lambda>_ _. True) empty_books ''u'' demo_swap (Some booking_key) None demo_ids 129 = (db, Inr (Inl res)) \<and> \<not> br_replay res
     \<and> map t_ref (l_trades (bd_ledger db)) = [''TRD-129'']"
proof -
  have "new_ref (demo_swap\<lparr>bq_ref := None\<rparr>) 129 = ''TRD-129''"
    by (simp add: new_ref_def digit_char_simps nat_digits.simps[of 129] nat_digits.simps[of 12] nat_digits.simps[of "Suc 0"])
  moreover have "new_ref (complete_booking demo_swap) 129 = new_ref (demo_swap\<lparr>bq_ref := None\<rparr>) 129"
    by (simp add: new_ref_def) (simp add: demo_swap_def)
  ultimately show ?thesis using first_booking[of demo_swap plain_bytes 129] by (auto simp: demo_swap_def)
qed

theorem booking_atomic_witness:
  "\<exists>db' r. book_trade plain_bytes (\<lambda>_ _. True) empty_books ''u'' demo_swap None None demo_ids 7 = (db', r) \<and> book_ok db'"
proof -
  obtain db' r where b: "book_trade plain_bytes (\<lambda>_ _. True) empty_books ''u'' demo_swap None None demo_ids 7 = (db', r)" by fastforce
  have "book_ok db'" using booking_atomic[OF b empty_books_ok] by (simp add: demo_ids_def demo_swap_def)
  with b show ?thesis by blast
qed



text \<open>Booking is idempotent under its key. After a booking under a key, any later call of the same user with that key, whatever it asks for,
  returns the first answer marked as a replay and changes nothing.\<close>

theorem booking_idempotent:
  assumes b: "book_trade flt rules db u b (Some k) uti ids clock = (db1, Inr (Inl res))" and fresh: "\<not> br_replay res" and k: "k \<noteq> []"
  shows "book_trade flt' rules' db1 u b' (Some k) uti' ids' clock' = (db1, Inr (Inl (res\<lparr>br_replay := True\<rparr>)))"
proof -
  have "booked flt db u (complete_booking b) (Some k) uti ids clock db1 (Inr (Inl res))"
    using book_trade_cases[OF b] fresh by (auto simp: unchanged_def replayed_def)
  then have cached: "cached_booking db1 u k = Some (Inl (res\<lparr>br_replay := True\<rparr>))"
    using k by (auto simp: booked_def cached_booking_def)
  have "parse_uuid k \<noteq> None" using b k by (cases "parse_uuid k = None") (simp_all add: book_trade_def begin_booking_def Let_def)
  with cached k show ?thesis by (simp add: book_trade_def begin_booking_def Let_def)
qed

theorem booking_idempotent_witness:
  "\<exists>db res. book_trade plain_bytes (\<lambda>_ _. True) empty_books ''u'' demo_swap (Some booking_key) None demo_ids 129 = (db, Inr (Inl res))
     \<and> book_trade plain_bytes (\<lambda>_ _. False) db ''u'' demo_swap (Some booking_key) None demo_ids 0 = (db, Inr (Inl (res\<lparr>br_replay := True\<rparr>)))"
proof -
  obtain db res where b: "book_trade plain_bytes (\<lambda>_ _. True) empty_books ''u'' demo_swap (Some booking_key) None demo_ids 129 = (db, Inr (Inl res))"
    "\<not> br_replay res" using demo_books by blast
  from booking_idempotent[OF b, of plain_bytes "\<lambda>_ _. False" demo_swap None demo_ids 0] b(1) show ?thesis by (auto simp: booking_key_def)
qed

text \<open>Two bookings under one key can race to a conflict. If two calls of a user with the same key and the same explicit reference have both
  passed the reading half, the first to write books, and the second is refused with 409 for the reference, although the answer of its key
  is there to be replayed.\<close>

theorem racing_duplicate_conflicts:
  assumes "write_booking flt rules db u b (Some k) uti ids clock = (db1, Inr (Inl res))" and "\<not> br_replay res" and "k \<noteq> []"
    and "bq_ref b = Some (c # cs)" and "ni_trade ids' \<noteq> ni_trade ids"
  shows "write_booking flt rules db1 u b (Some k) uti ids' clock' = (db1, Inl (Http 409)) \<and> cached_booking db1 u k = Some (Inl (res\<lparr>br_replay := True\<rparr>))"
proof -
  have "booked flt db u b (Some k) uti ids clock db1 (Inr (Inl res))"
    using write_booking_cases[OF assms(1)] assms(2) by (auto simp: unchanged_def replayed_def)
  then have "bd_ledger db1 = booked_ledger flt (bd_ledger db) u b ids (c # cs)" "dict_get (bd_idem db1) (u, k) = Some res"
    using assms(3,4) by (auto simp: booked_def new_ref_def)
  then show ?thesis using assms(4) by (simp add: write_booking_def cached_booking_def booked_ledger_def new_ref_def Let_def)
qed

theorem racing_duplicate_conflicts_witness:
  "\<exists>db1. write_booking plain_bytes (\<lambda>_ _. True) db1 ''u'' (complete_booking (demo_swap\<lparr>bq_ref := Some ''A-1''\<rparr>)) (Some booking_key) None (demo_ids\<lparr>ni_trade := ''t2''\<rparr>) 9
     = (db1, Inl (Http 409))"
proof -
  let ?b = "complete_booking (demo_swap\<lparr>bq_ref := Some ''A-1''\<rparr>)"
  obtain db1 res where "write_booking plain_bytes (\<lambda>_ _. True) empty_books ''u'' ?b (Some booking_key) None demo_ids 9 = (db1, Inr (Inl res))" "\<not> br_replay res"
    using first_booking[of "demo_swap\<lparr>bq_ref := Some ''A-1''\<rparr>" plain_bytes 9] by (auto simp: demo_swap_def)
  from racing_duplicate_conflicts[OF this, of "CHR ''A''" "''-1''" "demo_ids\<lparr>ni_trade := ''t2''\<rparr>" 9] show ?thesis by (auto simp: booking_key_def demo_ids_def)
qed

end
