(* ===== verification/Canonical_Types.thy ===== *)
theory Canonical_Types
  imports Canonical
begin

section \<open>The types of the signed record\<close>

text \<open>
  The record of \<open>chain/canonical.py\<close> is typed: amounts and rates are text, so no JSON reader's number format can change the hash. \<open>textual\<close>
  is the type of every part of a record, with one lemma per operation that builds one.
\<close>

fun textual :: "json \<Rightarrow> bool" where
  "textual JNull \<longleftrightarrow> True"
| "textual (JBool b) \<longleftrightarrow> True"
| "textual (JInt n) \<longleftrightarrow> False"
| "textual (JStr s) \<longleftrightarrow> True"
| "textual (JArr js) \<longleftrightarrow> (\<forall>j \<in> set js. textual j)"
| "textual (JObj kvs) \<longleftrightarrow> (\<forall>kv \<in> set kvs. textual (snd kv))"

definition textual_items :: "(string \<times> json) list \<Rightarrow> bool" where
  "textual_items kvs \<longleftrightarrow> (\<forall>kv \<in> set kvs. textual (snd kv))"

lemma textual_items_simps [simp]:
  "textual_items []" "textual_items (kv # kvs) \<longleftrightarrow> textual (snd kv) \<and> textual_items kvs"
  "textual_items (xs @ ys) \<longleftrightarrow> textual_items xs \<and> textual_items ys"
  by (auto simp: textual_items_def)

lemma textual_obj [simp]: "textual (JObj kvs) \<longleftrightarrow> textual_items kvs"
  by (simp add: textual_items_def)

declare textual.simps(6) [simp del]

lemma textual_dict_set: "textual_items kvs \<Longrightarrow> textual j \<Longrightarrow> textual_items (dict_set k j kvs)"
  by (induction kvs) (auto simp: textual_items_def)

lemma normalise_textual:
  "normalise v = Inr j \<Longrightarrow> textual j"
  "normalise_list vs = Inr js \<Longrightarrow> \<forall>j \<in> set js. textual j"
  "normalise_items d = Inr kvs \<Longrightarrow> textual_items kvs"
  by (induction v and vs and d arbitrary: j and js and kvs rule: normalise_normalise_list_normalise_items.induct)
    (auto split: sum.splits)

lemma map_res_elem:
  assumes "map_res f xs = Inr ys" and "y \<in> set ys"
  shows "\<exists>x. f x = Inr y"
proof -
  obtain i where "i < length ys" "y = ys ! i" using assms(2) by (auto simp: in_set_conv_nth)
  with assms(1) show ?thesis unfolding map_res_Inr_iff list_all2_conv_all_nth by metis
qed

lemma pick_textual: "pick obj fields = Inr kvs \<Longrightarrow> textual_items kvs"
  by (force simp: pick_def map_res_Inr_iff bind_res_Inr_iff textual_items_def list_all2_conv_all_nth in_set_conv_nth dest: normalise_textual(1))

lemma map_res_textual:
  assumes "map_res f xs = Inr js" and "\<And>x j. f x = Inr j \<Longrightarrow> textual j"
  shows "\<forall>j \<in> set js. textual j"
  using assms by (metis map_res_elem)

lemma field_items_textual: "field_items upper numeric adj fields terms = Inr kvs \<Longrightarrow> textual_items kvs"
  by (force simp: field_items_def field_value_def map_res_Inr_iff bind_res_Inr_iff Let_def textual_items_def list_all2_conv_all_nth in_set_conv_nth
      dest: normalise_textual(1))

lemma option_textual: "option_v2 own cp v = Inr j \<Longrightarrow> textual j"
  by (auto simp: option_v2_def bind_res_Inr_iff simp del: normalise.simps dest: normalise_textual(1) split: pyval.splits)

lemma options_textual: "options_v2 v own cp = Inr js \<Longrightarrow> j \<in> set js \<Longrightarrow> textual j"
  by (auto simp: options_v2_def bind_res_Inr_iff dest: map_res_textual[OF _ option_textual] split: pyval.splits if_splits)

lemma cash_row_textual:
  assumes "cash_row own cp r = Inr x"
  shows "textual (snd x)"
proof -
  obtain amt where amt: "row_amount r = Inr amt" using assms by (auto simp: cash_row_def bind_res_Inr_iff)
  show ?thesis
  proof (cases "dec_neg amt")
    case None
    with assms amt show ?thesis by (simp add: cash_row_def)
  next
    case (Some neg)
    with assms amt show ?thesis by (auto simp: cash_row_def bind_res_Inr_iff Let_def dest: normalise_textual(1))
  qed
qed

lemma cashflows_textual:
  assumes "cashflows_v2 rows own cp = Inr js" and "j \<in> set js"
  shows "textual j"
proof -
  obtain rs out where out: "map_res (cash_row own cp) rs = Inr out" "js = map snd (sort_key (\<lambda>x. the (fst x)) out)"
    using assms(1) by (auto simp: cashflows_v2_def bind_res_Inr_iff split: if_splits)
  with assms(2) obtain x where "x \<in> set out" "j = snd x" by auto
  then show ?thesis using map_res_elem[OF out(1)] cash_row_textual by metis
qed

lemma product_textual:
  "fx_product itype terms own cp = Inr j \<Longrightarrow> textual j"
  "crypto_product itype terms own cp = Inr j \<Longrightarrow> textual j"
proof -
  have fxo: "fxo_record style terms bs = Inr j \<Longrightarrow> textual j" for style terms bs j
    by (auto simp: fxo_record_def bind_res_Inr_iff Let_def dest: field_items_textual)
  have fx: "fx_record itype terms bs = Inr j \<Longrightarrow> textual j" for itype terms bs j
    by (auto simp: fx_record_def bind_res_Inr_iff Let_def dest: field_items_textual)
  show "fx_product itype terms own cp = Inr j \<Longrightarrow> textual j"
    by (auto simp: fx_product_def fx_option_product_def bind_res_Inr_iff Let_def dest: fxo fx split: if_splits prod.splits)
  have cr: "crypto_record itype style terms bs = Inr j \<Longrightarrow> textual j" for itype style terms bs j
    by (auto simp: crypto_record_def bind_res_Inr_iff Let_def dest: field_items_textual intro!: textual_dict_set split: if_splits)
  show "crypto_product itype terms own cp = Inr j \<Longrightarrow> textual j"
    by (auto simp: crypto_product_def crypto_body_def bind_res_Inr_iff Let_def dest: cr split: if_splits prod.splits)
qed

lemma leg_textual: "leg_v2 own cp l = Inr j \<Longrightarrow> textual j"
  using options_textual cashflows_textual pick_textual normalise_textual(1)
  by (auto simp: leg_v2_def bind_res_Inr_iff)

text \<open>C30: The signed record is typed. Under either schema version the record is an object whose only number is its schema version: every
  amount, rate, date and name in it is text, at every depth, and so is everything an option, a cashflow or a product carries.\<close>

theorem record_is_textual:
  assumes "canonical_payload trade legs own cp version = Inr j"
  shows "\<exists>kvs. j = JObj kvs \<and> dict_get kvs ''schema_version'' = Some (JInt version) \<and> textual_items (filter (\<lambda>kv. fst kv \<noteq> ''schema_version'') kvs)"
proof -
  have head: "\<exists>rest. hd = (''schema'', JStr ''rijeka-trade'') # (''schema_version'', JInt 2) # rest \<and> textual_items rest"
    if "head_v2 trade own cp = Inr hd" for own cp hd
    using that pick_textual normalise_textual(1) by (auto simp: head_v2_def bind_res_Inr_iff; blast)
  have obj: "\<exists>kvs. JObj (hd @ tl) = JObj kvs \<and> dict_get kvs ''schema_version'' = Some (JInt 2)
      \<and> textual_items (filter (\<lambda>kv. fst kv \<noteq> ''schema_version'') kvs)"
    if "head_v2 trade own cp = Inr hd" "textual_items tl" for own cp hd tl
  proof -
    have "textual_items (filter P kvs)" if "textual_items kvs" for P kvs using that by (simp add: textual_items_def)
    with head[OF that(1)] that(2) show ?thesis by auto
  qed
  consider (v1) "version = 1" "canonical_v1 trade legs own cp = Inr j" | (v2) own' cp' where "version = 2" "body_v2 trade legs own' cp' = Inr j"
    using assms by (auto simp: canonical_payload_def canonical_v2_def bind_res_Inr_iff split: if_splits)
  then show ?thesis
  proof cases
    case v1
    then obtain keyed :: "((int \<times> string) \<times> pydict) list" and t ls o1 c where parts: "pick trade trade_fields = Inr t" "pick own party_fields = Inr o1" "pick cp party_fields = Inr c"
      "map_res (\<lambda>kl. pick (snd kl) leg_fields) (sort_key fst keyed) = Inr ls"
      "j = JObj [(''schema'', JStr ''rijeka-trade''), (''schema_version'', JInt 1), (''trade'', JObj t),
                  (''legs'', JArr (map JObj ls)), (''parties'', JObj [(''own'', JObj o1), (''counterparty'', JObj c)])]"
      unfolding canonical_v1_def bind_res_Inr_iff sum.inject by (elim exE conjE) (rule that, assumption, assumption, assumption, assumption, rule sym, assumption)
    have "textual_items l" if "l \<in> set ls" for l
      using map_res_elem[OF parts(4) that] pick_textual by blast
    then show ?thesis using v1(1) parts pick_textual by auto
  next
    case v2
    show ?thesis
    proof (cases "instrument trade \<in> set crypto_instruments \<or> instrument trade \<in> set fx_instruments")
      case True
      then obtain hd p where "head_v2 trade own' cp' = Inr hd" "textual p" "j = JObj (hd @ [(''product'', p)])"
        using v2 by (auto simp: body_v2_def bind_res_Inr_iff Let_def dest: product_textual split: if_splits)
      then show ?thesis using obj[of own' cp' hd "[(''product'', p)]"] v2(1) by simp
    next
      case False
      then obtain hd ls where "head_v2 trade own' cp' = Inr hd" "map_res (leg_v2 own' cp') legs = Inr ls" "j = JObj (hd @ [(''legs'', JArr (sort_key dumps ls))])"
        using v2 by (auto simp: body_v2_def bind_res_Inr_iff Let_def)
      moreover have "\<forall>l \<in> set ls. textual l" by (rule map_res_textual[OF calculation(2)]) (rule leg_textual)
      ultimately show ?thesis using obj[of own' cp' hd "[(''legs'', JArr (sort_key dumps ls))]"] v2(1) by simp
    qed
  qed
qed

theorem record_is_textual_witness:
  "\<exists>kvs. canonical_payload [(''uti'', PStr ''U''), (''notional'', PNum (Dec False 5 1))] [] [(''lei'', PStr ''LEIA'')] [(''lei'', PStr ''LEIB'')] 2 = Inr (JObj kvs)
     \<and> dict_get kvs ''schema_version'' = Some (JInt 2)"
proof -
  let ?r = "canonical_payload [(''uti'', PStr ''U''), (''notional'', PNum (Dec False 5 1))] [] [(''lei'', PStr ''LEIA'')] [(''lei'', PStr ''LEIB'')] 2"
  have "case ?r of Inr _ \<Rightarrow> True | Inl _ \<Rightarrow> False" by code_simp
  then obtain j where "?r = Inr j" by (auto split: sum.splits)
  with record_is_textual[OF this] show ?thesis by auto
qed

end
