(* ===== verification/Jobs_Liveness.thy ===== *)
theory Jobs_Liveness
  imports Jobs
begin

section \<open>A worker drains its queue\<close>

text \<open>
  What the loop of \<open>worker.py\<close> achieves over the queue of \<open>jobs/queue.py\<close>: \<open>backlog\<close> counts the jobs a worker could claim, and every pass that
  can read the table either finds none or makes them fewer.
\<close>

definition backlog :: "string list \<Rightarrow> jobs_db \<Rightarrow> nat" where
  "backlog kinds db = length (filter (waiting kinds) (jd_jobs db))"

lemma heartbeat_jobs [simp]: "jd_jobs (heartbeat db name kinds started current now) = jd_jobs db"
  by (simp add: heartbeat_def)

lemma backlog_update:
  assumes "\<And>j. \<not> waiting kinds (f j)"
  shows "backlog kinds (update_job i f db) \<le> backlog kinds db"
    "\<exists>j \<in> set (jd_jobs db). j_id j = i \<and> waiting kinds j \<Longrightarrow> backlog kinds (update_job i f db) < backlog kinds db"
proof -
  have "length (filter (waiting kinds) (map (\<lambda>j. if j_id j = i then f j else j) xs)) \<le> length (filter (waiting kinds) xs)
     \<and> ((\<exists>j \<in> set xs. j_id j = i \<and> waiting kinds j) \<longrightarrow>
          length (filter (waiting kinds) (map (\<lambda>j. if j_id j = i then f j else j) xs)) < length (filter (waiting kinds) xs))" for xs
    using assms by (induction xs) auto
  then show "backlog kinds (update_job i f db) \<le> backlog kinds db"
    "\<exists>j \<in> set (jd_jobs db). j_id j = i \<and> waiting kinds j \<Longrightarrow> backlog kinds (update_job i f db) < backlog kinds db"
    by (simp_all add: backlog_def update_job_def)
qed

lemma backlog_progress: "backlog kinds (foldl (\<lambda>d p. report_progress d i p) db ps) = backlog kinds db"
proof -
  obtain pr where pr: "jd_jobs (foldl (\<lambda>d p. report_progress d i p) db ps) = map (\<lambda>j. if j_id j = i then j\<lparr>j_progress := pr j\<rparr> else j) (jd_jobs db)"
    using foldl_progress by blast
  have "length (filter (waiting kinds) (map (\<lambda>j. if j_id j = i then j\<lparr>j_progress := pr j\<rparr> else j) xs)) = length (filter (waiting kinds) xs)" for xs
    by (induction xs) (auto simp: waiting_def)
  with pr show ?thesis by (simp add: backlog_def)
qed

lemma backlog_settled: "backlog kinds (finish_job db i r now) \<le> backlog kinds db" "backlog kinds (fail_job db i e now) \<le> backlog kinds db"
  unfolding finish_job_def fail_job_def by (rule backlog_update(1), simp add: waiting_def)+

lemma backlog_run: "backlog kinds (fst (run_job db j handlers now)) \<le> backlog kinds db"
  using backlog_settled backlog_progress
  by (auto simp: run_job_def Let_def split: option.splits prod.splits outcome.splits intro: order_trans[OF backlog_settled(1)] order_trans[OF backlog_settled(2)])

lemma backlog_claim:
  assumes "claim db name kinds now = (db', got)"
  shows "if got = None then db' = db \<and> backlog kinds db = 0 else backlog kinds db' < backlog kinds db"
  using assms
proof (cases rule: claim_cases)
  case nothing
  then show ?thesis by (simp add: backlog_def filter_empty_conv)
next
  case (one j)
  have "backlog kinds db' < backlog kinds db" unfolding one(3)
    by (rule backlog_update(2)) (use oldest_Some[OF one(1)] in \<open>auto simp: waiting_def taken_def\<close>)
  then show ?thesis using one(2) by simp
qed

lemma backlog_jobs: "jd_jobs db = jd_jobs db' \<Longrightarrow> backlog kinds db = backlog kinds db'"
  by (simp add: backlog_def)

lemma pass_backlog:
  assumes "w' = loop_pass name kinds started handlers w p" and "pa_readable p"
  shows "backlog kinds (ws_db w') = 0 \<and> ws_ran w' = ws_ran w \<and> backlog kinds (ws_db w) = 0
    \<or> backlog kinds (ws_db w') < backlog kinds (ws_db w) \<and> ws_ran w' = ws_ran w + 1"
proof -
  define db1 where "db1 = (if heartbeat_every_s \<le> pa_now p - ws_beat w then heartbeat (ws_db w) name kinds started None (pa_now p) else ws_db w)"
  have b1: "backlog kinds db1 = backlog kinds (ws_db w)" by (rule backlog_jobs) (simp add: db1_def)
  obtain db2 got where c: "claim db1 name kinds (pa_now p) = (db2, got)" by fastforce
  show ?thesis
  proof (cases got)
    case None
    then show ?thesis using backlog_claim[OF c] None assms c b1 by (simp add: loop_pass_def Let_def db1_def[symmetric])
  next
    case (Some j)
    have "backlog kinds (fst (run_job (heartbeat db2 name kinds started (Some (j_id j)) (pa_now p)) j handlers (pa_after p))) \<le> backlog kinds db2"
      using backlog_run[of kinds "heartbeat db2 name kinds started (Some (j_id j)) (pa_now p)"] backlog_jobs[OF heartbeat_jobs] by metis
    then show ?thesis using backlog_claim[OF c] Some assms c b1 by (simp add: loop_pass_def Let_def db1_def[symmetric])
  qed
qed



end
