(* ===== verification/Signing.thy ===== *)
theory Signing
  imports Canonical Budget
begin

section \<open>Typed data, signatures and party keys\<close>

text \<open>
  \<open>chain/signing.py\<close> and \<open>chain/keys.py\<close>: the EIP-712 messages the two parties of a trade sign, and where the key of a legal
  entity comes from. The cryptography of \<open>eth_account\<close> and \<open>eth_utils\<close> is the record \<open>crypto\<close>, a parameter: addresses in
  checksummed form, accounts from keys, signing and recovery. Hashes and signatures are byte strings.
\<close>

subsection \<open>Messages\<close>

record eip712_domain =
  ed_name :: string
  ed_version :: string
  ed_chain :: int
  ed_contract :: string

record typed_data =
  td_primary :: string
  td_domain :: eip712_domain
  td_message :: "(string \<times> string) list"

text \<open>\<open>cr_checksum\<close>: \<open>to_checksum_address\<close>; \<open>cr_account\<close>: \<open>Account.from_key\<close>, the address and the key's bytes. \<open>None\<close> is a raise.\<close>

record crypto =
  cr_checksum :: "string \<Rightarrow> string option"
  cr_account :: "string \<Rightarrow> (string \<times> string) option"
  cr_sign :: "typed_data \<Rightarrow> string \<Rightarrow> string"
  cr_recover :: "typed_data \<Rightarrow> string \<Rightarrow> string option"
  cr_keccak :: "string \<Rightarrow> string"

definition domain_name :: string where
  "domain_name = ''Rijeka Trade Confirmation''"

definition domain_version :: string where
  "domain_version = ''1''"

definition domain_of :: "int \<Rightarrow> string \<Rightarrow> eip712_domain" where
  "domain_of chain registry = \<lparr>ed_name = domain_name, ed_version = domain_version, ed_chain = chain, ed_contract = registry\<rparr>"

text \<open>The message fields of each primary type, in the order of \<open>_TYPES\<close>.\<close>

definition message_fields :: "string \<Rightarrow> string list" where
  "message_fields primary =
     (if primary = ''TradeConfirmation'' then [''tradeHash'', ''counterparty'']
      else if primary = ''TradeAmendment'' then [''prevHash'', ''newHash'', ''counterparty'']
      else if primary = ''TradeTermination'' then [''tradeHash'', ''counterparty''] else [])"

definition typed :: "crypto \<Rightarrow> int \<Rightarrow> string \<Rightarrow> string \<Rightarrow> (string \<times> string) list \<Rightarrow> typed_data option" where
  "typed cr chain registry primary message =
     map_option (\<lambda>r. \<lparr>td_primary = primary, td_domain = domain_of chain r, td_message = message\<rparr>) (cr_checksum cr registry)"

definition confirmation_typed_data :: "crypto \<Rightarrow> int \<Rightarrow> string \<Rightarrow> string \<Rightarrow> string \<Rightarrow> typed_data option" where
  "confirmation_typed_data cr chain registry h cp =
     (case cr_checksum cr cp of None \<Rightarrow> None
      | Some a \<Rightarrow> typed cr chain registry ''TradeConfirmation'' [(''tradeHash'', h), (''counterparty'', a)])"

definition amendment_typed_data :: "crypto \<Rightarrow> int \<Rightarrow> string \<Rightarrow> string \<Rightarrow> string \<Rightarrow> string \<Rightarrow> typed_data option" where
  "amendment_typed_data cr chain registry prev new cp =
     (case cr_checksum cr cp of None \<Rightarrow> None
      | Some a \<Rightarrow> typed cr chain registry ''TradeAmendment'' [(''prevHash'', prev), (''newHash'', new), (''counterparty'', a)])"

definition termination_typed_data :: "crypto \<Rightarrow> int \<Rightarrow> string \<Rightarrow> string \<Rightarrow> string \<Rightarrow> typed_data option" where
  "termination_typed_data cr chain registry h cp =
     (case cr_checksum cr cp of None \<Rightarrow> None
      | Some a \<Rightarrow> typed cr chain registry ''TradeTermination'' [(''tradeHash'', h), (''counterparty'', a)])"

text \<open>\<open>sign\<close> and \<open>recover\<close> are the library's.\<close>

abbreviation sign :: "crypto \<Rightarrow> typed_data \<Rightarrow> string \<Rightarrow> string" where
  "sign \<equiv> cr_sign"

abbreviation recover :: "crypto \<Rightarrow> typed_data \<Rightarrow> string \<Rightarrow> string option" where
  "recover \<equiv> cr_recover"

lemma message_shapes:
  "confirmation_typed_data cr c r h a = Some td \<Longrightarrow> td_primary td = ''TradeConfirmation'' \<and> map fst (td_message td) = message_fields (td_primary td)"
  "amendment_typed_data cr c r p n a = Some td \<Longrightarrow> td_primary td = ''TradeAmendment'' \<and> map fst (td_message td) = message_fields (td_primary td)"
  "termination_typed_data cr c r h a = Some td \<Longrightarrow> td_primary td = ''TradeTermination'' \<and> map fst (td_message td) = message_fields (td_primary td)"
  by (auto simp: confirmation_typed_data_def amendment_typed_data_def termination_typed_data_def typed_def message_fields_def split: option.splits)

text \<open>No message of one kind is a message of another, and equal messages agree on every value they bind.\<close>

lemma confirmation_inj:
  assumes "confirmation_typed_data cr c r h a = Some td" and "confirmation_typed_data cr c' r' h' a' = Some td"
  shows "h = h' \<and> c = c' \<and> cr_checksum cr r = cr_checksum cr r' \<and> cr_checksum cr a = cr_checksum cr a'"
  using assms by (auto simp: confirmation_typed_data_def typed_def domain_of_def split: option.splits)

lemma amendment_inj:
  assumes "amendment_typed_data cr c r p n a = Some td" and "amendment_typed_data cr c' r' p' n' a' = Some td"
  shows "p = p' \<and> n = n' \<and> c = c' \<and> cr_checksum cr r = cr_checksum cr r' \<and> cr_checksum cr a = cr_checksum cr a'"
  using assms by (auto simp: amendment_typed_data_def typed_def domain_of_def split: option.splits)

lemma kinds_differ:
  "confirmation_typed_data cr c r h a = Some td \<Longrightarrow> amendment_typed_data cr c' r' p n a' \<noteq> Some td"
  "confirmation_typed_data cr c r h a = Some td \<Longrightarrow> termination_typed_data cr c' r' h' a' \<noteq> Some td"
  by (auto dest!: message_shapes)

subsection \<open>Keys\<close>

text \<open>\<open>pk_key = None\<close>: the signer can be named but not signed for.\<close>

record party_key =
  pk_lei :: string
  pk_address :: string
  pk_key :: "string option"
  pk_source :: string

datatype key_error = No_Key | Bad_Key

text \<open>\<open>keccak(text=name).hex()[:14].upper()\<close> of the entity's name when it has no LEI.\<close>

definition key_lei :: "crypto \<Rightarrow> pydict \<Rightarrow> string" where
  "key_lei cr entity =
     (let lei = get entity ''lei'' in
      if truthy lei then py_str lei
      else ''NOLEI-'' @ str_upper (take 14 (hex_str (cr_keccak cr (str_or (get entity ''name''))))))"

definition upper_alnum :: "char \<Rightarrow> bool" where
  "upper_alnum c \<longleftrightarrow> is_digit c \<or> (let n = (of_char c :: nat) in 65 \<le> n \<and> n \<le> 90)"

definition env_key_name :: "string \<Rightarrow> string" where
  "env_key_name lei = ''RIJEKA_CHAIN_KEY_'' @ map (\<lambda>c. if upper_alnum c then c else CHR ''_'') (str_upper lei)"

definition env_of :: "env \<Rightarrow> string \<Rightarrow> string option" where
  "env_of env name = (case dict_get env name of None \<Rightarrow> None | Some v \<Rightarrow> if v = [] then None else Some v)"

definition dev_key_allowed :: "env \<Rightarrow> string \<Rightarrow> bool" where
  "dev_key_allowed env lei =
     (let raw = str_strip (case dict_get env ''RIJEKA_CHAIN_DEV_LEI_PREFIX'' of None \<Rightarrow> [] | Some v \<Rightarrow> v) in
      raw = [] \<or> list_ex (\<lambda>p. str_strip p \<noteq> [] \<and> starts_with (str_upper (str_strip p)) (str_upper lei)) (str_split CHR '','' raw))"

definition account_key :: "crypto \<Rightarrow> string \<Rightarrow> string \<Rightarrow> string \<Rightarrow> (key_error, party_key) res" where
  "account_key cr lei key source =
     (case cr_account cr key of None \<Rightarrow> Inl Bad_Key
      | Some (a, k) \<Rightarrow> Inr \<lparr>pk_lei = lei, pk_address = a, pk_key = Some k, pk_source = source\<rparr>)"

definition resolve_key :: "crypto \<Rightarrow> env \<Rightarrow> pydict \<Rightarrow> (key_error, party_key) res" where
  "resolve_key cr env entity =
     (let lei = key_lei cr entity; name = env_key_name lei in
      case env_of env name of
        Some k \<Rightarrow> account_key cr lei k ''env''
      | None \<Rightarrow>
          (case env_of env (name @ ''_ADDRESS'') of
             Some a \<Rightarrow> (case cr_checksum cr a of None \<Rightarrow> Inl Bad_Key
                          | Some x \<Rightarrow> Inr \<lparr>pk_lei = lei, pk_address = x, pk_key = None, pk_source = ''address-only''\<rparr>)
           | None \<Rightarrow>
               (case env_of env ''RIJEKA_CHAIN_DEV_SEED'' of
                  Some seed \<Rightarrow>
                    if dev_key_allowed env lei
                    then account_key cr lei (cr_keccak cr (''rijeka-dev-party-key|'' @ seed @ ''|'' @ lei)) ''dev''
                    else Inl No_Key
                | None \<Rightarrow> Inl No_Key)))"

text \<open>What a resolved key promises: its address is the one its key signs for.\<close>

definition key_ok :: "crypto \<Rightarrow> party_key \<Rightarrow> bool" where
  "key_ok cr k \<longleftrightarrow> (case pk_key k of None \<Rightarrow> True | Some b \<Rightarrow> \<exists>s. cr_account cr s = Some (pk_address k, b))"

lemma resolve_key_ok: "resolve_key cr env entity = Inr k \<Longrightarrow> key_ok cr k"
  by (auto simp: resolve_key_def account_key_def key_ok_def Let_def split: option.splits if_splits)

lemma resolve_key_lei: "resolve_key cr env entity = Inr k \<Longrightarrow> pk_lei k = key_lei cr entity"
  by (auto simp: resolve_key_def account_key_def Let_def split: option.splits if_splits)

text \<open>A hosted instance signs for its demo entities only. When the allowed prefixes are set, a key derived from the seed is held only for
  an entity whose LEI starts with one of them; a private key from anywhere else was configured for that very LEI.\<close>

theorem seed_keys_scoped:
  assumes "resolve_key cr env entity = Inr k" and "pk_key k \<noteq> None" and "str_strip (the (dict_get env ''RIJEKA_CHAIN_DEV_LEI_PREFIX'')) \<noteq> []"
    and "dict_get env ''RIJEKA_CHAIN_DEV_LEI_PREFIX'' \<noteq> None"
  shows "(pk_source k = ''env'' \<and> dict_get env (env_key_name (pk_lei k)) \<noteq> None)
    \<or> (pk_source k = ''dev'' \<and> (\<exists>p \<in> set (str_split CHR '','' (str_strip (the (dict_get env ''RIJEKA_CHAIN_DEV_LEI_PREFIX'')))).
         str_strip p \<noteq> [] \<and> starts_with (str_upper (str_strip p)) (str_upper (pk_lei k))))"
  using assms
  by (auto simp: resolve_key_def account_key_def dev_key_allowed_def env_of_def list_ex_iff Let_def split: option.splits if_splits)


definition demo_crypto :: crypto where
  "demo_crypto = \<lparr>cr_checksum = Some, cr_account = (\<lambda>s. Some (''0xa'', s)), cr_sign = (\<lambda>td k. k), cr_recover = (\<lambda>td sg. None), cr_keccak = (\<lambda>x. ''k'')\<rparr>"

definition demo_scope :: env where
  "demo_scope = [(''RIJEKA_CHAIN_DEV_SEED'', ''s''), (''RIJEKA_CHAIN_DEV_LEI_PREFIX'', ''DEMO'')]"

theorem seed_keys_scoped_witness:
  "\<exists>k. resolve_key demo_crypto demo_scope [(''lei'', PStr ''DEMO1'')] = Inr k \<and> pk_source k = ''dev'' \<and> starts_with ''DEMO'' (str_upper (pk_lei k))"
proof -
  let ?k = "\<lparr>pk_lei = ''DEMO1'', pk_address = ''0xa'', pk_key = Some ''k'', pk_source = ''dev''\<rparr>"
  have r: "resolve_key demo_crypto demo_scope [(''lei'', PStr ''DEMO1'')] = Inr ?k" by code_simp
  have p: "str_strip (the (dict_get demo_scope ''RIJEKA_CHAIN_DEV_LEI_PREFIX'')) = ''DEMO''"
    "dict_get demo_scope ''RIJEKA_CHAIN_DEV_LEI_PREFIX'' \<noteq> None" by code_simp+
  have sp: "str_split CHR '','' ''DEMO'' = [''DEMO'']" "str_upper (str_strip ''DEMO'') = ''DEMO''" by code_simp+
  have "pk_key ?k \<noteq> None" "str_strip (the (dict_get demo_scope ''RIJEKA_CHAIN_DEV_LEI_PREFIX'')) \<noteq> []" by (simp_all add: p(1))
  from seed_keys_scoped[OF r this p(2)] r show ?thesis unfolding p(1) sp(1) by (auto simp: sp(2))
qed

end
