(* ===== verification/Chain_Records.thy ===== *)
theory Chain_Records
  imports Signing Pending
begin

section \<open>The signed record of a trade\<close>

text \<open>
  The parts of \<open>api/routes/chain.py\<close> that read the book: who the parties of a trade are and which keys sign for them, the canonical
  record and hash of the trade as it stands, its UTI, the changes an amendment applies, and the check of the stored record
  against the book, the signatures and the chain.

  \<open>chain_db\<close> is what the routes read and write: the pending anchors with the ledger of \<open>Pending\<close>, the columns of the trade rows, the
  entities, counterparties and claimed LEIs, and the relayer's budget. The legs of the ledger are rows with all their
  columns. \<open>rules\<close> are the checks the database makes when a changed trade is flushed.
\<close>

subsection \<open>State\<close>

record chain_db =
  cd_pend :: pend_state
  cd_table :: bool
  cd_trades :: "(string \<times> pydict) list"
  cd_entities :: "(string \<times> pydict) list"
  cd_counterparties :: "(string \<times> pydict) list"
  cd_claims :: "(string \<times> string option) list"
  cd_budget :: budget

abbreviation ledger_of :: "chain_db \<Rightarrow> ledger" where
  "ledger_of db \<equiv> ps_ledger (cd_pend db)"

definition with_ledger :: "ledger \<Rightarrow> chain_db \<Rightarrow> chain_db" where
  "with_ledger l db = db\<lparr>cd_pend := (cd_pend db)\<lparr>ps_ledger := l\<rparr>\<rparr>"

definition columns_of :: "chain_db \<Rightarrow> string \<Rightarrow> pydict" where
  "columns_of db tid = (case dict_get (cd_trades db) tid of None \<Rightarrow> [] | Some d \<Rightarrow> d)"

text \<open>The row a column points at; \<open>None\<close> for an empty column or a missing row.\<close>

definition row_of :: "(string \<times> pydict) list \<Rightarrow> pyval \<Rightarrow> pydict option" where
  "row_of table v = (case v of PStr i \<Rightarrow> dict_get table i | _ \<Rightarrow> None)"

type_synonym 'a http = "(http_error, 'a) res"

subsection \<open>Parties\<close>

definition load_parties :: "chain_db \<Rightarrow> pydict \<Rightarrow> (pydict \<times> pydict) http" where
  "load_parties db cols =
     (case (row_of (cd_entities db) (get cols ''own_legal_entity_id''), row_of (cd_counterparties db) (get cols ''counterparty_id'')) of
        (Some own, Some cp) \<Rightarrow> Inr (own, cp) | _ \<Rightarrow> Inl (Http 422))"

definition identity :: "pydict \<Rightarrow> pydict" where
  "identity le = [(''lei'', get le ''lei''), (''name'', get le ''name'')]"

definition cp_identity :: "chain_db \<Rightarrow> pydict \<Rightarrow> pydict" where
  "cp_identity db cp =
     (case (if truthy (get cp ''legal_entity_id'') then row_of (cd_entities db) (get cp ''legal_entity_id'') else None) of
        Some le \<Rightarrow> identity le | None \<Rightarrow> [(''lei'', PNone), (''name'', get cp ''name'')])"

text \<open>The record both parties sign carries the owner's legs only.\<close>

definition own_legs :: "ledger \<Rightarrow> trade_row \<Rightarrow> pydict list" where
  "own_legs l t = map (snd \<circ> snd) (filter (\<lambda>x. fst x = t_id t \<and> get (snd (snd x)) ''user_id'' = PStr (t_user t)) (l_legs l))"

record parts =
  pt_own :: pydict
  pt_cp :: pydict
  pt_legs :: "pydict list"

definition trade_parts :: "chain_db \<Rightarrow> trade_row \<Rightarrow> parts http" where
  "trade_parts db t =
     bind_res (load_parties db (columns_of db (t_id t))) (\<lambda>(own, cp).
       Inr \<lparr>pt_own = identity own, pt_cp = cp_identity db cp, pt_legs = own_legs (ledger_of db) t\<rparr>)"

text \<open>Only a \<open>ValueError\<close> is caught.\<close>

definition canonical_for :: "crypto \<Rightarrow> chain_db \<Rightarrow> trade_row \<Rightarrow> int \<Rightarrow> (json \<times> string) http" where
  "canonical_for cr db t version =
     bind_res (trade_parts db t) (\<lambda>p.
     case canonical_payload (columns_of db (t_id t)) (pt_legs p) (pt_own p) (pt_cp p) version of
       Inl Value_Error \<Rightarrow> Inl (Http 422)
     | Inl _ \<Rightarrow> Inl Crash
     | Inr payload \<Rightarrow> Inr (payload, trade_hash (cr_keccak cr) payload))"

definition schema_version :: int where "schema_version = 2"

text \<open>\<open>int((att or {}).get("schema_version") or 1)\<close>.\<close>

definition attested_version :: "pydict \<Rightarrow> int http" where
  "attested_version att =
     (let v = get att ''schema_version'' in
      if \<not> truthy v then Inr 1 else case int_or_0 v of Inl _ \<Rightarrow> Inl Crash | Inr n \<Rightarrow> Inr n)"

definition set_columns :: "string \<Rightarrow> pydict \<Rightarrow> chain_db \<Rightarrow> chain_db" where
  "set_columns tid cols db = db\<lparr>cd_trades := dict_set tid cols (cd_trades db)\<rparr>"

text \<open>\<open>fresh\<close> is \<open>uuid4().hex\<close>. The new UTI is in the session, not committed.\<close>

definition ensure_uti :: "chain_db \<Rightarrow> trade_row \<Rightarrow> string \<Rightarrow> chain_db http" where
  "ensure_uti db t fresh =
     (let cols = columns_of db (t_id t) in
      if truthy (get cols ''uti'') then Inr db
      else (case row_of (cd_entities db) (get cols ''own_legal_entity_id'') of
              None \<Rightarrow> Inl (Http 422)
            | Some own \<Rightarrow>
                if \<not> truthy (get own ''lei'') then Inl (Http 422)
                else Inr (set_columns (t_id t) (dict_set ''uti'' (PStr (str_upper (py_str (get own ''lei'')) @ str_upper fresh)) cols) db)))"

definition hexb :: "string \<Rightarrow> string" where
  "hexb b = ''0x'' @ hex_str b"

text \<open>\<open>bytes.fromhex\<close>: pairs of hexadecimal digits in either case; white space between the pairs is skipped.\<close>

definition hex_digit :: "char \<Rightarrow> nat option" where
  "hex_digit c =
     (let n = (of_char c :: nat) in
      if 48 \<le> n \<and> n \<le> 57 then Some (n - 48) else if 97 \<le> n \<and> n \<le> 102 then Some (n - 87)
      else if 65 \<le> n \<and> n \<le> 70 then Some (n - 55) else None)"

fun unhex :: "string \<Rightarrow> string option" where
  "unhex [] = Some []"
| "unhex [c] = (if is_space c then Some [] else None)"
| "unhex (a # b # cs) =
     (if is_space a then unhex (b # cs)
      else (case (hex_digit a, hex_digit b) of
              (Some x, Some y) \<Rightarrow> map_option ((#) (char_of (16 * x + y))) (unhex cs)
            | _ \<Rightarrow> None))"

definition strip_0x :: "string \<Rightarrow> string" where
  "strip_0x s = (if starts_with ''0x'' s then drop 2 s else s)"

lemma hex_digit_hex_char: "n < 16 \<Longrightarrow> hex_digit (hex_char n) = Some n"
  by (auto simp: hex_digit_def hex_char_def Let_def)

lemma hex_char_not_space: "n < 16 \<Longrightarrow> \<not> is_space (hex_char n)"
  by (auto simp: is_space_def hex_char_def)

lemma unhex_hex_str: "unhex (hex_str bs) = Some bs"
proof (induction bs)
  case (Cons c bs)
  have n: "(of_char c :: nat) < 256" by simp
  then have d: "(of_char c :: nat) div 16 < 16" "(of_char c :: nat) mod 16 < 16" by (simp_all add: less_mult_imp_div_less)
  have "char_of (16 * ((of_char c :: nat) div 16) + (of_char c :: nat) mod 16) = c" by simp
  with Cons d show ?case by (simp add: hex_str_def hex_digit_hex_char hex_char_not_space Let_def)
qed (simp add: hex_str_def)

lemma unhex_hexb: "unhex (drop 2 (hexb bs)) = Some bs" "unhex (strip_0x (hexb bs)) = Some bs"
  by (simp_all add: hexb_def unhex_hex_str strip_0x_def)

text \<open>A firm's registered address, for verification only.\<close>

definition registered_signer :: "crypto \<Rightarrow> chain_db \<Rightarrow> pyval \<Rightarrow> party_key option http" where
  "registered_signer cr db lei =
     (if \<not> truthy lei then Inr None
      else (case dict_get (cd_claims db) (py_str lei) of
              Some (Some (c # cs)) \<Rightarrow>
                (case cr_checksum cr (c # cs) of None \<Rightarrow> Inl Crash
                 | Some a \<Rightarrow> Inr (Some \<lparr>pk_lei = py_str lei, pk_address = a, pk_key = None, pk_source = ''registered''\<rparr>))
            | _ \<Rightarrow> Inr None))"

definition key_or_422 :: "(key_error, party_key) res \<Rightarrow> party_key http" where
  "key_or_422 r = (case r of Inr k \<Rightarrow> Inr k | Inl No_Key \<Rightarrow> Inl (Http 422) | Inl Bad_Key \<Rightarrow> Inl Crash)"

definition resolve_parties :: "crypto \<Rightarrow> env \<Rightarrow> chain_db \<Rightarrow> trade_row \<Rightarrow> (party_key \<times> party_key) http" where
  "resolve_parties cr env db t =
     bind_res (trade_parts db t) (\<lambda>p.
     bind_res (key_or_422 (resolve_key cr env (pt_own p))) (\<lambda>own.
     bind_res (registered_signer cr db (get (pt_cp p) ''lei'')) (\<lambda>reg.
     bind_res (case reg of Some k \<Rightarrow> Inr k | None \<Rightarrow> key_or_422 (resolve_key cr env (pt_cp p))) (\<lambda>cp.
     bind_res (require (pk_key own \<noteq> None) (Http 422)) (\<lambda>_.
     bind_res (require (pk_address own \<noteq> pk_address cp) (Http 422)) (\<lambda>_.
       Inr (own, cp)))))))"

subsection \<open>Changes\<close>

text \<open>\<open>date.fromisoformat\<close> of Python 3.11: a calendar date or an ISO week date, with or without dashes.\<close>

definition num_at :: "nat \<Rightarrow> nat \<Rightarrow> string \<Rightarrow> int option" where
  "num_at i n s = (let ds = take n (drop i s) in if length ds = n \<and> list_all is_digit ds then Some (int (digits_val ds)) else None)"

definition mk_date :: "int option \<Rightarrow> int option \<Rightarrow> int option \<Rightarrow> date option" where
  "mk_date y m d = (case (y, m, d) of (Some y', Some m', Some d') \<Rightarrow> if valid_date (Date y' m' d') then Some (Date y' m' d') else None | _ \<Rightarrow> None)"

definition add_days :: "int \<Rightarrow> date \<Rightarrow> date option" where
  "add_days n d = (((\<lambda>x. case x of None \<Rightarrow> None | Some e \<Rightarrow> (if 0 \<le> n then next_day e else prev_day e)) ^^ nat \<bar>n\<bar>) (Some d))"

definition week_date :: "int option \<Rightarrow> int option \<Rightarrow> int option \<Rightarrow> date option" where
  "week_date y w d =
     (case (y, w, d) of
        (Some y', Some w', Some d') \<Rightarrow>
          if y' < 1 \<or> d' < 1 \<or> 7 < d' \<or> w' < 1 then None
          else (let jan4 = Date y' 1 4; first = weekday (Date y' 1 1); long = first = 3 \<or> (first = 2 \<and> is_leap y') in
                if 53 < w' \<or> (w' = 53 \<and> \<not> long) then None else add_days (7 * (w' - 1) + (d' - 1) - weekday jan4) jan4)
      | _ \<Rightarrow> None)"

definition date_fromisoformat :: "string \<Rightarrow> date option" where
  "date_fromisoformat s =
     (let n = length s; dash = (\<lambda>i. i < n \<and> s ! i = CHR ''-''); week = (\<lambda>i. i < n \<and> s ! i = CHR ''W'') in
      if n = 10 \<and> dash 4 \<and> dash 7 \<and> \<not> week 5 then mk_date (num_at 0 4 s) (num_at 5 2 s) (num_at 8 2 s)
      else if n = 8 \<and> \<not> dash 4 \<and> \<not> week 4 then mk_date (num_at 0 4 s) (num_at 4 2 s) (num_at 6 2 s)
      else if n = 8 \<and> dash 4 \<and> week 5 then week_date (num_at 0 4 s) (num_at 6 2 s) (Some 1)
      else if n = 10 \<and> dash 4 \<and> week 5 \<and> dash 8 then week_date (num_at 0 4 s) (num_at 6 2 s) (num_at 9 1 s)
      else if n = 7 \<and> week 4 then week_date (num_at 0 4 s) (num_at 5 2 s) (Some 1)
      else if n = 8 \<and> week 4 then week_date (num_at 0 4 s) (num_at 5 2 s) (num_at 7 1 s)
      else None)"

definition trade_date_fields :: "string list" where
  "trade_date_fields = [''trade_date'', ''effective_date'', ''maturity_date'']"

definition leg_date_fields :: "string list" where
  "leg_date_fields = [''effective_date'', ''maturity_date'', ''first_period_start'', ''last_period_end'']"

definition leg_num_fields :: "string list" where
  "leg_num_fields = [''notional'', ''fixed_rate'', ''spread'', ''leverage'']"

definition leg_amendable :: "string list" where
  "leg_amendable = leg_fields_v2 @ [''direction'', ''forecast_curve_id'', ''terms'', ''embedded_options'']"

text \<open>\<open>Crash\<close>: a date, a number or a lag that does not parse is a \<open>ValueError\<close> or an \<open>InvalidOperation\<close> nobody catches.\<close>

definition coerce :: "string \<Rightarrow> pyval \<Rightarrow> string list \<Rightarrow> string list \<Rightarrow> pyval http" where
  "coerce field v dates nums =
     (case v of
        PNone \<Rightarrow> Inr PNone
      | _ \<Rightarrow>
          if field \<in> set dates \<and> (case v of PStr _ \<Rightarrow> True | _ \<Rightarrow> False)
          then (case date_fromisoformat (py_str v) of None \<Rightarrow> Inl Crash | Some d \<Rightarrow> Inr (PDate d))
          else if field \<in> set nums then (case to_decimal v of None \<Rightarrow> Inl Crash | Some d \<Rightarrow> Inr (PNum d))
          else if field = ''payment_lag''
          then (case (case v of PStr [] \<Rightarrow> Inl Value_Error | PList [] \<Rightarrow> Inl Type_Error | PDict [] \<Rightarrow> Inl Type_Error | _ \<Rightarrow> int_or_0 v) of Inl _ \<Rightarrow> Inl Crash | Inr n \<Rightarrow> Inr (int_val n))
          else Inr v)"

fun set_fields :: "string list \<Rightarrow> string list \<Rightarrow> string list \<Rightarrow> (string \<times> pyval) list \<Rightarrow> pydict \<Rightarrow> pydict http" where
  "set_fields allowed dates nums [] row = Inr row"
| "set_fields allowed dates nums ((k, v) # kvs) row =
     (if k \<notin> set allowed then Inl (Http 422)
      else bind_res (coerce k v dates nums) (\<lambda>x. set_fields allowed dates nums kvs (dict_set k x row)))"

type_synonym leg_rows = "(string \<times> int \<times> pydict) list"

definition on_leg :: "string \<Rightarrow> string \<Rightarrow> string \<times> int \<times> pydict \<Rightarrow> bool" where
  "on_leg tid lid x \<longleftrightarrow> fst x = tid \<and> py_str (get (snd (snd x)) ''id'') = lid"

fun set_legs :: "string \<Rightarrow> pyval list \<Rightarrow> leg_rows \<Rightarrow> leg_rows http" where
  "set_legs tid [] legs = Inr legs"
| "set_legs tid (u # us) legs =
     (case u of
        PDict upd \<Rightarrow>
          (let lid = str_or (get upd ''id'') in
           case List.find (on_leg tid lid) legs of
             None \<Rightarrow> Inl (Http 422)
           | Some x \<Rightarrow>
               bind_res (set_fields leg_amendable leg_date_fields leg_num_fields (filter (\<lambda>kv. fst kv \<noteq> ''id'') upd) (snd (snd x))) (\<lambda>row.
                 set_legs tid us (map (\<lambda>y. if on_leg tid lid y then (fst y, fst (snd y), row) else y) legs)))
      | _ \<Rightarrow> Inl Crash)"

definition dict_or_none :: "pyval \<Rightarrow> pydict http" where
  "dict_or_none v = (if \<not> truthy v then Inr [] else case v of PDict d \<Rightarrow> Inr d | _ \<Rightarrow> Inl Crash)"

definition list_or_none :: "pyval \<Rightarrow> pyval list http" where
  "list_or_none v = (if \<not> truthy v then Inr [] else case v of PList xs \<Rightarrow> Inr xs | _ \<Rightarrow> Inl Crash)"

definition apply_changes :: "(pydict \<Rightarrow> pydict list \<Rightarrow> bool) \<Rightarrow> chain_db \<Rightarrow> trade_row \<Rightarrow> pydict \<Rightarrow> chain_db http" where
  "apply_changes rules db t changes =
     bind_res (require (truthy (get changes ''trade'') \<or> truthy (get changes ''legs'')) (Http 422)) (\<lambda>_.
     bind_res (dict_or_none (get changes ''trade'')) (\<lambda>tc.
     bind_res (set_fields trade_fields_v2 trade_date_fields [''notional''] tc (columns_of db (t_id t))) (\<lambda>cols.
     bind_res (list_or_none (get changes ''legs'')) (\<lambda>us.
     bind_res (set_legs (t_id t) us (l_legs (ledger_of db))) (\<lambda>legs.
       if rules cols (map (snd \<circ> snd) (filter (\<lambda>x. fst x = t_id t) legs))
       then Inr (set_columns (t_id t) cols (with_ledger ((ledger_of db)\<lparr>l_legs := legs\<rparr>) db)) else Inl Crash)))))"

text \<open>The anchored, open record of a trade and its hash.\<close>

definition current_record :: "ledger \<Rightarrow> trade_row \<Rightarrow> (pydict \<times> string) http" where
  "current_record l t =
     (case anchored_attestation l (t_id t) of
        None \<Rightarrow> Inl (Http 409)
      | Some att \<Rightarrow>
          if is_terminated (Some att) then Inl (Http 409)
          else (case get att ''trade_hash'' of
                  PStr s \<Rightarrow> (case unhex (drop 2 s) of None \<Rightarrow> Inl Crash | Some h \<Rightarrow> Inr (att, h))
                | _ \<Rightarrow> Inl Crash))"

record preview =
  pv_att :: pydict
  pv_prev :: string
  pv_payload :: json
  pv_new :: string

text \<open>The changes are applied in a savepoint that is rolled back: only the values survive.\<close>

definition preview_amendment :: "crypto \<Rightarrow> (pydict \<Rightarrow> pydict list \<Rightarrow> bool) \<Rightarrow> chain_db \<Rightarrow> trade_row \<Rightarrow> pydict \<Rightarrow> preview http" where
  "preview_amendment cr rules db t changes =
     bind_res (current_record (ledger_of db) t) (\<lambda>(att, prev).
     bind_res (apply_changes rules db t changes) (\<lambda>db'.
     bind_res (attested_version att) (\<lambda>v.
     bind_res (canonical_for cr db' t v) (\<lambda>(payload, new).
       if new = prev then Inl (Http 422) else Inr \<lparr>pv_att = att, pv_prev = prev, pv_payload = payload, pv_new = new\<rparr>))))"

end
