(* ===== verification/Registry.thy ===== *)
theory Registry
  imports Signing "HOL-Library.Word"
begin

section \<open>The registry contract\<close>

text \<open>
  \<open>chain/src/TradeConfirmationRegistry.sol\<close>, the contract the back end anchors its confirmations in: its storage, its three mutations with
  every check in the order of the source, and the runs of it. Hashes are byte strings of 32 bytes, addresses are in their checksummed text,
  block time and number are \<open>uint256\<close> and stored as \<open>uint64\<close>. A digest is the typed data it is the digest of; \<open>ecrecover\<close> is the
  precompile, a parameter that returns the zero address for an invalid signature. A revert leaves the storage unchanged.
\<close>

subsection \<open>Storage\<close>

datatype reg_status = Reg_None | Reg_Confirmed | Reg_Superseded | Reg_Terminated

record reg_record =
  rg_a :: string
  rg_b :: string
  rg_at :: "64 word"
  rg_block :: "64 word"
  rg_prev :: string
  rg_status :: reg_status

type_synonym registry = "string \<Rightarrow> reg_record"

definition zero_hash :: string where
  "zero_hash = replicate 32 (CHR 0x00)"

definition zero_address :: string where
  "zero_address = ''0x'' @ replicate 40 (CHR ''0'')"

definition no_record :: reg_record where
  "no_record = \<lparr>rg_a = zero_address, rg_b = zero_address, rg_at = 0, rg_block = 0, rg_prev = zero_hash, rg_status = Reg_None\<rparr>"

definition empty_registry :: registry where
  "empty_registry = (\<lambda>_. no_record)"

datatype revert = Already_Recorded string | Not_Confirmed string | Same_Party | Zero_Address | Zero_Hash
  | Bad_Signature string string | Invalid_Signature_Length | Invalid_Signature_S

text \<open>What a call sees of its environment: the contract's domain, the block, the precompile.\<close>

record call_env =
  ce_domain :: eip712_domain
  ce_time :: "256 word"
  ce_number :: "256 word"
  ce_ecrecover :: "typed_data \<Rightarrow> 8 word \<Rightarrow> string \<Rightarrow> string \<Rightarrow> string"

subsection \<open>Digests\<close>

definition confirmation_digest :: "call_env \<Rightarrow> string \<Rightarrow> string \<Rightarrow> typed_data" where
  "confirmation_digest ce h cp = \<lparr>td_primary = ''TradeConfirmation'', td_domain = ce_domain ce, td_message = [(''tradeHash'', h), (''counterparty'', cp)]\<rparr>"

definition amendment_digest :: "call_env \<Rightarrow> string \<Rightarrow> string \<Rightarrow> string \<Rightarrow> typed_data" where
  "amendment_digest ce prev new cp =
     \<lparr>td_primary = ''TradeAmendment'', td_domain = ce_domain ce, td_message = [(''prevHash'', prev), (''newHash'', new), (''counterparty'', cp)]\<rparr>"

definition termination_digest :: "call_env \<Rightarrow> string \<Rightarrow> string \<Rightarrow> typed_data" where
  "termination_digest ce h cp = \<lparr>td_primary = ''TradeTermination'', td_domain = ce_domain ce, td_message = [(''tradeHash'', h), (''counterparty'', cp)]\<rparr>"

subsection \<open>Signatures\<close>

text \<open>The 65 bytes \<open>r || s || v\<close>; \<open>s\<close> as a \<open>uint256\<close>.\<close>

definition byte_at :: "string \<Rightarrow> nat \<Rightarrow> 8 word" where
  "byte_at sig i = word_of_nat (of_char (sig ! i))"

definition word_of_bytes :: "string \<Rightarrow> 256 word" where
  "word_of_bytes bs = foldl (\<lambda>w c. w * 256 + word_of_nat (of_char c)) 0 bs"

definition max_s :: "256 word" where
  "max_s = 0x7FFFFFFFFFFFFFFFFFFFFFFFFFFFFFFF5D576E7357A4501DDFE92F46681B20A0"

definition recover_sig :: "call_env \<Rightarrow> typed_data \<Rightarrow> string \<Rightarrow> (revert, string) res" where
  "recover_sig ce digest sig =
     (if length sig \<noteq> 65 then Inl Invalid_Signature_Length
      else (let r = take 32 sig; s = take 32 (drop 32 sig); v0 = byte_at sig 64; v = (if v0 < 27 then v0 + 27 else v0) in
            if max_s < word_of_bytes s then Inl Invalid_Signature_S
            else (let signer = ce_ecrecover ce digest v r s in
                  if signer = zero_address then Inl (Bad_Signature zero_address signer) else Inr signer)))"

definition require_signer :: "call_env \<Rightarrow> string \<Rightarrow> typed_data \<Rightarrow> string \<Rightarrow> (revert, unit) res" where
  "require_signer ce expected digest sig =
     bind_res (recover_sig ce digest sig) (\<lambda>a. require (a = expected) (Bad_Signature expected a))"

subsection \<open>Mutations\<close>

definition check_parties :: "string \<Rightarrow> string \<Rightarrow> string \<Rightarrow> (revert, unit) res" where
  "check_parties h a b =
     (if h = zero_hash then Inl Zero_Hash
      else if a = zero_address \<or> b = zero_address then Inl Zero_Address
      else if a = b then Inl Same_Party else Inr ())"

definition record_confirmed :: "call_env \<Rightarrow> string \<Rightarrow> string \<Rightarrow> string \<Rightarrow> string \<Rightarrow> registry \<Rightarrow> registry" where
  "record_confirmed ce h a b prev reg =
     reg(h := \<lparr>rg_a = a, rg_b = b, rg_at = ucast (ce_time ce), rg_block = ucast (ce_number ce), rg_prev = prev, rg_status = Reg_Confirmed\<rparr>)"

definition confirm_reg :: "call_env \<Rightarrow> string \<Rightarrow> string \<Rightarrow> string \<Rightarrow> string \<Rightarrow> string \<Rightarrow> registry \<Rightarrow> (revert, registry) res" where
  "confirm_reg ce h a b sig_a sig_b reg =
     bind_res (check_parties h a b) (\<lambda>_.
     bind_res (require (rg_status (reg h) = Reg_None) (Already_Recorded h)) (\<lambda>_.
     bind_res (require_signer ce a (confirmation_digest ce h b) sig_a) (\<lambda>_.
     bind_res (require_signer ce b (confirmation_digest ce h a) sig_b) (\<lambda>_.
       Inr (record_confirmed ce h a b zero_hash reg)))))"

definition amend_reg :: "call_env \<Rightarrow> string \<Rightarrow> string \<Rightarrow> string \<Rightarrow> string \<Rightarrow> registry \<Rightarrow> (revert, registry) res" where
  "amend_reg ce prev new sig_a sig_b reg =
     (let a = rg_a (reg prev); b = rg_b (reg prev) in
      bind_res (require (rg_status (reg prev) = Reg_Confirmed) (Not_Confirmed prev)) (\<lambda>_.
      bind_res (require (new \<noteq> zero_hash) Zero_Hash) (\<lambda>_.
      bind_res (require (rg_status (reg new) = Reg_None) (Already_Recorded new)) (\<lambda>_.
      bind_res (require_signer ce a (amendment_digest ce prev new b) sig_a) (\<lambda>_.
      bind_res (require_signer ce b (amendment_digest ce prev new a) sig_b) (\<lambda>_.
        Inr (record_confirmed ce new a b prev (reg(prev := (reg prev)\<lparr>rg_status := Reg_Superseded\<rparr>)))))))))"

definition terminate_reg :: "call_env \<Rightarrow> string \<Rightarrow> string \<Rightarrow> string \<Rightarrow> registry \<Rightarrow> (revert, registry) res" where
  "terminate_reg ce h sig_a sig_b reg =
     (let a = rg_a (reg h); b = rg_b (reg h) in
      bind_res (require (rg_status (reg h) = Reg_Confirmed) (Not_Confirmed h)) (\<lambda>_.
      bind_res (require_signer ce a (termination_digest ce h b) sig_a) (\<lambda>_.
      bind_res (require_signer ce b (termination_digest ce h a) sig_b) (\<lambda>_.
        Inr (reg(h := (reg h)\<lparr>rg_status := Reg_Terminated\<rparr>))))))"

subsection \<open>Runs\<close>

text \<open>Anyone may call, at any block: a run is a sequence of calls that did not revert.\<close>

inductive reg_step :: "registry \<Rightarrow> registry \<Rightarrow> bool" where
  confirming: "confirm_reg ce h a b sa sb reg = Inr reg' \<Longrightarrow> reg_step reg reg'"
| amending: "amend_reg ce prev new sa sb reg = Inr reg' \<Longrightarrow> reg_step reg reg'"
| terminating: "terminate_reg ce h sa sb reg = Inr reg' \<Longrightarrow> reg_step reg reg'"

inductive_cases reg_stepE: "reg_step reg reg'"

lemma confirm_regE:
  assumes "confirm_reg ce h a b sa sb reg = Inr reg'"
  obtains "h \<noteq> zero_hash" "a \<noteq> zero_address" "b \<noteq> zero_address" "a \<noteq> b" "rg_status (reg h) = Reg_None"
    "recover_sig ce (confirmation_digest ce h b) sa = Inr a" "recover_sig ce (confirmation_digest ce h a) sb = Inr b"
    "reg' = record_confirmed ce h a b zero_hash reg"
  using assms by (auto simp: confirm_reg_def check_parties_def require_signer_def bind_res_Inr_iff split: if_splits)

lemma amend_regE:
  assumes "amend_reg ce prev new sa sb reg = Inr reg'"
  obtains "rg_status (reg prev) = Reg_Confirmed" "new \<noteq> zero_hash" "rg_status (reg new) = Reg_None" "new \<noteq> prev"
    "recover_sig ce (amendment_digest ce prev new (rg_b (reg prev))) sa = Inr (rg_a (reg prev))"
    "recover_sig ce (amendment_digest ce prev new (rg_a (reg prev))) sb = Inr (rg_b (reg prev))"
    "reg' = record_confirmed ce new (rg_a (reg prev)) (rg_b (reg prev)) prev (reg(prev := (reg prev)\<lparr>rg_status := Reg_Superseded\<rparr>))"
proof -
  have "rg_status (reg prev) = Reg_Confirmed" "rg_status (reg new) = Reg_None"
    using assms by (auto simp: amend_reg_def bind_res_Inr_iff Let_def)
  then have "new \<noteq> prev" by force
  then show ?thesis using assms that by (auto simp: amend_reg_def require_signer_def bind_res_Inr_iff Let_def)
qed

lemma terminate_regE:
  assumes "terminate_reg ce h sa sb reg = Inr reg'"
  obtains "rg_status (reg h) = Reg_Confirmed"
    "recover_sig ce (termination_digest ce h (rg_b (reg h))) sa = Inr (rg_a (reg h))"
    "recover_sig ce (termination_digest ce h (rg_a (reg h))) sb = Inr (rg_b (reg h))"
    "reg' = reg(h := (reg h)\<lparr>rg_status := Reg_Terminated\<rparr>)"
  using assms by (auto simp: terminate_reg_def require_signer_def bind_res_Inr_iff Let_def)

text \<open>A record is written once and then only changes its status, and a closed record keeps it.\<close>

definition reg_kept :: "registry \<Rightarrow> registry \<Rightarrow> bool" where
  "reg_kept reg reg' \<longleftrightarrow> (\<forall>h. rg_status (reg h) \<noteq> Reg_None \<longrightarrow>
     (\<exists>st. st \<noteq> Reg_None \<and> reg' h = (reg h)\<lparr>rg_status := st\<rparr> \<and> (rg_status (reg h) \<noteq> Reg_Confirmed \<longrightarrow> st = rg_status (reg h))))"

lemma reg_kept_refl [simp]: "reg_kept reg reg"
  by (force simp: reg_kept_def)

lemma reg_kept_trans: "reg_kept r1 r2 \<Longrightarrow> reg_kept r2 r3 \<Longrightarrow> reg_kept r1 r3"
  unfolding reg_kept_def by (metis (no_types, lifting) reg_record.surjective reg_record.update_convs(6) reg_record.select_convs(6))

lemma reg_kept_new: "rg_status (reg h) = Reg_None \<Longrightarrow> reg_kept reg (record_confirmed ce h a b p reg)"
  by (force simp: reg_kept_def record_confirmed_def)

lemma reg_kept_close: "rg_status (reg h) = Reg_Confirmed \<Longrightarrow> st \<noteq> Reg_None \<Longrightarrow> reg_kept reg (reg(h := (reg h)\<lparr>rg_status := st\<rparr>))"
  by (force simp: reg_kept_def)

lemma reg_step_kept: "reg_step reg reg' \<Longrightarrow> reg_kept reg reg'"
proof (induction rule: reg_step.induct)
  case (confirming ce h a b sa sb reg reg')
  then show ?case by (elim confirm_regE) (simp add: reg_kept_new)
next
  case (amending ce prev new sa sb reg reg')
  then show ?case
    by (elim amend_regE) (auto intro!: reg_kept_trans[OF reg_kept_close reg_kept_new])
next
  case (terminating ce h sa sb reg reg')
  then show ?case by (elim terminate_regE) (auto intro!: reg_kept_close simp del: fun_upd_apply)
qed

lemma reg_run_kept: "reg_step\<^sup>*\<^sup>* reg reg' \<Longrightarrow> reg_kept reg reg'"
  by (induction rule: rtranclp_induct) (auto intro: reg_kept_trans reg_step_kept)


subsection \<open>Lineage\<close>

definition recorded_at :: "registry \<Rightarrow> string \<Rightarrow> bool" where
  "recorded_at reg h \<longleftrightarrow> rg_status (reg h) \<noteq> Reg_None"

definition amends :: "registry \<Rightarrow> (string \<times> string) set" where
  "amends reg = {(p, h). recorded_at reg h \<and> rg_prev (reg h) = p \<and> p \<noteq> zero_hash}"

definition parties_ok :: "registry \<Rightarrow> bool" where
  "parties_ok reg \<longleftrightarrow> (\<forall>h. recorded_at reg h \<longrightarrow>
     h \<noteq> zero_hash \<and> rg_a (reg h) \<noteq> zero_address \<and> rg_b (reg h) \<noteq> zero_address \<and> rg_a (reg h) \<noteq> rg_b (reg h))"

definition linked :: "registry \<Rightarrow> string \<Rightarrow> string \<Rightarrow> bool" where
  "linked reg p h \<longleftrightarrow> rg_status (reg p) = Reg_Superseded \<and> rg_a (reg p) = rg_a (reg h) \<and> rg_b (reg p) = rg_b (reg h)"

definition lineage_ok :: "registry \<Rightarrow> bool" where
  "lineage_ok reg \<longleftrightarrow> acyclic (amends reg) \<and> (\<forall>p h. (p, h) \<in> amends reg \<longrightarrow> linked reg p h)
     \<and> (\<forall>p. rg_status (reg p) = Reg_Superseded \<longrightarrow> (\<exists>h. (p, h) \<in> amends reg))
     \<and> (\<forall>p h h'. (p, h) \<in> amends reg \<longrightarrow> (p, h') \<in> amends reg \<longrightarrow> h = h')"

lemma lineageD:
  "lineage_ok reg \<Longrightarrow> (p, h) \<in> amends reg \<Longrightarrow> linked reg p h"
  "lineage_ok reg \<Longrightarrow> rg_status (reg p) = Reg_Superseded \<Longrightarrow> \<exists>h. (p, h) \<in> amends reg"
  "lineage_ok reg \<Longrightarrow> (p, h) \<in> amends reg \<Longrightarrow> (p, h') \<in> amends reg \<Longrightarrow> h = h'"
  "lineage_ok reg \<Longrightarrow> acyclic (amends reg)"
  by (simp_all add: lineage_ok_def)

definition reg_ok :: "registry \<Rightarrow> bool" where
  "reg_ok reg \<longleftrightarrow> parties_ok reg \<and> lineage_ok reg"

lemma empty_registry_ok: "reg_ok empty_registry"
  by (simp add: reg_ok_def parties_ok_def lineage_ok_def amends_def recorded_at_def empty_registry_def no_record_def acyclic_def)

lemma amends_confirm:
  "rg_status (reg h) = Reg_None \<Longrightarrow> amends (record_confirmed ce h a b zero_hash reg) = amends reg"
  by (auto simp: amends_def recorded_at_def record_confirmed_def split: if_splits)

lemma amends_status:
  "recorded_at reg h \<Longrightarrow> st \<noteq> Reg_None \<Longrightarrow> amends (reg(h := (reg h)\<lparr>rg_status := st\<rparr>)) = amends reg"
  by (auto simp: amends_def recorded_at_def split: if_splits)

lemma amends_amend:
  assumes "rg_status (reg new) = Reg_None" and "prev \<noteq> zero_hash"
  shows "amends (record_confirmed ce new a b prev reg) = insert (prev, new) (amends reg)"
  using assms by (auto simp: amends_def recorded_at_def record_confirmed_def split: if_splits)

lemma no_successor: "lineage_ok reg \<Longrightarrow> rg_status (reg h) \<noteq> Reg_Superseded \<Longrightarrow> (h, h') \<notin> amends reg"
  by (auto simp: linked_def dest: lineageD(1))

lemma no_predecessor: "rg_status (reg h) = Reg_None \<Longrightarrow> (p, h) \<notin> amends reg"
  by (simp add: amends_def recorded_at_def)

lemma lineage_transfer:
  assumes ok: "lineage_ok reg" and am: "amends reg' = amends reg"
    and same: "\<And>h. recorded_at reg h \<Longrightarrow> rg_a (reg' h) = rg_a (reg h) \<and> rg_b (reg' h) = rg_b (reg h)"
    and sup: "\<And>h. rg_status (reg' h) = Reg_Superseded \<longleftrightarrow> rg_status (reg h) = Reg_Superseded"
  shows "lineage_ok reg'"
proof -
  have "linked reg' p h" if e: "(p, h) \<in> amends reg" for p h
  proof -
    from lineageD(1)[OF ok e] have "recorded_at reg p" "recorded_at reg h" using e by (auto simp: linked_def amends_def recorded_at_def)
    with lineageD(1)[OF ok e] same sup show ?thesis by (simp add: linked_def)
  qed
  then show ?thesis using lineageD(2-4)[OF ok] unfolding lineage_ok_def am sup by blast
qed

lemma reg_step_ok:
  assumes "reg_step reg reg'" and "reg_ok reg"
  shows "reg_ok reg'"
  using assms
proof (induction rule: reg_step.induct)
  case (confirming ce h a b sa sb reg reg')
  then show ?case
  proof (elim confirm_regE)
    assume new: "h \<noteq> zero_hash" "a \<noteq> zero_address" "b \<noteq> zero_address" "a \<noteq> b" "rg_status (reg h) = Reg_None"
      and r: "reg' = record_confirmed ce h a b zero_hash reg"
    have "amends reg' = amends reg" using new(5) by (simp add: r amends_confirm)
    then have "lineage_ok reg'"
      by (rule lineage_transfer[of reg, rotated]) (use confirming(2) new in \<open>auto simp: reg_ok_def r recorded_at_def record_confirmed_def\<close>)
    moreover have "parties_ok reg'" using confirming(2) new by (auto simp: reg_ok_def parties_ok_def recorded_at_def r record_confirmed_def)
    ultimately show ?thesis by (simp add: reg_ok_def)
  qed
next
  case (amending ce prev new sa sb reg reg')
  let ?mid = "reg(prev := (reg prev)\<lparr>rg_status := Reg_Superseded\<rparr>)"
  from amending(1) show ?case
  proof (elim amend_regE)
    assume prev: "rg_status (reg prev) = Reg_Confirmed" and new: "new \<noteq> zero_hash" "rg_status (reg new) = Reg_None" "new \<noteq> prev"
      and r: "reg' = record_confirmed ce new (rg_a (reg prev)) (rg_b (reg prev)) prev ?mid"
    from amending(2) have ok: "parties_ok reg" "lineage_ok reg" by (simp_all add: reg_ok_def)
    have pz: "prev \<noteq> zero_hash" using ok(1) prev by (force simp: parties_ok_def recorded_at_def)
    have "amends ?mid = amends reg" using prev by (simp add: amends_status recorded_at_def)
    then have am: "amends reg' = insert (prev, new) (amends reg)"
      using new pz by (simp add: r amends_amend)
    have out: "(new, x) \<notin> amends reg" "(prev, x) \<notin> amends reg" "(x, new) \<notin> amends reg" for x
      using no_successor[OF ok(2)] no_predecessor new(2) prev by auto
    have "(new, prev) \<notin> (amends reg)\<^sup>*" using new(3) out(1) by (auto elim: converse_rtranclE)
    then have "acyclic (amends reg')" unfolding am using lineageD(4)[OF ok(2)] by simp
    moreover have "linked reg' p h" if e: "(p, h) \<in> amends reg'" for p h
    proof (cases "(p, h) \<in> amends reg")
      case True
      then have "p \<noteq> new" "p \<noteq> prev" "h \<noteq> new" using out by auto
      then show ?thesis using lineageD(1)[OF ok(2) True] by (simp add: linked_def r record_confirmed_def)
    next
      case False
      then show ?thesis using e am new(3) by (simp add: linked_def r record_confirmed_def)
    qed
    moreover have "\<exists>h. (p, h) \<in> amends reg'" if "rg_status (reg' p) = Reg_Superseded" for p
      using that lineageD(2)[OF ok(2), of p] unfolding am by (auto simp: r record_confirmed_def split: if_splits)
    moreover have "h = h'" if "(p, h) \<in> amends reg'" "(p, h') \<in> amends reg'" for p h h'
      using that out lineageD(3)[OF ok(2), of p h h'] unfolding am by auto
    ultimately have "lineage_ok reg'" unfolding lineage_ok_def by blast
    moreover have "parties_ok reg'"
      using ok(1) prev new by (auto simp: parties_ok_def recorded_at_def r record_confirmed_def)
    ultimately show ?thesis by (simp add: reg_ok_def)
  qed
next
  case (terminating ce h sa sb reg reg')
  then show ?case
  proof (elim terminate_regE)
    assume st: "rg_status (reg h) = Reg_Confirmed" and r: "reg' = reg(h := (reg h)\<lparr>rg_status := Reg_Terminated\<rparr>)"
    have "amends reg' = amends reg" unfolding r by (rule amends_status) (simp_all add: recorded_at_def st)
    then have "lineage_ok reg'"
      by (rule lineage_transfer[of reg, rotated]) (use terminating(2) st in \<open>auto simp: reg_ok_def r recorded_at_def\<close>)
    moreover have "parties_ok reg'" using terminating(2) st by (auto simp: reg_ok_def parties_ok_def recorded_at_def r)
    ultimately show ?thesis by (simp add: reg_ok_def)
  qed
qed

subsection \<open>Properties\<close>

text \<open>C15: The registry is a set of linear histories. After any run of calls by anyone, every record names two distinct parties; the records that
  amend one another form no cycle; a record is amended exactly when it is superseded, by exactly one record of the same two parties; and no
  record ever changes its parties, its block or what it amends, nor leaves a closed status.\<close>

theorem registry_histories:
  assumes "reg_step\<^sup>*\<^sup>* empty_registry reg" and "reg_step\<^sup>*\<^sup>* reg reg'"
  shows "parties_ok reg \<and> lineage_ok reg \<and> reg_kept reg reg'"
proof -
  have "reg_ok reg" using assms(1)
    by (induction rule: rtranclp_induct) (auto intro: empty_registry_ok reg_step_ok)
  then show ?thesis using reg_run_kept[OF assms(2)] by (simp add: reg_ok_def)
qed

definition demo_env_a :: call_env where
  "demo_env_a = \<lparr>ce_domain = domain_of 1 ''0xR'', ce_time = 1700000000, ce_number = 7,
     ce_ecrecover = (\<lambda>td v r s. if v = 27 then ''0xA'' else ''0xB'')\<rparr>"

lemma short_not_zero: "length h \<noteq> 32 \<Longrightarrow> h \<noteq> zero_hash" "length a \<noteq> 42 \<Longrightarrow> a \<noteq> zero_address"
  by (auto simp: zero_hash_def zero_address_def)

definition demo_sig :: "char \<Rightarrow> string" where
  "demo_sig v = replicate 64 (CHR 0x00) @ [v]"

lemma zero_bytes: "word_of_bytes (replicate n (CHR 0x00)) = 0"
  unfolding word_of_bytes_def by (induction n) simp_all

lemma demo_recover:
  "recover_sig demo_env_a td (demo_sig (CHR 0x1B)) = Inr ''0xA''" "recover_sig demo_env_a td (demo_sig (CHR 0x1C)) = Inr ''0xB''"
  by (simp_all add: recover_sig_def demo_sig_def demo_env_a_def byte_at_def nth_append zero_bytes short_not_zero Let_def)

definition demo_registry :: registry where
  "demo_registry = record_confirmed demo_env_a ''h1'' ''0xA'' ''0xB'' zero_hash empty_registry"

lemma demo_confirm: "confirm_reg demo_env_a ''h1'' ''0xA'' ''0xB'' (demo_sig (CHR 0x1B)) (demo_sig (CHR 0x1C)) empty_registry = Inr demo_registry"
  by (simp add: confirm_reg_def check_parties_def require_signer_def require_def demo_recover demo_registry_def short_not_zero
      empty_registry_def no_record_def)

lemma demo_amend: "\<exists>reg. amend_reg demo_env_a ''h1'' ''h2'' (demo_sig (CHR 0x1B)) (demo_sig (CHR 0x1C)) demo_registry = Inr reg
    \<and> rg_status (reg ''h1'') = Reg_Superseded \<and> rg_prev (reg ''h2'') = ''h1''"
  by (simp add: amend_reg_def require_signer_def require_def demo_recover demo_registry_def short_not_zero empty_registry_def no_record_def
      record_confirmed_def Let_def)

theorem registry_histories_witness:
  "\<exists>reg. reg_step\<^sup>*\<^sup>* empty_registry demo_registry \<and> reg_step\<^sup>*\<^sup>* demo_registry reg \<and> lineage_ok demo_registry \<and> rg_prev (reg ''h2'') = ''h1''
     \<and> reg_kept demo_registry reg"
proof -
  obtain reg where reg: "amend_reg demo_env_a ''h1'' ''h2'' (demo_sig (CHR 0x1B)) (demo_sig (CHR 0x1C)) demo_registry = Inr reg"
    "rg_prev (reg ''h2'') = ''h1''" using demo_amend by auto
  have "reg_step\<^sup>*\<^sup>* empty_registry demo_registry" "reg_step\<^sup>*\<^sup>* demo_registry reg"
    using reg_step.confirming[OF demo_confirm] reg_step.amending[OF reg(1)] by simp_all
  with registry_histories[OF this] reg(2) show ?thesis by metis
qed



end
