(* ===== verification/Chain_Routes.thy ===== *)
theory Chain_Routes
  imports Chain_Records Registry
begin

section \<open>Confirming, amending and terminating on the chain\<close>

text \<open>
  The routes of \<open>api/routes/chain.py\<close>. A route gets the request, the state of the book and the state of the chain, and gives both back with
  its answer; an answer \<open>Inl\<close> is the HTTP status. What is not committed when a route raises is rolled back. The chain is a type
  \<open>'c\<close> behind the operations of the backend protocol of \<open>chain/attestation.py\<close> (\<open>chain_ops\<close>): sending a transaction gives a
  receipt or raises, and changes the chain either way.
\<close>

subsection \<open>The backend\<close>

text \<open>\<open>co_note\<close>: the text of an \<open>AnchorPending\<close>.\<close>

record 'c chain_ops =
  co_anchored :: bool
  co_chain :: int
  co_registry :: "string option"
  co_explorer :: "string option"
  co_confirm :: "string \<Rightarrow> string \<Rightarrow> string \<Rightarrow> string \<Rightarrow> string \<Rightarrow> bool \<Rightarrow> 'c \<Rightarrow> 'c \<times> (send_error, anchor_receipt) res"
  co_amend :: "string \<Rightarrow> string \<Rightarrow> string \<Rightarrow> string \<Rightarrow> 'c \<Rightarrow> 'c \<times> (send_error, anchor_receipt) res"
  co_terminate :: "string \<Rightarrow> string \<Rightarrow> string \<Rightarrow> 'c \<Rightarrow> 'c \<times> (send_error, anchor_receipt) res"
  co_get :: "string \<Rightarrow> 'c \<Rightarrow> chain_record option option"
  co_tx :: "string \<Rightarrow> 'c \<Rightarrow> tx_state option option"
  co_note :: "'c \<Rightarrow> string"

text \<open>\<open>NullBackend\<close>: no chain is configured.\<close>

definition null_ops :: "'c chain_ops" where
  "null_ops = \<lparr>co_anchored = False, co_chain = 0, co_registry = None, co_explorer = None,
     co_confirm = (\<lambda>h a b sa sb wait c. (c, Inr null_receipt)), co_amend = (\<lambda>p n sa sb c. (c, Inr null_receipt)),
     co_terminate = (\<lambda>h sa sb c. (c, Inr null_receipt)), co_get = (\<lambda>h c. Some None), co_tx = (\<lambda>h c. Some (Some unknown_tx)), co_note = (\<lambda>c. [])\<rparr>"

text \<open>The contract of \<open>Registry\<close> behind a node that mines at once: a call that reverts is refused when its gas is estimated, and nothing is sent.\<close>

definition record_view :: "reg_record \<Rightarrow> chain_record option" where
  "record_view r =
     (let made = (\<lambda>st. Some \<lparr>rr_party_a = rg_a r, rr_party_b = rg_b r, rr_confirmed = uint (rg_at r), rr_block = uint (rg_block r),
            rr_prev = ''0x'' @ hex_str (rg_prev r), rr_status = st\<rparr>)
      in case rg_status r of Reg_None \<Rightarrow> None | Reg_Confirmed \<Rightarrow> made ''Confirmed'' | Reg_Superseded \<Rightarrow> made ''Superseded''
         | Reg_Terminated \<Rightarrow> made ''Terminated'')"

definition mined_now :: "call_env \<Rightarrow> anchor_receipt" where
  "mined_now ce = \<lparr>ar_anchored = True, ar_chain = ed_chain (ce_domain ce), ar_registry = Some (ed_contract (ce_domain ce)), ar_tx = Some ''0x00'',
     ar_block = Some (uint (ucast (ce_number ce) :: 64 word)), ar_confirmed = Some (uint (ucast (ce_time ce) :: 64 word)), ar_explorer = None, ar_note = None\<rparr>"

definition send_reg :: "call_env \<Rightarrow> registry \<Rightarrow> (revert, registry) res \<Rightarrow> registry \<times> (send_error, anchor_receipt) res" where
  "send_reg ce reg r = (case r of Inl _ \<Rightarrow> (reg, Inl (Chain_Failure ''execution reverted'')) | Inr reg' \<Rightarrow> (reg', Inr (mined_now ce)))"

definition registry_ops :: "call_env \<Rightarrow> registry chain_ops" where
  "registry_ops ce = \<lparr>co_anchored = True, co_chain = ed_chain (ce_domain ce), co_registry = Some (ed_contract (ce_domain ce)), co_explorer = None,
     co_confirm = (\<lambda>h a b sa sb wait reg. send_reg ce reg (confirm_reg ce h a b sa sb reg)),
     co_amend = (\<lambda>p n sa sb reg. send_reg ce reg (amend_reg ce p n sa sb reg)),
     co_terminate = (\<lambda>h sa sb reg. send_reg ce reg (terminate_reg ce h sa sb reg)),
     co_get = (\<lambda>h reg. Some (record_view (reg h))), co_tx = (\<lambda>h reg. Some (Some unknown_tx)), co_note = (\<lambda>reg. [])\<rparr>"

text \<open>What the reconciliation of \<open>Pending\<close> reads.\<close>

definition backend_of :: "'c chain_ops \<Rightarrow> 'c \<Rightarrow> backend" where
  "backend_of ops c = \<lparr>bk_chain = co_chain ops, bk_registry = co_registry ops, bk_explorer = co_explorer ops, bk_anchored = co_anchored ops,
     bk_get = (\<lambda>hex. case unhex hex of None \<Rightarrow> None | Some h \<Rightarrow> co_get ops h c), bk_tx = (\<lambda>h. co_tx ops h c)\<rparr>"

definition eip712_ctx :: "'c chain_ops \<Rightarrow> int \<times> string" where
  "eip712_ctx ops = (if co_chain ops = 0 then 31337 else co_chain ops,
     case co_registry ops of Some (r # rs) \<Rightarrow> r # rs | _ \<Rightarrow> zero_address)"

record setting =
  cx_crypto :: crypto
  cx_env :: env
  cx_rules :: "pydict \<Rightarrow> pydict list \<Rightarrow> bool"

text \<open>A request with what the server draws for it: the clock, new identifiers, whether the budget's table can be read and written.\<close>

record chain_request =
  in_user :: pydict
  in_key :: "string option"
  in_now :: time
  in_reads :: bool
  in_inserts :: bool
  in_event :: string
  in_row :: string
  in_uuid :: string

subsection \<open>Entry\<close>

definition check_chain_quota :: "setting \<Rightarrow> chain_db \<Rightarrow> string \<Rightarrow> string \<Rightarrow> chain_request \<Rightarrow> chain_db \<times> unit http" where
  "check_chain_quota cx db u kind rq =
     (case charge (cx_env cx) (cd_budget db)
             \<lparr>rq_user = u, rq_firm = None, rq_kind = kind, rq_now = in_now rq, rq_reads = in_reads rq, rq_inserts = in_inserts rq\<rparr> of
        (b, Inl _) \<Rightarrow> (db\<lparr>cd_budget := b\<rparr>, Inl (Http 429))
      | (b, Inr _) \<Rightarrow> (db\<lparr>cd_budget := b\<rparr>, Inr ()))"

definition chain_entry :: "setting \<Rightarrow> string \<Rightarrow> chain_db \<Rightarrow> chain_request \<Rightarrow> chain_db \<times> string http" where
  "chain_entry cx kind db rq =
     (case check_write_role (in_user rq) of
        Inl e \<Rightarrow> (db, Inl e)
      | Inr u \<Rightarrow>
          (case check_chain_quota cx db u kind rq of
             (db', Inl e) \<Rightarrow> (db', Inl e)
           | (db', Inr _) \<Rightarrow> (db', bind_res (validate_idempotency_header (in_key rq)) (\<lambda>_. Inr u))))"

definition trade_or_404 :: "chain_db \<Rightarrow> string \<Rightarrow> string \<Rightarrow> trade_row http" where
  "trade_or_404 db trade_id u =
     bind_res (parse_trade_uuid trade_id) (\<lambda>tid. case find_trade (ledger_of db) tid u of None \<Rightarrow> Inl (Http 404) | Some t \<Rightarrow> Inr t)"

text \<open>The reading routes take the subject as it is; a missing one owns nothing.\<close>

definition own_trade :: "chain_db \<Rightarrow> string \<Rightarrow> pydict \<Rightarrow> trade_row http" where
  "own_trade db trade_id user =
     bind_res (parse_trade_uuid trade_id) (\<lambda>tid.
     case get user ''sub'' of
       PNone \<Rightarrow> Inl (Http 404)
     | PStr s \<Rightarrow> (case parse_uuid s of None \<Rightarrow> Inl Crash
                    | Some u \<Rightarrow> (case find_trade (ledger_of db) tid u of None \<Rightarrow> Inl (Http 404) | Some t \<Rightarrow> Inr t))
     | _ \<Rightarrow> Inl Crash)"

definition need :: "'a option \<Rightarrow> 'a http" where
  "need x = (case x of None \<Rightarrow> Inl Crash | Some a \<Rightarrow> Inr a)"

subsection \<open>Signatures\<close>

definition parse_signature :: "string \<Rightarrow> string http" where
  "parse_signature s =
     (case unhex (strip_0x s) of None \<Rightarrow> Inl (Http 422) | Some b \<Rightarrow> if length b \<noteq> 65 then Inl (Http 422) else Inr b)"

text \<open>The signature must recover, to the address claimed with it, and to the address known for the counterparty.\<close>

definition check_signer :: "crypto \<Rightarrow> typed_data \<Rightarrow> string \<Rightarrow> string option \<Rightarrow> party_key \<Rightarrow> unit http" where
  "check_signer cr td sg claimed k =
     (case cr_recover cr td sg of
        None \<Rightarrow> Inl (Http 422)
      | Some a \<Rightarrow>
          bind_res (require (case claimed of None \<Rightarrow> True | Some x \<Rightarrow> str_lower a = str_lower x) (Http 422)) (\<lambda>_.
          require (str_lower a = str_lower (pk_address k)) (Http 422)))"

definition party_entry :: "party_key \<Rightarrow> string \<Rightarrow> string \<Rightarrow> pyval" where
  "party_entry k sg source = PDict [(''lei'', PStr (pk_lei k)), (''address'', PStr (pk_address k)), (''signature'', PStr (hexb sg)), (''key_source'', PStr source)]"

definition eip712_entry :: "int \<Rightarrow> string \<Rightarrow> pyval" where
  "eip712_entry chain registry =
     PDict [(''name'', PStr domain_name), (''version'', PStr domain_version), (''chain_id'', int_val chain), (''verifying_contract'', PStr registry)]"

text \<open>The attestation: the signed record, before its anchor.\<close>

definition signed_record :: "int \<Rightarrow> string \<Rightarrow> json \<Rightarrow> party_key \<Rightarrow> string \<Rightarrow> party_key \<Rightarrow> string \<Rightarrow> string \<Rightarrow> int \<Rightarrow> string \<Rightarrow> bool \<Rightarrow> pydict" where
  "signed_record version h payload own sig_own cp sig_cp cp_source chain registry bilateral =
     [(''schema_version'', int_val version), (''trade_hash'', PStr (hexb h)),
      (''canonical_bytes_len'', int_val (int (length (canonical_bytes payload)))), (''bilateral'', PBool bilateral),
      (''parties'', PDict [(''own'', party_entry own sig_own (pk_source own)), (''counterparty'', party_entry cp sig_cp cp_source)]),
      (''eip712'', eip712_entry chain registry)]"

subsection \<open>Confirmation\<close>

datatype confirm_answer = Settled lifecycle_response | In_Flight pending_row trade_row "pydict list"

definition pending_response :: "chain_db \<Rightarrow> trade_row \<Rightarrow> pending_row option \<Rightarrow> confirm_answer http" where
  "pending_response db t row =
     (case row of None \<Rightarrow> Inl Crash
      | Some r \<Rightarrow> Inr (In_Flight r t (map (snd \<circ> snd) (sort_key (fst \<circ> snd) (filter (\<lambda>x. fst x = t_id t) (l_legs (ledger_of db)))))))"

text \<open>\<open>sync_wait\<close>: whether the request waits for a limited time only; 25 s unless the setting says otherwise.\<close>

definition sync_wait :: "env \<Rightarrow> bool \<Rightarrow> bool" where
  "sync_wait env table \<longleftrightarrow> table \<and>
     (let raw = str_strip (case dict_get env ''RIJEKA_CHAIN_SYNC_WAIT_S'' of None \<Rightarrow> [] | Some v \<Rightarrow> v) in
      raw = [] \<or> (case dec_of_string raw of None \<Rightarrow> True | Some d \<Rightarrow> dec_less (Dec False 0 0) d = Some True))"

text \<open>\<open>work\<close> is the session: \<open>base\<close>, what is committed, with the request's own changes. Sending either finishes the confirmation, or leaves
  a pending row, or fails and rolls the session back.\<close>

definition send_confirmation ::
    "setting \<Rightarrow> 'c chain_ops \<Rightarrow> chain_db \<Rightarrow> chain_db \<Rightarrow> 'c \<Rightarrow> trade_row \<Rightarrow> string \<Rightarrow> string \<Rightarrow> string \<Rightarrow> string \<Rightarrow> string \<Rightarrow> pydict \<Rightarrow> chain_request
      \<Rightarrow> chain_db \<times> 'c \<times> confirm_answer http" where
  "send_confirmation cx ops base work c t h a b sig_a sig_b att rq =
     (case co_confirm ops h a b sig_a sig_b (sync_wait (cx_env cx) (cd_table work)) c of
        (c', Inl (Anchor_Pending tx ex)) \<Rightarrow>
          (let work' = work\<lparr>cd_pend := record_anchor (cd_pend work) (in_row rq) (t_id t) (t_user t) (hexb h) att (in_key rq) (Some tx)
                 (if ex = [] then None else Some ex) (Some (co_note ops c')) (in_now rq)\<rparr>
           in (work', c', pending_response work' t (open_for_trade (cd_pend work') (t_id t))))
      | (c', Inl _) \<Rightarrow> (base, c', Inl (Http 502))
      | (c', Inr r) \<Rightarrow>
          (case apply_confirmed (ledger_of work) t (dict_set ''anchor'' (receipt_dict r) att) (hexb h) (in_key rq) (in_event rq) of
             (l', Inr resp) \<Rightarrow> (if lr_replay resp then (base, c', Inr (Settled resp)) else (with_ledger l' work, c', Inr (Settled resp)))
           | (l', Inl e) \<Rightarrow> (base, c', Inl e)))"

text \<open>Whether reconciling a row commits the session's own changes: a failed check, a failed transition and a cached answer roll them back.\<close>

definition reconcile_commits :: "backend \<Rightarrow> pending_row \<Rightarrow> time \<Rightarrow> (http_error, trade_answer) res \<Rightarrow> bool" where
  "reconcile_commits be row now r \<longleftrightarrow> check_row be row now \<noteq> None
     \<and> (case r of Inl _ \<Rightarrow> False | Inr ans \<Rightarrow> (case ta_result ans of None \<Rightarrow> True | Some resp \<Rightarrow> \<not> lr_replay resp))"

definition anchor_confirmation ::
    "setting \<Rightarrow> 'c chain_ops \<Rightarrow> chain_db \<Rightarrow> chain_db \<Rightarrow> 'c \<Rightarrow> trade_row \<Rightarrow> string \<Rightarrow> string \<Rightarrow> string \<Rightarrow> string \<Rightarrow> string \<Rightarrow> pydict \<Rightarrow> chain_request
      \<Rightarrow> chain_db \<times> 'c \<times> confirm_answer http" where
  "anchor_confirmation cx ops base work c t h a b sig_a sig_b att rq =
     (case (if cd_table work then open_for_trade (cd_pend work) (t_id t) else None) of
        None \<Rightarrow> send_confirmation cx ops base work c t h a b sig_a sig_b att rq
      | Some row \<Rightarrow>
          (let be = backend_of ops c; (p', r) = reconcile_trade (cd_pend work) t be (in_now rq) (in_event rq);
               db' = (if reconcile_commits be row (in_now rq) r then work else base)\<lparr>cd_pend := p'\<rparr>
           in case r of
                Inl e \<Rightarrow> (db', c, Inl e)
              | Inr ans \<Rightarrow>
                  if ta_applied ans then (db', c, bind_res (need (ta_result ans)) (\<lambda>resp. Inr (Settled resp)))
                  else if ta_pending ans then (db', c, pending_response db' t (open_for_trade p' (t_id t)))
                  else send_confirmation cx ops db' db' c t h a b sig_a sig_b att rq))"

text \<open>The confirm route signs for both sides, so both keys must be held. The signatures are checked by \<open>assert\<close>.\<close>

record signed =
  sn_db :: chain_db
  sn_payload :: json
  sn_hash :: string
  sn_own :: party_key
  sn_cp :: party_key
  sn_sig_own :: string
  sn_sig_cp :: string

definition sign_both :: "setting \<Rightarrow> 'c chain_ops \<Rightarrow> chain_db \<Rightarrow> trade_row \<Rightarrow> chain_request \<Rightarrow> signed http" where
  "sign_both cx ops db t rq =
     (let cr = cx_crypto cx; (chain, registry) = eip712_ctx ops in
      bind_res (ensure_uti db t (in_uuid rq)) (\<lambda>work.
      bind_res (canonical_for cr work t schema_version) (\<lambda>(payload, h).
      bind_res (resolve_parties cr (cx_env cx) work t) (\<lambda>(own, cp).
      bind_res (require (pk_key cp \<noteq> None) (Http 422)) (\<lambda>_.
      bind_res (need (confirmation_typed_data cr chain registry h (pk_address cp))) (\<lambda>td_own.
      bind_res (need (confirmation_typed_data cr chain registry h (pk_address own))) (\<lambda>td_cp.
        let sig_own = cr_sign cr td_own (the (pk_key own)); sig_cp = cr_sign cr td_cp (the (pk_key cp)) in
        if cr_recover cr td_own sig_own = Some (pk_address own) \<and> cr_recover cr td_cp sig_cp = Some (pk_address cp)
        then Inr \<lparr>sn_db = work, sn_payload = payload, sn_hash = h, sn_own = own, sn_cp = cp, sn_sig_own = sig_own, sn_sig_cp = sig_cp\<rparr>
        else Inl Crash)))))))"

definition confirm_on_chain ::
    "setting \<Rightarrow> 'c chain_ops \<Rightarrow> chain_db \<Rightarrow> 'c \<Rightarrow> string \<Rightarrow> chain_request \<Rightarrow> chain_db \<times> 'c \<times> confirm_answer http" where
  "confirm_on_chain cx ops db0 c trade_id rq =
     (case chain_entry cx ''confirm'' db0 rq of
        (db, Inl e) \<Rightarrow> (db, c, Inl e)
      | (db, Inr u) \<Rightarrow>
          (case lookup_idempotent (ledger_of db) u (in_key rq) of
             Some cached \<Rightarrow> (db, c, Inr (Settled cached))
           | None \<Rightarrow>
               (case bind_res (parse_trade_uuid trade_id) (\<lambda>tid. bind_res (load_pending_trade (ledger_of db) tid u) (\<lambda>t.
                     bind_res (sign_both cx ops db t rq) (\<lambda>s. Inr (t, s)))) of
                  Inl e \<Rightarrow> (db, c, Inl e)
                | Inr (t, s) \<Rightarrow>
                    (case eip712_ctx ops of (chain, registry) \<Rightarrow>
                     anchor_confirmation cx ops db (sn_db s) c t (sn_hash s) (pk_address (sn_own s)) (pk_address (sn_cp s))
                       (sn_sig_own s) (sn_sig_cp s)
                       (signed_record schema_version (sn_hash s) (sn_payload s) (sn_own s) (sn_sig_own s) (sn_cp s) (sn_sig_cp s)
                          (pk_source (sn_cp s)) chain registry False) rq))))"

definition reconcile_anchor :: "'c chain_ops \<Rightarrow> chain_db \<Rightarrow> 'c \<Rightarrow> string \<Rightarrow> chain_request \<Rightarrow> chain_db \<times> trade_answer http" where
  "reconcile_anchor ops db c trade_id rq =
     (case own_trade db trade_id (in_user rq) of
        Inl e \<Rightarrow> (db, Inl e)
      | Inr t \<Rightarrow>
          if t_status t \<noteq> ''PENDING'' \<or> \<not> cd_table db then (db, Inr (answer_of (t_status t) None))
          else (case reconcile_trade (cd_pend db) t (backend_of ops c) (in_now rq) (in_event rq) of (p', r) \<Rightarrow> (db\<lparr>cd_pend := p'\<rparr>, r)))"

subsection \<open>The counterparty's signature\<close>

text \<open>\<open>note\<close> says where the signature came in; \<open>expected\<close> is the hash its signer reviewed.\<close>

definition countersign_checks ::
    "setting \<Rightarrow> 'c chain_ops \<Rightarrow> chain_db \<Rightarrow> trade_row \<Rightarrow> string \<Rightarrow> string \<Rightarrow> string option \<Rightarrow> chain_request \<Rightarrow> signed http" where
  "countersign_checks cx ops db t address signature expected rq =
     (let cr = cx_crypto cx; (chain, registry) = eip712_ctx ops in
      bind_res (resolve_parties cr (cx_env cx) db t) (\<lambda>(own, cp).
      bind_res (ensure_uti db t (in_uuid rq)) (\<lambda>work.
      bind_res (canonical_for cr work t schema_version) (\<lambda>(payload, h).
      bind_res (require (case expected of None \<Rightarrow> True | Some x \<Rightarrow> x = [] \<or> str_lower x = str_lower (hexb h)) (Http 409)) (\<lambda>_.
      bind_res (parse_signature signature) (\<lambda>sig_cp.
      bind_res (need (confirmation_typed_data cr chain registry h (pk_address own))) (\<lambda>td_cp.
      bind_res (check_signer cr td_cp sig_cp (Some address) cp) (\<lambda>_.
      bind_res (need (confirmation_typed_data cr chain registry h (pk_address cp))) (\<lambda>td_own.
        Inr \<lparr>sn_db = work, sn_payload = payload, sn_hash = h, sn_own = own, sn_cp = cp,
             sn_sig_own = cr_sign cr td_own (the (pk_key own)), sn_sig_cp = sig_cp\<rparr>)))))))))"

definition countersigned_record :: "'c chain_ops \<Rightarrow> signed \<Rightarrow> anchor_receipt \<Rightarrow> pydict option \<Rightarrow> pydict" where
  "countersigned_record ops s r note =
     (case eip712_ctx ops of (chain, registry) \<Rightarrow>
      let att = dict_set ''anchor'' (receipt_dict r)
            (signed_record schema_version (sn_hash s) (sn_payload s) (sn_own s) (sn_sig_own s) (sn_cp s) (sn_sig_cp s) ''countersigned'' chain registry True)
      in case note of Some (kv # kvs) \<Rightarrow> dict_set ''via'' (PDict (kv # kvs)) att | _ \<Rightarrow> att)"

definition countersign_trade ::
    "setting \<Rightarrow> 'c chain_ops \<Rightarrow> chain_db \<Rightarrow> 'c \<Rightarrow> trade_row \<Rightarrow> string \<Rightarrow> string \<Rightarrow> string option \<Rightarrow> string option \<Rightarrow> pydict option \<Rightarrow> string option
      \<Rightarrow> chain_request \<Rightarrow> chain_db \<times> 'c \<times> lifecycle_response http" where
  "countersign_trade cx ops db0 c t address signature expected key note payer rq =
     (case (case payer of None \<Rightarrow> (db0, Inr ()) | Some u \<Rightarrow> check_chain_quota cx db0 u ''countersign'' rq) of
        (db, Inl e) \<Rightarrow> (db, c, Inl e)
      | (db, Inr _) \<Rightarrow>
          (case countersign_checks cx ops db t address signature expected rq of
             Inl e \<Rightarrow> (db, c, Inl e)
           | Inr s \<Rightarrow>
               (case co_confirm ops (sn_hash s) (pk_address (sn_own s)) (pk_address (sn_cp s)) (sn_sig_own s) (sn_sig_cp s) False c of
                  (c', Inl _) \<Rightarrow> (db, c', Inl (Http 502))
                | (c', Inr r) \<Rightarrow>
                    (case apply_lifecycle_transition (ledger_of (sn_db s))
                            \<lparr>tr_user = t_user t, tr_trade = t, tr_type = ''CONFIRMED'', tr_status = ''CONFIRMED'',
                             tr_payload = [(''attestation'', PDict (countersigned_record ops s r note))], tr_key = key,
                             tr_hash = Some (hexb (sn_hash s)), tr_cp_confirmed = True\<rparr> (in_event rq) of
                       (l', Inl e) \<Rightarrow> (db, c', Inl e)
                     | (l', Inr resp) \<Rightarrow> (if lr_replay resp then (db, c', Inr resp) else (with_ledger l' (sn_db s), c', Inr resp))))))"

definition countersign ::
    "setting \<Rightarrow> 'c chain_ops \<Rightarrow> chain_db \<Rightarrow> 'c \<Rightarrow> string \<Rightarrow> string \<Rightarrow> string \<Rightarrow> chain_request \<Rightarrow> chain_db \<times> 'c \<times> lifecycle_response http" where
  "countersign cx ops db0 c trade_id address signature rq =
     (case chain_entry cx ''countersign'' db0 rq of
        (db, Inl e) \<Rightarrow> (db, c, Inl e)
      | (db, Inr u) \<Rightarrow>
          (case lookup_idempotent (ledger_of db) u (in_key rq) of
             Some cached \<Rightarrow> (db, c, Inr cached)
           | None \<Rightarrow>
               (case bind_res (parse_trade_uuid trade_id) (\<lambda>tid. load_pending_trade (ledger_of db) tid u) of
                  Inl e \<Rightarrow> (db, c, Inl e)
                | Inr t \<Rightarrow> countersign_trade cx ops db c t address signature None (in_key rq) None None rq)))"

end
