(* ===== verification/Chain_Lifecycle.thy ===== *)
theory Chain_Lifecycle
  imports Chain_Routes
begin

section \<open>The signed record follows the trade\<close>

text \<open>
  The rest of \<open>api/routes/chain.py\<close>: once a confirmation is anchored its terms change by amendment or termination only, each signed by
  both parties and anchored before the book is changed. \<open>amend_begin\<close> is the route up to the transaction, \<open>amend_finish\<close> what follows the
  receipt; other requests may run in between. \<open>verify_trade\<close> compares the book with its stored record, the signatures
  and the chain.
\<close>

subsection \<open>The attested transition\<close>

text \<open>\<open>mutate\<close> changes the rows in the transaction of the event. The key is looked up again here; nothing is written on a hit.\<close>

record attested =
  ax_type :: string
  ax_status :: string
  ax_payload :: pydict
  ax_hash :: string

definition set_status_opt :: "string \<Rightarrow> projection \<Rightarrow> projection" where
  "set_status_opt s p = (if p_trade p = None then p else set_status s p)"

definition attested_states :: "ledger \<Rightarrow> string \<Rightarrow> attested \<Rightarrow> (projection option \<times> projection option) proj" where
  "attested_states l tid a =
     (let pre_events = sort_key event_seq (map snd (filter (\<lambda>r. fst r = tid) (map as_event (l_events l)))) in
      if pre_events = [] then Inr (None, None)
      else bind_res (project pre_events) (\<lambda>pre.
           bind_res (project (pre_events @ [\<lparr>event_seq = event_seq (last pre_events) + 1, event_type = ax_type a, ev_payload = ax_payload a\<rparr>])) (\<lambda>post.
             Inr (Some pre, Some (set_status_opt (ax_status a) post)))))"

definition attested_row :: "ledger \<Rightarrow> trade_row \<Rightarrow> attested \<Rightarrow> projection option \<times> projection option \<Rightarrow> string \<Rightarrow> event_row" where
  "attested_row l t a states eid =
     \<lparr>e_id = eid, e_trade = t_id t, e_seq = next_seq l (t_id t), e_type = ax_type a, e_payload = ax_payload a,
      e_pre = fst states, e_post = snd states, e_user = t_user t, e_hash = Some (ax_hash a), e_cp_confirmed = True\<rparr>"

definition write_attested ::
    "chain_db \<Rightarrow> trade_row \<Rightarrow> attested \<Rightarrow> projection option \<times> projection option \<Rightarrow> string option \<Rightarrow> string \<Rightarrow> (chain_db \<times> lifecycle_response) http" where
  "write_attested db t a states key eid =
     (let l = ledger_of db;
          upd = (\<lambda>x. x\<lparr>t_status := ax_status a, t_latest := Some eid, t_version := t_version t + 1\<rparr>);
          l' = l\<lparr>l_events := l_events l @ [attested_row l t a states eid], l_trades := map (\<lambda>x. if t_id x = t_id t then upd x else x) (l_trades l)\<rparr>
      in if eid \<in> e_id ` set (l_events l) then Inl (Http 500)
         else (case List.find (\<lambda>x. t_id x = t_id t) (l_trades l) of
                 None \<Rightarrow> Inl (Http 500)
               | Some row \<Rightarrow>
                   (let result = build_response l' (upd row) eid in
                    if key = None \<or> key = Some [] then Inr (with_ledger l' db, result)
                    else Inr (with_ledger (l'\<lparr>l_idem := ((t_user t, the key), result) # l_idem l'\<rparr>) db, result))))"

definition apply_attested_event ::
    "chain_db \<Rightarrow> trade_row \<Rightarrow> attested \<Rightarrow> string option \<Rightarrow> (chain_db \<Rightarrow> chain_db http) \<Rightarrow> string \<Rightarrow> chain_db \<times> lifecycle_response http" where
  "apply_attested_event db t a key mutate eid =
     (case lookup_idempotent (ledger_of db) (t_user t) key of
        Some cached \<Rightarrow> (db, Inr cached)
      | None \<Rightarrow>
          (case attested_states (ledger_of db) (t_id t) a of
             Inl _ \<Rightarrow> (db, Inl Crash)
           | Inr states \<Rightarrow>
               (case mutate db of
                  Inl (Http n) \<Rightarrow> (db, Inl (Http n))
                | Inl Crash \<Rightarrow> (db, Inl (Http 500))
                | Inr db1 \<Rightarrow> (case write_attested db1 t a states key eid of Inl e \<Rightarrow> (db, Inl e) | Inr (db2, result) \<Rightarrow> (db2, Inr result)))))"

text \<open>The counterparty's signature over the lifecycle message, or our own for them when their key is held.\<close>

definition cp_signature_or_ours ::
    "crypto \<Rightarrow> party_key \<Rightarrow> party_key \<Rightarrow> typed_data \<Rightarrow> typed_data \<Rightarrow> string option \<Rightarrow> string option \<Rightarrow> (string \<times> string \<times> bool) http" where
  "cp_signature_or_ours cr own cp td_cp td_own address signature =
     (let sig_own = cr_sign cr td_own (the (pk_key own)) in
      case signature of
        Some (x # xs) \<Rightarrow>
          bind_res (parse_signature (x # xs)) (\<lambda>sig_cp.
          bind_res (check_signer cr td_cp sig_cp (if address = Some [] then None else address) cp) (\<lambda>_.
            Inr (sig_own, sig_cp, True)))
      | _ \<Rightarrow> (case pk_key cp of None \<Rightarrow> Inl (Http 422) | Some k \<Rightarrow> Inr (sig_own, cr_sign cr td_cp k, False)))"

subsection \<open>Amendment\<close>

record amend_body =
  ab_changes :: pydict
  ab_address :: "string option"
  ab_signature :: "string option"

record amend_plan =
  ap_trade :: trade_row
  ap_preview :: preview
  ap_version :: int
  ap_own :: party_key
  ap_cp :: party_key
  ap_sig_own :: string
  ap_sig_cp :: string
  ap_bilateral :: bool

definition amendment_messages :: "crypto \<Rightarrow> 'c chain_ops \<Rightarrow> preview \<Rightarrow> party_key \<Rightarrow> party_key \<Rightarrow> (typed_data \<times> typed_data) http" where
  "amendment_messages cr ops p own cp =
     (case eip712_ctx ops of (chain, registry) \<Rightarrow>
      bind_res (need (amendment_typed_data cr chain registry (pv_prev p) (pv_new p) (pk_address cp))) (\<lambda>td_own.
      bind_res (need (amendment_typed_data cr chain registry (pv_prev p) (pv_new p) (pk_address own))) (\<lambda>td_cp. Inr (td_own, td_cp))))"

definition amend_begin :: "setting \<Rightarrow> 'c chain_ops \<Rightarrow> chain_db \<Rightarrow> string \<Rightarrow> string \<Rightarrow> amend_body \<Rightarrow> amend_plan http" where
  "amend_begin cx ops db u trade_id body =
     (let cr = cx_crypto cx in
      bind_res (trade_or_404 db trade_id u) (\<lambda>t.
      bind_res (require (t_status t = ''CONFIRMED'') (Http 409)) (\<lambda>_.
      bind_res (preview_amendment cr (cx_rules cx) db t (ab_changes body)) (\<lambda>p.
      bind_res (attested_version (pv_att p)) (\<lambda>v.
      bind_res (resolve_parties cr (cx_env cx) db t) (\<lambda>(own, cp).
      bind_res (amendment_messages cr ops p own cp) (\<lambda>(td_own, td_cp).
      bind_res (cp_signature_or_ours cr own cp td_cp td_own (ab_address body) (ab_signature body)) (\<lambda>(so, sc, bilateral).
        Inr \<lparr>ap_trade = t, ap_preview = p, ap_version = v, ap_own = own, ap_cp = cp, ap_sig_own = so, ap_sig_cp = sc, ap_bilateral = bilateral\<rparr>))))))))"

definition amended_record :: "'c chain_ops \<Rightarrow> amend_plan \<Rightarrow> anchor_receipt \<Rightarrow> pydict" where
  "amended_record ops a r =
     (case eip712_ctx ops of (chain, registry) \<Rightarrow>
      dict_set ''anchor'' (receipt_dict r) (dict_set ''prev_hash'' (PStr (hexb (pv_prev (ap_preview a))))
        (signed_record (ap_version a) (pv_new (ap_preview a)) (pv_payload (ap_preview a)) (ap_own a) (ap_sig_own a) (ap_cp a) (ap_sig_cp a)
           (if ap_bilateral a then ''countersigned'' else pk_source (ap_cp a)) chain registry (ap_bilateral a))))"

text \<open>The changes are applied again, and refused when the booking no longer gives the hash that was anchored.\<close>

definition amend_mutate :: "setting \<Rightarrow> amend_plan \<Rightarrow> pydict \<Rightarrow> chain_db \<Rightarrow> chain_db http" where
  "amend_mutate cx a changes db =
     bind_res (apply_changes (cx_rules cx) db (ap_trade a) changes) (\<lambda>db'.
     bind_res (canonical_for (cx_crypto cx) db' (ap_trade a) (ap_version a)) (\<lambda>(_, h2).
       if h2 \<noteq> pv_new (ap_preview a) then Inl (Http 409) else Inr db'))"

definition amend_finish ::
    "setting \<Rightarrow> 'c chain_ops \<Rightarrow> chain_db \<Rightarrow> amend_plan \<Rightarrow> amend_body \<Rightarrow> anchor_receipt \<Rightarrow> chain_request \<Rightarrow> chain_db \<times> lifecycle_response http" where
  "amend_finish cx ops db a body r rq =
     apply_attested_event db (ap_trade a)
       \<lparr>ax_type = ''AMENDED'', ax_status = ''CONFIRMED'',
        ax_payload = [(''changes'', PDict (ab_changes body)), (''attestation'', PDict (amended_record ops a r))],
        ax_hash = hexb (pv_new (ap_preview a))\<rparr> (in_key rq) (amend_mutate cx a (ab_changes body)) (in_event rq)"

definition amend_send :: "'c chain_ops \<Rightarrow> amend_plan \<Rightarrow> 'c \<Rightarrow> 'c \<times> (send_error, anchor_receipt) res" where
  "amend_send ops a c = co_amend ops (pv_prev (ap_preview a)) (pv_new (ap_preview a)) (ap_sig_own a) (ap_sig_cp a) c"

definition amend_on_chain ::
    "setting \<Rightarrow> 'c chain_ops \<Rightarrow> chain_db \<Rightarrow> 'c \<Rightarrow> string \<Rightarrow> amend_body \<Rightarrow> chain_request \<Rightarrow> chain_db \<times> 'c \<times> lifecycle_response http" where
  "amend_on_chain cx ops db0 c trade_id body rq =
     (case chain_entry cx ''amend'' db0 rq of
        (db, Inl e) \<Rightarrow> (db, c, Inl e)
      | (db, Inr u) \<Rightarrow>
          (case amend_begin cx ops db u trade_id body of
             Inl e \<Rightarrow> (db, c, Inl e)
           | Inr a \<Rightarrow>
               (case amend_send ops a c of
                  (c', Inl _) \<Rightarrow> (db, c', Inl (Http 502))
                | (c', Inr r) \<Rightarrow> (case amend_finish cx ops db a body r rq of (db', x) \<Rightarrow> (db', c', x)))))"

subsection \<open>Termination\<close>

record terminate_body =
  tb_address :: "string option"
  tb_signature :: "string option"
  tb_reason :: "string option"

record terminate_plan =
  tp_trade :: trade_row
  tp_att :: pydict
  tp_hash :: string
  tp_sig_own :: string
  tp_sig_cp :: string
  tp_bilateral :: bool

definition termination_messages :: "crypto \<Rightarrow> 'c chain_ops \<Rightarrow> string \<Rightarrow> party_key \<Rightarrow> party_key \<Rightarrow> (typed_data \<times> typed_data) http" where
  "termination_messages cr ops h own cp =
     (case eip712_ctx ops of (chain, registry) \<Rightarrow>
      bind_res (need (termination_typed_data cr chain registry h (pk_address cp))) (\<lambda>td_own.
      bind_res (need (termination_typed_data cr chain registry h (pk_address own))) (\<lambda>td_cp. Inr (td_own, td_cp))))"

definition terminate_begin :: "setting \<Rightarrow> 'c chain_ops \<Rightarrow> chain_db \<Rightarrow> string \<Rightarrow> string \<Rightarrow> terminate_body \<Rightarrow> terminate_plan http" where
  "terminate_begin cx ops db u trade_id body =
     (let cr = cx_crypto cx in
      bind_res (trade_or_404 db trade_id u) (\<lambda>t.
      bind_res (require (t_status t = ''CONFIRMED'') (Http 409)) (\<lambda>_.
      bind_res (current_record (ledger_of db) t) (\<lambda>(att, h).
      bind_res (resolve_parties cr (cx_env cx) db t) (\<lambda>(own, cp).
      bind_res (termination_messages cr ops h own cp) (\<lambda>(td_own, td_cp).
      bind_res (cp_signature_or_ours cr own cp td_cp td_own (tb_address body) (tb_signature body)) (\<lambda>(so, sc, bilateral).
        Inr \<lparr>tp_trade = t, tp_att = att, tp_hash = h, tp_sig_own = so, tp_sig_cp = sc, tp_bilateral = bilateral\<rparr>)))))))"

definition terminated_record :: "terminate_plan \<Rightarrow> terminate_body \<Rightarrow> anchor_receipt \<Rightarrow> pydict" where
  "terminated_record a body r =
     dict_set ''termination'' (PDict [(''anchor'', receipt_dict r), (''reason'', opt_str (tb_reason body)),
         (''signatures'', PDict [(''own'', PStr (hexb (tp_sig_own a))), (''counterparty'', PStr (hexb (tp_sig_cp a)))])])
       (dict_set ''bilateral'' (PBool (tp_bilateral a)) (dict_set ''terminated'' (PBool True) (tp_att a)))"

definition terminate_finish :: "chain_db \<Rightarrow> terminate_plan \<Rightarrow> terminate_body \<Rightarrow> anchor_receipt \<Rightarrow> chain_request \<Rightarrow> chain_db \<times> lifecycle_response http" where
  "terminate_finish db a body r rq =
     apply_attested_event db (tp_trade a)
       \<lparr>ax_type = ''TERMINATED'', ax_status = ''TERMINATED'',
        ax_payload = [(''reason'', opt_str (tb_reason body)), (''attestation'', PDict (terminated_record a body r))],
        ax_hash = hexb (tp_hash a)\<rparr> (in_key rq) Inr (in_event rq)"

definition terminate_on_chain ::
    "setting \<Rightarrow> 'c chain_ops \<Rightarrow> chain_db \<Rightarrow> 'c \<Rightarrow> string \<Rightarrow> terminate_body \<Rightarrow> chain_request \<Rightarrow> chain_db \<times> 'c \<times> lifecycle_response http" where
  "terminate_on_chain cx ops db0 c trade_id body rq =
     (case chain_entry cx ''terminate'' db0 rq of
        (db, Inl e) \<Rightarrow> (db, c, Inl e)
      | (db, Inr u) \<Rightarrow>
          (case terminate_begin cx ops db u trade_id body of
             Inl e \<Rightarrow> (db, c, Inl e)
           | Inr a \<Rightarrow>
               (case co_terminate ops (tp_hash a) (tp_sig_own a) (tp_sig_cp a) c of
                  (c', Inl _) \<Rightarrow> (db, c', Inl (Http 502))
                | (c', Inr r) \<Rightarrow> (case terminate_finish db a body r rq of (db', x) \<Rightarrow> (db', c', x)))))"

subsection \<open>Our half of a request\<close>

text \<open>What the counterparty is sent: the hashes, the record, our signature, the message whose digest they sign, and whether we could sign it.\<close>

record half =
  hf_payload :: "json option"
  hf_prev :: "string option"
  hf_hash :: string
  hf_own :: party_key
  hf_cp :: party_key
  hf_signature :: string
  hf_to_sign :: typed_data
  hf_can_sign :: bool

definition our_half :: "crypto \<Rightarrow> json option \<Rightarrow> string option \<Rightarrow> string \<Rightarrow> party_key \<Rightarrow> party_key \<Rightarrow> typed_data \<Rightarrow> typed_data \<Rightarrow> half" where
  "our_half cr payload prev h own cp td_own td_cp =
     \<lparr>hf_payload = payload, hf_prev = prev, hf_hash = h, hf_own = own, hf_cp = cp, hf_signature = cr_sign cr td_own (the (pk_key own)),
      hf_to_sign = td_cp, hf_can_sign = (pk_key cp \<noteq> None)\<rparr>"

text \<open>A new UTI is committed before the record is built.\<close>

definition confirmation_request :: "setting \<Rightarrow> 'c chain_ops \<Rightarrow> chain_db \<Rightarrow> string \<Rightarrow> chain_request \<Rightarrow> chain_db \<times> half http" where
  "confirmation_request cx ops db trade_id rq =
     (let cr = cx_crypto cx; (chain, registry) = eip712_ctx ops in
      case bind_res (own_trade db trade_id (in_user rq)) (\<lambda>t. bind_res (resolve_parties cr (cx_env cx) db t) (\<lambda>(own, cp).
           bind_res (ensure_uti db t (in_uuid rq)) (\<lambda>db'. Inr (t, own, cp, db')))) of
        Inl e \<Rightarrow> (db, Inl e)
      | Inr (t, own, cp, db') \<Rightarrow>
          (db', bind_res (canonical_for cr db' t schema_version) (\<lambda>(payload, h).
                bind_res (need (confirmation_typed_data cr chain registry h (pk_address cp))) (\<lambda>td_own.
                bind_res (need (confirmation_typed_data cr chain registry h (pk_address own))) (\<lambda>td_cp.
                  Inr (our_half cr (Some payload) None h own cp td_own td_cp))))))"

definition amendment_request :: "setting \<Rightarrow> 'c chain_ops \<Rightarrow> chain_db \<Rightarrow> string \<Rightarrow> pydict \<Rightarrow> pydict \<Rightarrow> half http" where
  "amendment_request cx ops db trade_id changes user =
     (let cr = cx_crypto cx in
      bind_res (own_trade db trade_id user) (\<lambda>t.
      bind_res (preview_amendment cr (cx_rules cx) db t changes) (\<lambda>p.
      bind_res (resolve_parties cr (cx_env cx) db t) (\<lambda>(own, cp).
      bind_res (amendment_messages cr ops p own cp) (\<lambda>(td_own, td_cp).
        Inr (our_half cr (Some (pv_payload p)) (Some (pv_prev p)) (pv_new p) own cp td_own td_cp))))))"

definition termination_request :: "setting \<Rightarrow> 'c chain_ops \<Rightarrow> chain_db \<Rightarrow> string \<Rightarrow> pydict \<Rightarrow> half http" where
  "termination_request cx ops db trade_id user =
     (let cr = cx_crypto cx in
      bind_res (own_trade db trade_id user) (\<lambda>t.
      bind_res (current_record (ledger_of db) t) (\<lambda>(att, h).
      bind_res (resolve_parties cr (cx_env cx) db t) (\<lambda>(own, cp).
      bind_res (termination_messages cr ops h own cp) (\<lambda>(td_own, td_cp).
        Inr (our_half cr None None h own cp td_own td_cp))))))"

subsection \<open>What anyone can check\<close>

definition attestation_of :: "event_row option \<Rightarrow> pydict" where
  "attestation_of ev = (case ev of None \<Rightarrow> [] | Some e \<Rightarrow> (case get (e_payload e) ''attestation'' of PDict d \<Rightarrow> d | _ \<Rightarrow> []))"

definition dict_in :: "pydict \<Rightarrow> string \<Rightarrow> pydict" where
  "dict_in d k = (case get d k of PDict x \<Rightarrow> x | _ \<Rightarrow> [])"

definition text_in :: "pydict \<Rightarrow> string \<Rightarrow> string option" where
  "text_in d k = (case get d k of PStr s \<Rightarrow> Some s | _ \<Rightarrow> None)"

definition int_in :: "pydict \<Rightarrow> string \<Rightarrow> int option" where
  "int_in d k = (case get d k of PNone \<Rightarrow> None | v \<Rightarrow> (case int_or_0 v of Inl _ \<Rightarrow> None | Inr n \<Rightarrow> Some n))"

text \<open>\<open>None\<close> in the chain of options is the exception that makes the answer false. Both signatures are checked as confirmations.\<close>

definition signature_entry :: "pydict \<Rightarrow> (string \<times> string) option" where
  "signature_entry p = (case (text_in p ''address'', text_in p ''signature'') of
      (Some a, Some s) \<Rightarrow> map_option (\<lambda>b. (a, b)) (unhex (drop 2 s)) | _ \<Rightarrow> None)"

definition recovers_to :: "crypto \<Rightarrow> typed_data option \<Rightarrow> string \<Rightarrow> string \<Rightarrow> bool" where
  "recovers_to cr td sg a = (case td of None \<Rightarrow> False | Some m \<Rightarrow> cr_recover cr m sg = Some a)"

definition signatures_valid :: "crypto \<Rightarrow> pydict \<Rightarrow> string \<Rightarrow> bool" where
  "signatures_valid cr att h =
     (let e = dict_in att ''eip712''; ps = dict_in att ''parties'' in
      case (int_in e ''chain_id'', text_in e ''verifying_contract'', signature_entry (dict_in ps ''own''), signature_entry (dict_in ps ''counterparty'')) of
        (Some chain, Some registry, Some (a, so), Some (b, sc)) \<Rightarrow>
          recovers_to cr (confirmation_typed_data cr chain registry h b) so a \<and> recovers_to cr (confirmation_typed_data cr chain registry h a) sc b
      | _ \<Rightarrow> False)"

record verification =
  vf_event :: "string option"
  vf_prev :: "string option"
  vf_terminated :: bool
  vf_recomputed :: string
  vf_stored :: "string option"
  vf_matches :: bool
  vf_signatures :: "bool option"
  vf_on_chain :: "chain_record option"
  vf_confirmed :: bool
  vf_payload :: json

definition stored_hash :: "event_row option \<Rightarrow> string option" where
  "stored_hash ev =
     (case ev of None \<Rightarrow> None
      | Some e \<Rightarrow> (case e_hash e of Some (c # cs) \<Rightarrow> Some (c # cs) | _ \<Rightarrow> text_in (attestation_of ev) ''trade_hash''))"

definition verify_trade :: "setting \<Rightarrow> 'c chain_ops \<Rightarrow> chain_db \<Rightarrow> 'c \<Rightarrow> string \<Rightarrow> pydict \<Rightarrow> verification http" where
  "verify_trade cx ops db c trade_id user =
     bind_res (own_trade db trade_id user) (\<lambda>t.
       let ev = latest_attested_event (ledger_of db) (t_id t); att = attestation_of ev; stored = stored_hash ev in
       bind_res (if att = [] then Inr schema_version else attested_version att) (\<lambda>v.
       bind_res (canonical_for (cx_crypto cx) db t v) (\<lambda>(payload, h).
         let rec = (if co_anchored ops then (case co_get ops h c of Some (Some r) \<Rightarrow> Some r | _ \<Rightarrow> None) else None) in
         Inr \<lparr>vf_event = map_option e_type ev, vf_prev = text_in att ''prev_hash'', vf_terminated = is_terminated (Some att),
              vf_recomputed = hexb h, vf_stored = stored,
              vf_matches = (case stored of None \<Rightarrow> False | Some s \<Rightarrow> str_lower s = str_lower (hexb h)),
              vf_signatures = (if att = [] then None else Some (signatures_valid (cx_crypto cx) att h)),
              vf_on_chain = rec, vf_confirmed = (case rec of None \<Rightarrow> False | Some r \<Rightarrow> rr_status r = ''Confirmed''), vf_payload = payload\<rparr>)))"

definition get_attestation :: "'c chain_ops \<Rightarrow> chain_db \<Rightarrow> 'c \<Rightarrow> string \<Rightarrow> pydict \<Rightarrow> (string \<times> (event_row \<times> pydict \<times> chain_record option) option) http" where
  "get_attestation ops db c trade_id user =
     bind_res (own_trade db trade_id user) (\<lambda>t.
       let ev = latest_attested_event (ledger_of db) (t_id t); att = attestation_of ev in
       case ev of
         None \<Rightarrow> Inr (t_status t, None)
       | Some e \<Rightarrow>
           if att = [] then Inr (t_status t, None)
           else Inr (t_status t, Some (e, att,
                  if co_anchored ops then (case text_in att ''trade_hash'' of None \<Rightarrow> None
                    | Some s \<Rightarrow> (case unhex (drop 2 s) of None \<Rightarrow> None | Some h \<Rightarrow> (case co_get ops h c of Some (Some r) \<Rightarrow> Some r | _ \<Rightarrow> None)))
                  else None)))"

definition proof_pack :: "setting \<Rightarrow> chain_db \<Rightarrow> string \<Rightarrow> pydict \<Rightarrow> (json \<times> string \<times> pydict) http" where
  "proof_pack cx db trade_id user =
     bind_res (own_trade db trade_id user) (\<lambda>t.
       let att = attestation_of (latest_attested_event (ledger_of db) (t_id t)) in
       bind_res (require (att \<noteq> []) (Http 404)) (\<lambda>_.
       bind_res (attested_version att) (\<lambda>v.
       bind_res (canonical_for (cx_crypto cx) db t v) (\<lambda>(payload, h). Inr (payload, hexb h, att)))))"

end
