(* ===== verification/Chain_Demo.thy ===== *)
theory Chain_Demo
  imports Chain_Lifecycle
begin

section \<open>A small book and registry\<close>

text \<open>
  The concrete world the witnesses of the chain theories run in: two firms with their keys in the environment, a signature scheme whose
  signatures name the kind of message and the key, one trade, and the registry with its record. \<open>deal_history\<close> is a trade confirmed under the
  hash \<open>p\<close>; every record hashes to \<open>n\<close>.
\<close>

definition kind_char :: "typed_data \<Rightarrow> char" where
  "kind_char td = (if td_primary td = ''TradeConfirmation'' then CHR ''C'' else if td_primary td = ''TradeAmendment'' then CHR ''A'' else CHR ''T'')"

definition deal_sign :: "typed_data \<Rightarrow> string \<Rightarrow> string" where
  "deal_sign td k = replicate 32 (kind_char td) @ replicate 32 (CHR 0x00) @ [if k = ''ka'' then CHR 0x1B else CHR 0x1C]"

definition deal_crypto :: crypto where
  "deal_crypto = \<lparr>cr_checksum = (\<lambda>x. Some (str_lower x)),
     cr_account = (\<lambda>s. if s = ''ka'' then Some (''0xa'', ''ka'') else if s = ''kb'' then Some (''0xb'', ''kb'') else None),
     cr_sign = deal_sign,
     cr_recover = (\<lambda>td sg. if sg = deal_sign td ''ka'' then Some ''0xa'' else if sg = deal_sign td ''kb'' then Some ''0xb'' else None),
     cr_keccak = (\<lambda>_. ''n'')\<rparr>"

definition deal_chain_env :: env where
  "deal_chain_env = [(''RIJEKA_CHAIN_KEY_LEIA'', ''ka''), (''RIJEKA_CHAIN_KEY_LEIB'', ''kb'')]"

definition deal_setting :: setting where
  "deal_setting = \<lparr>cx_crypto = deal_crypto, cx_env = deal_chain_env, cx_rules = (\<lambda>_ _. True)\<rparr>"

definition deal_call :: call_env where
  "deal_call = \<lparr>ce_domain = domain_of 1 ''0xr'', ce_time = 1700000000, ce_number = 7,
     ce_ecrecover = (\<lambda>td v r s. if r = replicate 32 (kind_char td) then (if v = 27 then ''0xa'' else ''0xb'') else zero_address)\<rparr>"

definition deal_cols :: "string \<Rightarrow> pydict" where
  "deal_cols ccy = [(''own_legal_entity_id'', PStr ''le''), (''counterparty_id'', PStr ''cp''), (''uti'', PStr ''U''), (''notional_ccy'', PStr ccy)]"

definition deal_att :: pydict where
  "deal_att = [(''schema_version'', int_val 2), (''trade_hash'', PStr ''0x70''), (''anchor'', PDict [(''anchored'', PBool True)])]"

definition deal_event :: "string \<Rightarrow> int \<Rightarrow> string \<Rightarrow> pydict \<Rightarrow> event_row" where
  "deal_event i n ty payload = \<lparr>e_id = i, e_trade = demo_tid, e_seq = n, e_type = ty, e_payload = payload, e_pre = None, e_post = None,
     e_user = ''0123456789abcdef0123456789abcdef'', e_hash = None, e_cp_confirmed = False\<rparr>"

definition deal_chain_trade :: "string \<Rightarrow> trade_row" where
  "deal_chain_trade st = \<lparr>t_id = demo_tid, t_user = ''0123456789abcdef0123456789abcdef'', t_ref = ''T'', t_status = st, t_latest = None, t_version = 1\<rparr>"

definition deal_book :: "string \<Rightarrow> event_row list \<Rightarrow> pydict \<Rightarrow> chain_db" where
  "deal_book st evs cols =
     \<lparr>cd_pend = \<lparr>ps_rows = [], ps_ledger = \<lparr>l_trades = [deal_chain_trade st], l_legs = [], l_events = evs, l_idem = []\<rparr>\<rparr>,
      cd_table = True, cd_trades = [(demo_tid, cols)],
      cd_entities = [(''le'', [(''lei'', PStr ''LEIA''), (''name'', PStr ''A'')]), (''lb'', [(''lei'', PStr ''LEIB''), (''name'', PStr ''B'')])],
      cd_counterparties = [(''cp'', [(''legal_entity_id'', PStr ''lb''), (''name'', PStr ''B'')])], cd_claims = [],
      cd_budget = \<lparr>bg_table = False, bg_rows = [], bg_memory = [], bg_events = [], bg_members = []\<rparr>\<rparr>"

definition booked_event :: event_row where
  "booked_event = deal_event ''e1'' 1 ''BOOKED'' [(''trade'', PDict [(''id'', PStr ''t'')])]"

definition deal_history :: "event_row list" where
  "deal_history = [booked_event, deal_event ''e2'' 2 ''CONFIRMED'' [(''attestation'', PDict deal_att)]]"

definition deal_chain :: registry where
  "deal_chain = record_confirmed deal_call ''p'' ''0xa'' ''0xb'' zero_hash empty_registry"

definition deal_request :: "string option \<Rightarrow> chain_request" where
  "deal_request key = \<lparr>in_user = demo_user, in_key = key, in_now = 0, in_reads = True, in_inserts = True, in_event = ''e9'', in_row = ''r9'', in_uuid = ''u9''\<rparr>"

lemma deal_user_role: "check_write_role demo_user = Inr ''0123456789abcdef0123456789abcdef''"
  by code_simp

lemma deal_tid_parses: "parse_trade_uuid demo_tid = Inr demo_tid"
  by code_simp

lemma deal_limits: "limits deal_chain_env = \<lparr>cap_user = 0, cap_firm = 0, cap_global = 0\<rparr>"
  by (simp add: limits_def int_env_def deal_chain_env_def str_strip_def)

lemma deal_entry: "chain_entry deal_setting kind (deal_book st evs cols) (deal_request None) = (deal_book st evs cols, Inr ''0123456789abcdef0123456789abcdef'')"
  by (simp add: chain_entry_def deal_request_def deal_user_role check_chain_quota_def deal_setting_def deal_limits charge_def
      validate_idempotency_header_def deal_book_def)

lemma deal_find: "find_trade (ledger_of (deal_book st evs cols)) demo_tid ''0123456789abcdef0123456789abcdef'' = Some (deal_chain_trade st)"
  by (simp add: find_trade_def deal_book_def deal_chain_trade_def)

lemma deal_keys:
  "resolve_key deal_crypto deal_chain_env [(''lei'', PStr ''LEIA''), (''name'', PStr ''A'')]
     = Inr \<lparr>pk_lei = ''LEIA'', pk_address = ''0xa'', pk_key = Some ''ka'', pk_source = ''env''\<rparr>"
  "resolve_key deal_crypto deal_chain_env [(''lei'', PStr ''LEIB''), (''name'', PStr ''B'')]
     = Inr \<lparr>pk_lei = ''LEIB'', pk_address = ''0xb'', pk_key = Some ''kb'', pk_source = ''env''\<rparr>"
  by code_simp+

definition key_a :: party_key where
  "key_a = \<lparr>pk_lei = ''LEIA'', pk_address = ''0xa'', pk_key = Some ''ka'', pk_source = ''env''\<rparr>"

definition key_b :: party_key where
  "key_b = \<lparr>pk_lei = ''LEIB'', pk_address = ''0xb'', pk_key = Some ''kb'', pk_source = ''env''\<rparr>"

lemma deal_parts: "trade_parts (deal_book st evs (deal_cols ccy)) (deal_chain_trade st')
    = Inr \<lparr>pt_own = [(''lei'', PStr ''LEIA''), (''name'', PStr ''A'')], pt_cp = [(''lei'', PStr ''LEIB''), (''name'', PStr ''B'')], pt_legs = []\<rparr>"
  by (simp add: trade_parts_def columns_of_def deal_book_def deal_chain_trade_def own_legs_def load_parties_def row_of_def deal_cols_def get_def
      identity_def cp_identity_def truthy_def)

lemma deal_payload:
  "\<exists>x. canonical_payload (deal_cols ''USD'') [] [(''lei'', PStr ''LEIA''), (''name'', PStr ''A'')] [(''lei'', PStr ''LEIB''), (''name'', PStr ''B'')] 2 = Inr x"
  "\<exists>x. canonical_payload (deal_cols ''EUR'') [] [(''lei'', PStr ''LEIA''), (''name'', PStr ''A'')] [(''lei'', PStr ''LEIB''), (''name'', PStr ''B'')] 2 = Inr x"
proof -
  have r: "(case y of Inl _ \<Rightarrow> False | Inr _ \<Rightarrow> True) \<Longrightarrow> \<exists>x. y = Inr x" for y :: "'e + 'a" by (cases y) auto
  show "\<exists>x. canonical_payload (deal_cols ''USD'') [] [(''lei'', PStr ''LEIA''), (''name'', PStr ''A'')] [(''lei'', PStr ''LEIB''), (''name'', PStr ''B'')] 2 = Inr x"
    by (rule r) code_simp
  show "\<exists>x. canonical_payload (deal_cols ''EUR'') [] [(''lei'', PStr ''LEIA''), (''name'', PStr ''A'')] [(''lei'', PStr ''LEIB''), (''name'', PStr ''B'')] 2 = Inr x"
    by (rule r) code_simp
qed

lemma deal_columns_of: "columns_of (deal_book st evs cols) (t_id (deal_chain_trade st')) = cols"
  by (simp add: columns_of_def deal_book_def deal_chain_trade_def)

lemma deal_canonical:
  "\<exists>x. canonical_for deal_crypto (deal_book st evs (deal_cols ''USD'')) (deal_chain_trade st') 2 = Inr (x, ''n'')"
  "\<exists>x. canonical_for deal_crypto (deal_book st evs (deal_cols ''EUR'')) (deal_chain_trade st') 2 = Inr (x, ''n'')"
  unfolding canonical_for_def deal_parts deal_columns_of using deal_payload
  by (auto simp: trade_hash_def deal_crypto_def)

lemma deal_resolve: "resolve_parties deal_crypto deal_chain_env (deal_book st evs (deal_cols ccy)) (deal_chain_trade st') = Inr (key_a, key_b)"
  unfolding resolve_parties_def deal_parts
  by (simp add: deal_keys key_or_422_def registered_signer_def get_def deal_book_def truthy_def require_def key_a_def key_b_def)

definition deal_amend :: "pydict \<Rightarrow> amend_body" where
  "deal_amend extra = \<lparr>ab_changes = (''trade'', PDict [(''notional_ccy'', PStr ''EUR'')]) # extra, ab_address = None, ab_signature = None\<rparr>"

lemma deal_apply:
  assumes "get extra ''legs'' = PNone"
  shows "apply_changes (\<lambda>_ _. True) (deal_book st evs (deal_cols ''USD'')) (deal_chain_trade st') (ab_changes (deal_amend extra)) = Inr (deal_book st evs (deal_cols ''EUR''))"
proof -
  have "set_fields trade_fields_v2 trade_date_fields [''notional''] [(''notional_ccy'', PStr ''EUR'')] (deal_cols ''USD'') = Inr (deal_cols ''EUR'')"
    by code_simp
  moreover have "get (ab_changes (deal_amend extra)) ''legs'' = PNone" using assms by (simp add: deal_amend_def get_def)
  ultimately show ?thesis
    unfolding apply_changes_def deal_columns_of
    by (simp add: deal_amend_def get_def[of _ "''trade''"] truthy_def require_def dict_or_none_def list_or_none_def set_columns_def deal_book_def with_ledger_def
        deal_chain_trade_def)
qed

definition deal_plan :: "json \<Rightarrow> amend_plan" where
  "deal_plan x = \<lparr>ap_trade = deal_chain_trade ''CONFIRMED'', ap_preview = \<lparr>pv_att = deal_att, pv_prev = ''p'', pv_payload = x, pv_new = ''n''\<rparr>, ap_version = 2,
     ap_own = key_a, ap_cp = key_b, ap_sig_own = deal_sign (amendment_digest deal_call ''p'' ''n'' ''0xb'') ''ka'',
     ap_sig_cp = deal_sign (amendment_digest deal_call ''p'' ''n'' ''0xa'') ''kb'', ap_bilateral = False\<rparr>"

lemma deal_current: "current_record (ledger_of (deal_book st deal_history cols)) (deal_chain_trade st') = Inr (deal_att, ''p'')"
proof -
  have "current_record \<lparr>l_trades = [], l_legs = [], l_events = deal_history, l_idem = []\<rparr> (deal_chain_trade ''CONFIRMED'') = Inr (deal_att, ''p'')"
    by code_simp
  then show ?thesis by (simp add: current_record_def anchored_attestation_def current_attestation_def latest_attested_event_def trade_events_of_def deal_book_def deal_chain_trade_def)
qed

lemma deal_role: "check_write_role (in_user (deal_request key)) = Inr ''0123456789abcdef0123456789abcdef''"
  by (simp add: deal_request_def deal_user_role)

lemma deal_trade: "trade_or_404 (deal_book st evs cols) demo_tid ''0123456789abcdef0123456789abcdef'' = Inr (deal_chain_trade st)"
  by (simp add: trade_or_404_def deal_tid_parses deal_find)

lemma deal_begin:
  assumes "get extra ''legs'' = PNone"
  shows "\<exists>x. amend_begin deal_setting (registry_ops deal_call) (deal_book ''CONFIRMED'' deal_history (deal_cols ''USD''))
     ''0123456789abcdef0123456789abcdef'' demo_tid (deal_amend extra) =
   Inr (deal_plan x)"
proof -
  let ?db = "deal_book ''CONFIRMED'' deal_history (deal_cols ''USD'')" and ?t = "deal_chain_trade ''CONFIRMED''"
  obtain x where x: "canonical_for deal_crypto (deal_book ''CONFIRMED'' deal_history (deal_cols ''EUR'')) ?t 2 = Inr (x, ''n'')"
    using deal_canonical(2) by blast
  have v: "attested_version deal_att = Inr 2" by code_simp
  have p: "preview_amendment deal_crypto (\<lambda>_ _. True) ?db ?t (ab_changes (deal_amend extra)) = Inr \<lparr>pv_att = deal_att, pv_prev = ''p'', pv_payload = x, pv_new = ''n''\<rparr>"
    by (simp add: preview_amendment_def deal_current deal_apply[OF assms] v x)
  note t = deal_trade
  have m: "amendment_messages deal_crypto (registry_ops deal_call) \<lparr>pv_att = deal_att, pv_prev = ''p'', pv_payload = x, pv_new = ''n''\<rparr> key_a key_b =
    Inr (amendment_digest deal_call ''p'' ''n'' ''0xb'', amendment_digest deal_call ''p'' ''n'' ''0xa'')"
    by (simp add: amendment_messages_def eip712_ctx_def registry_ops_def deal_call_def domain_of_def need_def amendment_typed_data_def
        deal_crypto_def typed_def key_a_def key_b_def amendment_digest_def str_lower_def low_char_def)
  show ?thesis unfolding amend_begin_def Let_def
    by (simp add: deal_setting_def t p v m deal_resolve cp_signature_or_ours_def)
      (simp add: deal_chain_trade_def require_def deal_amend_def key_a_def key_b_def deal_crypto_def deal_plan_def)
qed

lemma deal_recovers: "recover_sig deal_call td (deal_sign td k) = Inr (if k = ''ka'' then ''0xa'' else ''0xb'')"
  by (simp add: recover_sig_def deal_sign_def deal_call_def byte_at_def nth_append zero_bytes short_not_zero Let_def)

lemma deal_sends: "\<exists>reg. amend_reg deal_call ''p'' ''n'' (deal_sign (amendment_digest deal_call ''p'' ''n'' ''0xb'') ''ka'')
    (deal_sign (amendment_digest deal_call ''p'' ''n'' ''0xa'') ''kb'') deal_chain = Inr reg"
  by (simp add: amend_reg_def require_signer_def require_def deal_recovers deal_chain_def short_not_zero empty_registry_def no_record_def
      record_confirmed_def Let_def)


definition deal_stream :: "event_like list" where
  "deal_stream = [\<lparr>event_seq = 1, event_type = ''BOOKED'', ev_payload = [(''trade'', PDict [(''id'', PStr ''t'')])]\<rparr>,
     \<lparr>event_seq = 2, event_type = ''CONFIRMED'', ev_payload = [(''attestation'', PDict deal_att)]\<rparr>]"

lemma deal_project: "project deal_stream = Inr \<lparr>p_trade = Some [(''id'', PStr ''t''), (''status'', PStr ''CONFIRMED'')], p_legs = [], p_cashflows = []\<rparr>"
  by code_simp

definition deal_projection :: projection where
  "deal_projection = \<lparr>p_trade = Some [(''id'', PStr ''t''), (''status'', PStr ''CONFIRMED'')], p_legs = [], p_cashflows = []\<rparr>"

lemma deal_states_of: "attested_states (ledger_of (deal_book st deal_history cols)) demo_tid a
    = bind_res (project_from 3 deal_projection [\<lparr>event_seq = 3, event_type = ax_type a, ev_payload = ax_payload a\<rparr>]) (\<lambda>post.
       Inr (Some deal_projection, Some (set_status_opt (ax_status a) post)))"
proof -
  have pre: "sort_key event_seq (map snd (filter (\<lambda>r. fst r = demo_tid) (map as_event (l_events (ledger_of (deal_book st deal_history cols)))))) = deal_stream"
    by (simp add: deal_book_def deal_history_def booked_event_def deal_event_def as_event_def deal_stream_def)
  have len: "1 + int (length deal_stream) = 3" "event_seq (last deal_stream) + 1 = 3" "deal_stream \<noteq> []" by (simp_all add: deal_stream_def)
  have p: "project deal_stream = Inr deal_projection" by (simp add: deal_project deal_projection_def)
  have q: "project (deal_stream @ es) = project_from 3 deal_projection es" for es
    unfolding project_def project_from_append p[unfolded project_def] len by (simp del: project_from.simps)
  show ?thesis unfolding attested_states_def Let_def pre q p using len by (simp del: project_from.simps)
qed

lemma deal_states:
  "\<exists>states. attested_states (ledger_of (deal_book st deal_history cols)) demo_tid
     \<lparr>ax_type = ''AMENDED'', ax_status = s, ax_payload = [(''changes'', PDict (ab_changes (deal_amend []))), (''attestation'', PDict att)], ax_hash = h\<rparr> = Inr states"
  "\<exists>states. attested_states (ledger_of (deal_book st deal_history cols)) demo_tid
     \<lparr>ax_type = ''TERMINATED'', ax_status = s, ax_payload = payload, ax_hash = h\<rparr> = Inr states"
  by (simp_all add: deal_states_of deal_projection_def event_names_def apply_event_def status_only_def h_amended_def deal_amend_def get_def dict_or_empty_def
      truthy_def dicts_or_empty_def updates_by_id_def update_rows_def)

lemma deal_writes: "\<exists>db' resp. write_attested (deal_book ''CONFIRMED'' deal_history cols) (deal_chain_trade ''CONFIRMED'') a states None ''e9'' = Inr (db', resp)
    \<and> \<not> lr_replay resp"
proof -
  have new: "''e9'' \<notin> e_id ` set (l_events (ledger_of (deal_book ''CONFIRMED'' deal_history cols)))"
    by (simp add: deal_book_def deal_history_def booked_event_def deal_event_def)
  have row: "List.find (\<lambda>x. t_id x = t_id (deal_chain_trade ''CONFIRMED'')) (l_trades (ledger_of (deal_book ''CONFIRMED'' deal_history cols)))
     = Some (deal_chain_trade ''CONFIRMED'')" by (simp add: deal_book_def)
  show ?thesis unfolding write_attested_def Let_def using new row by (simp add: build_response_def)
qed

lemma deal_amends: "\<exists>db' c' resp. amend_on_chain deal_setting (registry_ops deal_call) (deal_book ''CONFIRMED'' deal_history (deal_cols ''USD'')) deal_chain
     demo_tid (deal_amend []) (deal_request None) = (db', c', Inr resp) \<and> \<not> lr_replay resp"
proof -
  let ?db = "deal_book ''CONFIRMED'' deal_history (deal_cols ''USD'')" and ?t = "deal_chain_trade ''CONFIRMED''" and ?ops = "registry_ops deal_call"
  obtain x where a: "amend_begin deal_setting ?ops ?db ''0123456789abcdef0123456789abcdef'' demo_tid (deal_amend []) = Inr (deal_plan x)" using deal_begin[of "[]"] by (auto simp: get_def)
  obtain reg r where s: "amend_send ?ops (deal_plan x) deal_chain = (reg, Inr r)"
    using deal_sends by (auto simp: amend_send_def registry_ops_def deal_plan_def send_reg_def)
  obtain y where y: "canonical_for deal_crypto (deal_book ''CONFIRMED'' deal_history (deal_cols ''EUR'')) ?t 2 = Inr (y, ''n'')"
    using deal_canonical(2) by blast
  have m: "amend_mutate deal_setting (deal_plan x) (ab_changes (deal_amend [])) ?db = Inr (deal_book ''CONFIRMED'' deal_history (deal_cols ''EUR''))"
    by (simp add: amend_mutate_def deal_setting_def deal_plan_def deal_apply[of "[]"] get_def y)
  obtain states where st: "attested_states (ledger_of ?db) demo_tid \<lparr>ax_type = ''AMENDED'', ax_status = ''CONFIRMED'', ax_payload =
      [(''changes'', PDict (ab_changes (deal_amend []))), (''attestation'', PDict (amended_record ?ops (deal_plan x) r))], ax_hash = hexb ''n''\<rparr> = Inr states"
    using deal_states(1) by blast
  obtain db' resp where w: "write_attested (deal_book ''CONFIRMED'' deal_history (deal_cols ''EUR'')) ?t \<lparr>ax_type = ''AMENDED'', ax_status = ''CONFIRMED'', ax_payload =
      [(''changes'', PDict (ab_changes (deal_amend []))), (''attestation'', PDict (amended_record ?ops (deal_plan x) r))], ax_hash = hexb ''n''\<rparr> states None ''e9'' = Inr (db', resp)"
      "\<not> lr_replay resp"
    using deal_writes by blast
  have l: "lookup_idempotent (ledger_of ?db) (t_user ?t) None = None" by (simp add: lookup_idempotent_def)
  have "amend_finish deal_setting ?ops ?db (deal_plan x) (deal_amend []) r (deal_request None) = (db', Inr resp)"
    using st w l m by (simp add: amend_finish_def apply_attested_event_def deal_plan_def deal_request_def deal_chain_trade_def)
  then show ?thesis using w(2) by (simp add: amend_on_chain_def deal_entry a s)
qed

lemma deal_trade_id: "t_id (deal_chain_trade st) = demo_tid"
  by (simp add: deal_chain_trade_def)

lemma deal_ok: "ledger_ok (ledger_of (deal_book st deal_history cols))"
proof -
  have "trade_events_of (ledger_of (deal_book st deal_history cols)) tid = (if tid = demo_tid then deal_history else [])" for tid
    by (simp add: trade_events_of_def deal_book_def deal_history_def booked_event_def deal_event_def)
  then show ?thesis
    by (simp add: ledger_ok_def) (simp add: deal_book_def deal_history_def booked_event_def deal_event_def upto.simps)
qed

abbreviation deal_pending :: chain_db where
  "deal_pending \<equiv> deal_book ''PENDING'' [booked_event] (deal_cols ''USD'')"

definition deal_countersignature :: string where
  "deal_countersignature = deal_sign (confirmation_digest deal_call ''n'' ''0xa'') ''kb''"

lemma deal_confirmation:
  "confirmation_typed_data deal_crypto 1 ''0xr'' ''n'' ''0xa'' = Some (confirmation_digest deal_call ''n'' ''0xa'')"
  "confirmation_typed_data deal_crypto 1 ''0xr'' ''n'' ''0xb'' = Some (confirmation_digest deal_call ''n'' ''0xb'')"
  by (simp_all add: confirmation_typed_data_def typed_def deal_crypto_def str_lower_def low_char_def confirmation_digest_def deal_call_def domain_of_def)

lemma deal_ctx: "eip712_ctx (registry_ops deal_call) = (1, ''0xr'')"
  by (simp add: eip712_ctx_def registry_ops_def deal_call_def domain_of_def)

lemma deal_sign_length: "length (deal_sign td k) = 65"
  by (simp add: deal_sign_def)

lemma deal_checks: "\<exists>x. countersign_checks deal_setting (registry_ops deal_call) deal_pending (deal_chain_trade ''PENDING'') ''0xb'' (hexb deal_countersignature) None rq =
   Inr \<lparr>sn_db = deal_pending, sn_payload = x, sn_hash = ''n'', sn_own = key_a, sn_cp = key_b,
     sn_sig_own = deal_sign (confirmation_digest deal_call ''n'' ''0xb'') ''ka'', sn_sig_cp = deal_countersignature\<rparr>"
proof -
  obtain x where x: "canonical_for deal_crypto deal_pending (deal_chain_trade ''PENDING'') 2 = Inr (x, ''n'')" using deal_canonical(1) by blast
  have uti: "ensure_uti deal_pending (deal_chain_trade ''PENDING'') u = Inr deal_pending" for u
    by (simp add: ensure_uti_def deal_columns_of Let_def) (simp add: deal_cols_def get_def truthy_def)
  have sg: "parse_signature (hexb deal_countersignature) = Inr deal_countersignature"
    by (simp add: parse_signature_def unhex_hexb deal_countersignature_def deal_sign_length)
  have "cr_recover deal_crypto td (deal_sign td ''kb'') = Some ''0xb''" for td by (simp add: deal_crypto_def deal_sign_def)
  then have chk: "check_signer deal_crypto (confirmation_digest deal_call ''n'' ''0xa'') deal_countersignature (Some ''0xb'') key_b = Inr ()"
    by (simp add: check_signer_def deal_countersignature_def key_b_def require_def)
  have k: "pk_address key_a = ''0xa''" "pk_address key_b = ''0xb''" "pk_key key_a = Some ''ka''" by (simp_all add: key_a_def key_b_def)
  show ?thesis unfolding countersign_checks_def Let_def deal_ctx
    by (simp add: deal_setting_def deal_resolve uti x[folded schema_version_def] sg need_def k deal_confirmation chk require_def) (simp add: deal_crypto_def)
qed

lemma deal_confirms: "\<exists>reg. confirm_reg deal_call ''n'' ''0xa'' ''0xb'' (deal_sign (confirmation_digest deal_call ''n'' ''0xb'') ''ka'') deal_countersignature empty_registry = Inr reg"
  by (simp add: confirm_reg_def check_parties_def require_signer_def require_def deal_recovers deal_countersignature_def short_not_zero empty_registry_def no_record_def)

lemma deal_transition: "\<exists>l' resp. apply_lifecycle_transition (ledger_of deal_pending) \<lparr>tr_user = u, tr_trade = deal_chain_trade ''PENDING'',
     tr_type = ty, tr_status = st, tr_payload = p, tr_key = None, tr_hash = h, tr_cp_confirmed = True\<rparr> ''e9'' = (l', Inr resp) \<and> \<not> lr_replay resp"
proof -
  have "project_from_db (ledger_of deal_pending) demo_tid = project [\<lparr>event_seq = 1, event_type = ''BOOKED'', ev_payload = [(''trade'', PDict [(''id'', PStr ''t'')])]\<rparr>]"
    by (simp add: project_from_db_def project_rows_def deal_book_def booked_event_def deal_event_def as_event_def)
  also have "\<dots> = Inr \<lparr>p_trade = Some [(''id'', PStr ''t''), (''status'', PStr ''PENDING'')], p_legs = [], p_cashflows = []\<rparr>" by code_simp
  finally have p: "project_from_db (ledger_of deal_pending) (t_id (deal_chain_trade ''PENDING''))
     = Inr \<lparr>p_trade = Some [(''id'', PStr ''t''), (''status'', PStr ''PENDING'')], p_legs = [], p_cashflows = []\<rparr>" by (simp add: deal_trade_id)
  have new: "''e9'' \<notin> e_id ` set (l_events (ledger_of deal_pending))"
    by (simp add: deal_book_def booked_event_def deal_event_def)
  have row: "List.find (\<lambda>x. t_id x = t_id (deal_chain_trade ''PENDING'')) (l_trades (ledger_of deal_pending)) = Some (deal_chain_trade ''PENDING'')"
    by (simp add: deal_book_def)
  show ?thesis unfolding apply_lifecycle_transition_def Let_def using p new row by (simp add: build_response_def)
qed

lemma deal_countersigns: "\<exists>db' c' resp. countersign deal_setting (registry_ops deal_call) deal_pending empty_registry
     demo_tid ''0xb'' (hexb deal_countersignature) (deal_request None) = (db', c', Inr resp) \<and> \<not> lr_replay resp"
proof -
  obtain x where c: "countersign_checks deal_setting (registry_ops deal_call) deal_pending (deal_chain_trade ''PENDING'') ''0xb'' (hexb deal_countersignature) None
     (deal_request None) = Inr \<lparr>sn_db = deal_pending, sn_payload = x, sn_hash = ''n'', sn_own = key_a, sn_cp = key_b,
     sn_sig_own = deal_sign (confirmation_digest deal_call ''n'' ''0xb'') ''ka'', sn_sig_cp = deal_countersignature\<rparr>" using deal_checks by blast
  obtain reg r where s: "co_confirm (registry_ops deal_call) ''n'' ''0xa'' ''0xb'' (deal_sign (confirmation_digest deal_call ''n'' ''0xb'') ''ka'')
     deal_countersignature False empty_registry = (reg, Inr r)"
    using deal_confirms by (auto simp: registry_ops_def send_reg_def)
  have k: "pk_address key_a = ''0xa''" "pk_address key_b = ''0xb''" by (simp_all add: key_a_def key_b_def)
  have "load_pending_trade (ledger_of deal_pending) demo_tid ''0123456789abcdef0123456789abcdef'' = Inr (deal_chain_trade ''PENDING'')"
    by (simp add: load_pending_trade_def deal_find) (simp add: deal_chain_trade_def)
  moreover have "in_key (deal_request None) = None" "in_event (deal_request None) = ''e9''" by (simp_all add: deal_request_def)
  moreover obtain l' resp where "apply_lifecycle_transition (ledger_of deal_pending) \<lparr>tr_user = t_user (deal_chain_trade ''PENDING''), tr_trade = deal_chain_trade ''PENDING'',
     tr_type = ''CONFIRMED'', tr_status = ''CONFIRMED'', tr_payload = [(''attestation'', PDict (countersigned_record (registry_ops deal_call)
       \<lparr>sn_db = deal_pending, sn_payload = x, sn_hash = ''n'', sn_own = key_a, sn_cp = key_b,
     sn_sig_own = deal_sign (confirmation_digest deal_call ''n'' ''0xb'') ''ka'', sn_sig_cp = deal_countersignature\<rparr> r None))], tr_key = None, tr_hash = Some (hexb ''n''), tr_cp_confirmed = True\<rparr> ''e9'' = (l', Inr resp)"
    "\<not> lr_replay resp" using deal_transition by blast
  ultimately show ?thesis
    by (simp add: countersign_def deal_entry lookup_idempotent_def deal_tid_parses countersign_trade_def c k s)
qed


lemma deal_pending_ok: "ledger_ok (ledger_of deal_pending)"
proof -
  have "trade_events_of (ledger_of deal_pending) tid = (if tid = demo_tid then [booked_event] else [])" for tid
    by (simp add: trade_events_of_def deal_book_def booked_event_def deal_event_def)
  then show ?thesis by (simp add: ledger_ok_def) (simp add: deal_book_def booked_event_def deal_event_def)
qed

text \<open>Terminating it.\<close>

definition deal_terminate :: terminate_body where
  "deal_terminate = \<lparr>tb_address = None, tb_signature = None, tb_reason = None\<rparr>"

definition deal_end :: terminate_plan where
  "deal_end = \<lparr>tp_trade = deal_chain_trade ''CONFIRMED'', tp_att = deal_att, tp_hash = ''p'', tp_sig_own = deal_sign (termination_digest deal_call ''p'' ''0xb'') ''ka'',
     tp_sig_cp = deal_sign (termination_digest deal_call ''p'' ''0xa'') ''kb'', tp_bilateral = False\<rparr>"

lemma deal_terminates: "\<exists>db' c' resp. terminate_on_chain deal_setting (registry_ops deal_call) (deal_book ''CONFIRMED'' deal_history (deal_cols ''USD'')) deal_chain
     demo_tid deal_terminate (deal_request None) = (db', c', Inr resp) \<and> \<not> lr_replay resp"
proof -
  let ?db = "deal_book ''CONFIRMED'' deal_history (deal_cols ''USD'')" and ?ops = "registry_ops deal_call"
  have m: "termination_messages deal_crypto ?ops ''p'' key_a key_b =
    Inr (termination_digest deal_call ''p'' ''0xb'', termination_digest deal_call ''p'' ''0xa'')"
    by (simp add: termination_messages_def eip712_ctx_def registry_ops_def deal_call_def domain_of_def need_def termination_typed_data_def
        deal_crypto_def typed_def key_a_def key_b_def termination_digest_def str_lower_def low_char_def)
  have a: "terminate_begin deal_setting ?ops ?db ''0123456789abcdef0123456789abcdef'' demo_tid deal_terminate = Inr deal_end"
    unfolding terminate_begin_def Let_def
    by (simp add: deal_setting_def deal_trade deal_current m deal_resolve cp_signature_or_ours_def)
      (simp add: deal_chain_trade_def require_def deal_terminate_def key_a_def key_b_def deal_crypto_def deal_end_def)
  have "\<exists>reg. terminate_reg deal_call ''p'' (tp_sig_own deal_end) (tp_sig_cp deal_end) deal_chain = Inr reg"
    by (simp add: terminate_reg_def deal_end_def require_signer_def require_def deal_recovers deal_chain_def record_confirmed_def Let_def)
  then obtain reg r where s: "co_terminate ?ops (tp_hash deal_end) (tp_sig_own deal_end) (tp_sig_cp deal_end) deal_chain = (reg, Inr r)"
    by (auto simp: registry_ops_def send_reg_def deal_end_def)
  obtain states where st: "attested_states (ledger_of ?db) demo_tid \<lparr>ax_type = ''TERMINATED'', ax_status = ''TERMINATED'', ax_payload =
      [(''reason'', opt_str (tb_reason deal_terminate)), (''attestation'', PDict (terminated_record deal_end deal_terminate r))], ax_hash = hexb ''p''\<rparr> = Inr states"
    using deal_states(2) by blast
  obtain db' resp where w: "write_attested ?db (deal_chain_trade ''CONFIRMED'') \<lparr>ax_type = ''TERMINATED'', ax_status = ''TERMINATED'', ax_payload =
      [(''reason'', opt_str (tb_reason deal_terminate)), (''attestation'', PDict (terminated_record deal_end deal_terminate r))], ax_hash = hexb ''p''\<rparr>
      states None ''e9'' = Inr (db', resp)" "\<not> lr_replay resp"
    using deal_writes by blast
  have "terminate_finish ?db deal_end deal_terminate r (deal_request None) = (db', Inr resp)"
    using st w by (simp add: terminate_finish_def apply_attested_event_def deal_end_def deal_request_def deal_trade_id lookup_idempotent_def)
  then show ?thesis using w(2) by (simp add: terminate_on_chain_def deal_entry a s)
qed

end
