(* ===== verification/Chain_Properties.thy ===== *)
theory Chain_Properties
  imports Chain_Demo
begin

section \<open>The book, its signed record and the registry\<close>

text \<open>
  What the chain routes promise together: a confirmed or amended trade hashes to the record its last event attests, the record was
  signed by both parties, and book and registry move together, with the cases in which they do not. \<open>registry_ops\<close> puts the contract of
  \<open>Registry\<close> behind the routes.
\<close>

subsection \<open>What the record of a trade depends on\<close>

lemma with_ledger_simps [simp]:
  "ledger_of (with_ledger l db) = l" "cd_trades (with_ledger l db) = cd_trades db" "cd_entities (with_ledger l db) = cd_entities db"
  "cd_counterparties (with_ledger l db) = cd_counterparties db" "cd_claims (with_ledger l db) = cd_claims db"
  "cd_budget (with_ledger l db) = cd_budget db" "cd_table (with_ledger l db) = cd_table db" "ps_rows (cd_pend (with_ledger l db)) = ps_rows (cd_pend db)"
  by (simp_all add: with_ledger_def)

lemma columns_of_with_ledger [simp]: "columns_of (with_ledger l db) tid = columns_of db tid"
  by (simp add: columns_of_def)

lemma canonical_for_cong:
  assumes "cd_trades db = cd_trades db'" "cd_entities db = cd_entities db'" "cd_counterparties db = cd_counterparties db'"
    and "l_legs (ledger_of db) = l_legs (ledger_of db')" and "t_id t = t_id t'" "t_user t = t_user t'"
  shows "canonical_for cr db t v = canonical_for cr db' t' v"
proof -
  have "columns_of db = columns_of db'" "cp_identity db = cp_identity db'" "load_parties db = load_parties db'"
    unfolding columns_of_def[abs_def] cp_identity_def[abs_def] load_parties_def[abs_def] assms(1-3) by (rule refl)+
  moreover have "own_legs (ledger_of db) t = own_legs (ledger_of db') t'" using assms(4-6) by (simp add: own_legs_def)
  ultimately show ?thesis unfolding canonical_for_def trade_parts_def assms(5) by simp
qed

lemma canonical_for_row [simp]: "canonical_for cr db (t\<lparr>t_status := a, t_latest := b, t_version := c\<rparr>) v = canonical_for cr db t v"
  by (rule canonical_for_cong) simp_all

lemma resolve_parties_cong:
  assumes "cd_trades db = cd_trades db'" "cd_entities db = cd_entities db'" "cd_counterparties db = cd_counterparties db'" "cd_claims db = cd_claims db'"
    and "t_id t = t_id t'"
  shows "resolve_parties cr env db t = resolve_parties cr env db' t'"
proof -
  have "columns_of db = columns_of db'" "cp_identity db = cp_identity db'" "load_parties db = load_parties db'"
    "registered_signer cr db = registered_signer cr db'"
    unfolding columns_of_def[abs_def] cp_identity_def[abs_def] load_parties_def[abs_def] registered_signer_def[abs_def] assms(1-4) by (rule refl)+
  then have "(\<exists>legs. trade_parts db t = bind_res (trade_parts db' t') (\<lambda>p. Inr (p\<lparr>pt_legs := legs\<rparr>)))"
    by (auto simp: trade_parts_def assms(5) bind_res_def split: sum.splits)
  then obtain legs where tp: "trade_parts db t = bind_res (trade_parts db' t') (\<lambda>p. Inr (p\<lparr>pt_legs := legs\<rparr>))" by blast
  show ?thesis unfolding resolve_parties_def tp \<open>registered_signer cr db = registered_signer cr db'\<close>
    by (cases "trade_parts db' t'") (simp_all cong: option.case_cong)
qed

lemma resolve_parties_budget: "resolve_parties cr env (db\<lparr>cd_budget := b\<rparr>) t = resolve_parties cr env db t"
  by (rule resolve_parties_cong) simp_all

lemma apply_changes_keeps:
  assumes "apply_changes rules db t changes = Inr db'"
  shows "cd_entities db' = cd_entities db" "cd_counterparties db' = cd_counterparties db" "cd_budget db' = cd_budget db"
    "l_events (ledger_of db') = l_events (ledger_of db)" "l_trades (ledger_of db') = l_trades (ledger_of db)" "l_idem (ledger_of db') = l_idem (ledger_of db)"
    "ps_rows (cd_pend db') = ps_rows (cd_pend db)"
  using assms by (auto simp: apply_changes_def set_columns_def bind_res_Inr_iff split: if_splits)

text \<open>The attested events of a trade after one more.\<close>

lemma trade_events_insert:
  "l_events l' = l_events l @ [ev] \<Longrightarrow> trade_events_of l' tid = trade_events_of l tid @ (if e_trade ev = tid then [ev] else [])"
  by (simp add: trade_events_of_def)

lemma latest_attested_insert:
  assumes ok: "ledger_ok l" and l': "l_events l' = l_events l @ [ev]" "e_seq ev = next_seq l (e_trade ev)" and ty: "e_type ev \<in> set attested_types"
  shows "latest_attested_event l' (e_trade ev) = Some ev"
proof -
  let ?es = "filter (\<lambda>e. e_type e \<in> set attested_types) (trade_events_of l (e_trade ev))"
  have seqs: "map e_seq (trade_events_of l (e_trade ev)) = [1..int (length (trade_events_of l (e_trade ev)))]"
    using ok by (simp add: ledger_ok_def)
  then have "sorted (map e_seq (trade_events_of l (e_trade ev)))" by simp
  then have "sorted (map e_seq ?es)" by (rule sorted_filter)
  moreover have "e_seq x \<le> e_seq ev" if "x \<in> set ?es" for x
  proof -
    have "e_seq x \<in> set [1..int (length (trade_events_of l (e_trade ev)))]" using that seqs[symmetric] by auto
    then show ?thesis using next_seq_ok[OF ok] l'(2) by simp
  qed
  ultimately have "sorted (map e_seq (?es @ [ev]))" by (auto simp: sorted_append)
  then have "sort_key e_seq (?es @ [ev]) = ?es @ [ev]" by (rule sort_key_id)
  then show ?thesis using ty by (simp add: latest_attested_event_def trade_events_insert[OF l'(1)])
qed

subsection \<open>The attested transition\<close>

lemma with_ledger_same [simp]: "with_ledger (ledger_of db) db = db"
  by (simp add: with_ledger_def)

lemma cached_replay: "lookup_idempotent l u key = Some v \<Longrightarrow> lr_replay v"
  by (auto simp: lookup_idempotent_def split: option.splits if_splits)

lemma write_attestedE:
  assumes "write_attested db t a states key eid = Inr (db', resp)"
  obtains l' where "db' = with_ledger l' db" "l_events l' = l_events (ledger_of db) @ [attested_row (ledger_of db) t a states eid]"
    "l_legs l' = l_legs (ledger_of db)" "eid \<notin> e_id ` set (l_events (ledger_of db))"
    "l_trades l' = map (\<lambda>x. if t_id x = t_id t then x\<lparr>t_status := ax_status a, t_latest := Some eid, t_version := t_version t + 1\<rparr> else x)
       (l_trades (ledger_of db))" "\<not> lr_replay resp" "\<exists>x \<in> set (l_trades (ledger_of db)). t_id x = t_id t"
    "\<And>k. key = Some k \<Longrightarrow> k \<noteq> [] \<Longrightarrow> dict_get (l_idem l') (t_user t, k) = Some resp"
proof -
  let ?l = "ledger_of db"
  define l1 where "l1 = ?l\<lparr>l_events := l_events ?l @ [attested_row ?l t a states eid],
    l_trades := map (\<lambda>x. if t_id x = t_id t then x\<lparr>t_status := ax_status a, t_latest := Some eid, t_version := t_version t + 1\<rparr> else x) (l_trades ?l)\<rparr>"
  have new: "eid \<notin> e_id ` set (l_events ?l)" using assms by (auto simp: write_attested_def Let_def split: if_splits)
  obtain row where row: "List.find (\<lambda>x. t_id x = t_id t) (l_trades ?l) = Some row"
    using assms new by (auto simp: write_attested_def Let_def split: option.splits)
  then have ex: "\<exists>x \<in> set (l_trades ?l). t_id x = t_id t" by (auto simp: find_Some_iff)
  define x where "x = build_response l1 (row\<lparr>t_status := ax_status a, t_latest := Some eid, t_version := t_version t + 1\<rparr>) eid"
  have fresh: "\<not> lr_replay x" by (simp add: x_def build_response_def)
  have w: "write_attested db t a states key eid = (if key = None \<or> key = Some [] then Inr (with_ledger l1 db, x)
      else Inr (with_ledger (l1\<lparr>l_idem := ((t_user t, the key), x) # l_idem l1\<rparr>) db, x))"
    unfolding write_attested_def Let_def using new row by (simp add: l1_def x_def)
  show ?thesis
  proof (cases "key = None \<or> key = Some []")
    case True
    with w assms have "db' = with_ledger l1 db" "resp = x" by auto
    with True new ex fresh show ?thesis by (intro that[of l1]) (auto simp: l1_def)
  next
    case False
    with w assms have "db' = with_ledger (l1\<lparr>l_idem := ((t_user t, the key), x) # l_idem l1\<rparr>) db" "resp = x" by auto
    with False new ex fresh show ?thesis by (intro that[of "l1\<lparr>l_idem := ((t_user t, the key), x) # l_idem l1\<rparr>"]) (auto simp: l1_def)
  qed
qed

lemma attested_cases:
  assumes "apply_attested_event db t a key mutate eid = (db', r)"
  obtains (same) "db' = db" "\<And>v. r = Inr v \<Longrightarrow> lr_replay v"
  | (wrote) db1 states resp where "lookup_idempotent (ledger_of db) (t_user t) key = None"
      "attested_states (ledger_of db) (t_id t) a = Inr states" "mutate db = Inr db1"
      "write_attested db1 t a states key eid = Inr (db', resp)" "r = Inr resp"
  using assms cached_replay unfolding apply_attested_event_def
  by (auto split: option.splits sum.splits http_error.splits)

subsection \<open>Entry\<close>

lemma chain_entry_db:
  assumes "chain_entry cx kind db0 rq = (db, x)"
  obtains b where "db = db0\<lparr>cd_budget := b\<rparr>" "\<And>u. x = Inr u \<Longrightarrow> check_write_role (in_user rq) = Inr u"
proof -
  have "\<exists>b. db = db0\<lparr>cd_budget := b\<rparr> \<and> (\<forall>u. x = Inr u \<longrightarrow> check_write_role (in_user rq) = Inr u)"
  proof (cases "check_write_role (in_user rq)")
    case (Inl e)
    then show ?thesis using assms by (auto simp: chain_entry_def intro!: exI[of _ "cd_budget db0"])
  next
    case (Inr u)
    then show ?thesis using assms
      by (auto simp: chain_entry_def check_chain_quota_def bind_res_Inr_iff split: prod.splits sum.splits)
  qed
  then show ?thesis using that by blast
qed

lemma writer_owns:
  assumes "check_write_role user = Inr u"
  shows "own_trade db trade_id user = trade_or_404 db trade_id u"
proof -
  have "user_uuid user = Inr u" using assms by (auto simp: check_write_role_def split: option.splits if_splits)
  then show ?thesis by (auto simp: own_trade_def trade_or_404_def user_uuid_def split: pyval.splits option.splits)
qed

subsection \<open>Attestations\<close>

lemma get_signed_record [simp]:
  "get (signed_record v h p own so cp sc src chain reg bi) ''schema_version'' = int_val v"
  "get (signed_record v h p own so cp sc src chain reg bi) ''trade_hash'' = PStr (hexb h)"
  "get (signed_record v h p own so cp sc src chain reg bi) ''eip712'' = eip712_entry chain reg"
  "get (signed_record v h p own so cp sc src chain reg bi) ''parties'' =
     PDict [(''own'', party_entry own so (pk_source own)), (''counterparty'', party_entry cp sc src)]"
  "get (signed_record v h p own so cp sc src chain reg bi) ''terminated'' = PNone"
  "get (signed_record v h p own so cp sc src chain reg bi) ''prev_hash'' = PNone"
  by (simp_all add: signed_record_def get_def)

lemma int_val_read: "int_or_0 (int_val n) = Inr n"
  by (cases "n < 0") (simp_all add: int_or_0_def int_val_def truthy_def)

lemma attested_version_of: "n \<noteq> 0 \<Longrightarrow> get att ''schema_version'' = int_val n \<Longrightarrow> attested_version att = Inr n"
proof -
  assume n: "n \<noteq> 0" "get att ''schema_version'' = int_val n"
  have "truthy (int_val n)" using n(1) by (simp add: int_val_def truthy_def)
  then show ?thesis using n(2) by (simp add: attested_version_def int_val_read)
qed

lemma canonical_version: "canonical_for cr db t v = Inr x \<Longrightarrow> v \<noteq> 0"
  by (auto simp: canonical_for_def canonical_payload_def bind_res_Inr_iff split: if_splits)

lemma dict_set_not_Nil [simp]: "dict_set k v d \<noteq> []"
  by (induction d) auto

lemma hexb_inj: "hexb a = hexb b \<Longrightarrow> a = b"
  using unhex_hexb(1) by (metis option.inject)

lemma get_amended:
  "get (amended_record ops a r) ''schema_version'' = int_val (ap_version a)"
  "get (amended_record ops a r) ''trade_hash'' = PStr (hexb (pv_new (ap_preview a)))"
  "get (amended_record ops a r) ''prev_hash'' = PStr (hexb (pv_prev (ap_preview a)))"
  "get (amended_record ops a r) ''terminated'' = PNone"
  "get (amended_record ops a r) ''anchor'' = receipt_dict r"
  "amended_record ops a r \<noteq> []"
  by (simp_all add: amended_record_def get_set split: prod.splits)

lemma get_amended_parties:
  "get (amended_record ops a r) ''eip712'' = eip712_entry (fst (eip712_ctx ops)) (snd (eip712_ctx ops))"
  "get (amended_record ops a r) ''parties'' = PDict [(''own'', party_entry (ap_own a) (ap_sig_own a) (pk_source (ap_own a))),
     (''counterparty'', party_entry (ap_cp a) (ap_sig_cp a) (if ap_bilateral a then ''countersigned'' else pk_source (ap_cp a)))]"
  by (simp_all add: amended_record_def get_set split: prod.splits)

subsection \<open>Amending\<close>

lemma amend_beginE:
  assumes "amend_begin cx ops db u trade_id body = Inr a"
  obtains td_own td_cp where "trade_or_404 db trade_id u = Inr (ap_trade a)" "t_status (ap_trade a) = ''CONFIRMED''"
    "preview_amendment (cx_crypto cx) (cx_rules cx) db (ap_trade a) (ab_changes body) = Inr (ap_preview a)"
    "attested_version (pv_att (ap_preview a)) = Inr (ap_version a)"
    "resolve_parties (cx_crypto cx) (cx_env cx) db (ap_trade a) = Inr (ap_own a, ap_cp a)"
    "amendment_messages (cx_crypto cx) ops (ap_preview a) (ap_own a) (ap_cp a) = Inr (td_own, td_cp)"
    "cp_signature_or_ours (cx_crypto cx) (ap_own a) (ap_cp a) td_cp td_own (ab_address body) (ab_signature body)
       = Inr (ap_sig_own a, ap_sig_cp a, ap_bilateral a)"
  using assms by (auto simp: amend_begin_def Let_def bind_res_Inr_iff)

lemma previewE:
  assumes "preview_amendment cr rules db t changes = Inr p"
  obtains db' v where "current_record (ledger_of db) t = Inr (pv_att p, pv_prev p)" "apply_changes rules db t changes = Inr db'"
    "attested_version (pv_att p) = Inr v" "canonical_for cr db' t v = Inr (pv_payload p, pv_new p)" "pv_new p \<noteq> pv_prev p"
  using assms by (auto simp: preview_amendment_def bind_res_Inr_iff split: if_splits)

lemma amend_success:
  assumes "amend_on_chain cx ops db0 c trade_id body rq = (db', c', Inr resp)" and "\<not> lr_replay resp"
  obtains b db u a r db1 states where "db = db0\<lparr>cd_budget := b\<rparr>" "check_write_role (in_user rq) = Inr u"
    "amend_begin cx ops db u trade_id body = Inr a" "amend_send ops a c = (c', Inr r)"
    "amend_mutate cx a (ab_changes body) db = Inr db1"
    "write_attested db1 (ap_trade a) \<lparr>ax_type = ''AMENDED'', ax_status = ''CONFIRMED'',
        ax_payload = [(''changes'', PDict (ab_changes body)), (''attestation'', PDict (amended_record ops a r))],
        ax_hash = hexb (pv_new (ap_preview a))\<rparr> states (in_key rq) (in_event rq) = Inr (db', resp)"
proof -
  obtain db x where e: "chain_entry cx ''amend'' db0 rq = (db, x)" by fastforce
  with assms(1) obtain u where x: "x = Inr u" by (auto simp: amend_on_chain_def split: sum.splits)
  obtain b where b: "db = db0\<lparr>cd_budget := b\<rparr>" "check_write_role (in_user rq) = Inr u"
    using chain_entry_db[OF e] x by blast
  obtain a where a: "amend_begin cx ops db u trade_id body = Inr a"
    using assms(1) e x by (auto simp: amend_on_chain_def split: sum.splits)
  obtain r where r: "amend_send ops a c = (c', Inr r)" "amend_finish cx ops db a body r rq = (db', Inr resp)"
    using assms(1) e x a by (auto simp: amend_on_chain_def split: sum.splits prod.splits)
  from r(2) show ?thesis unfolding amend_finish_def
  proof (cases rule: attested_cases)
    case same
    with assms(2) show ?thesis by blast
  next
    case (wrote db1 states resp')
    then show ?thesis using that[OF b a r(1)] by auto
  qed
qed

lemma apply_changes_ok: "apply_changes rules db t changes = Inr db' \<Longrightarrow> ledger_ok (ledger_of db) \<Longrightarrow> ledger_ok (ledger_of db')"
  by (simp add: ledger_ok_def trade_events_of_def apply_changes_keeps)

lemma find_trade_map:
  assumes "find_trade l tid u = Some t" and "l_trades l' = map (\<lambda>x. if t_id x = tid then x\<lparr>t_status := a, t_latest := b, t_version := c\<rparr> else x) (l_trades l)"
  shows "find_trade l' tid u = Some (t\<lparr>t_status := a, t_latest := b, t_version := c\<rparr>)"
proof -
  have "List.find (\<lambda>t. t_id t = tid \<and> t_user t = u) (map (\<lambda>x. if t_id x = tid then x\<lparr>t_status := a, t_latest := b, t_version := c\<rparr> else x) xs)
      = map_option (\<lambda>t. t\<lparr>t_status := a, t_latest := b, t_version := c\<rparr>) (List.find (\<lambda>t. t_id t = tid \<and> t_user t = u) xs)" for xs :: "trade_row list"
    by (induction xs) auto
  with assms show ?thesis by (simp add: find_trade_def)
qed

lemma trade_or_404D:
  assumes "trade_or_404 db trade_id u = Inr t"
  shows "parse_trade_uuid trade_id = Inr (t_id t)" "t_user t = u" "find_trade (ledger_of db) (t_id t) u = Some t"
proof -
  obtain tid where p: "parse_trade_uuid trade_id = Inr tid" "find_trade (ledger_of db) tid u = Some t"
    using assms by (auto simp: trade_or_404_def bind_res_Inr_iff split: option.splits)
  then have "t_id t = tid" "t_user t = u" by (auto simp: find_trade_def find_Some_iff)
  with p show "parse_trade_uuid trade_id = Inr (t_id t)" "t_user t = u" "find_trade (ledger_of db) (t_id t) u = Some t" by simp_all
qed

lemma amend_effect:
  assumes run: "amend_on_chain cx ops db0 c trade_id body rq = (db', c', Inr resp)" and fresh: "\<not> lr_replay resp"
    and ok: "ledger_ok (ledger_of db0)"
  obtains b u a r ev payload where "check_write_role (in_user rq) = Inr u" "amend_begin cx ops (db0\<lparr>cd_budget := b\<rparr>) u trade_id body = Inr a"
    "amend_send ops a c = (c', Inr r)"
    "trade_or_404 db0 trade_id u = Inr (ap_trade a)" "canonical_for (cx_crypto cx) db' (ap_trade a) (ap_version a) = Inr (payload, pv_new (ap_preview a))"
    "l_events (ledger_of db') = l_events (ledger_of db0) @ [ev]" "latest_attested_event (ledger_of db') (t_id (ap_trade a)) = Some ev"
    "e_type ev = ''AMENDED''" "stored_hash (Some ev) = Some (hexb (pv_new (ap_preview a)))" "attestation_of (Some ev) = amended_record ops a r"
    "own_trade db' trade_id (in_user rq)
       = Inr ((ap_trade a)\<lparr>t_status := ''CONFIRMED'', t_latest := Some (in_event rq), t_version := t_version (ap_trade a) + 1\<rparr>)"
proof -
  let ?cr = "cx_crypto cx"
  obtain b db u a r db1 states where db: "db = db0\<lparr>cd_budget := b\<rparr>" and u: "check_write_role (in_user rq) = Inr u"
    and a: "amend_begin cx ops db u trade_id body = Inr a" and send: "amend_send ops a c = (c', Inr r)"
    and mut: "amend_mutate cx a (ab_changes body) db = Inr db1"
    and w: "write_attested db1 (ap_trade a) \<lparr>ax_type = ''AMENDED'', ax_status = ''CONFIRMED'',
        ax_payload = [(''changes'', PDict (ab_changes body)), (''attestation'', PDict (amended_record ops a r))],
        ax_hash = hexb (pv_new (ap_preview a))\<rparr> states (in_key rq) (in_event rq) = Inr (db', resp)"
    using amend_success[OF run fresh] by metis
  let ?t = "ap_trade a" and ?p = "ap_preview a"
  have "trade_or_404 db trade_id u = Inr ?t" using amend_beginE[OF a] by metis
  then have t0: "trade_or_404 db0 trade_id u = Inr ?t" by (simp add: db trade_or_404_def)
  obtain payload where ch: "apply_changes (cx_rules cx) db ?t (ab_changes body) = Inr db1"
    "canonical_for ?cr db1 ?t (ap_version a) = Inr (payload, pv_new ?p)"
    using mut by (auto simp: amend_mutate_def bind_res_Inr_iff split: if_splits)
  have keep: "l_events (ledger_of db1) = l_events (ledger_of db0)" "l_trades (ledger_of db1) = l_trades (ledger_of db0)"
    using apply_changes_keeps(4,5)[OF ch(1)] by (simp_all add: db)
  have ok1: "ledger_ok (ledger_of db1)" using apply_changes_ok[OF ch(1)] ok by (simp add: db)
  define ev where "ev = attested_row (ledger_of db1) ?t \<lparr>ax_type = ''AMENDED'', ax_status = ''CONFIRMED'',
        ax_payload = [(''changes'', PDict (ab_changes body)), (''attestation'', PDict (amended_record ops a r))],
        ax_hash = hexb (pv_new ?p)\<rparr> states (in_event rq)"
  obtain l' where l': "db' = with_ledger l' db1" "l_events l' = l_events (ledger_of db1) @ [ev]" "l_legs l' = l_legs (ledger_of db1)"
    "l_trades l' = map (\<lambda>x. if t_id x = t_id ?t then x\<lparr>t_status := ''CONFIRMED'', t_latest := Some (in_event rq), t_version := t_version ?t + 1\<rparr> else x)
       (l_trades (ledger_of db1))"
    by (rule write_attestedE[OF w], rule that, assumption) (simp_all add: ev_def)
  have ev: "e_trade ev = t_id ?t" "e_seq ev = next_seq (ledger_of db1) (t_id ?t)" "e_type ev = ''AMENDED''" "e_hash ev = Some (hexb (pv_new ?p))"
    "attestation_of (Some ev) = amended_record ops a r"
    by (simp_all add: ev_def attested_row_def attestation_of_def get_def)
  have latest: "latest_attested_event (ledger_of db') (t_id ?t) = Some ev"
    using latest_attested_insert[OF ok1 l'(2)] ev(1-3) by (simp add: l'(1) attested_types_def)
  have canon: "canonical_for ?cr db' ?t (ap_version a) = Inr (payload, pv_new ?p)"
    using ch(2) canonical_for_cong[of db' db1 ?t ?t] by (simp add: l'(1,3))
  have "find_trade (ledger_of db1) (t_id ?t) u = Some ?t" using trade_or_404D[OF t0] by (simp add: find_trade_def keep(2))
  from find_trade_map[OF this l'(4)] have "own_trade db' trade_id (in_user rq)
      = Inr (?t\<lparr>t_status := ''CONFIRMED'', t_latest := Some (in_event rq), t_version := t_version ?t + 1\<rparr>)"
    using trade_or_404D[OF t0] by (simp add: writer_owns[OF u] trade_or_404_def l'(1))
  moreover have "stored_hash (Some ev) = Some (hexb (pv_new ?p))" by (simp add: stored_hash_def ev(4) hexb_def)
  ultimately show ?thesis using that[OF u a[unfolded db] send t0 canon _ latest ev(3) _ ev(5)] l'(1,2) keep(1) by simp
qed

text \<open>What verifying the amended trade answers.\<close>

lemma amended_verification:
  assumes own: "own_trade db' trade_id user = Inr (t\<lparr>t_status := x, t_latest := y, t_version := z\<rparr>)" and t: "t = ap_trade a"
    and canon: "canonical_for (cx_crypto cx) db' t (ap_version a) = Inr (payload, pv_new (ap_preview a))"
    and latest: "latest_attested_event (ledger_of db') (t_id t) = Some ev" "stored_hash (Some ev) = Some (hexb (pv_new (ap_preview a)))"
    and att: "attestation_of (Some ev) = amended_record ops a r"
  shows "\<exists>vf. verify_trade cx ops db' c2 trade_id user = Inr vf \<and> vf_matches vf \<and> \<not> vf_terminated vf \<and> vf_recomputed vf = hexb (pv_new (ap_preview a))
    \<and> vf_on_chain vf = (if co_anchored ops then (case co_get ops (pv_new (ap_preview a)) c2 of Some (Some r) \<Rightarrow> Some r | _ \<Rightarrow> None) else None)
    \<and> vf_confirmed vf = (case vf_on_chain vf of None \<Rightarrow> False | Some r \<Rightarrow> rr_status r = ''Confirmed'')
    \<and> vf_signatures vf = Some (signatures_valid (cx_crypto cx) (amended_record ops a r) (pv_new (ap_preview a)))"
proof -
  have "attested_version (amended_record ops a r) = Inr (ap_version a)"
    using canonical_version[OF canon] by (intro attested_version_of) (simp_all add: get_amended)
  then show ?thesis using own latest canon att
    by (simp add: verify_trade_def get_amended Let_def is_terminated_def truthy_def)
qed

text \<open>C6: An amendment moves the book, its event and the stored record together. When an amendment succeeds, the trade was CONFIRMED with an
  open anchored record; the trade as it is then stored hashes, under that record's own schema, to a different hash; the one new event attests
  exactly this hash and names the record it replaces; and verifying the trade reports that the book matches.\<close>

theorem amendment_reanchors_book:
  assumes run: "amend_on_chain cx ops db0 c trade_id body rq = (db', c', Inr resp)" and fresh: "\<not> lr_replay resp"
    and ok: "ledger_ok (ledger_of db0)"
  shows "\<exists>u t att prev new v payload ev. check_write_role (in_user rq) = Inr u \<and> trade_or_404 db0 trade_id u = Inr t \<and> t_status t = ''CONFIRMED''
    \<and> current_record (ledger_of db0) t = Inr (att, prev) \<and> attested_version att = Inr v \<and> new \<noteq> prev
    \<and> canonical_for (cx_crypto cx) db' t v = Inr (payload, new)
    \<and> l_events (ledger_of db') = l_events (ledger_of db0) @ [ev] \<and> latest_attested_event (ledger_of db') (t_id t) = Some ev
    \<and> e_type ev = ''AMENDED'' \<and> stored_hash (Some ev) = Some (hexb new)
    \<and> get (attestation_of (Some ev)) ''trade_hash'' = PStr (hexb new) \<and> get (attestation_of (Some ev)) ''prev_hash'' = PStr (hexb prev)
    \<and> (\<forall>c2. \<exists>vf. verify_trade cx ops db' c2 trade_id (in_user rq) = Inr vf \<and> vf_matches vf \<and> \<not> vf_terminated vf)"
proof -
  obtain b u a r ev payload where u: "check_write_role (in_user rq) = Inr u"
    and a: "amend_begin cx ops (db0\<lparr>cd_budget := b\<rparr>) u trade_id body = Inr a" and t0: "trade_or_404 db0 trade_id u = Inr (ap_trade a)"
    and canon: "canonical_for (cx_crypto cx) db' (ap_trade a) (ap_version a) = Inr (payload, pv_new (ap_preview a))"
    and ev: "l_events (ledger_of db') = l_events (ledger_of db0) @ [ev]" "latest_attested_event (ledger_of db') (t_id (ap_trade a)) = Some ev"
      "e_type ev = ''AMENDED''" "stored_hash (Some ev) = Some (hexb (pv_new (ap_preview a)))" "attestation_of (Some ev) = amended_record ops a r"
    and own: "own_trade db' trade_id (in_user rq)
       = Inr ((ap_trade a)\<lparr>t_status := ''CONFIRMED'', t_latest := Some (in_event rq), t_version := t_version (ap_trade a) + 1\<rparr>)"
    using amend_effect[OF run fresh ok] by metis
  let ?p = "ap_preview a"
  have t: "t_status (ap_trade a) = ''CONFIRMED''" and v: "attested_version (pv_att ?p) = Inr (ap_version a)"
    and pv: "preview_amendment (cx_crypto cx) (cx_rules cx) (db0\<lparr>cd_budget := b\<rparr>) (ap_trade a) (ab_changes body) = Inr ?p"
    using amend_beginE[OF a] by metis+
  have "current_record (ledger_of db0) (ap_trade a) = Inr (pv_att ?p, pv_prev ?p)" "pv_new ?p \<noteq> pv_prev ?p"
    using pv by (auto elim!: previewE)
  moreover have "\<exists>vf. verify_trade cx ops db' c2 trade_id (in_user rq) = Inr vf \<and> vf_matches vf \<and> \<not> vf_terminated vf" for c2
    using amended_verification[OF own refl canon ev(2,4,5)] by blast
  ultimately show ?thesis using u t0 t v canon ev
    by (intro exI[of _ u] exI[of _ "ap_trade a"] exI[of _ "pv_att ?p"] exI[of _ "pv_prev ?p"] exI[of _ "pv_new ?p"] exI[of _ "ap_version a"] exI[of _ payload]
        exI[of _ ev]) (simp add: get_amended)
qed

theorem amendment_reanchors_book_witness:
  "\<exists>db' c' resp ev. amend_on_chain deal_setting (registry_ops deal_call) (deal_book ''CONFIRMED'' deal_history (deal_cols ''USD'')) deal_chain
     demo_tid (deal_amend []) (deal_request None) = (db', c', Inr resp) \<and> latest_attested_event (ledger_of db') demo_tid = Some ev
     \<and> e_type ev = ''AMENDED'' \<and> get (attestation_of (Some ev)) ''prev_hash'' = PStr (hexb ''p'')"
proof -
  obtain db' c' resp where run: "amend_on_chain deal_setting (registry_ops deal_call) (deal_book ''CONFIRMED'' deal_history (deal_cols ''USD'')) deal_chain
     demo_tid (deal_amend []) (deal_request None) = (db', c', Inr resp)" "\<not> lr_replay resp" using deal_amends by blast
  from amendment_reanchors_book[OF run deal_ok] show ?thesis
    using run(1) by (auto simp: deal_role deal_trade deal_current deal_trade_id)
qed

subsection \<open>Signatures that verify\<close>

text \<open>What the routes rely on of \<open>eth_account\<close> and \<open>eth_utils\<close>: recovery finds the account that signed, and addresses are given in their
  checksummed form, which depends on the letters' case no more.\<close>

definition crypto_laws :: "crypto \<Rightarrow> bool" where
  "crypto_laws cr \<longleftrightarrow>
     (\<forall>s a k m. cr_account cr s = Some (a, k) \<longrightarrow> cr_recover cr m (cr_sign cr m k) = Some a \<and> cr_checksum cr a = Some a)
     \<and> (\<forall>m sg a. cr_recover cr m sg = Some a \<longrightarrow> cr_checksum cr a = Some a)
     \<and> (\<forall>x a. cr_checksum cr x = Some a \<longrightarrow> cr_checksum cr a = Some a)
     \<and> (\<forall>x y. str_lower x = str_lower y \<longrightarrow> cr_checksum cr x = cr_checksum cr y)"

lemma crypto_lawsD:
  assumes "crypto_laws cr"
  shows "cr_account cr s = Some (a, k) \<Longrightarrow> cr_recover cr m (cr_sign cr m k) = Some a"
    "cr_account cr s = Some (a, k) \<Longrightarrow> cr_checksum cr a = Some a"
    "cr_recover cr m sg = Some a \<Longrightarrow> cr_checksum cr a = Some a"
    "cr_checksum cr x = Some a \<Longrightarrow> cr_checksum cr a = Some a"
    "str_lower x = str_lower y \<Longrightarrow> cr_checksum cr x = cr_checksum cr y"
proof -
  note l = assms[unfolded crypto_laws_def]
  note l1 = l[THEN conjunct1] and l2 = l[THEN conjunct2, THEN conjunct1] and l3 = l[THEN conjunct2, THEN conjunct2, THEN conjunct1]
    and l4 = l[THEN conjunct2, THEN conjunct2, THEN conjunct2]
  show "cr_account cr s = Some (a, k) \<Longrightarrow> cr_recover cr m (cr_sign cr m k) = Some a"
    "cr_account cr s = Some (a, k) \<Longrightarrow> cr_checksum cr a = Some a" using l1[rule_format, THEN conjunct1] l1[rule_format, THEN conjunct2] by simp_all
  show "cr_recover cr m sg = Some a \<Longrightarrow> cr_checksum cr a = Some a" by (rule l2[rule_format])
  show "cr_checksum cr x = Some a \<Longrightarrow> cr_checksum cr a = Some a" by (rule l3[rule_format])
  show "str_lower x = str_lower y \<Longrightarrow> cr_checksum cr x = cr_checksum cr y" by (rule l4[rule_format])
qed

text \<open>A key as the parties resolve to: its address is checksummed, and what its private key signs recovers to it.\<close>

definition key_good :: "crypto \<Rightarrow> party_key \<Rightarrow> bool" where
  "key_good cr k \<longleftrightarrow> cr_checksum cr (pk_address k) = Some (pk_address k)
     \<and> (\<forall>b m. pk_key k = Some b \<longrightarrow> cr_recover cr m (cr_sign cr m b) = Some (pk_address k))"

lemma account_key_good:
  assumes "crypto_laws cr" and "account_key cr lei s src = Inr k"
  shows "key_good cr k"
proof -
  obtain a b where "cr_account cr s = Some (a, b)" "k = \<lparr>pk_lei = lei, pk_address = a, pk_key = Some b, pk_source = src\<rparr>"
    using assms(2) by (auto simp: account_key_def split: option.splits)
  with crypto_lawsD(1,2)[OF assms(1)] show ?thesis by (simp add: key_good_def)
qed

lemma address_good: "crypto_laws cr \<Longrightarrow> cr_checksum cr x = Some a \<Longrightarrow> key_good cr \<lparr>pk_lei = l, pk_address = a, pk_key = None, pk_source = src\<rparr>"
  by (auto simp: key_good_def dest: crypto_lawsD(4))

lemma resolve_key_good: "crypto_laws cr \<Longrightarrow> resolve_key cr env e = Inr k \<Longrightarrow> key_good cr k"
  by (auto simp: resolve_key_def Let_def address_good intro: account_key_good split: option.splits if_splits)

lemma registered_good: "crypto_laws cr \<Longrightarrow> registered_signer cr db lei = Inr (Some k) \<Longrightarrow> key_good cr k"
  by (auto simp: registered_signer_def address_good split: option.splits if_splits list.splits)

lemma key_or_422D: "key_or_422 r = Inr k \<Longrightarrow> r = Inr k"
  by (auto simp: key_or_422_def split: sum.splits key_error.splits)

lemma resolve_parties_good:
  assumes "crypto_laws cr" and "resolve_parties cr env db t = Inr (own, cp)"
  shows "key_good cr own" "key_good cr cp" "pk_key own \<noteq> None" "pk_address own \<noteq> pk_address cp"
proof -
  obtain p :: parts and reg where "key_or_422 (resolve_key cr env (pt_own p)) = Inr own" "registered_signer cr db (get (pt_cp p) ''lei'') = Inr reg"
    and c: "(case reg of Some k \<Rightarrow> Inr k | None \<Rightarrow> key_or_422 (resolve_key cr env (pt_cp p))) = Inr cp"
    and "pk_key own \<noteq> None" "pk_address own \<noteq> pk_address cp"
    using assms(2) unfolding resolve_parties_def bind_res_Inr_iff require_Inr_iff by (auto simp del: not_None_eq)
  note r = this
  show "key_good cr own" by (rule resolve_key_good[OF assms(1) key_or_422D[OF r(1)]])
  show "key_good cr cp"
  proof (cases reg)
    case None
    then show ?thesis using c key_or_422D resolve_key_good[OF assms(1)] by auto
  next
    case (Some k)
    then show ?thesis using c r(2) registered_good[OF assms(1)] by auto
  qed
  show "pk_key own \<noteq> None" "pk_address own \<noteq> pk_address cp" using r by simp_all
qed

lemma own_signs:
  assumes "crypto_laws cr" and "resolve_parties cr env db t = Inr (own, cp)"
  shows "cr_recover cr m (cr_sign cr m (the (pk_key own))) = Some (pk_address own)"
  using resolve_parties_good[OF assms] by (auto simp: key_good_def)

lemma check_signer_exact:
  assumes "crypto_laws cr" "key_good cr k" "check_signer cr td sg claimed k = Inr ()"
  shows "cr_recover cr td sg = Some (pk_address k)"
proof -
  obtain a where a: "cr_recover cr td sg = Some a" "str_lower a = str_lower (pk_address k)"
    using assms(3) by (auto simp: check_signer_def bind_res_Inr_iff split: option.splits)
  then have "cr_checksum cr a = Some a" "cr_checksum cr a = cr_checksum cr (pk_address k)"
    using crypto_lawsD(3,5)[OF assms(1)] by blast+
  with a assms(2) show ?thesis by (simp add: key_good_def)
qed

lemma signature_of_entry: "party_entry k sg src = PDict d \<Longrightarrow> signature_entry d = Some (pk_address k, sg)"
  by (auto simp: signature_entry_def text_in_def party_entry_def get_def unhex_hexb)

lemma dict_in_entry: "get d n = party_entry k sg src \<Longrightarrow> signature_entry (dict_in d n) = Some (pk_address k, sg)"
  by (simp add: dict_in_def) (simp add: party_entry_def signature_of_entry[unfolded party_entry_def])

lemma signatures_valid_signed:
  assumes "get att ''eip712'' = eip712_entry chain registry"
    and "get att ''parties'' = PDict [(''own'', party_entry own so s1), (''counterparty'', party_entry cp sc s2)]"
  shows "signatures_valid cr att h \<longleftrightarrow> recovers_to cr (confirmation_typed_data cr chain registry h (pk_address cp)) so (pk_address own)
    \<and> recovers_to cr (confirmation_typed_data cr chain registry h (pk_address own)) sc (pk_address cp)"
proof -
  have e: "dict_in att ''eip712'' = [(''name'', PStr domain_name), (''version'', PStr domain_version), (''chain_id'', int_val chain), (''verifying_contract'', PStr registry)]"
    and p: "dict_in att ''parties'' = [(''own'', party_entry own so s1), (''counterparty'', party_entry cp sc s2)]"
    using assms by (simp_all add: dict_in_def eip712_entry_def)
  have "int_in (dict_in att ''eip712'') ''chain_id'' = Some chain" "text_in (dict_in att ''eip712'') ''verifying_contract'' = Some registry"
    unfolding e by (simp_all add: int_in_def text_in_def get_def int_val_read[unfolded int_val_def] int_val_def)
  moreover have "signature_entry (dict_in (dict_in att ''parties'') ''own'') = Some (pk_address own, so)"
    "signature_entry (dict_in (dict_in att ''parties'') ''counterparty'') = Some (pk_address cp, sc)"
    unfolding p by (rule dict_in_entry, simp add: get_def)+
  ultimately show ?thesis by (simp add: signatures_valid_def Let_def)
qed

subsection \<open>Confirming with the counterparty's signature\<close>

lemma countersignE:
  assumes "countersign cx ops db0 c trade_id address signature rq = (db', c', Inr resp)" and "\<not> lr_replay resp"
  obtains b db u t s r l' where "db = db0\<lparr>cd_budget := b\<rparr>" "check_write_role (in_user rq) = Inr u" "trade_or_404 db trade_id u = Inr t" "t_status t = ''PENDING''"
    "countersign_checks cx ops db t address signature None rq = Inr s"
    "co_confirm ops (sn_hash s) (pk_address (sn_own s)) (pk_address (sn_cp s)) (sn_sig_own s) (sn_sig_cp s) False c = (c', Inr r)"
    "apply_lifecycle_transition (ledger_of (sn_db s)) \<lparr>tr_user = t_user t, tr_trade = t, tr_type = ''CONFIRMED'', tr_status = ''CONFIRMED'',
       tr_payload = [(''attestation'', PDict (countersigned_record ops s r None))], tr_key = in_key rq,
       tr_hash = Some (hexb (sn_hash s)), tr_cp_confirmed = True\<rparr> (in_event rq) = (l', Inr resp)"
    "db' = with_ledger l' (sn_db s)"
proof -
  obtain db x where e: "chain_entry cx ''countersign'' db0 rq = (db, x)" by fastforce
  with assms(1) obtain u where x: "x = Inr u" by (auto simp: countersign_def split: sum.splits)
  obtain b where b: "db = db0\<lparr>cd_budget := b\<rparr>" "check_write_role (in_user rq) = Inr u"
    using chain_entry_db[OF e] x by blast
  have "lookup_idempotent (ledger_of db) u (in_key rq) = None"
    using assms e x cached_replay by (auto simp: countersign_def split: option.splits)
  then obtain tid t where t: "parse_trade_uuid trade_id = Inr tid" "load_pending_trade (ledger_of db) tid u = Inr t"
    and run: "countersign_trade cx ops db c t address signature None (in_key rq) None None rq = (db', c', Inr resp)"
    using assms(1) e x by (auto simp: countersign_def bind_res_Inr_iff split: sum.splits)
  have t': "trade_or_404 db trade_id u = Inr t" "t_status t = ''PENDING''"
    using t by (auto simp: trade_or_404_def load_pending_trade_def split: option.splits if_splits)
  show ?thesis using run assms(2)
    by (auto simp: countersign_trade_def split: sum.splits prod.splits if_splits intro: that[OF b t'])
qed

lemma ensure_uti_keeps:
  assumes "ensure_uti db t fresh = Inr db'"
  shows "cd_pend db' = cd_pend db" "cd_entities db' = cd_entities db" "cd_counterparties db' = cd_counterparties db" "cd_claims db' = cd_claims db"
    "cd_table db' = cd_table db"
  using assms by (auto simp: ensure_uti_def set_columns_def Let_def split: if_splits option.splits)

lemma countersign_checksE:
  assumes "countersign_checks cx ops db t address signature expected rq = Inr s"
  obtains chain registry td_own td_cp where "eip712_ctx ops = (chain, registry)"
    "resolve_parties (cx_crypto cx) (cx_env cx) db t = Inr (sn_own s, sn_cp s)" "ensure_uti db t (in_uuid rq) = Inr (sn_db s)"
    "canonical_for (cx_crypto cx) (sn_db s) t schema_version = Inr (sn_payload s, sn_hash s)" "parse_signature signature = Inr (sn_sig_cp s)"
    "confirmation_typed_data (cx_crypto cx) chain registry (sn_hash s) (pk_address (sn_own s)) = Some td_cp"
    "confirmation_typed_data (cx_crypto cx) chain registry (sn_hash s) (pk_address (sn_cp s)) = Some td_own"
    "check_signer (cx_crypto cx) td_cp (sn_sig_cp s) (Some address) (sn_cp s) = Inr ()"
    "sn_sig_own s = cr_sign (cx_crypto cx) td_own (the (pk_key (sn_own s)))"
    "\<And>x. expected = Some x \<Longrightarrow> x \<noteq> [] \<Longrightarrow> str_lower x = str_lower (hexb (sn_hash s))"
proof -
  obtain chain registry where "eip712_ctx ops = (chain, registry)" by fastforce
  with assms show ?thesis
    by (auto simp: countersign_checks_def need_def bind_res_Inr_iff Let_def intro!: that split: option.splits)
qed

lemma get_countersigned:
  "get (countersigned_record ops s r None) ''schema_version'' = int_val schema_version"
  "get (countersigned_record ops s r None) ''terminated'' = PNone"
  "get (countersigned_record ops s r None) ''eip712'' = eip712_entry (fst (eip712_ctx ops)) (snd (eip712_ctx ops))"
  "get (countersigned_record ops s r None) ''parties'' = PDict [(''own'', party_entry (sn_own s) (sn_sig_own s) (pk_source (sn_own s))),
     (''counterparty'', party_entry (sn_cp s) (sn_sig_cp s) ''countersigned'')]"
  "countersigned_record ops s r None \<noteq> []"
  by (simp_all add: countersigned_record_def get_set split: prod.splits)

text \<open>C7: A countersigned confirmation verifies. When the counterparty's signature is accepted, the trade was PENDING, its one new event is
  CONFIRMED with the hash of the trade as stored, the signature submitted recovers to the counterparty's address over that hash, and
  verifying the trade reports that the book matches and that both signatures are valid.\<close>

theorem countersigned_verifies:
  assumes run: "countersign cx ops db0 c trade_id address signature rq = (db', c', Inr resp)" and fresh: "\<not> lr_replay resp"
    and ok: "ledger_ok (ledger_of db0)" and laws: "crypto_laws (cx_crypto cx)"
  shows "\<exists>u t h ev own cp td sg. check_write_role (in_user rq) = Inr u \<and> trade_or_404 db0 trade_id u = Inr t \<and> t_status t = ''PENDING''
    \<and> l_events (ledger_of db') = l_events (ledger_of db0) @ [ev] \<and> e_trade ev = t_id t \<and> e_type ev = ''CONFIRMED'' \<and> e_hash ev = Some (hexb h)
    \<and> resolve_parties (cx_crypto cx) (cx_env cx) db0 t = Inr (own, cp) \<and> parse_signature signature = Inr sg \<and> cr_recover (cx_crypto cx) td sg = Some (pk_address cp) \<and> (''tradeHash'', h) \<in> set (td_message td)
    \<and> (\<forall>c2. \<exists>vf. verify_trade cx ops db' c2 trade_id (in_user rq) = Inr vf \<and> vf_event vf = Some ''CONFIRMED'' \<and> vf_matches vf
          \<and> vf_signatures vf = Some True \<and> vf_recomputed vf = hexb h)"
proof -
  let ?cr = "cx_crypto cx"
  obtain b db u t s r l' where db: "db = db0\<lparr>cd_budget := b\<rparr>" and u: "check_write_role (in_user rq) = Inr u"
    and t: "trade_or_404 db trade_id u = Inr t" "t_status t = ''PENDING''" and s: "countersign_checks cx ops db t address signature None rq = Inr s"
    and tr: "apply_lifecycle_transition (ledger_of (sn_db s)) \<lparr>tr_user = t_user t, tr_trade = t, tr_type = ''CONFIRMED'', tr_status = ''CONFIRMED'',
       tr_payload = [(''attestation'', PDict (countersigned_record ops s r None))], tr_key = in_key rq,
       tr_hash = Some (hexb (sn_hash s)), tr_cp_confirmed = True\<rparr> (in_event rq) = (l', Inr resp)"
    and db': "db' = with_ledger l' (sn_db s)"
    using countersignE[OF run fresh] by metis
  obtain chain registry td_own td_cp where ctx: "eip712_ctx ops = (chain, registry)"
    and ps: "resolve_parties ?cr (cx_env cx) db t = Inr (sn_own s, sn_cp s)" and uti: "ensure_uti db t (in_uuid rq) = Inr (sn_db s)"
    and canon: "canonical_for ?cr (sn_db s) t schema_version = Inr (sn_payload s, sn_hash s)" and sg: "parse_signature signature = Inr (sn_sig_cp s)"
    and tds: "confirmation_typed_data ?cr chain registry (sn_hash s) (pk_address (sn_own s)) = Some td_cp"
      "confirmation_typed_data ?cr chain registry (sn_hash s) (pk_address (sn_cp s)) = Some td_own"
    and chk: "check_signer ?cr td_cp (sn_sig_cp s) (Some address) (sn_cp s) = Inr ()"
    and own: "sn_sig_own s = cr_sign ?cr td_own (the (pk_key (sn_own s)))"
    using countersign_checksE[OF s] by metis
  have led: "ledger_of (sn_db s) = ledger_of db0" using ensure_uti_keeps(1)[OF uti] by (simp add: db)
  have t0: "trade_or_404 db0 trade_id u = Inr t" using t(1) by (simp add: db trade_or_404_def)
  have cp_signed: "cr_recover ?cr td_cp (sn_sig_cp s) = Some (pk_address (sn_cp s))"
    using check_signer_exact[OF laws resolve_parties_good(2)[OF laws ps] chk] .
  have "recovers_to ?cr (confirmation_typed_data ?cr chain registry (sn_hash s) (pk_address (sn_cp s))) (sn_sig_own s) (pk_address (sn_own s))"
    "recovers_to ?cr (confirmation_typed_data ?cr chain registry (sn_hash s) (pk_address (sn_own s))) (sn_sig_cp s) (pk_address (sn_cp s))"
    unfolding tds own recovers_to_def using cp_signed own_signs[OF laws ps] by simp_all
  then have valid: "signatures_valid ?cr (countersigned_record ops s r None) (sn_hash s)"
    by (simp add: signatures_valid_signed[OF get_countersigned(3,4)] ctx)
  from tr obtain ev where ev: "l_events l' = l_events (ledger_of db0) @ [ev]" "e_trade ev = t_id t" "e_type ev = ''CONFIRMED''"
      "e_hash ev = Some (hexb (sn_hash s))" "e_payload ev = [(''attestation'', PDict (countersigned_record ops s r None))]"
      "e_seq ev = next_seq (ledger_of db0) (t_id t)" and legs: "l_legs l' = l_legs (ledger_of db0)"
    and trades: "l_trades l' = map (\<lambda>x. if t_id x = t_id t then x\<lparr>t_status := ''CONFIRMED'', t_latest := Some (in_event rq), t_version := t_version t + 1\<rparr> else x)
          (l_trades (ledger_of db0))"
  proof (cases rule: apply_transition_cases)
    case same
    with fresh show ?thesis by blast
  next
    case (done_req pre row)
    show ?thesis by (rule that[OF done_req(4)[unfolded led transition.simps]]) (use done_req(5,6) in \<open>simp_all add: led\<close>)
  qed
  have att: "attestation_of (Some ev) = countersigned_record ops s r None" by (simp add: attestation_of_def ev(5) get_def)
  have latest: "latest_attested_event (ledger_of db') (t_id t) = Some ev"
    using latest_attested_insert[OF ok ev(1)] ev(2,3,6) by (simp add: db' attested_types_def)
  have canon': "canonical_for ?cr db' t schema_version = Inr (sn_payload s, sn_hash s)"
    using canon canonical_for_cong[of db' "sn_db s" t t] by (simp add: db' legs led)
  have "find_trade l' (t_id t) u = Some (t\<lparr>t_status := ''CONFIRMED'', t_latest := Some (in_event rq), t_version := t_version t + 1\<rparr>)"
    by (rule find_trade_map[OF trade_or_404D(3)[OF t0] trades])
  then have "own_trade db' trade_id (in_user rq) = Inr (t\<lparr>t_status := ''CONFIRMED'', t_latest := Some (in_event rq), t_version := t_version t + 1\<rparr>)"
    using trade_or_404D(1)[OF t0] by (simp add: writer_owns[OF u] trade_or_404_def db')
  moreover have "attested_version (countersigned_record ops s r None) = Inr schema_version"
    by (rule attested_version_of) (simp_all add: get_countersigned schema_version_def)
  ultimately have "\<exists>vf. verify_trade cx ops db' c2 trade_id (in_user rq) = Inr vf \<and> vf_event vf = Some ''CONFIRMED'' \<and> vf_matches vf
          \<and> vf_signatures vf = Some True \<and> vf_recomputed vf = hexb (sn_hash s)" for c2
    using latest att canon' valid ev(3,4) by (simp add: verify_trade_def stored_hash_def get_countersigned Let_def hexb_def)
  moreover have "(''tradeHash'', sn_hash s) \<in> set (td_message td_cp)"
    using tds(1) by (auto simp: confirmation_typed_data_def typed_def split: option.splits)
  moreover have "resolve_parties ?cr (cx_env cx) db0 t = Inr (sn_own s, sn_cp s)" using ps by (simp add: db resolve_parties_budget)
  ultimately show ?thesis using u t0 t(2) ev(1-4) sg cp_signed
    by (intro exI[of _ u] exI[of _ t] exI[of _ "sn_hash s"] exI[of _ ev] exI[of _ "sn_own s"] exI[of _ "sn_cp s"] exI[of _ td_cp] exI[of _ "sn_sig_cp s"])
      (simp add: db')
qed


lemma deal_crypto_laws: "crypto_laws deal_crypto"
proof -
  have "str_lower (str_lower x) = str_lower x" for x by (simp add: str_lower_def)
  moreover have "deal_sign td ''kb'' \<noteq> deal_sign td ''ka''" for td by (simp add: deal_sign_def)
  ultimately show ?thesis by (simp add: crypto_laws_def deal_crypto_def) (simp add: str_lower_def low_char_def)
qed

theorem countersigned_verifies_witness:
  "\<exists>db' c' resp ev vf. countersign deal_setting (registry_ops deal_call) deal_pending empty_registry demo_tid ''0xb'' (hexb deal_countersignature)
       (deal_request None) = (db', c', Inr resp)
     \<and> l_events (ledger_of db') = [booked_event, ev] \<and> e_type ev = ''CONFIRMED''
     \<and> verify_trade deal_setting (registry_ops deal_call) db' c' demo_tid demo_user = Inr vf \<and> vf_matches vf \<and> vf_signatures vf = Some True"
proof -
  obtain db' c' resp where run: "countersign deal_setting (registry_ops deal_call) deal_pending empty_registry demo_tid ''0xb''
     (hexb deal_countersignature) (deal_request None) = (db', c', Inr resp)" "\<not> lr_replay resp" using deal_countersigns by blast
  have "crypto_laws (cx_crypto deal_setting)" by (simp add: deal_setting_def deal_crypto_laws)
  from countersigned_verifies[OF run deal_pending_ok this] obtain ev where "l_events (ledger_of db') = l_events (ledger_of deal_pending) @ [ev]"
    "e_type ev = ''CONFIRMED''" and v: "\<forall>c2. \<exists>vf. verify_trade deal_setting (registry_ops deal_call) db' c2 demo_tid (in_user (deal_request None)) = Inr vf
        \<and> vf_matches vf \<and> vf_signatures vf = Some True" by metis
  moreover have "l_events (ledger_of deal_pending) = [booked_event]" "in_user (deal_request None) = demo_user" by (simp_all add: deal_book_def deal_request_def)
  moreover obtain vf where "verify_trade deal_setting (registry_ops deal_call) db' c' demo_tid (in_user (deal_request None)) = Inr vf"
    "vf_matches vf" "vf_signatures vf = Some True" using v by blast
  ultimately show ?thesis using run(1) by auto
qed

end
