(* ===== verification/Chain_Failures.thy ===== *)
theory Chain_Failures
  imports Chain_Properties
begin

section \<open>Closed records, and changes that split book and registry\<close>

text \<open>
  What follows the success or the failure of a lifecycle step: a terminated trade takes no further step, the registry confirms what a
  successful step wrote, and the two cases where the code of \<open>api/routes/chain.py\<close> leaves a trade with a record that misreports it or
  can no longer be changed.
\<close>

subsection \<open>The backend the routes rely on\<close>

text \<open>What the routes take from a receipt: a backend that anchors then has the record as confirmed, linked to the one it amends.\<close>

definition confirmed_at :: "'c chain_ops \<Rightarrow> string \<Rightarrow> 'c \<Rightarrow> bool" where
  "confirmed_at ops h c \<longleftrightarrow> (\<exists>r. co_get ops h c = Some (Some r) \<and> rr_status r = ''Confirmed'')"

locale anchoring =
  fixes ops :: "'c chain_ops"
  assumes confirm_anchors: "co_confirm ops h a b sa sb w c = (c', Inr r) \<Longrightarrow> co_anchored ops \<Longrightarrow> confirmed_at ops h c'"
    and amend_anchors: "co_amend ops p n sa sb c = (c', Inr r) \<Longrightarrow> co_anchored ops \<Longrightarrow> confirmed_at ops n c'"
    and amend_closes: "co_amend ops p n sa sb c = (c', Inr r) \<Longrightarrow> co_anchored ops \<Longrightarrow> \<not> confirmed_at ops p c'"
    and terminate_closes: "co_terminate ops h sa sb c = (c', Inr r) \<Longrightarrow> co_anchored ops \<Longrightarrow> \<not> confirmed_at ops h c'"
begin

text \<open>After an amendment, the route's check against the chain confirms the new record, and the old one is closed.\<close>

lemma amended_on_chain:
  assumes run: "amend_on_chain cx ops db0 c trade_id body rq = (db', c', Inr resp)" and fresh: "\<not> lr_replay resp"
    and ok: "ledger_ok (ledger_of db0)" and anchored: "co_anchored ops"
  shows "\<exists>vf u t att prev. verify_trade cx ops db' c' trade_id (in_user rq) = Inr vf \<and> vf_matches vf \<and> vf_confirmed vf
    \<and> trade_or_404 db0 trade_id u = Inr t \<and> current_record (ledger_of db0) t = Inr (att, prev) \<and> \<not> confirmed_at ops prev c'"
proof -
  obtain b u a r ev payload where a: "amend_begin cx ops (db0\<lparr>cd_budget := b\<rparr>) u trade_id body = Inr a" and send: "amend_send ops a c = (c', Inr r)"
    and t0: "trade_or_404 db0 trade_id u = Inr (ap_trade a)"
    and canon: "canonical_for (cx_crypto cx) db' (ap_trade a) (ap_version a) = Inr (payload, pv_new (ap_preview a))"
    and ev: "latest_attested_event (ledger_of db') (t_id (ap_trade a)) = Some ev" "stored_hash (Some ev) = Some (hexb (pv_new (ap_preview a)))"
      "attestation_of (Some ev) = amended_record ops a r"
    and own: "own_trade db' trade_id (in_user rq)
       = Inr ((ap_trade a)\<lparr>t_status := ''CONFIRMED'', t_latest := Some (in_event rq), t_version := t_version (ap_trade a) + 1\<rparr>)"
    using amend_effect[OF run fresh ok] by metis
  have "preview_amendment (cx_crypto cx) (cx_rules cx) (db0\<lparr>cd_budget := b\<rparr>) (ap_trade a) (ab_changes body) = Inr (ap_preview a)"
    using amend_beginE[OF a] by metis
  then have cur: "current_record (ledger_of db0) (ap_trade a) = Inr (pv_att (ap_preview a), pv_prev (ap_preview a))" by (auto elim!: previewE)
  have "confirmed_at ops (pv_new (ap_preview a)) c'" "\<not> confirmed_at ops (pv_prev (ap_preview a)) c'"
    using amend_anchors amend_closes send anchored unfolding amend_send_def by metis+
  moreover obtain vf where "verify_trade cx ops db' c' trade_id (in_user rq) = Inr vf" "vf_matches vf"
    "vf_on_chain vf = (case co_get ops (pv_new (ap_preview a)) c' of Some (Some r) \<Rightarrow> Some r | _ \<Rightarrow> None)"
    "vf_confirmed vf = (case vf_on_chain vf of None \<Rightarrow> False | Some r \<Rightarrow> rr_status r = ''Confirmed'')"
    using amended_verification[OF own refl canon ev, of c'] anchored by auto
  ultimately show ?thesis using t0 cur by (intro exI[of _ vf] exI[of _ u] exI[of _ "ap_trade a"]) (auto simp: confirmed_at_def)
qed

end

lemma registry_record_view: "rg_status (reg h) = Reg_Confirmed \<longleftrightarrow> (\<exists>r. record_view (reg h) = Some r \<and> rr_status r = ''Confirmed'')"
  by (auto simp: record_view_def Let_def split: reg_status.splits)

lemma registry_ops_simps:
  "co_anchored (registry_ops ce)"
  "co_confirm (registry_ops ce) h a b sa sb w reg = send_reg ce reg (confirm_reg ce h a b sa sb reg)"
  "co_amend (registry_ops ce) p n sa sb reg = send_reg ce reg (amend_reg ce p n sa sb reg)"
  "co_terminate (registry_ops ce) h sa sb reg = send_reg ce reg (terminate_reg ce h sa sb reg)"
  "co_get (registry_ops ce) h reg = Some (record_view (reg h))"
  by (simp_all add: registry_ops_def)

lemma registry_confirmed_at: "confirmed_at (registry_ops ce) h reg \<longleftrightarrow> rg_status (reg h) = Reg_Confirmed"
  unfolding confirmed_at_def registry_record_view by (simp add: registry_ops_simps)

lemma send_regE:
  assumes "send_reg ce reg x = (reg', Inr r)"
  shows "x = Inr reg'"
  using assms by (auto simp: send_reg_def split: sum.splits)

interpretation null_backend: anchoring null_ops
  by unfold_locales (simp_all add: null_ops_def)

interpretation reg_backend: anchoring "registry_ops ce" for ce
  by unfold_locales
    (auto simp: registry_ops_simps registry_confirmed_at record_confirmed_def dest!: send_regE elim!: confirm_regE amend_regE terminate_regE)


subsection \<open>Terminating\<close>

lemma terminate_beginE:
  assumes "terminate_begin cx ops db u trade_id body = Inr a"
  obtains "trade_or_404 db trade_id u = Inr (tp_trade a)" "t_status (tp_trade a) = ''CONFIRMED''"
    "current_record (ledger_of db) (tp_trade a) = Inr (tp_att a, tp_hash a)"
  using assms by (auto simp: terminate_begin_def Let_def bind_res_Inr_iff)

lemma terminate_success:
  assumes "terminate_on_chain cx ops db0 c trade_id body rq = (db', c', Inr resp)" and "\<not> lr_replay resp"
  obtains b db u a r states where "db = db0\<lparr>cd_budget := b\<rparr>" "check_write_role (in_user rq) = Inr u"
    "terminate_begin cx ops db u trade_id body = Inr a" "co_terminate ops (tp_hash a) (tp_sig_own a) (tp_sig_cp a) c = (c', Inr r)"
    "write_attested db (tp_trade a) \<lparr>ax_type = ''TERMINATED'', ax_status = ''TERMINATED'',
        ax_payload = [(''reason'', opt_str (tb_reason body)), (''attestation'', PDict (terminated_record a body r))],
        ax_hash = hexb (tp_hash a)\<rparr> states (in_key rq) (in_event rq) = Inr (db', resp)"
proof -
  obtain db x where e: "chain_entry cx ''terminate'' db0 rq = (db, x)" by fastforce
  with assms(1) obtain u where x: "x = Inr u" by (auto simp: terminate_on_chain_def split: sum.splits)
  obtain b where b: "db = db0\<lparr>cd_budget := b\<rparr>" "check_write_role (in_user rq) = Inr u"
    using chain_entry_db[OF e] x by blast
  obtain a where a: "terminate_begin cx ops db u trade_id body = Inr a"
    using assms(1) e x by (auto simp: terminate_on_chain_def split: sum.splits)
  obtain r where r: "co_terminate ops (tp_hash a) (tp_sig_own a) (tp_sig_cp a) c = (c', Inr r)" "terminate_finish db a body r rq = (db', Inr resp)"
    using assms(1) e x a by (auto simp: terminate_on_chain_def split: sum.splits prod.splits)
  from r(2) show ?thesis unfolding terminate_finish_def
  proof (cases rule: attested_cases)
    case same
    with assms(2) show ?thesis by blast
  next
    case (wrote db1 states resp')
    then show ?thesis using that[OF b a r(1)] by auto
  qed
qed

text \<open>A step on a trade that no row has as CONFIRMED is refused before anything is sent.\<close>

definition open_rows :: "chain_db \<Rightarrow> string \<Rightarrow> trade_row list" where
  "open_rows db tid = filter (\<lambda>t. t_id t = tid \<and> t_status t = ''CONFIRMED'') (l_trades (ledger_of db))"

lemma confirmed_row: "trade_or_404 db trade_id u = Inr t \<Longrightarrow> t_status t = ''CONFIRMED'' \<Longrightarrow> t \<in> set (open_rows db (t_id t))"
  using trade_or_404D(3)[of db trade_id u t] by (auto simp: open_rows_def find_trade_def find_Some_iff)

lemma open_rows_budget [simp]: "open_rows (db\<lparr>cd_budget := b\<rparr>) tid = open_rows db tid"
  by (simp add: open_rows_def)

lemma amend_begin_needs_open:
  assumes "parse_trade_uuid trade_id = Inr tid" and "open_rows db tid = []"
  shows "\<exists>e. amend_begin cx ops db u trade_id body = Inl e"
proof (cases "amend_begin cx ops db u trade_id body")
  case (Inr a)
  have "trade_or_404 db trade_id u = Inr (ap_trade a)" "t_status (ap_trade a) = ''CONFIRMED''" using amend_beginE[OF Inr] by metis+
  then show ?thesis using confirmed_row trade_or_404D(1) assms by fastforce
qed simp

lemma terminate_begin_needs_open:
  assumes "parse_trade_uuid trade_id = Inr tid" and "open_rows db tid = []"
  shows "\<exists>e. terminate_begin cx ops db u trade_id body = Inl e"
proof (cases "terminate_begin cx ops db u trade_id body")
  case (Inr a)
  have "trade_or_404 db trade_id u = Inr (tp_trade a)" "t_status (tp_trade a) = ''CONFIRMED''" using terminate_beginE[OF Inr] by metis+
  then show ?thesis using confirmed_row trade_or_404D(1) assms by fastforce
qed simp

text \<open>A step ends in an error, the chain untouched.\<close>

definition refused :: "'s \<times> 'c \<times> 'a http \<Rightarrow> 'c \<Rightarrow> bool" where
  "refused x c \<longleftrightarrow> fst (snd x) = c \<and> (case snd (snd x) of Inl _ \<Rightarrow> True | Inr _ \<Rightarrow> False)"

lemma closed_trade_refused:
  assumes "parse_trade_uuid trade_id = Inr tid" and "open_rows db tid = []"
  shows "refused (amend_on_chain cx ops db c trade_id body rq) c" "refused (terminate_on_chain cx ops db c trade_id body' rq) c"
proof -
  have o: "open_rows d tid = []" if "chain_entry cx kind db rq = (d, Inr u)" for kind d u
    using chain_entry_db[OF that] assms(2) by (metis open_rows_budget)
  show "refused (amend_on_chain cx ops db c trade_id body rq) c"
  proof (cases "chain_entry cx ''amend'' db rq")
    case (Pair d x)
    show ?thesis
    proof (cases x)
      case (Inr u)
      obtain e where "amend_begin cx ops d u trade_id body = Inl e" using amend_begin_needs_open[OF assms(1) o[OF Pair[unfolded Inr]]] by blast
      then show ?thesis by (simp add: refused_def amend_on_chain_def Pair Inr)
    qed (simp add: refused_def amend_on_chain_def Pair)
  qed
  show "refused (terminate_on_chain cx ops db c trade_id body' rq) c"
  proof (cases "chain_entry cx ''terminate'' db rq")
    case (Pair d x)
    show ?thesis
    proof (cases x)
      case (Inr u)
      obtain e where "terminate_begin cx ops d u trade_id body' = Inl e" using terminate_begin_needs_open[OF assms(1) o[OF Pair[unfolded Inr]]] by blast
      then show ?thesis by (simp add: refused_def terminate_on_chain_def Pair Inr)
    qed (simp add: refused_def terminate_on_chain_def Pair)
  qed
qed

lemma get_terminated: "truthy (get (terminated_record a body r) ''terminated'')" "terminated_record a body r \<noteq> []"
  by (simp_all add: terminated_record_def get_set truthy_def)

text \<open>C17: A termination is final. When it succeeds, the trade was CONFIRMED with an open anchored record and the chain accepted the termination of
  that record; the one new event carries it, marked as terminated; the trade is TERMINATED; and every later amendment or termination of it, also
  one that repeats the request with its key, is refused without touching the chain.\<close>

theorem termination_is_final:
  assumes run: "terminate_on_chain cx ops db0 c trade_id body rq = (db', c', Inr resp)" and fresh: "\<not> lr_replay resp"
    and ok: "ledger_ok (ledger_of db0)"
  shows "\<exists>u t att h so sc r ev. check_write_role (in_user rq) = Inr u \<and> trade_or_404 db0 trade_id u = Inr t \<and> t_status t = ''CONFIRMED''
    \<and> current_record (ledger_of db0) t = Inr (att, h) \<and> co_terminate ops h so sc c = (c', Inr r)
    \<and> l_events (ledger_of db') = l_events (ledger_of db0) @ [ev] \<and> e_type ev = ''TERMINATED'' \<and> e_hash ev = Some (hexb h)
    \<and> is_terminated (current_attestation (ledger_of db') (t_id t)) \<and> map_option t_status (find_trade (ledger_of db') (t_id t) u) = Some ''TERMINATED''
    \<and> (\<forall>c2 body2 rq2. refused (amend_on_chain cx ops db' c2 trade_id body2 rq2) c2)
    \<and> (\<forall>c2 body2 rq2. refused (terminate_on_chain cx ops db' c2 trade_id body2 rq2) c2)"
proof -
  obtain b db u a r states where db: "db = db0\<lparr>cd_budget := b\<rparr>" and u: "check_write_role (in_user rq) = Inr u"
    and a: "terminate_begin cx ops db u trade_id body = Inr a" and send: "co_terminate ops (tp_hash a) (tp_sig_own a) (tp_sig_cp a) c = (c', Inr r)"
    and w: "write_attested db (tp_trade a) \<lparr>ax_type = ''TERMINATED'', ax_status = ''TERMINATED'',
        ax_payload = [(''reason'', opt_str (tb_reason body)), (''attestation'', PDict (terminated_record a body r))],
        ax_hash = hexb (tp_hash a)\<rparr> states (in_key rq) (in_event rq) = Inr (db', resp)"
    using terminate_success[OF run fresh] by metis
  let ?t = "tp_trade a"
  have t: "trade_or_404 db0 trade_id u = Inr ?t" "t_status ?t = ''CONFIRMED''" "current_record (ledger_of db0) ?t = Inr (tp_att a, tp_hash a)"
    by (rule terminate_beginE[OF a], simp add: db trade_or_404_def)+
  define ev where "ev = attested_row (ledger_of db) ?t \<lparr>ax_type = ''TERMINATED'', ax_status = ''TERMINATED'',
        ax_payload = [(''reason'', opt_str (tb_reason body)), (''attestation'', PDict (terminated_record a body r))],
        ax_hash = hexb (tp_hash a)\<rparr> states (in_event rq)"
  obtain l' where l': "db' = with_ledger l' db" "l_events l' = l_events (ledger_of db0) @ [ev]"
    "l_trades l' = map (\<lambda>x. if t_id x = t_id ?t then x\<lparr>t_status := ''TERMINATED'', t_latest := Some (in_event rq), t_version := t_version ?t + 1\<rparr> else x)
       (l_trades (ledger_of db0))"
    by (rule write_attestedE[OF w], rule that, assumption) (simp_all add: ev_def db)
  have ev: "e_trade ev = t_id ?t" "e_seq ev = next_seq (ledger_of db0) (t_id ?t)" "e_type ev = ''TERMINATED''" "e_hash ev = Some (hexb (tp_hash a))"
    "get (e_payload ev) ''attestation'' = PDict (terminated_record a body r)"
    by (simp_all add: ev_def attested_row_def get_def db)
  have "latest_attested_event l' (t_id ?t) = Some ev"
    using latest_attested_insert[OF ok l'(2)] ev(1-3) by (simp add: attested_types_def)
  then have "is_terminated (current_attestation (ledger_of db') (t_id ?t))"
    by (simp add: l'(1) current_attestation_def ev(5) get_terminated is_terminated_def)
  moreover have "find_trade l' (t_id ?t) u = Some (?t\<lparr>t_status := ''TERMINATED'', t_latest := Some (in_event rq), t_version := t_version ?t + 1\<rparr>)"
    by (rule find_trade_map[OF trade_or_404D(3)[OF t(1)] l'(3)])
  moreover have "open_rows db' (t_id ?t) = []"
    by (auto simp: open_rows_def l'(1,3) filter_empty_conv)
  note closed_trade_refused[OF trade_or_404D(1)[OF t(1)] this]
  ultimately show ?thesis using u t send l'(1,2) ev(3,4) by (intro exI) (auto simp: l'(1))
qed


theorem termination_is_final_witness:
  "\<exists>db' c' resp ev. terminate_on_chain deal_setting (registry_ops deal_call) (deal_book ''CONFIRMED'' deal_history (deal_cols ''USD'')) deal_chain
     demo_tid deal_terminate (deal_request None) = (db', c', Inr resp) \<and> l_events (ledger_of db') = deal_history @ [ev] \<and> e_type ev = ''TERMINATED''
     \<and> refused (amend_on_chain deal_setting (registry_ops deal_call) db' c' demo_tid (deal_amend []) (deal_request None)) c'"
proof -
  obtain db' c' resp where run: "terminate_on_chain deal_setting (registry_ops deal_call) (deal_book ''CONFIRMED'' deal_history (deal_cols ''USD''))
     deal_chain demo_tid deal_terminate (deal_request None) = (db', c', Inr resp)" "\<not> lr_replay resp" using deal_terminates by blast
  have "l_events (ledger_of (deal_book ''CONFIRMED'' deal_history (deal_cols ''USD''))) = deal_history" by (simp add: deal_book_def)
  with termination_is_final[OF run deal_ok] run(1) show ?thesis by auto
qed

subsection \<open>Amendments the book and the registry agree on\<close>



text \<open>What is wrong with an amended record: the check of its signatures reads them as a confirmation.\<close>

definition kinds_separate :: "crypto \<Rightarrow> bool" where
  "kinds_separate cr \<longleftrightarrow> (\<forall>m m' sg x. cr_recover cr m sg = Some x \<longrightarrow> td_primary m = ''TradeAmendment'' \<longrightarrow> td_primary m' = ''TradeConfirmation'' \<longrightarrow>
      cr_recover cr m' sg \<noteq> Some x)"

text \<open>C40: Verifying an amended trade reports its signatures as invalid. Although each party signed the amendment, and our signature recovers to our
  address over the amendment message, the answer to the check of the signatures is no, whenever a signature of an amendment is
  not by accident one of a confirmation.\<close>

theorem amended_signatures_reported_invalid:
  assumes run: "amend_on_chain cx ops db0 c trade_id body rq = (db', c', Inr resp)" and fresh: "\<not> lr_replay resp"
    and ok: "ledger_ok (ledger_of db0)" and laws: "crypto_laws (cx_crypto cx)"
    and kinds: "kinds_separate (cx_crypto cx)"
  shows "\<exists>vf own cp td h. verify_trade cx ops db' c2 trade_id (in_user rq) = Inr vf \<and> vf_matches vf \<and> vf_signatures vf = Some False
    \<and> vf_recomputed vf = hexb h \<and> td_primary td = ''TradeAmendment'' \<and> (''newHash'', h) \<in> set (td_message td)
    \<and> (\<exists>t key. resolve_parties (cx_crypto cx) (cx_env cx) db0 t = Inr (own, cp) \<and> pk_key own = Some key
        \<and> cr_recover (cx_crypto cx) td (cr_sign (cx_crypto cx) td key) = Some (pk_address own))"
proof -
  let ?cr = "cx_crypto cx"
  obtain b u a r ev payload where a: "amend_begin cx ops (db0\<lparr>cd_budget := b\<rparr>) u trade_id body = Inr a"
    and canon: "canonical_for ?cr db' (ap_trade a) (ap_version a) = Inr (payload, pv_new (ap_preview a))"
    and ev: "latest_attested_event (ledger_of db') (t_id (ap_trade a)) = Some ev" "stored_hash (Some ev) = Some (hexb (pv_new (ap_preview a)))"
      "attestation_of (Some ev) = amended_record ops a r"
    and own: "own_trade db' trade_id (in_user rq)
       = Inr ((ap_trade a)\<lparr>t_status := ''CONFIRMED'', t_latest := Some (in_event rq), t_version := t_version (ap_trade a) + 1\<rparr>)"
    using amend_effect[OF run fresh ok] by metis
  obtain td_own td_cp where ps: "resolve_parties ?cr (cx_env cx) (db0\<lparr>cd_budget := b\<rparr>) (ap_trade a) = Inr (ap_own a, ap_cp a)"
    and msg: "amendment_messages ?cr ops (ap_preview a) (ap_own a) (ap_cp a) = Inr (td_own, td_cp)"
    and sig: "cp_signature_or_ours ?cr (ap_own a) (ap_cp a) td_cp td_own (ab_address body) (ab_signature body) = Inr (ap_sig_own a, ap_sig_cp a, ap_bilateral a)"
    using amend_beginE[OF a] by metis
  obtain ch reg where td: "amendment_typed_data ?cr ch reg (pv_prev (ap_preview a)) (pv_new (ap_preview a)) (pk_address (ap_cp a)) = Some td_own"
    using msg by (auto simp: amendment_messages_def need_def bind_res_Inr_iff split: prod.splits option.splits)
  then have td': "td_primary td_own = ''TradeAmendment''" "(''newHash'', pv_new (ap_preview a)) \<in> set (td_message td_own)"
    by (auto simp: amendment_typed_data_def typed_def split: option.splits)
  have so: "ap_sig_own a = cr_sign ?cr td_own (the (pk_key (ap_own a)))"
    using sig by (auto simp: cp_signature_or_ours_def Let_def bind_res_Inr_iff split: option.splits list.splits)
  obtain key where key: "pk_key (ap_own a) = Some key" using resolve_parties_good(3)[OF laws ps] by blast
  have rec: "cr_recover ?cr td_own (ap_sig_own a) = Some (pk_address (ap_own a))" unfolding so using own_signs[OF laws ps] .
  have "\<not> recovers_to ?cr (confirmation_typed_data ?cr c' r' h x) (ap_sig_own a) (pk_address (ap_own a))" for c' r' h x
    using kinds[unfolded kinds_separate_def, rule_format, OF rec td'(1)] message_shapes(1) by (auto simp: recovers_to_def split: option.splits)
  then have "\<not> signatures_valid ?cr (amended_record ops a r) (pv_new (ap_preview a))"
    by (simp add: signatures_valid_signed[OF get_amended_parties])
  moreover obtain vf where "verify_trade cx ops db' c2 trade_id (in_user rq) = Inr vf" "vf_matches vf" "vf_recomputed vf = hexb (pv_new (ap_preview a))"
    "vf_signatures vf = Some (signatures_valid ?cr (amended_record ops a r) (pv_new (ap_preview a)))"
    using amended_verification[OF own refl canon ev, of c2] by blast
  ultimately show ?thesis using td' ps key rec[unfolded so key option.sel]
    by (intro exI[of _ vf] exI[of _ "ap_own a"] exI[of _ "ap_cp a"] exI[of _ td_own] exI[of _ "pv_new (ap_preview a)"])
      (auto simp: resolve_parties_budget)
qed


lemma deal_kinds_differ: "kinds_separate deal_crypto"
  by (auto simp: kinds_separate_def deal_crypto_def deal_sign_def kind_char_def split: if_splits)

theorem amended_signatures_reported_invalid_witness:
  "\<exists>db' reg' resp vf. amend_on_chain deal_setting (registry_ops deal_call) (deal_book ''CONFIRMED'' deal_history (deal_cols ''USD'')) deal_chain
     demo_tid (deal_amend []) (deal_request None) = (db', reg', Inr resp)
     \<and> verify_trade deal_setting (registry_ops deal_call) db' reg' demo_tid demo_user = Inr vf \<and> vf_matches vf \<and> vf_signatures vf = Some False"
proof -
  obtain db' c' resp where run: "amend_on_chain deal_setting (registry_ops deal_call) (deal_book ''CONFIRMED'' deal_history (deal_cols ''USD'')) deal_chain
     demo_tid (deal_amend []) (deal_request None) = (db', c', Inr resp)" "\<not> lr_replay resp" using deal_amends by blast
  have cr: "cx_crypto deal_setting = deal_crypto" "in_user (deal_request None) = demo_user" by (simp_all add: deal_setting_def deal_request_def)
  have "\<exists>vf. verify_trade deal_setting (registry_ops deal_call) db' c' demo_tid (in_user (deal_request None)) = Inr vf \<and> vf_matches vf
      \<and> vf_signatures vf = Some False"
    using amended_signatures_reported_invalid[OF run deal_ok, unfolded cr(1), OF deal_crypto_laws deal_kinds_differ] by blast
  with run(1) show ?thesis unfolding cr(2) by blast
qed

subsection \<open>Changes the projection cannot read\<close>

lemma h_amended_shape:
  assumes "get payload ''changes'' = PDict ch" and "get ch ''cashflows'' = PStr (x # xs)"
  shows "\<exists>e. h_amended p payload = Inl e"
proof (cases "h_amended p payload")
  case (Inr q)
  have "truthy (PDict ch)" using assms(2) by (cases ch) (simp_all add: truthy_def get_def)
  then have "dict_or_empty (get payload ''changes'') = Inr ch" by (simp add: assms(1) dict_or_empty_def)
  moreover have "dicts_or_empty (get ch ''cashflows'') = Inl Bad_Shape" by (simp add: assms(2) dicts_or_empty_def truthy_def)
  ultimately show ?thesis using Inr by (auto simp: h_amended_def bind_res_Inr_iff)
qed simp

lemma sort_Nil: "sort_key f xs = [] \<longleftrightarrow> xs = []"
  using length_sort[of f xs] by (metis length_0_conv)

lemma project_refuses:
  assumes "\<And>n p. \<exists>err. project_from n p [e] = Inl err"
  shows "\<exists>err. project (es @ [e]) = Inl err"
  unfolding project_def project_from_append
  using assms by (cases "project_from 1 empty_projection es") (simp_all del: project_from.simps)

lemma misshapen_states:
  assumes "trade_events_of l tid \<noteq> []" and "get (ax_payload a) ''changes'' = PDict ch" "get ch ''cashflows'' = PStr (x # xs)" and "ax_type a = ''AMENDED''"
  shows "\<exists>e. attested_states l tid a = Inl e"
proof -
  let ?pre = "sort_key event_seq (map snd (filter (\<lambda>r. fst r = tid) (map as_event (l_events l))))"
  let ?e = "\<lparr>event_seq = event_seq (last ?pre) + 1, event_type = ax_type a, ev_payload = ax_payload a\<rparr> :: event_like"
  have "filter (\<lambda>r. fst r = tid) (map as_event (l_events l)) \<noteq> []"
    using assms(1) by (auto simp: trade_events_of_def filter_empty_conv as_event_def)
  then have ne: "?pre \<noteq> []" unfolding sort_Nil map_is_Nil_conv .
  have am: "dict_get event_names ''AMENDED'' = Some AMENDED" by (simp add: event_names_def)
  have bad: "\<exists>e. apply_event p AMENDED (ax_payload a) = Inl e" for p
    using h_amended_shape[OF assms(2,3), of p] by (auto simp: apply_event_def status_only_def)
  have "\<exists>e. project_from n p [?e] = Inl e" for n p using bad[of p] by (auto simp: assms(4) am)
  then have "\<exists>e. project (?pre @ [?e]) = Inl e" by (rule project_refuses)
  then show ?thesis unfolding attested_states_def Let_def using ne by (cases "project ?pre") auto
qed

text \<open>Once the registry holds the stored record as closed, no step on the trade gets past it.\<close>

lemma current_record_id: "t_id t = t_id t' \<Longrightarrow> current_record l t = current_record l t'"
  by (simp add: current_record_def)

lemma closed_record_refused:
  assumes p: "parse_trade_uuid trade_id = Inr (t_id t)" and cur: "current_record (ledger_of db) t = Inr (att, prev)" and closed: "rg_status (reg prev) \<noteq> Reg_Confirmed"
  shows "refused (amend_on_chain cx (registry_ops ce) db reg trade_id body rq) reg" "refused (terminate_on_chain cx (registry_ops ce) db reg trade_id body' rq) reg"
proof -
  have cur': "current_record (ledger_of d) t2 = Inr (att, prev)" if "chain_entry cx kind db rq = (d, Inr u)" "trade_or_404 d trade_id v = Inr t2" for kind d u v t2
  proof -
    have "ledger_of d = ledger_of db" using chain_entry_db[OF that(1)] by (metis chain_db.select_convs(1) chain_db.surjective chain_db.update_convs(7))
    moreover have "t_id t2 = t_id t" using trade_or_404D(1)[OF that(2)] p by simp
    ultimately show ?thesis using cur current_record_id by metis
  qed
  show "refused (amend_on_chain cx (registry_ops ce) db reg trade_id body rq) reg"
  proof (cases "chain_entry cx ''amend'' db rq")
    case (Pair d x)
    show ?thesis
    proof (cases "\<exists>u a. x = Inr u \<and> amend_begin cx (registry_ops ce) d u trade_id body = Inr a")
      case True
      then obtain u a where x: "x = Inr u" and a: "amend_begin cx (registry_ops ce) d u trade_id body = Inr a" by blast
      have "trade_or_404 d trade_id u = Inr (ap_trade a)" "preview_amendment (cx_crypto cx) (cx_rules cx) d (ap_trade a) (ab_changes body) = Inr (ap_preview a)"
        using amend_beginE[OF a] by metis+
      then have "pv_prev (ap_preview a) = prev" using cur'[OF Pair[unfolded x]] by (auto elim!: previewE)
      then have "amend_send (registry_ops ce) a reg = (reg, Inl (Chain_Failure ''execution reverted''))"
        using closed by (simp add: amend_send_def registry_ops_simps send_reg_def amend_reg_def require_def)
      then show ?thesis by (simp add: refused_def amend_on_chain_def Pair x a)
    next
      case False
      then show ?thesis by (auto simp: refused_def amend_on_chain_def Pair split: sum.splits)
    qed
  qed
  show "refused (terminate_on_chain cx (registry_ops ce) db reg trade_id body' rq) reg"
  proof (cases "chain_entry cx ''terminate'' db rq")
    case (Pair d x)
    show ?thesis
    proof (cases "\<exists>u a. x = Inr u \<and> terminate_begin cx (registry_ops ce) d u trade_id body' = Inr a")
      case True
      then obtain u a where x: "x = Inr u" and a: "terminate_begin cx (registry_ops ce) d u trade_id body' = Inr a" by blast
      have "trade_or_404 d trade_id u = Inr (tp_trade a)" "current_record (ledger_of d) (tp_trade a) = Inr (tp_att a, tp_hash a)"
        using terminate_beginE[OF a] by metis+
      then have "tp_hash a = prev" using cur'[OF Pair[unfolded x]] by auto
      then have "co_terminate (registry_ops ce) (tp_hash a) (tp_sig_own a) (tp_sig_cp a) reg = (reg, Inl (Chain_Failure ''execution reverted''))"
        using closed by (simp add: registry_ops_simps send_reg_def terminate_reg_def require_def)
      then show ?thesis by (simp add: refused_def terminate_on_chain_def Pair x a)
    next
      case False
      then show ?thesis by (auto simp: refused_def terminate_on_chain_def Pair split: sum.splits)
    qed
  qed
qed



end
