(* ===== verification/Comparing.thy ===== *)
theory Comparing
  imports Canonical_Types Chain_Records
begin

section \<open>Comparing two bookings of one trade\<close>

text \<open>
  \<open>compare\<close> of \<open>api/routes/trade_cards.py\<close>: the breaks between the record a party shared into a chat room and the counterparty's
  own booking of the trade, both as version-2 records. Legs are paired greedily within a key of leg type, currency and index; the
  UTI is left out. \<open>agreement\<close> at the end is what the screen's MATCH means: no breaks exactly when the two records have the same
  canonical bytes but for their UTI.
\<close>

subsection \<open>Values as Python compares them\<close>

text \<open>\<open>True == 1\<close>; dictionaries are equal whatever their order.\<close>

fun plain :: "json \<Rightarrow> json" and plain_arr :: "json list \<Rightarrow> json list" and plain_obj :: "(string \<times> json) list \<Rightarrow> (string \<times> json) list" where
  "plain (JBool b) = JInt (if b then 1 else 0)"
| "plain (JArr xs) = JArr (plain_arr xs)"
| "plain (JObj kvs) = JObj (plain_obj kvs)"
| "plain JNull = JNull"
| "plain (JInt i) = JInt i"
| "plain (JStr s) = JStr s"
| "plain_arr [] = []"
| "plain_arr (x # xs) = plain x # plain_arr xs"
| "plain_obj [] = []"
| "plain_obj (kv # kvs) = (fst kv, plain (snd kv)) # plain_obj kvs"

definition py_eq :: "json \<Rightarrow> json \<Rightarrow> bool" where
  "py_eq a b \<longleftrightarrow> jsort (plain a) = jsort (plain b)"

definition jget :: "(string \<times> json) list \<Rightarrow> string \<Rightarrow> json" where
  "jget d k = (case dict_get d k of None \<Rightarrow> JNull | Some v \<Rightarrow> v)"

definition members :: "json \<Rightarrow> (string \<times> json) list" where
  "members j = (case j of JObj d \<Rightarrow> d | _ \<Rightarrow> [])"

definition elements :: "json \<Rightarrow> json list" where
  "elements j = (case j of JArr xs \<Rightarrow> xs | _ \<Rightarrow> [])"

subsection \<open>Field breaks\<close>

record brk =
  bk_field :: string
  bk_shared :: json
  bk_yours :: json

definition differing :: "(string \<times> json) list \<Rightarrow> (string \<times> json) list \<Rightarrow> string list" where
  "differing a b = filter (\<lambda>f. \<not> py_eq (jget a f) (jget b f)) (sort (remdups (map fst a @ map fst b)))"

definition field_breaks :: "(string \<Rightarrow> string) \<Rightarrow> (string \<times> json) list \<Rightarrow> (string \<times> json) list \<Rightarrow> brk list" where
  "field_breaks label a b = map (\<lambda>f. \<lparr>bk_field = label f, bk_shared = jget a f, bk_yours = jget b f\<rparr>) (differing a b)"

definition product_label :: "string \<Rightarrow> string" where
  "product_label f = (if f = ''buyer'' then ''who buys'' else if f = ''seller'' then ''who sells'' else f)"

definition leg_label :: "string \<Rightarrow> string" where
  "leg_label f = (if f = ''payer'' then ''who pays'' else if f = ''receiver'' then ''who receives'' else f)"

text \<open>\<open>" / ".join(parties)\<close>\<close>

fun slashed :: "json list \<Rightarrow> string" where
  "slashed [] = []"
| "slashed [JStr s] = s"
| "slashed (JStr s # js) = s @ '' / '' @ slashed js"
| "slashed (_ # js) = slashed js"

definition parties_breaks :: "json \<Rightarrow> json \<Rightarrow> brk list" where
  "parties_breaks a b =
     (if py_eq a b then [] else [\<lparr>bk_field = ''parties'', bk_shared = JStr (slashed (elements a)), bk_yours = JStr (slashed (elements b))\<rparr>])"

subsection \<open>Pairing the legs\<close>

text \<open>The key of a leg. \<open>upper\<close> raises on anything but text, and a list or a dictionary is not hashable. \<open>plain\<close> makes equal keys one.\<close>

type_synonym leg_key = "string \<times> json \<times> json"
type_synonym leg = "(string \<times> json) list"

definition hashable_json :: "json \<Rightarrow> bool" where
  "hashable_json j = (case j of JArr _ \<Rightarrow> False | JObj _ \<Rightarrow> False | _ \<Rightarrow> True)"

definition upper_or_empty :: "json \<Rightarrow> string http" where
  "upper_or_empty j = (case j of JStr s \<Rightarrow> Inr (str_upper s) | _ \<Rightarrow>
     if j \<in> {JNull, JBool False, JInt 0, JArr [], JObj []} then Inr [] else Inl Crash)"

definition key_of :: "leg \<Rightarrow> leg_key http" where
  "key_of l =
     bind_res (upper_or_empty (jget l ''leg_type'')) (\<lambda>t.
     bind_res (require (hashable_json (jget l ''currency'') \<and> hashable_json (jget l ''index'')) Crash) (\<lambda>_.
       Inr (t, plain (jget l ''currency''), plain (jget l ''index''))))"

definition keyed :: "json \<Rightarrow> (leg_key \<times> leg) http" where
  "keyed j = bind_res (key_of (members j)) (\<lambda>k. Inr (k, members j))"

text \<open>\<open>mine.setdefault(key(l), []).append(l)\<close>\<close>

definition candidates :: "(leg_key \<times> leg list) list \<Rightarrow> leg_key \<Rightarrow> leg list" where
  "candidates mine k = (case dict_get mine k of None \<Rightarrow> [] | Some c \<Rightarrow> c)"

definition grouped :: "(leg_key \<times> leg) list \<Rightarrow> (leg_key \<times> leg list) list" where
  "grouped ls = foldl (\<lambda>mine (k, l). dict_set k (candidates mine k @ [l]) mine) [] ls"

text \<open>\<open>min(cands, key=...)\<close>: the first of the least; \<open>cands.remove\<close>: the first that is equal.\<close>

fun first_min :: "('a \<Rightarrow> nat) \<Rightarrow> 'a \<Rightarrow> 'a list \<Rightarrow> 'a" where
  "first_min f m [] = m"
| "first_min f m (x # xs) = first_min f (if f x < f m then x else m) xs"

fun remove_first :: "('a \<Rightarrow> bool) \<Rightarrow> 'a list \<Rightarrow> 'a list" where
  "remove_first P [] = []"
| "remove_first P (x # xs) = (if P x then xs else x # remove_first P xs)"

definition leg_name :: "leg_key \<Rightarrow> string" where
  "leg_name k = fst k @ '' leg''"

fun match_legs :: "(leg_key \<times> leg) list \<Rightarrow> (leg_key \<times> leg list) list \<Rightarrow> brk list \<times> (leg_key \<times> leg list) list" where
  "match_legs [] mine = ([], mine)"
| "match_legs ((k, l) # ls) mine =
     (case candidates mine k of
        [] \<Rightarrow> (let (bs, rest) = match_legs ls mine
               in (\<lparr>bk_field = leg_name k, bk_shared = JStr ''present'', bk_yours = JStr ''missing''\<rparr> # bs, rest))
      | c # cs \<Rightarrow>
          (let best = first_min (\<lambda>x. length (differing l x)) c cs;
               (bs, rest) = match_legs ls (dict_set k (remove_first (\<lambda>x. py_eq (JObj x) (JObj best)) (c # cs)) mine)
           in (field_breaks (\<lambda>f. leg_name k @ '' '' @ leg_label f) l best @ bs, rest)))"

definition unmatched :: "(leg_key \<times> leg list) list \<Rightarrow> brk list" where
  "unmatched mine =
     concat (map (\<lambda>(k, ls). map (\<lambda>l. \<lparr>bk_field = leg_name k, bk_shared = JStr ''missing'', bk_yours = JStr ''present''\<rparr>) ls) mine)"

definition legs_breaks :: "(leg_key \<times> leg) list \<Rightarrow> (leg_key \<times> leg) list \<Rightarrow> brk list" where
  "legs_breaks shared theirs = (let (bs, rest) = match_legs shared (grouped theirs) in bs @ unmatched rest)"

definition compare :: "json \<Rightarrow> json \<Rightarrow> brk list http" where
  "compare shared theirs =
     (let s = members shared; t = members theirs in
      bind_res (map_res keyed (elements (jget t ''legs''))) (\<lambda>tk.
      bind_res (map_res keyed (elements (jget s ''legs''))) (\<lambda>sk.
        Inr (field_breaks (\<lambda>f. f) (members (jget s ''trade'')) (members (jget t ''trade''))
             @ parties_breaks (jget s ''parties'') (jget t ''parties'')
             @ field_breaks product_label (members (jget s ''product'')) (members (jget t ''product''))
             @ legs_breaks sk tk))))"

subsection \<open>Equality of textual values\<close>

lemma plain_maps: "plain_arr xs = map plain xs" "plain_obj kvs = map (\<lambda>(k, v). (k, plain v)) kvs"
  by (induction xs) (simp_all, induction kvs, auto)

lemma jsort_maps: "jsort (JObj kvs) = JObj (sort_key fst (map (\<lambda>(k, v). (k, jsort v)) kvs))" "jsort (JArr xs) = JArr (map jsort xs)"
  by (simp_all add: jsort_obj_map jsort_arr_map)

lemma jsort_plain:
  "jsort (plain j) = plain (jsort j)"
  "jsort_arr (plain_arr xs) = plain_arr (jsort_arr xs)"
  "jsort_obj (plain_obj kvs) = plain_obj (jsort_obj kvs)"
proof (induction j and xs and kvs rule: plain_plain_arr_plain_obj.induct)
  case (3 kvs)
  have "sort_key fst (plain_obj ys) = plain_obj (sort_key fst ys)" for ys
    unfolding plain_maps by (rule map_sort_key_comm[symmetric]) auto
  with 3 show ?case by simp
qed simp_all

lemma textual_jsort:
  "textual j \<Longrightarrow> textual (jsort j)"
  "\<forall>x \<in> set xs. textual x \<Longrightarrow> \<forall>x \<in> set (jsort_arr xs). textual x"
  "textual_items kvs \<Longrightarrow> textual_items (jsort_obj kvs)"
proof (induction j and xs and kvs rule: jsort_jsort_arr_jsort_obj.induct)
  case (2 kvs)
  then show ?case by (simp add: textual_items_def)
qed auto

lemma plain_inj:
  "textual j \<Longrightarrow> textual j' \<Longrightarrow> plain j = plain j' \<Longrightarrow> j = j'"
  "\<forall>x \<in> set xs. textual x \<Longrightarrow> \<forall>x \<in> set xs'. textual x \<Longrightarrow> plain_arr xs = plain_arr xs' \<Longrightarrow> xs = xs'"
  "textual_items kvs \<Longrightarrow> textual_items kvs' \<Longrightarrow> plain_obj kvs = plain_obj kvs' \<Longrightarrow> kvs = kvs'"
proof (induction j and xs and kvs arbitrary: j' and xs' and kvs' rule: plain_plain_arr_plain_obj.induct)
  case (10 kv kvs)
  then show ?case by (cases kvs') (auto simp: prod_eq_iff)
next
  case (8 x xs)
  then show ?case by (cases xs') auto
next
  case 7
  then show ?case by (simp add: plain_maps)
next
  case 9
  then show ?case by (simp add: plain_maps)
next
  case (1 b)
  then show ?case by (cases j') (auto split: if_splits)
next
  case (2 xs)
  then show ?case by (cases j') auto
next
  case (3 kvs)
  then show ?case by (cases j') auto
next
  case 4
  then show ?case by (cases j') auto
next
  case (6 s)
  then show ?case by (cases j') auto
qed simp_all

lemma py_eq_textual: "textual a \<Longrightarrow> textual b \<Longrightarrow> py_eq a b \<longleftrightarrow> dumps a = dumps b"
  using plain_inj(1)[OF textual_jsort(1) textual_jsort(1), of a b] dump_inj[of "jsort a" "jsort b"]
  by (auto simp: py_eq_def jsort_plain dumps_def)

subsection \<open>Field breaks\<close>

lemma py_eq_refl [simp]: "py_eq a a"
  by (simp add: py_eq_def)

lemma jget_absent: "k \<notin> fst ` set d \<Longrightarrow> jget d k = JNull"
  by (metis jget_def map_of_eq_None_iff option.simps(4))

lemma jget_append: "jget (a @ b) k = (if k \<in> fst ` set a then jget a k else jget b k)"
  by (induction a) (auto simp: jget_def)

lemma textual_jget: "textual_items d \<Longrightarrow> textual (jget d k)"
  by (cases "dict_get d k") (auto simp: jget_def textual_items_def dest!: map_of_SomeD)

lemma differing_Nil: "differing a b = [] \<longleftrightarrow> (\<forall>f. py_eq (jget a f) (jget b f))"
proof -
  have "py_eq (jget a f) (jget b f)" if "f \<notin> set (map fst a @ map fst b)" for f
    using that jget_absent[of f a] jget_absent[of f b] by simp
  then show ?thesis unfolding differing_def filter_empty_conv set_sort set_remdups by blast
qed

lemma jsort_obj_get: "dict_get (jsort_obj d) k = map_option jsort (dict_get d k)"
  by (induction d) auto

lemma jsort_obj_keys: "map fst (jsort_obj d) = map fst d"
  by (induction d) auto

lemma dumps_jsort: "dumps a = dumps b \<longleftrightarrow> jsort a = jsort b"
  using dump_inj by (auto simp: dumps_def)

lemma dumps_jget:
  assumes "dumps (JObj a) = dumps (JObj b)" and "distinct (map fst a)" and "distinct (map fst b)"
  shows "dumps (jget a f) = dumps (jget b f)"
proof -
  have "dict_get (jsort_obj a) = dict_get (jsort_obj b)"
    using dumps_obj_items[OF assms(1)] assms(2,3) by (simp add: map_of_inject_set jsort_obj_keys)
  then have "map_option jsort (dict_get a f) = map_option jsort (dict_get b f)" by (metis jsort_obj_get)
  then show ?thesis by (auto simp: jget_def dumps_jsort split: option.splits)
qed

lemma same_keys_dumps:
  assumes "map fst a = map fst b" and "distinct (map fst a)" and "\<And>f. dumps (jget a f) = dumps (jget b f)"
  shows "dumps (JObj a) = dumps (JObj b)"
proof (rule dumps_obj_cong, rule nth_equalityI)
  show "length (map (\<lambda>(k, v). (k, dumps v)) a) = length (map (\<lambda>(k, v). (k, dumps v)) b)"
    using assms(1) by (simp add: map_equality_iff)
  fix i assume "i < length (map (\<lambda>(k, v). (k, dumps v)) a)"
  then have i: "i < length a" "i < length b" "fst (a ! i) = fst (b ! i)" using assms(1) by (auto simp: map_equality_iff)
  have g: "jget d (fst (d ! i)) = snd (d ! i)" if "distinct (map fst d)" "i < length d" for d
  proof -
    have "dict_get d (fst (d ! i)) = Some (snd (d ! i))" using that by (intro map_of_is_SomeI) simp_all
    then show ?thesis by (simp add: jget_def)
  qed
  have "dumps (snd (a ! i)) = dumps (snd (b ! i))"
    using assms(3)[of "fst (a ! i)"] g[OF assms(2) i(1)] g[OF _ i(2)] assms(1,2) i(3) by simp
  then show "map (\<lambda>(k, v). (k, dumps v)) a ! i = map (\<lambda>(k, v). (k, dumps v)) b ! i"
    using i by (simp add: case_prod_unfold)
qed

lemma differing_textual:
  assumes "textual_items a" and "textual_items b"
  shows "differing a b = [] \<longleftrightarrow> (\<forall>f. dumps (jget a f) = dumps (jget b f))"
  using assms by (simp add: differing_Nil py_eq_textual textual_jget)

lemma fields_agree:
  assumes "map fst a = map fst b" and "distinct (map fst a)" and "textual_items a" and "textual_items b"
  shows "differing a b = [] \<longleftrightarrow> dumps (JObj a) = dumps (JObj b)"
proof -
  have "distinct (map fst b)" using assms(1,2) by simp
  then show ?thesis
    unfolding differing_textual[OF assms(3,4)] using same_keys_dumps[OF assms(1,2)] dumps_jget[OF _ assms(2)] by blast
qed

subsection \<open>Pairing\<close>

lemma first_min_spec: "first_min f m xs \<in> set (m # xs) \<and> (\<forall>x \<in> set (m # xs). f (first_min f m xs) \<le> f x)"
proof (induction xs arbitrary: m)
  case (Cons x xs)
  from Cons.IH[of "if f x < f m then x else m"] show ?case by (auto split: if_splits)
qed simp

lemma remove_first_mset: "x \<in> set xs \<Longrightarrow> P x \<Longrightarrow> \<exists>y. P y \<and> mset xs = add_mset y (mset (remove_first P xs))"
  by (induction xs) auto

lemma set_remove_first: "set (remove_first P xs) \<subseteq> set xs"
  by (induction xs) auto

lemma mset_groups_set:
  assumes "distinct (map fst mine)"
  shows "mset (concat (map snd (dict_set k new mine))) + mset (candidates mine k) = mset (concat (map snd mine)) + mset new"
  using assms
proof (induction mine)
  case (Cons g mine)
  obtain k' old where g: "g = (k', old)" by fastforce
  show ?case
  proof (cases "k' = k")
    case True
    with g show ?thesis by (simp add: candidates_def)
  next
    case False
    with g have "candidates (g # mine) k = candidates mine k" by (simp add: candidates_def)
    with Cons False g show ?thesis by (simp add: ac_simps)
  qed
qed (simp add: candidates_def)

definition leg_keys :: "string list" where
  "leg_keys = leg_fields_v2 @ [''payer'', ''receiver'', ''index'', ''embedded_options'', ''custom_cashflows'']"

definition fit :: "leg_key \<Rightarrow> leg \<Rightarrow> bool" where
  "fit k l \<longleftrightarrow> map fst l = leg_keys \<and> textual_items l \<and> key_of l = Inr k"

abbreviation sig :: "leg \<Rightarrow> string" where
  "sig l \<equiv> dumps (JObj l)"

definition groups_ok :: "(leg_key \<times> leg list) list \<Rightarrow> bool" where
  "groups_ok mine \<longleftrightarrow> distinct (map fst mine) \<and> (\<forall>(k, ls) \<in> set mine. list_all (fit k) ls)"

lemma leg_keys_distinct: "distinct leg_keys"
  by code_simp

lemma fit_differing: "fit k l \<Longrightarrow> fit k' l' \<Longrightarrow> differing l l' = [] \<longleftrightarrow> sig l = sig l'"
  using fields_agree[of l l'] leg_keys_distinct by (simp add: fit_def)

lemma fit_py_eq: "fit k l \<Longrightarrow> fit k' l' \<Longrightarrow> py_eq (JObj l) (JObj l') \<longleftrightarrow> sig l = sig l'"
  by (simp add: fit_def py_eq_textual)

lemma same_dumps_scalar: "dumps a = dumps b \<Longrightarrow> hashable_json a \<Longrightarrow> a = b"
  by (cases a; cases b) (auto simp: dumps_jsort hashable_json_def jsort_obj_map)

lemma empty_dumps: "dumps (JArr []) = dumps j \<longleftrightarrow> j = JArr []" "dumps (JObj []) = dumps j \<longleftrightarrow> j = JObj []"
proof -
  have e: "sort_key fst ks = [] \<longleftrightarrow> ks = []" "[] = sort_key fst ks \<longleftrightarrow> ks = []" for ks :: "(string \<times> json) list"
    by (metis length_0_conv length_sort)+
  show "dumps (JArr []) = dumps j \<longleftrightarrow> j = JArr []" by (cases j) (simp_all add: dumps_jsort jsort_arr_map)
  show "dumps (JObj []) = dumps j \<longleftrightarrow> j = JObj []" by (cases j) (simp_all add: dumps_jsort jsort_obj_map e)
qed

lemma dumps_JNull: "dumps j = dumps JNull \<longleftrightarrow> j = JNull"
  using same_dumps_scalar[of JNull j] by (auto simp: hashable_json_def)

lemma upper_or_empty_text: "upper_or_empty j = Inr t \<Longrightarrow> hashable_json j \<or> j = JArr [] \<or> j = JObj []"
  by (cases j) (auto simp: upper_or_empty_def hashable_json_def split: if_splits)

lemma fit_same_key:
  assumes l: "fit k l" and l': "fit k' l'" and s: "sig l = sig l'"
  shows "k = k'"
proof -
  have d: "dumps (jget l f) = dumps (jget l' f)" for f
    using dumps_jget[OF s] l l' leg_keys_distinct by (simp add: fit_def)
  have h: "hashable_json (jget l ''currency'')" "hashable_json (jget l ''index'')" and t: "upper_or_empty (jget l ''leg_type'') = Inr (fst k)"
    using l by (auto simp: fit_def key_of_def bind_res_Inr_iff)
  have "jget l ''currency'' = jget l' ''currency''" "jget l ''index'' = jget l' ''index''"
    using same_dumps_scalar[OF d] h by auto
  moreover have "jget l ''leg_type'' = jget l' ''leg_type''"
    using upper_or_empty_text[OF t] same_dumps_scalar[OF d] d[of "''leg_type''"]
    by (auto simp: empty_dumps)
  ultimately have "key_of l = key_of l'" by (simp add: key_of_def)
  with l l' show ?thesis by (simp add: fit_def)
qed

lemma candidates_fit: "groups_ok mine \<Longrightarrow> x \<in> set (candidates mine k) \<Longrightarrow> fit k x"
  by (auto simp: groups_ok_def candidates_def list_all_iff split: option.splits dest!: map_of_SomeD)

lemma in_groups_candidates:
  assumes "groups_ok mine" and "x \<in> set (concat (map snd mine))" and "fit k x"
  shows "x \<in> set (candidates mine k)"
proof -
  obtain k' ls where g: "(k', ls) \<in> set mine" "x \<in> set ls" using assms(2) by auto
  with assms(1) have "fit k' x" by (auto simp: groups_ok_def list_all_iff)
  with assms(3) have "k' = k" by (simp add: fit_def)
  with g assms(1) show ?thesis by (auto simp: candidates_def groups_ok_def)
qed

lemma groups_ok_set:
  assumes "groups_ok mine" and "list_all (fit k) new"
  shows "groups_ok (dict_set k new mine)"
proof -
  have "(k', ls) \<in> set (dict_set k new mine) \<Longrightarrow> (k', ls) = (k, new) \<or> (k', ls) \<in> set mine" for k' ls
    by (induction mine) (auto split: if_splits)
  then have "\<forall>x \<in> set (dict_set k new mine). x = (k, new) \<or> x \<in> set mine" by auto
  with assms show ?thesis by (fastforce simp: groups_ok_def distinct_update)
qed

text \<open>No break is left exactly when the two sides hold the same legs, as a multiset of texts.\<close>

abbreviation sigs :: "(leg_key \<times> leg list) list \<Rightarrow> string multiset" where
  "sigs mine \<equiv> image_mset sig (mset (concat (map snd mine)))"

lemma unmatched_Nil: "unmatched mine = [] \<longleftrightarrow> sigs mine = {#}"
  by (auto simp: unmatched_def)

lemma field_breaks_Nil [simp]: "field_breaks label a b = [] \<longleftrightarrow> differing a b = []"
  by (simp add: field_breaks_def)

lemma sig_not_in_groups:
  assumes ok: "groups_ok mine" and l: "fit k l" and none: "\<And>x. x \<in> set (candidates mine k) \<Longrightarrow> sig x \<noteq> sig l"
  shows "sig l \<notin># sigs mine"
proof
  assume "sig l \<in># sigs mine"
  then have "sig l \<in> sig ` set (concat (map snd mine))" by simp
  then obtain x where x: "x \<in> set (concat (map snd mine))" "sig x = sig l" by (metis imageE)
  then obtain k' where "fit k' x" using ok by (fastforce simp: groups_ok_def list_all_iff)
  with fit_same_key[OF this l x(2)] have "x \<in> set (candidates mine k)" using in_groups_candidates[OF ok x(1)] by simp
  with none x(2) show False by blast
qed

lemma match_legs_Nil:
  assumes "groups_ok mine" and "list_all (\<lambda>(k, l). fit k l) ls" and "match_legs ls mine = (bs, rest)"
  shows "bs = [] \<and> unmatched rest = [] \<longleftrightarrow> mset (map (\<lambda>x. sig (snd x)) ls) = sigs mine"
  using assms
proof (induction ls arbitrary: mine bs rest)
  case Nil
  then show ?case by (auto simp: unmatched_Nil)
next
  case (Cons kl ls)
  obtain k l where kl: "kl = (k, l)" by fastforce
  with Cons.prems have l: "fit k l" and ls: "list_all (\<lambda>(k, l). fit k l) ls" by simp_all
  show ?case
  proof (cases "candidates mine k")
    case Nil
    with Cons.prems(3) kl have "bs \<noteq> []" by (auto split: prod.splits)
    moreover have "sig l \<notin># sigs mine" using sig_not_in_groups[OF Cons.prems(1) l] Nil by simp
    moreover have "sig l \<in># mset (map (\<lambda>x. sig (snd x)) (kl # ls))" using kl by simp
    ultimately show ?thesis by metis
  next
    case (Cons c cs)
    define best where "best = first_min (\<lambda>x. length (differing l x)) c cs"
    define left where "left = remove_first (\<lambda>x. py_eq (JObj x) (JObj best)) (c # cs)"
    obtain bs' rest' where m: "match_legs ls (dict_set k left mine) = (bs', rest')" by fastforce
    with Cons.prems(3) kl Cons have bs: "bs = field_breaks (\<lambda>f. leg_name k @ '' '' @ leg_label f) l best @ bs'" "rest = rest'"
      by (simp_all add: best_def[symmetric] left_def[symmetric] del: remove_first.simps)
    have cand: "x \<in> set (c # cs) \<Longrightarrow> fit k x" for x using candidates_fit[OF Cons.prems(1), of x k] Cons by simp
    have best: "best \<in> set (c # cs)" "x \<in> set (c # cs) \<Longrightarrow> length (differing l best) \<le> length (differing l x)" for x
      using first_min_spec[of "\<lambda>x. length (differing l x)" c cs] by (auto simp: best_def)
    show ?thesis
    proof (cases "differing l best = []")
      case False
      then have "bs \<noteq> []" using bs by simp
      moreover have "sig x \<noteq> sig l" if "x \<in> set (c # cs)" for x
        using False best(2)[OF that] fit_differing[OF l cand[OF that]] by auto
      then have "sig l \<notin># sigs mine" using sig_not_in_groups[OF Cons.prems(1) l] Cons by simp
      moreover have "sig l \<in># mset (map (\<lambda>x. sig (snd x)) (kl # ls))" using kl by simp
      ultimately show ?thesis by metis
    next
      case True
      then have sb: "sig l = sig best" using fit_differing[OF l cand[OF best(1)]] by simp
      obtain y where y: "py_eq (JObj y) (JObj best)" "mset (c # cs) = add_mset y (mset left)"
        using remove_first_mset[OF best(1), of "\<lambda>x. py_eq (JObj x) (JObj best)"] by (auto simp: left_def)
      then have "y \<in> set (c # cs)" by (metis in_multiset_in_set union_single_eq_member)
      then have sy: "sig y = sig l" using y(1) fit_py_eq[OF cand cand[OF best(1)]] sb by simp
      have ok: "groups_ok (dict_set k left mine)"
      proof (rule groups_ok_set[OF Cons.prems(1)])
        show "list_all (fit k) left" unfolding left_def list_all_iff using cand set_remove_first by fast
      qed
      have "sigs mine = add_mset (sig l) (sigs (dict_set k left mine))"
      proof -
        have "mset (concat (map snd (dict_set k left mine))) + mset (candidates mine k) = mset (concat (map snd mine)) + mset left"
          using mset_groups_set[of mine k left] Cons.prems(1) by (simp add: groups_ok_def)
        then have "add_mset y (mset (concat (map snd (dict_set k left mine)))) = mset (concat (map snd mine))"
          unfolding Cons y(2) by simp
        then have "mset (concat (map snd mine)) = add_mset y (mset (concat (map snd (dict_set k left mine))))" by (rule sym)
        with sy show ?thesis by simp
      qed
      then show ?thesis using Cons.IH[OF ok ls m] bs True kl by simp
    qed
  qed
qed

lemma grouped_ok:
  assumes "list_all (\<lambda>(k, l). fit k l) ls"
  shows "groups_ok (grouped ls) \<and> sigs (grouped ls) = mset (map (\<lambda>x. sig (snd x)) ls)"
  using assms
proof (induction ls rule: rev_induct)
  case Nil
  then show ?case by (simp add: grouped_def groups_ok_def)
next
  case (snoc kl ls)
  obtain k l where kl: "kl = (k, l)" by fastforce
  let ?new = "candidates (grouped ls) k @ [l]"
  have g: "grouped (ls @ [kl]) = dict_set k ?new (grouped ls)" by (simp add: grouped_def kl)
  from snoc kl have ok: "groups_ok (grouped ls)" and s: "sigs (grouped ls) = mset (map (\<lambda>x. sig (snd x)) ls)" and l: "fit k l" by simp_all
  have "list_all (fit k) ?new" using candidates_fit[OF ok] l by (auto simp: list_all_iff)
  moreover have "sigs (dict_set k ?new (grouped ls)) = add_mset (sig l) (sigs (grouped ls))"
    using mset_groups_set[of "grouped ls" k ?new] ok by (simp add: groups_ok_def)
  ultimately show ?case unfolding g using groups_ok_set[OF ok] s kl by simp
qed

lemma legs_breaks_Nil:
  assumes "list_all (\<lambda>(k, l). fit k l) sk" and "list_all (\<lambda>(k, l). fit k l) tk"
  shows "legs_breaks sk tk = [] \<longleftrightarrow> mset (map (\<lambda>x. sig (snd x)) sk) = mset (map (\<lambda>x. sig (snd x)) tk)"
  using match_legs_Nil[OF _ assms(1), of "grouped tk"] grouped_ok[OF assms(2)]
  by (auto simp: legs_breaks_def split: prod.splits)

subsection \<open>The parts of a record\<close>

lemma map_res_fst: "map_res (\<lambda>f. bind_res (g f) (\<lambda>j. Inr (f, j))) fs = Inr kvs \<Longrightarrow> map fst kvs = fs"
  by (induction fs arbitrary: kvs) (auto simp: bind_res_Inr_iff split: sum.splits)

lemma pick_keys: "pick obj names = Inr kvs \<Longrightarrow> map fst kvs = names"
  unfolding pick_def by (rule map_res_fst)

lemma field_items_keys: "field_items upper numeric adj names terms = Inr kvs \<Longrightarrow> map fst kvs = names"
  unfolding field_items_def by (rule map_res_fst)

text \<open>The columns a leg is paired by are text.\<close>

definition text_or_none :: "pyval \<Rightarrow> bool" where
  "text_or_none v \<longleftrightarrow> v = PNone \<or> (\<exists>s. v = PStr s)"

definition keyable :: "pydict \<Rightarrow> bool" where
  "keyable l \<longleftrightarrow> text_or_none (get l ''leg_type'') \<and> text_or_none (get l ''currency'') \<and> text_or_none (get l ''forecast_curve_id'')"

lemma normalise_text: "text_or_none v \<Longrightarrow> normalise v = Inr j \<Longrightarrow> j = JNull \<or> (\<exists>s. j = JStr s)"
  by (auto simp: text_or_none_def)

lemma pick_get: "pick obj names = Inr kvs \<Longrightarrow> f \<in> set names \<Longrightarrow> normalise (get obj f) = Inr (jget kvs f)"
proof (induction names arbitrary: kvs)
  case (Cons g names)
  then obtain j js where "normalise (get obj g) = Inr j" "pick obj names = Inr js" "kvs = (g, j) # js"
    by (auto simp: pick_def bind_res_Inr_iff split: sum.splits)
  with Cons show ?case by (auto simp: jget_def)
qed simp

lemma leg_fit:
  assumes "leg_v2 own cp l = Inr j" and "keyable l"
  shows "\<exists>k. j = JObj (members j) \<and> keyed j = Inr (k, members j) \<and> fit k (members j)"
proof -
  obtain items payer receiver ix opts flows where i: "pick l leg_fields_v2 = Inr items" and ix: "normalise (get l ''forecast_curve_id'') = Inr ix"
    and j: "j = JObj (items @ [(''payer'', JStr payer), (''receiver'', JStr receiver), (''index'', ix),
                           (''embedded_options'', JArr opts), (''custom_cashflows'', JArr flows)])" (is "_ = JObj ?m")
    using assms(1) by (auto simp: leg_v2_def bind_res_Inr_iff)
  have keys: "map fst ?m = leg_keys" using pick_keys[OF i] by (simp add: leg_keys_def)
  have s: "fst ` set items = set leg_fields_v2" unfolding pick_keys[OF i, symmetric] by simp
  have old: "jget ?m f = jget items f" if "f \<in> set leg_fields_v2" for f
    unfolding jget_append s using that by simp
  have "''index'' \<notin> set leg_fields_v2" by (simp add: leg_fields_v2_def)
  then have n: "jget ?m ''index'' = ix" unfolding jget_append s by (simp add: jget_def)
  have "jget ?m f = JNull \<or> (\<exists>s. jget ?m f = JStr s)" if "f \<in> {''leg_type'', ''currency''}" for f
    using that normalise_text[of "get l f"] pick_get[OF i, of f] old[of f] assms(2) by (auto simp: keyable_def leg_fields_v2_def)
  then have t: "jget ?m ''leg_type'' = JNull \<or> (\<exists>s. jget ?m ''leg_type'' = JStr s)" "jget ?m ''currency'' = JNull \<or> (\<exists>s. jget ?m ''currency'' = JStr s)"
    by simp_all
  have x: "ix = JNull \<or> (\<exists>s. ix = JStr s)" using normalise_text ix assms(2) by (auto simp: keyable_def)
  have h: "hashable_json (jget ?m ''currency'')" "hashable_json (jget ?m ''index'')"
    using t(2) x unfolding n by (auto simp: hashable_json_def)
  obtain u where "upper_or_empty (jget ?m ''leg_type'') = Inr u" using t(1) by (auto simp: upper_or_empty_def)
  with h obtain k where k: "key_of ?m = Inr k" unfolding key_of_def require_def by simp
  have "textual_items ?m" using leg_textual[OF assms(1)] j by simp
  with k keys have "fit k ?m" by (simp add: fit_def)
  with k show ?thesis unfolding j by (intro exI[of _ k]) (simp add: keyed_def members_def)
qed

text \<open>The fields of a product record are fixed by its product and, for a digital-asset option, by whether it has a style.\<close>

definition product_keys :: "string \<Rightarrow> bool \<Rightarrow> string list" where
  "product_keys n styled = [''product'', ''buyer'', ''seller''] @
     (if n \<in> {''FX_SPOT'', ''FX_NDF'', ''FX_FORWARD''} then fx_fields
      else if n \<in> {''FX_NDO'', ''FX_OPTION''} then fxo_fields
      else if n = ''NDO'' then crypto_option_fields @ (if styled then crypto_option_style_fields else [])
      else crypto_forward_fields)"

definition shaped :: "json \<Rightarrow> bool" where
  "shaped j \<longleftrightarrow> textual j \<and> (\<exists>p n. j = JObj p \<and> jget p ''product'' = JStr n \<and> map fst p = product_keys n (jget p ''style'' \<noteq> JNull))"

lemma product_keys_distinct: "distinct (product_keys n styled)"
proof -
  have "distinct ([''product'', ''buyer'', ''seller''] @ fs)"
    if "fs \<in> {fx_fields, fxo_fields, crypto_option_fields, crypto_option_fields @ crypto_option_style_fields, crypto_forward_fields}" for fs
    using that by (elim insertE; (simp only: empty_iff)?) code_simp+
  then show ?thesis by (simp add: product_keys_def)
qed

lemma product_keys_simps:
  "product_keys ''FX_SPOT'' b = [''product'', ''buyer'', ''seller''] @ fx_fields"
  "product_keys ''FX_NDF'' b = [''product'', ''buyer'', ''seller''] @ fx_fields"
  "product_keys ''FX_FORWARD'' b = [''product'', ''buyer'', ''seller''] @ fx_fields"
  "product_keys ''FX_NDO'' b = [''product'', ''buyer'', ''seller''] @ fxo_fields"
  "product_keys ''FX_OPTION'' b = [''product'', ''buyer'', ''seller''] @ fxo_fields"
  "product_keys ''NDO'' b = [''product'', ''buyer'', ''seller''] @ crypto_option_fields @ (if b then crypto_option_style_fields else [])"
  "product_keys ''NDF'' b = [''product'', ''buyer'', ''seller''] @ crypto_forward_fields"
  by (simp_all add: product_keys_def)

lemma shapedI:
  assumes "textual_items items" and "\<And>b. product_keys n b = [''product'', ''buyer'', ''seller''] @ map fst items"
  shows "shaped (JObj ([(''product'', JStr n), (''buyer'', JStr b), (''seller'', JStr s)] @ items))"
  unfolding shaped_def using assms by (auto simp: jget_def)

lemma fx_shaped:
  assumes "fx_record itype terms bs = Inr j"
  shows "shaped j"
proof -
  define n where "n = (if itype = ''FX_SPOT'' then ''FX_SPOT''
    else if str_upper (str_or (get terms ''settlement_type'')) = ''NON_DELIVERABLE'' then ''FX_NDF'' else ''FX_FORWARD'')"
  have n: "n \<in> {''FX_SPOT'', ''FX_NDF'', ''FX_FORWARD''}" by (simp add: n_def)
  obtain t items where i: "field_items fx_upper fx_numeric (\<lambda>_ v. v) fx_fields t = Inr items"
    and j: "j = JObj ([(''product'', JStr n), (''buyer'', JStr (fst bs)), (''seller'', JStr (snd bs))] @ items)"
    using assms unfolding fx_record_def Let_def bind_res_Inr_iff sum.inject n_def[symmetric] by (elim exE conjE) (rule that, assumption, rule sym, assumption)
  show ?thesis unfolding j
    by (rule shapedI[OF field_items_textual[OF i]]) (use n in \<open>auto simp: product_keys_simps field_items_keys[OF i]\<close>)
qed

lemma fxo_shaped:
  assumes "fxo_record style terms bs = Inr j"
  shows "shaped j"
proof -
  define n where "n = (if str_upper (str_or (get terms ''settlement_type'')) = ''NON_DELIVERABLE'' then ''FX_NDO'' else ''FX_OPTION'')"
  have n: "n \<in> {''FX_NDO'', ''FX_OPTION''}" by (simp add: n_def)
  obtain t items where i: "field_items fxo_upper fxo_numeric (fxo_adjust style) fxo_fields t = Inr items"
    and j: "j = JObj ([(''product'', JStr n), (''buyer'', JStr (fst bs)), (''seller'', JStr (snd bs))] @ items)"
    using assms unfolding fxo_record_def Let_def bind_res_Inr_iff sum.inject n_def[symmetric] by (elim exE conjE) (rule that, assumption, rule sym, assumption)
  show ?thesis unfolding j
    by (rule shapedI[OF field_items_textual[OF i]]) (use n in \<open>auto simp: product_keys_simps field_items_keys[OF i]\<close>)
qed

lemma field_items_get:
  "field_items upper numeric adj names terms = Inr kvs \<Longrightarrow> f \<in> set names \<Longrightarrow> field_value upper numeric adj f (get terms f) = Inr (jget kvs f)"
proof (induction names arbitrary: kvs)
  case (Cons g names)
  then obtain j js where "field_value upper numeric adj g (get terms g) = Inr j" "field_items upper numeric adj names terms = Inr js" "kvs = (g, j) # js"
    by (auto simp: field_items_def bind_res_Inr_iff split: sum.splits)
  with Cons show ?case by (auto simp: jget_def)
qed simp

lemma crypto_shaped:
  assumes r: "crypto_record itype style terms bs = Inr j" and s: "style \<noteq> None \<Longrightarrow> get terms ''style'' = PStr (the style)"
    and o: "itype = ''CRYPTO_OPTION'' \<longleftrightarrow> style \<noteq> None"
  shows "shaped j"
proof -
  define styled where "styled = (itype = ''CRYPTO_OPTION'' \<and> style \<noteq> Some ''EUROPEAN'')"
  define names where "names = (if itype = ''CRYPTO_OPTION'' then crypto_option_fields @ (if styled then crypto_option_style_fields else []) else crypto_forward_fields)"
  define n where "n = (if itype = ''CRYPTO_OPTION'' then ''NDO'' else ''NDF'')"
  obtain items v where items: "field_items crypto_upper crypto_numeric (\<lambda>_ v. v) names terms = Inr items" and v: "textual v"
    and j: "j = JObj (if styled then dict_set ''pay_at_hit'' v ([(''product'', JStr n), (''buyer'', JStr (fst bs)), (''seller'', JStr (snd bs))] @ items)
            else [(''product'', JStr n), (''buyer'', JStr (fst bs)), (''seller'', JStr (snd bs))] @ items)" (is "_ = JObj ?p")
    using r unfolding crypto_record_def bind_res_Inr_iff Let_def styled_def[symmetric] names_def[symmetric] n_def[symmetric] sum.inject
    by (elim exE conjE) (rule that[of _ "if absent (get terms ''pay_at_hit'') then (if style = Some ''TOUCH'' then JBool False else JNull) else JBool (truthy (get terms ''pay_at_hit''))"],
        assumption, simp, rule sym, assumption)
  have k: "map fst items = names" by (rule field_items_keys[OF items])
  have "textual j" using v field_items_textual[OF items] unfolding j by (auto intro: textual_dict_set)
  moreover have "map fst ?p = [''product'', ''buyer'', ''seller''] @ names"
    using k by (auto simp: names_def crypto_option_style_fields_def update_keys styled_def simp flip: list.set_map)
  moreover have "jget ?p ''product'' = JStr n" by (simp add: jget_def update_conv)
  moreover have "jget ?p ''style'' \<noteq> JNull \<longleftrightarrow> styled"
  proof (cases styled)
    case True
    then have "''style'' \<in> set names" by (simp add: names_def styled_def crypto_option_style_fields_def)
    from field_items_get[OF items this] s o True have "\<exists>t. jget items ''style'' = JStr t"
      by (auto simp: field_value_def crypto_numeric_def styled_def split: if_splits dest!: sym[of _ "jget items ''style''"])
    then show ?thesis using True by (auto simp: jget_def update_conv split: option.splits)
  next
    case False
    have "''style'' \<notin> set crypto_option_fields" "''style'' \<notin> set crypto_forward_fields"
      by (simp_all add: crypto_option_fields_def crypto_forward_fields_def crypto_common_def)
    with False have "''style'' \<notin> fst ` set items" using k by (auto simp: names_def simp flip: list.set_map)
    then show ?thesis using False by (simp add: jget_def map_of_eq_None_iff[THEN iffD2])
  qed
  ultimately show ?thesis using j by (auto simp: shaped_def product_keys_def names_def n_def)
qed

lemma product_shaped:
  assumes "(if itype \<in> set crypto_instruments then crypto_product itype terms own cp else fx_product itype terms own cp) = Inr j"
  shows "shaped j"
proof (cases "itype \<in> set crypto_instruments")
  case True
  with assms have c: "crypto_product itype terms own cp = Inr j" by simp
  have sty: "get t ''style'' = PStr s" if "style_defaults False terms = Inr (s, t)" for s t
    using that by (auto simp: style_defaults_def Let_def get_set get_setdefault split: if_splits)
  show ?thesis
  proof (cases "itype = ''CRYPTO_OPTION''")
    case True
    with c obtain s t bs where "style_defaults False terms = Inr (s, t)" "crypto_record itype (Some s) t bs = Inr j"
      by (auto simp: crypto_product_def crypto_body_def bind_res_Inr_iff Let_def)
    then show ?thesis using crypto_shaped[of itype "Some s" t bs j] sty True by simp
  next
    case False
    with c obtain bs where "crypto_record itype None terms bs = Inr j"
      by (auto simp: crypto_product_def crypto_body_def bind_res_Inr_iff Let_def)
    then show ?thesis using crypto_shaped[of itype None] False by simp
  qed
next
  case False
  with assms show ?thesis
    by (auto simp: fx_product_def fx_option_product_def bind_res_Inr_iff Let_def dest: fx_shaped fxo_shaped split: if_splits prod.splits)
qed

subsection \<open>The comparison of two records\<close>

lemma keyed_legs:
  assumes "\<And>j. j \<in> set js \<Longrightarrow> \<exists>k. j = JObj (members j) \<and> keyed j = Inr (k, members j) \<and> fit k (members j)"
  shows "\<exists>kl. map_res keyed js = Inr kl \<and> list_all (\<lambda>(k, l). fit k l) kl \<and> map (\<lambda>x. sig (snd x)) kl = map dumps js"
  using assms
proof (induction js)
  case (Cons j js)
  have "\<exists>kl. map_res keyed js = Inr kl \<and> list_all (\<lambda>(k, l). fit k l) kl \<and> map (\<lambda>x. sig (snd x)) kl = map dumps js"
    by (rule Cons.IH) (rule Cons.prems, simp)
  then obtain kl where kl: "map_res keyed js = Inr kl" "list_all (\<lambda>(k, l). fit k l) kl" "map (\<lambda>x. sig (snd x)) kl = map dumps js" by blast
  obtain k where k: "j = JObj (members j)" "keyed j = Inr (k, members j)" "fit k (members j)" using Cons.prems[of j] by auto
  have "map (\<lambda>x. sig (snd x)) ((k, members j) # kl) = map dumps (j # js)" using kl(3) arg_cong[OF k(1), of dumps] by simp
  with kl k show ?case by (intro exI[of _ "(k, members j) # kl"]) simp
qed simp

definition sans_uti :: "json \<Rightarrow> json" where
  "sans_uti j = JObj (filter (\<lambda>kv. fst kv \<noteq> ''uti'') (members j))"

definition record_of :: "json \<Rightarrow> json \<Rightarrow> (string \<times> json) list \<Rightarrow> string \<times> json \<Rightarrow> json" where
  "record_of u parties items part = JObj [(''schema'', JStr ''rijeka-trade''), (''schema_version'', JInt 2), (''uti'', u),
     (''parties'', parties), (''trade'', JObj items), part]"

definition is_tail :: "string \<times> json \<Rightarrow> (string \<times> json) list \<Rightarrow> (leg_key \<times> leg) list \<Rightarrow> bool" where
  "is_tail part P kl \<longleftrightarrow> (\<exists>js. part = (''legs'', JArr js) \<and> P = [] \<and> map_res keyed js = Inr kl \<and> list_all (\<lambda>(k, l). fit k l) kl
        \<and> map (\<lambda>x. sig (snd x)) kl = map dumps js \<and> sorted (map dumps js))
     \<or> (part = (''product'', JObj P) \<and> shaped (JObj P) \<and> kl = [])"

lemma record_cases:
  assumes "canonical_payload t legs a b 2 = Inr p" and "list_all keyable legs"
  obtains u ps items part P kl where "p = record_of u (JArr (map JStr ps)) items part" and "normalise (get t ''uti'') = Inr u"
    and "map fst items = trade_fields_v2" and "textual_items items" and "is_tail part P kl"
proof -
  obtain own cp where body: "body_v2 t legs own cp = Inr p"
    using assms(1) by (auto simp: canonical_payload_def canonical_v2_def bind_res_Inr_iff split: if_splits)
  have head: "\<exists>u items. normalise (get t ''uti'') = Inr u \<and> map fst items = trade_fields_v2 \<and> textual_items items
      \<and> JObj (hd @ [part]) = record_of u (JArr (map JStr (sort [own, cp]))) items part" if h: "head_v2 t own cp = Inr hd" for hd part
    using h pick_keys pick_textual by (auto simp: head_v2_def record_of_def bind_res_Inr_iff simp del: sort_key_simps)
  show thesis
  proof (cases "instrument t \<in> set crypto_instruments \<or> instrument t \<in> set fx_instruments")
    case True
    then obtain hd q terms where hd: "head_v2 t own cp = Inr hd" and p: "p = JObj (hd @ [(''product'', q)])"
      and q: "(if instrument t \<in> set crypto_instruments then crypto_product (instrument t) terms own cp else fx_product (instrument t) terms own cp) = Inr q"
      using body by (auto simp: body_v2_def bind_res_Inr_iff Let_def split del: if_split)
    have "shaped q" by (rule product_shaped[OF q])
    then obtain P where "q = JObj P" by (auto simp: shaped_def)
    with \<open>shaped q\<close> have "is_tail (''product'', q) P []" by (simp add: is_tail_def)
    with head[OF hd, of "(''product'', q)"] p that show thesis by metis
  next
    case False
    then obtain hd ls where hd: "head_v2 t own cp = Inr hd" and ls: "map_res (leg_v2 own cp) legs = Inr ls"
      and p: "p = JObj (hd @ [(''legs'', JArr (sort_key dumps ls))])"
      using body by (auto simp: body_v2_def bind_res_Inr_iff Let_def)
    have "\<exists>k. j = JObj (members j) \<and> keyed j = Inr (k, members j) \<and> fit k (members j)" if j: "j \<in> set (sort_key dumps ls)" for j
    proof -
      from j obtain i where "i < length ls" "j = ls ! i" by (auto simp: in_set_conv_nth)
      then have "leg_v2 own cp (legs ! i) = Inr j" "keyable (legs ! i)"
        using ls assms(2) by (auto simp: map_res_Inr_iff list_all2_conv_all_nth list_all_length)
      then show ?thesis by (rule leg_fit)
    qed
    from keyed_legs[OF this] obtain kl where kl: "map_res keyed (sort_key dumps ls) = Inr kl" "list_all (\<lambda>(k, l). fit k l) kl"
      "map (\<lambda>x. sig (snd x)) kl = map dumps (sort_key dumps ls)" by blast
    then have "is_tail (''legs'', JArr (sort_key dumps ls)) [] kl" unfolding is_tail_def by (intro disjI1 exI[of _ "sort_key dumps ls"]) simp
    with head[OF hd] p that show thesis by metis
  qed
qed

lemma dumps_arr_iff: "dumps (JArr xs) = dumps (JArr ys) \<longleftrightarrow> map dumps xs = map dumps ys"
proof
  assume "dumps (JArr xs) = dumps (JArr ys)"
  then have "map dump (map jsort xs) = map dump (map jsort ys)" by (simp add: dumps_jsort jsort_arr_map)
  then show "map dumps xs = map dumps ys" by (simp add: dumps_def[abs_def] comp_def)
qed (rule dumps_arr_cong)

lemma tails_agree:
  assumes t: "is_tail part P kl" and t': "is_tail part' P' kl'"
  shows "differing P P' = [] \<and> legs_breaks kl kl' = [] \<longleftrightarrow> fst part = fst part' \<and> dumps (snd part) = dumps (snd part')"
proof -
  have product: "jget P ''product'' \<noteq> JNull \<and> textual_items P" if "is_tail (''product'', JObj P) P kl" for P kl
    using that by (auto simp: is_tail_def shaped_def)
  have mixed: "differing P [] \<noteq> []" "differing [] P \<noteq> []" if "jget P ''product'' \<noteq> JNull" "textual_items P" for P
  proof -
    have "dumps (jget P ''product'') \<noteq> dumps (jget [] ''product'')" "dumps (jget [] ''product'') \<noteq> dumps (jget P ''product'')"
      using that(1) same_dumps_scalar[of JNull "jget P ''product''"] by (auto simp: jget_def hashable_json_def)
    moreover have "textual_items []" by simp
    ultimately show "differing P [] \<noteq> []" "differing [] P \<noteq> []" using that(2) by (simp_all only: differing_textual) blast+
  qed
  consider (legs) js js' where "part = (''legs'', JArr js)" "part' = (''legs'', JArr js')" | (prods) "part = (''product'', JObj P)" "part' = (''product'', JObj P')"
    | (lp) js where "part = (''legs'', JArr js)" "part' = (''product'', JObj P')" | (pl) js' where "part = (''product'', JObj P)" "part' = (''legs'', JArr js')"
    using t t' by (auto simp: is_tail_def)
  then show ?thesis
  proof cases
    case legs
    then have k: "P = []" "P' = []" "list_all (\<lambda>(k, l). fit k l) kl" "list_all (\<lambda>(k, l). fit k l) kl'"
      "map (\<lambda>x. sig (snd x)) kl = map dumps js" "map (\<lambda>x. sig (snd x)) kl' = map dumps js'" "sorted (map dumps js)" "sorted (map dumps js')"
      using t t' by (auto simp: is_tail_def)
    have "legs_breaks kl kl' = [] \<longleftrightarrow> map dumps js = map dumps js'"
      unfolding legs_breaks_Nil[OF k(3,4)] k(5,6) using k(7,8) by (metis properties_for_sort)
    with k(1,2) legs show ?thesis by (simp add: dumps_arr_iff differing_Nil)
  next
    case prods
    then have k: "kl = []" "kl' = []" "shaped (JObj P)" "shaped (JObj P')" using t t' by (auto simp: is_tail_def)
    obtain n n' where n: "jget P ''product'' = JStr n" "map fst P = product_keys n (jget P ''style'' \<noteq> JNull)" "textual_items P"
        "jget P' ''product'' = JStr n'" "map fst P' = product_keys n' (jget P' ''style'' \<noteq> JNull)" "textual_items P'"
      using k(3,4) by (auto simp: shaped_def)
    have d: "distinct (map fst P)" "distinct (map fst P')" unfolding n(2,5) by (rule product_keys_distinct)+
    have "differing P P' = [] \<longleftrightarrow> dumps (JObj P) = dumps (JObj P')"
    proof
      assume "differing P P' = []"
      then have e: "dumps (jget P f) = dumps (jget P' f)" for f using n(3,6) by (simp add: differing_textual)
      have "n = n'" using same_dumps_scalar[OF e[of "''product''"]] n(1,4) by (simp add: hashable_json_def)
      moreover have "jget P ''style'' = JNull \<longleftrightarrow> jget P' ''style'' = JNull"
        using e[of "''style''"] dumps_JNull by metis
      ultimately have "map fst P = map fst P'" using n(2,5) by simp
      then show "dumps (JObj P) = dumps (JObj P')" using e by (rule same_keys_dumps[OF _ d(1)])
    next
      assume "dumps (JObj P) = dumps (JObj P')"
      then show "differing P P' = []" using dumps_jget[OF _ d] n(3,6) by (simp add: differing_textual)
    qed
    with k(1,2) prods show ?thesis by (simp add: legs_breaks_Nil)
  next
    case lp
    with t have "P = []" by (auto simp: is_tail_def)
    with lp product[of P' kl'] t' mixed show ?thesis by (auto simp: is_tail_def)
  next
    case pl
    with t' have "P' = []" by (auto simp: is_tail_def)
    with pl product[of P kl] t mixed show ?thesis by (auto simp: is_tail_def)
  qed
qed

lemma tail_compare:
  assumes "is_tail part P kl"
  shows "members (jget [(''schema'', a), (''schema_version'', b), (''uti'', c), (''parties'', d), (''trade'', e), part] ''product'') = P"
    and "map_res keyed (elements (jget [(''schema'', a), (''schema_version'', b), (''uti'', c), (''parties'', d), (''trade'', e), part] ''legs'')) = Inr kl"
  using assms by (auto simp: is_tail_def jget_def members_def elements_def)

lemma sans_uti_record: "sans_uti (record_of u ps items part) =
    JObj [(''schema'', JStr ''rijeka-trade''), (''schema_version'', JInt 2), (''parties'', ps), (''trade'', JObj items), part]"
  if "is_tail part P kl"
  using that by (auto simp: sans_uti_def record_of_def members_def is_tail_def)

lemma bytes_agree:
  assumes t: "is_tail part P kl" and t': "is_tail part' P' kl'"
  shows "dumps (JObj [(''schema'', a), (''schema_version'', b), (''parties'', ps), (''trade'', tr), part])
       = dumps (JObj [(''schema'', a), (''schema_version'', b), (''parties'', ps'), (''trade'', tr'), part'])
     \<longleftrightarrow> dumps ps = dumps ps' \<and> dumps tr = dumps tr' \<and> fst part = fst part' \<and> dumps (snd part) = dumps (snd part')"
    (is "dumps (JObj ?r) = dumps (JObj ?r') \<longleftrightarrow> ?rhs")
proof
  have keys: "fst part \<in> {''legs'', ''product''}" "fst part' \<in> {''legs'', ''product''}" "snd part \<noteq> JNull" "snd part' \<noteq> JNull"
    using t t' by (auto simp: is_tail_def)
  then have d: "distinct (map fst ?r)" "distinct (map fst ?r')" by auto
  assume "dumps (JObj ?r) = dumps (JObj ?r')"
  from dumps_jget[OF this d] have e: "dumps (jget ?r f) = dumps (jget ?r' f)" for f .
  have g: "jget ?r (fst part) = snd part" "jget ?r' (fst part') = snd part'" using keys(1,2) by (cases part; cases part'; auto simp: jget_def)+
  have f: "fst part = fst part'"
  proof (rule ccontr)
    assume n: "fst part \<noteq> fst part'"
    then have "jget ?r' (fst part) = JNull" using keys(1,2) by (intro jget_absent) auto
    with e[of "fst part"] g(1) keys(3) show False by (simp add: dumps_JNull)
  qed
  with e[of "fst part"] g have "dumps (snd part) = dumps (snd part')" by simp
  with f e[of "''parties''"] e[of "''trade''"] show ?rhs by (simp add: jget_def)
next
  assume ?rhs
  then show "dumps (JObj ?r) = dumps (JObj ?r')" by (intro dumps_obj_cong) (simp add: case_prod_unfold)
qed

lemma compare_exact:
  assumes r: "canonical_payload t legs a b 2 = Inr p" and r': "canonical_payload t' legs' a' b' 2 = Inr p'"
    and k: "list_all keyable legs" and k': "list_all keyable legs'"
  shows "\<exists>bs. compare p p' = Inr bs \<and> (bs = [] \<longleftrightarrow> canonical_bytes (sans_uti p) = canonical_bytes (sans_uti p'))"
proof -
  obtain u ps items part P kl where p: "p = record_of u (JArr (map JStr ps)) items part" and i: "map fst items = trade_fields_v2" "textual_items items"
    and T: "is_tail part P kl" using record_cases[OF r k] by metis
  obtain u' ps' items' part' P' kl' where p': "p' = record_of u' (JArr (map JStr ps')) items' part'" and i': "map fst items' = trade_fields_v2" "textual_items items'"
    and T': "is_tail part' P' kl'" using record_cases[OF r' k'] by metis
  let ?ps = "JArr (map JStr ps)" and ?ps' = "JArr (map JStr ps')"
  have m: "members (record_of u ps i part) = [(''schema'', JStr ''rijeka-trade''), (''schema_version'', JInt 2), (''uti'', u),
     (''parties'', ps), (''trade'', JObj i), part]" for u ps i part by (simp add: record_of_def members_def)
  have c: "compare p p' = Inr (field_breaks (\<lambda>f. f) items items' @ parties_breaks ?ps ?ps' @ field_breaks product_label P P' @ legs_breaks kl kl')"
    unfolding compare_def Let_def p p' m tail_compare(1)[OF T] tail_compare(1)[OF T'] tail_compare(2)[OF T] tail_compare(2)[OF T']
    by (simp add: jget_def members_def)
  have "distinct trade_fields_v2" by code_simp
  then have "differing items items' = [] \<longleftrightarrow> dumps (JObj items) = dumps (JObj items')"
    using i i' by (intro fields_agree) simp_all
  moreover have "parties_breaks ?ps ?ps' = [] \<longleftrightarrow> dumps ?ps = dumps ?ps'"
    by (simp add: parties_breaks_def py_eq_textual)
  moreover note tails_agree[OF T T']
  moreover have "canonical_bytes (sans_uti p) = canonical_bytes (sans_uti p') \<longleftrightarrow>
      dumps ?ps = dumps ?ps' \<and> dumps (JObj items) = dumps (JObj items') \<and> fst part = fst part' \<and> dumps (snd part) = dumps (snd part')"
    unfolding p p' sans_uti_record[OF T] sans_uti_record[OF T'] canonical_bytes_def by (rule bytes_agree[OF T T'])
  ultimately show ?thesis unfolding c by auto
qed

text \<open>C9: No breaks means the same record. On the version-2 records of any two bookings the comparison returns a list of breaks, never an
  error, and the list is empty exactly when the two records have the same canonical bytes but for their UTI: whatever the order the legs were booked in
  and however many legs share a type, a currency and an index. So a MATCH under one UTI is the hash both parties sign.\<close>

theorem agreement:
  assumes r: "canonical_payload t legs a b 2 = Inr p" and r': "canonical_payload t' legs' a' b' 2 = Inr p'"
    and k: "list_all keyable legs" and k': "list_all keyable legs'"
  shows "\<exists>bs. compare p p' = Inr bs \<and> (bs = [] \<longleftrightarrow> canonical_bytes (sans_uti p) = canonical_bytes (sans_uti p'))"
  by (rule compare_exact[OF r r' k k'])

definition compare_demo :: "json \<Rightarrow> json \<Rightarrow> bool" where
  "compare_demo p p' \<longleftrightarrow> canonical_payload (demo_trade ''A-1'') demo_legs_a (demo_party ''LEIA'') (demo_party ''LEIB'') 2 = Inr p
     \<and> canonical_payload (demo_trade ''B-77'') demo_legs_b (demo_party ''LEIB'') (demo_party ''LEIA'') 2 = Inr p'"

lemma demo_keyable: "list_all keyable demo_legs_a" "list_all keyable demo_legs_b"
  by (simp_all add: keyable_def text_or_none_def demo_leg_def get_def)

lemma demo_records: "\<exists>p p'. compare_demo p p'"
proof -
  obtain p where p: "canonical_payload (demo_trade ''A-1'') demo_legs_a (demo_party ''LEIA'') (demo_party ''LEIB'') 2 = Inr p"
    using demo_recorded by blast
  from mirror_same_bytes[OF demo_mirrored refl refl this] p show ?thesis unfolding compare_demo_def by blast
qed

theorem agreement_witness:
  "\<exists>p p' bs. compare_demo p p' \<and> compare p p' = Inr bs \<and> (bs = [] \<longleftrightarrow> canonical_bytes (sans_uti p) = canonical_bytes (sans_uti p'))"
proof -
  obtain p p' where "compare_demo p p'" using demo_records by blast
  then show ?thesis using agreement[of _ demo_legs_a _ _ p _ demo_legs_b _ _ p'] demo_keyable unfolding compare_demo_def by blast
qed

subsection \<open>Under one UTI\<close>

lemma uti_not_read:
  "instrument (dict_set ''uti'' v t) = instrument t" "terms_of (dict_set ''uti'' v t) = terms_of t"
  "pick (dict_set ''uti'' v t) trade_fields_v2 = pick t trade_fields_v2" "get (dict_set ''uti'' v t) ''uti'' = v"
  by (simp_all add: instrument_def terms_of_def get_set) (rule pick_cong, auto simp: trade_fields_v2_def get_set)

lemma relabelled:
  assumes r: "canonical_payload t legs a b 2 = Inr p" and v: "normalise v = Inr j"
  shows "\<exists>p'. canonical_payload (dict_set ''uti'' v t) legs a b 2 = Inr p' \<and> sans_uti p' = sans_uti p \<and> jget (members p') ''uti'' = j"
proof -
  obtain own cp where l: "lei_of a = Inr own" "lei_of b = Inr cp" "own \<noteq> cp" and body: "body_v2 t legs own cp = Inr p"
    using r by (auto simp: canonical_payload_def canonical_v2_def bind_res_Inr_iff split: if_splits)
  have h: "\<exists>rest u. hd = [(''schema'', JStr ''rijeka-trade''), (''schema_version'', JInt 2), (''uti'', u)] @ rest \<and> (\<forall>kv \<in> set rest. fst kv \<noteq> ''uti'')
      \<and> head_v2 (dict_set ''uti'' v t) own cp = Inr ([(''schema'', JStr ''rijeka-trade''), (''schema_version'', JInt 2), (''uti'', j)] @ rest)"
    if "head_v2 t own cp = Inr hd" for hd
    using that v by (auto simp: head_v2_def uti_not_read bind_res_Inr_iff)
  have fin: "\<exists>p'. Inr (JObj (hd' @ [part])) = Inr p' \<and> sans_uti p' = sans_uti (JObj (hd @ [part])) \<and> jget (members p') ''uti'' = j"
    if "hd = [(''schema'', JStr ''rijeka-trade''), (''schema_version'', JInt 2), (''uti'', u)] @ rest"
      "hd' = [(''schema'', JStr ''rijeka-trade''), (''schema_version'', JInt 2), (''uti'', j)] @ rest" for hd hd' rest u part
    using that by (simp add: sans_uti_def members_def jget_def)
  have "\<exists>p'. body_v2 (dict_set ''uti'' v t) legs own cp = Inr p' \<and> sans_uti p' = sans_uti p \<and> jget (members p') ''uti'' = j"
  proof (cases "instrument t \<in> set crypto_instruments \<or> instrument t \<in> set fx_instruments")
    case True
    then obtain hd q terms where hd: "head_v2 t own cp = Inr hd" and p: "p = JObj (hd @ [(''product'', q)])" and te: "terms_of t = Inr terms"
      and q: "(if instrument t \<in> set crypto_instruments then crypto_product (instrument t) terms own cp else fx_product (instrument t) terms own cp) = Inr q"
      using body by (auto simp: body_v2_def bind_res_Inr_iff Let_def split del: if_split)
    obtain rest u where r1: "hd = [(''schema'', JStr ''rijeka-trade''), (''schema_version'', JInt 2), (''uti'', u)] @ rest"
      "head_v2 (dict_set ''uti'' v t) own cp = Inr ([(''schema'', JStr ''rijeka-trade''), (''schema_version'', JInt 2), (''uti'', j)] @ rest)"
      using h[OF hd] by (elim exE conjE) (rule that)
    have "body_v2 (dict_set ''uti'' v t) legs own cp
        = Inr (JObj (([(''schema'', JStr ''rijeka-trade''), (''schema_version'', JInt 2), (''uti'', j)] @ rest) @ [(''product'', q)]))"
      unfolding body_v2_def Let_def uti_not_read r1(2) te bind_res_simps q if_P[OF True] by (rule refl)
    then show ?thesis unfolding p by (simp only:) (rule fin[OF r1(1) refl])
  next
    case False
    then obtain hd ls where hd: "head_v2 t own cp = Inr hd" and ls: "map_res (leg_v2 own cp) legs = Inr ls"
      and p: "p = JObj (hd @ [(''legs'', JArr (sort_key dumps ls))])"
      using body by (auto simp: body_v2_def bind_res_Inr_iff Let_def)
    obtain rest u where r1: "hd = [(''schema'', JStr ''rijeka-trade''), (''schema_version'', JInt 2), (''uti'', u)] @ rest"
      "head_v2 (dict_set ''uti'' v t) own cp = Inr ([(''schema'', JStr ''rijeka-trade''), (''schema_version'', JInt 2), (''uti'', j)] @ rest)"
      using h[OF hd] by (elim exE conjE) (rule that)
    have "body_v2 (dict_set ''uti'' v t) legs own cp
        = Inr (JObj (([(''schema'', JStr ''rijeka-trade''), (''schema_version'', JInt 2), (''uti'', j)] @ rest) @ [(''legs'', JArr (sort_key dumps ls))]))"
      unfolding body_v2_def Let_def uti_not_read r1(2) ls bind_res_simps if_not_P[OF False] by (rule refl)
    then show ?thesis unfolding p by (simp only:) (rule fin[OF r1(1) refl])
  qed
  with l show ?thesis by (simp add: canonical_payload_def canonical_v2_def)
qed

lemma same_uti_same_bytes:
  assumes r: "canonical_payload t legs a b 2 = Inr p" and r': "canonical_payload t' legs' a' b' 2 = Inr p'"
    and k: "list_all keyable legs" and k': "list_all keyable legs'"
    and s: "canonical_bytes (sans_uti p) = canonical_bytes (sans_uti p')" and u: "jget (members p) ''uti'' = jget (members p') ''uti''"
  shows "canonical_bytes p = canonical_bytes p'"
proof -
  obtain u1 ps items part P kl where p: "p = record_of u1 (JArr (map JStr ps)) items part" and T: "is_tail part P kl" using record_cases[OF r k] by metis
  obtain u2 ps' items' part' P' kl' where p': "p' = record_of u2 (JArr (map JStr ps')) items' part'" and T': "is_tail part' P' kl'"
    using record_cases[OF r' k'] by metis
  have "u1 = u2" using u unfolding p p' by (simp add: record_of_def members_def jget_def)
  moreover from s have "dumps (JArr (map JStr ps)) = dumps (JArr (map JStr ps')) \<and> dumps (JObj items) = dumps (JObj items')
      \<and> fst part = fst part' \<and> dumps (snd part) = dumps (snd part')"
    unfolding p p' sans_uti_record[OF T] sans_uti_record[OF T'] canonical_bytes_def by (rule bytes_agree[OF T T', THEN iffD1])
  ultimately show ?thesis unfolding p p' canonical_bytes_def record_of_def by (intro dumps_obj_cong) (simp add: case_prod_unfold)
qed

end
