(* ===== verification/Mirroring.thy ===== *)
theory Mirroring
  imports Comparing
begin

section \<open>The counterparty's side of a booking\<close>

text \<open>
  \<open>_mirror_terms\<close> and \<open>_mirror_leg\<close> of \<open>api/routes/trade_cards.py\<close>: what is booked for the counterparty who countersigns, from the booker's
  rows. \<open>mirror_signs_same_bytes\<close> is the reason it may be confirmed at once: the mirrored booking has the record both parties signed.
\<close>

subsection \<open>Terms\<close>

definition flips :: "(string \<times> string) list" where
  "flips = [(''PAY'', ''RECEIVE''), (''RECEIVE'', ''PAY''), (''BUY'', ''SELL''), (''SELL'', ''BUY''), (''LONG'', ''SHORT''), (''SHORT'', ''LONG'')]"

definition flip_or :: "string \<Rightarrow> pyval \<Rightarrow> pyval" where
  "flip_or s v = (case dict_get flips (str_upper s) of None \<Rightarrow> v | Some r \<Rightarrow> PStr r)"

definition is_text :: "pyval \<Rightarrow> bool" where
  "is_text v = (case v of PStr _ \<Rightarrow> True | _ \<Rightarrow> False)"

fun mirror_terms :: "pyval \<Rightarrow> pyval" and mirror_list :: "pyval list \<Rightarrow> pyval list" and mirror_items :: "pydict \<Rightarrow> pydict" where
  "mirror_terms (PDict d) = PDict (mirror_items d)"
| "mirror_terms (PList xs) = PList (mirror_list xs)"
| "mirror_terms PNone = PNone"
| "mirror_terms (PBool b) = PBool b"
| "mirror_terms (PNum d) = PNum d"
| "mirror_terms (PStr s) = PStr s"
| "mirror_terms (PDate d) = PDate d"
| "mirror_terms (PStamp s) = PStamp s"
| "mirror_terms (POther s) = POther s"
| "mirror_list [] = []"
| "mirror_list (x # xs) = mirror_terms x # mirror_list xs"
| "mirror_items [] = []"
| "mirror_items (kv # kvs) =
     (fst kv, if has_substring ''direction'' (str_lower (fst kv)) \<and> is_text (snd kv) then flip_or (py_str (snd kv)) (snd kv)
              else mirror_terms (snd kv)) # mirror_items kvs"

subsection \<open>Legs\<close>

text \<open>The fields of \<open>LegInput\<close>, which are all columns of a leg, and the defaults that replace a column that is NULL.\<close>

definition leg_inputs :: "string list" where
  "leg_inputs = [''leg_ref'', ''leg_seq'', ''leg_type'', ''direction'', ''currency'', ''notional'', ''notional_type'', ''notional_schedule'',
     ''effective_date'', ''maturity_date'', ''first_period_start'', ''last_period_end'', ''day_count'', ''payment_frequency'', ''reset_frequency'',
     ''bdc'', ''stub_type'', ''payment_calendar'', ''payment_lag'', ''fixed_rate'', ''fixed_rate_type'', ''fixed_rate_schedule'', ''spread'',
     ''spread_type'', ''spread_schedule'', ''forecast_curve_id'', ''cap_rate'', ''floor_rate'', ''embedded_options'', ''leverage'',
     ''ois_compounding'', ''discount_curve_id'', ''terms'']"

definition input_defaults :: pydict where
  "input_defaults = [(''leg_seq'', PNum (Dec False 0 0)), (''notional_type'', PStr ''BULLET''), (''payment_lag'', PNum (Dec False 0 0)),
     (''fixed_rate_type'', PStr ''FLAT''), (''spread_type'', PStr ''FLAT''), (''leverage'', PNum (Dec False 10 (- 1))), (''terms'', PDict [])]"

definition mirror_option :: "pyval \<Rightarrow> pyval http" where
  "mirror_option v = (case v of
       PDict o1 \<Rightarrow> Inr (PDict (dict_set ''direction'' (flip_or (py_str (get o1 ''direction'')) (get o1 ''direction'')) o1))
     | _ \<Rightarrow> Inl Crash)"

definition mirror_options :: "pyval \<Rightarrow> pyval http" where
  "mirror_options v =
     (if \<not> truthy v then Inr (PList []) else case v of PList xs \<Rightarrow> bind_res (map_res mirror_option xs) (\<lambda>ys. Inr (PList ys)) | _ \<Rightarrow> Inl Crash)"

text \<open>\<open>-(c.get("amount") or 0)\<close>\<close>

definition negated :: "pyval \<Rightarrow> pyval http" where
  "negated v =
     (if \<not> truthy v then Inr (PNum (Dec False 0 0))
      else case v of PNum (Dec n c e) \<Rightarrow> Inr (PNum (Dec (\<not> n) c e)) | PNum (DInf n) \<Rightarrow> Inr (PNum (DInf (\<not> n))) | PNum DNaN \<Rightarrow> Inr v
         | PBool _ \<Rightarrow> Inr (PNum (Dec True 1 0)) | _ \<Rightarrow> Inl Crash)"

definition mirror_row :: "pyval \<Rightarrow> pyval http" where
  "mirror_row v = (case v of PDict c \<Rightarrow> bind_res (negated (get c ''amount'')) (\<lambda>x. Inr (PDict (dict_set ''amount'' x c))) | _ \<Rightarrow> Inl Crash)"

definition mirror_leg_terms :: "pyval \<Rightarrow> pyval http" where
  "mirror_leg_terms v =
     (if \<not> truthy v then Inr (PDict [])
      else case v of
          PDict d \<Rightarrow>
            if \<not> truthy (get d ''custom_cashflows'') then Inr v
            else (case get d ''custom_cashflows'' of
                    PList rows \<Rightarrow> bind_res (map_res mirror_row rows) (\<lambda>rs. Inr (PDict (dict_set ''custom_cashflows'' (PList rs) d)))
                  | _ \<Rightarrow> Inl Crash)
        | _ \<Rightarrow> Inl Crash)"

definition input_value :: "pydict \<Rightarrow> pydict \<Rightarrow> string \<Rightarrow> pyval" where
  "input_value changed l f =
     (let v = (case dict_get changed f of Some x \<Rightarrow> x | None \<Rightarrow> get l f)
      in if v = PNone \<and> f \<noteq> ''embedded_options'' then get input_defaults f else v)"

definition mirror_leg :: "pydict \<Rightarrow> pydict http" where
  "mirror_leg l =
     bind_res (case dict_get flips (str_upper (py_str (get l ''direction''))) of None \<Rightarrow> Inl Crash | Some d \<Rightarrow> Inr d) (\<lambda>d.
     bind_res (mirror_options (get l ''embedded_options'')) (\<lambda>opts.
     bind_res (mirror_leg_terms (get l ''terms'')) (\<lambda>terms.
     bind_res (require (get l ''leg_ref'' \<noteq> PNone \<and> get l ''leg_type'' \<noteq> PNone \<and> get l ''currency'' \<noteq> PNone) Crash) (\<lambda>_.
       Inr (map (\<lambda>f. (f, input_value [(''direction'', PStr d), (''embedded_options'', opts), (''terms'', terms)] l f)) leg_inputs)))))"

subsection \<open>What a mirrored leg keeps\<close>

text \<open>A leg that can be mirrored: text directions, options and cashflow rows that are dictionaries, amounts that are numbers other than
  zero, and no NULL where the request model has a default.\<close>

definition side_text :: "pyval \<Rightarrow> string list \<Rightarrow> bool" where
  "side_text v names \<longleftrightarrow> (\<exists>s. v = PStr s \<and> str_upper s \<in> set names)"

definition mirrorable_row :: "pyval \<Rightarrow> bool" where
  "mirrorable_row v \<longleftrightarrow> (\<exists>c n m e. v = PDict c \<and> get c ''amount'' = PNum (Dec n m e) \<and> m \<noteq> 0)"

definition mirrorable_terms :: "pyval \<Rightarrow> bool" where
  "mirrorable_terms v \<longleftrightarrow> \<not> truthy v \<or> (\<exists>d. v = PDict d \<and> (\<not> truthy (get d ''custom_cashflows'')
     \<or> (\<exists>rows. get d ''custom_cashflows'' = PList rows \<and> list_all mirrorable_row rows)))"

definition mirrorable_options :: "pyval \<Rightarrow> bool" where
  "mirrorable_options v \<longleftrightarrow> \<not> truthy v
     \<or> (\<exists>xs. v = PList xs \<and> list_all (\<lambda>x. \<exists>d. x = PDict d \<and> side_text (get d ''direction'') [''BUY'', ''SELL'', ''LONG'', ''SHORT'']) xs)"

definition mirrorable :: "pydict \<Rightarrow> bool" where
  "mirrorable l \<longleftrightarrow> side_text (get l ''direction'') [''PAY'', ''RECEIVE''] \<and> mirrorable_options (get l ''embedded_options'')
     \<and> mirrorable_terms (get l ''terms'')
     \<and> (\<forall>f \<in> {''leg_ref'', ''leg_type'', ''currency'', ''notional_type'', ''payment_lag'', ''fixed_rate_type'', ''spread_type'', ''leverage''}. get l f \<noteq> PNone)"

lemma flip_opposite:
  "side_text v [''PAY'', ''RECEIVE''] \<Longrightarrow> \<exists>r. dict_get flips (str_upper (py_str v)) = Some r \<and> opposite [''PAY''] [''RECEIVE''] v (PStr r)"
  "side_text v [''BUY'', ''SELL'', ''LONG'', ''SHORT''] \<Longrightarrow>
     \<exists>r. dict_get flips (str_upper (py_str v)) = Some r \<and> opposite [''BUY'', ''LONG''] [''SELL'', ''SHORT''] v (PStr r)"
proof -
  have u: "str_upper ''PAY'' = ''PAY''" "str_upper ''RECEIVE'' = ''RECEIVE''" "str_upper ''BUY'' = ''BUY''" "str_upper ''SELL'' = ''SELL''"
    "str_upper ''LONG'' = ''LONG''" "str_upper ''SHORT'' = ''SHORT''" by code_simp+
  have t: "str_upper s \<noteq> [] \<Longrightarrow> str_upper (str_or (PStr s)) = str_upper s" for s by (auto simp: str_or_def truthy_def)
  have e: "opposite pays gets (PStr s) (PStr r) \<longleftrightarrow> (str_upper s \<in> set pays \<and> str_upper r \<in> set gets) \<or> (str_upper s \<in> set gets \<and> str_upper r \<in> set pays)"
    if "str_upper s \<noteq> []" "str_upper r \<noteq> []" for pays gets s r using that by (simp add: opposite_def t Let_def)
  show "side_text v [''PAY'', ''RECEIVE''] \<Longrightarrow> \<exists>r. dict_get flips (str_upper (py_str v)) = Some r \<and> opposite [''PAY''] [''RECEIVE''] v (PStr r)"
    by (auto simp: side_text_def flips_def e u)
  show "side_text v [''BUY'', ''SELL'', ''LONG'', ''SHORT''] \<Longrightarrow>
     \<exists>r. dict_get flips (str_upper (py_str v)) = Some r \<and> opposite [''BUY'', ''LONG''] [''SELL'', ''SHORT''] v (PStr r)"
    by (auto simp: side_text_def flips_def e u)
qed

lemma delete_direction: "AList.delete ''direction'' (dict_set ''direction'' v d) = AList.delete ''direction'' d"
  by (induction d) auto

lemma mirrors_map: "list_all2 R xs ys \<Longrightarrow> mirrors R xs ys"
  by (auto simp: mirrors_def)

lemma mirror_options_mirror:
  assumes "mirrorable_options v"
  shows "\<exists>v'. mirror_options v = Inr v' \<and> ((\<not> truthy v \<and> \<not> truthy v') \<or> (\<exists>xs ys. v = PList xs \<and> v' = PList ys \<and> mirrors mirrored_option xs ys))"
proof (cases "truthy v")
  case True
  then obtain xs where v: "v = PList xs" and xs: "list_all (\<lambda>x. \<exists>d. x = PDict d \<and> side_text (get d ''direction'') [''BUY'', ''SELL'', ''LONG'', ''SHORT'']) xs"
    using assms by (auto simp: mirrorable_options_def)
  from xs have "\<exists>ys. map_res mirror_option xs = Inr ys \<and> list_all2 mirrored_option xs ys"
  proof (induction xs)
    case (Cons x xs)
    then obtain d ys where x: "x = PDict d" "side_text (get d ''direction'') [''BUY'', ''SELL'', ''LONG'', ''SHORT'']"
      and ys: "map_res mirror_option xs = Inr ys" "list_all2 mirrored_option xs ys" by auto
    obtain r where r: "dict_get flips (str_upper (py_str (get d ''direction''))) = Some r"
      "opposite [''BUY'', ''LONG''] [''SELL'', ''SHORT''] (get d ''direction'') (PStr r)" using flip_opposite(2)[OF x(2)] by blast
    then have "mirrored_option x (PDict (dict_set ''direction'' (PStr r) d))" by (simp add: mirrored_option_def x delete_direction get_set)
    moreover have "mirror_option x = Inr (PDict (dict_set ''direction'' (PStr r) d))" using r x(1) by (simp add: mirror_option_def flip_or_def)
    ultimately show ?case using ys by simp
  qed simp
  with v True show ?thesis using mirrors_map by (fastforce simp: mirror_options_def)
qed (simp add: mirror_options_def truthy_def)

lemma mirror_rows:
  assumes "list_all mirrorable_row rows"
  shows "\<exists>rs. map_res mirror_row rows = Inr rs \<and> list_all2 mirrored_row (map row_dict rows) (map row_dict rs)"
  using assms
proof (induction rows)
  case (Cons x rows)
  then obtain c n m e rs where x: "x = PDict c" "get c ''amount'' = PNum (Dec n m e)" "m \<noteq> 0"
    and rs: "map_res mirror_row rows = Inr rs" "list_all2 mirrored_row (map row_dict rows) (map row_dict rs)" by (auto simp: mirrorable_row_def)
  have "mirror_row x = Inr (PDict (dict_set ''amount'' (PNum (Dec (\<not> n) m e)) c))"
    using x by (simp add: mirror_row_def negated_def truthy_def)
  moreover have "mirrored_row c (dict_set ''amount'' (PNum (Dec (\<not> n) m e)) c)"
    using x by (auto simp: mirrored_row_def row_fields_def get_set row_amount_def truthy_def to_decimal_def)
  moreover have "row_dict (PDict d) = d" for d by (simp add: row_dict_def)
  ultimately show ?case using rs x(1) by simp
qed simp

lemma mirror_terms_rows:
  assumes "mirrorable_terms (get l ''terms'')" and "get l ''terms'' = v"
  shows "\<exists>v'. mirror_leg_terms v = Inr v' \<and> v' \<noteq> PNone \<and> (\<forall>l'. get l' ''terms'' = v' \<longrightarrow>
    (\<exists>x x' rs rs'. custom_rows l = Inr x \<and> custom_rows l' = Inr x' \<and> rows_of x = Inr rs \<and> rows_of x' = Inr rs' \<and> list_all2 mirrored_row rs rs'))"
proof (cases "truthy v")
  case False
  with assms(2) show ?thesis by (auto simp: mirror_leg_terms_def custom_rows_def rows_of_def truthy_def)
next
  case True
  with assms obtain d where v: "v = PDict d" "d \<noteq> []" by (auto simp: mirrorable_terms_def truthy_def)
  show ?thesis
  proof (cases "truthy (get d ''custom_cashflows'')")
    case False
    then show ?thesis using v assms(2) True by (auto simp: mirror_leg_terms_def custom_rows_def rows_of_def)
  next
    case True2: True
    then obtain rows where rows: "get d ''custom_cashflows'' = PList rows" "list_all mirrorable_row rows"
      using assms v True by (auto simp: mirrorable_terms_def)
    obtain rs where rs: "map_res mirror_row rows = Inr rs" "list_all2 mirrored_row (map row_dict rows) (map row_dict rs)"
      using mirror_rows[OF rows(2)] by blast
    have n: "rows \<noteq> []" using True2 rows(1) by (simp add: truthy_def)
    then have "rs \<noteq> []" using map_res_length[OF rs(1)] by auto
    moreover have "dict_set ''custom_cashflows'' (PList rs) d \<noteq> []" by (cases d) auto
    ultimately show ?thesis using v rows rs True True2 n assms(2)
      by (auto simp: mirror_leg_terms_def custom_rows_def rows_of_def get_set truthy_def)
  qed
qed

lemma get_tabulate: "get (map (\<lambda>f. (f, g f)) fs) k = (if k \<in> set fs then g k else PNone)"
  by (induction fs) (auto simp: get_def)

lemma mirror_leg_mirrors:
  assumes m: "mirrorable l"
  shows "\<exists>l'. mirror_leg l = Inr l' \<and> mirrored_leg l l'"
proof -
  obtain d where d: "dict_get flips (str_upper (py_str (get l ''direction''))) = Some d" "opposite [''PAY''] [''RECEIVE''] (get l ''direction'') (PStr d)"
    using m flip_opposite(1) by (auto simp: mirrorable_def)
  obtain opts where o: "mirror_options (get l ''embedded_options'') = Inr opts"
    "(\<not> truthy (get l ''embedded_options'') \<and> \<not> truthy opts) \<or> (\<exists>xs ys. get l ''embedded_options'' = PList xs \<and> opts = PList ys \<and> mirrors mirrored_option xs ys)"
    using m mirror_options_mirror[of "get l ''embedded_options''"] unfolding mirrorable_def by blast
  obtain terms where t: "mirror_leg_terms (get l ''terms'') = Inr terms" "terms \<noteq> PNone"
    "\<And>l'. get l' ''terms'' = terms \<Longrightarrow> \<exists>x x' rs rs'. custom_rows l = Inr x \<and> custom_rows l' = Inr x' \<and> rows_of x = Inr rs \<and> rows_of x' = Inr rs' \<and> list_all2 mirrored_row rs rs'"
    using m mirror_terms_rows[of l, OF _ refl] unfolding mirrorable_def by blast
  define changed where "changed = [(''direction'', PStr d), (''embedded_options'', opts), (''terms'', terms)]"
  define l' where "l' = map (\<lambda>f. (f, input_value changed l f)) leg_inputs"
  have "mirror_leg l = Inr l'" using d o t m by (simp add: mirror_leg_def l'_def changed_def mirrorable_def require_def)
  moreover have g: "get l' f = (if f \<in> set leg_inputs then input_value changed l f else PNone)" for f by (simp add: l'_def get_tabulate)
  have "get l' ''direction'' = PStr d" "get l' ''embedded_options'' = opts" "get l' ''terms'' = terms"
    using t(2) by (auto simp: g input_value_def changed_def leg_inputs_def)
  moreover have "get l f = get l' f" if "f \<in> set (''forecast_curve_id'' # leg_fields_v2)" for f
  proof -
    have k: "f \<in> set leg_inputs" "dict_get changed f = None" using that by (auto simp: leg_inputs_def leg_fields_v2_def changed_def)
    have "get l f \<noteq> PNone \<or> get input_defaults f = PNone" using that m by (auto simp: input_defaults_def mirrorable_def get_def leg_fields_v2_def)
    with k show ?thesis by (auto simp: g input_value_def Let_def)
  qed
  ultimately show ?thesis using d o t(3)[of l'] unfolding mirrored_leg_def by auto
qed

subsection \<open>The booking\<close>

text \<open>Product terms whose only direction is their own.\<close>

definition plain_terms :: "pydict \<Rightarrow> bool" where
  "plain_terms d \<longleftrightarrow> side_text (get d ''direction'') [''BUY'', ''SELL'', ''LONG'', ''SHORT'']
     \<and> list_all (\<lambda>(k, v). (case v of PDict _ \<Rightarrow> False | PList _ \<Rightarrow> False | _ \<Rightarrow> True)
          \<and> (k = ''direction'' \<or> \<not> has_substring ''direction'' (str_lower k))) d"

definition mirror_trade :: "pydict \<Rightarrow> pydict" where
  "mirror_trade t = dict_set ''terms'' (if truthy (get t ''terms'') then mirror_terms (get t ''terms'') else PDict []) t"

definition leg_order :: "pydict \<Rightarrow> int" where
  "leg_order l = (case int_or_0 (get l ''leg_seq'') of Inl _ \<Rightarrow> 0 | Inr n \<Rightarrow> n)"

lemma mirror_items_get:
  assumes "list_all (\<lambda>(k, v). (case v of PDict _ \<Rightarrow> False | PList _ \<Rightarrow> False | _ \<Rightarrow> True)
          \<and> (k = ''direction'' \<or> \<not> has_substring ''direction'' (str_lower k))) d"
  shows "k \<noteq> ''direction'' \<Longrightarrow> dict_get (mirror_items d) k = dict_get d k"
    and "dict_get d ''direction'' = Some (PStr s) \<Longrightarrow> dict_get (mirror_items d) ''direction'' = Some (flip_or s (PStr s))"
proof -
  have sub: "has_substring ''direction'' (str_lower ''direction'')" by code_simp
  show "k \<noteq> ''direction'' \<Longrightarrow> dict_get (mirror_items d) k = dict_get d k"
    using assms
  proof (induction d)
    case (Cons kv d)
    then show ?case by (cases "snd kv") (auto simp: case_prod_unfold)
  qed simp
  show "dict_get d ''direction'' = Some (PStr s) \<Longrightarrow> dict_get (mirror_items d) ''direction'' = Some (flip_or s (PStr s))"
    using assms by (induction d) (auto simp: sub is_text_def)
qed

lemma plain_terms_mirror:
  assumes "plain_terms d"
  shows "same_but_direction d (mirror_items d) \<and> opposite [''BUY'', ''LONG''] [''SELL'', ''SHORT''] (get d ''direction'') (get (mirror_items d) ''direction'')"
proof -
  have l: "list_all (\<lambda>(k, v). (case v of PDict _ \<Rightarrow> False | PList _ \<Rightarrow> False | _ \<Rightarrow> True)
          \<and> (k = ''direction'' \<or> \<not> has_substring ''direction'' (str_lower k))) d"
    and dir: "side_text (get d ''direction'') [''BUY'', ''SELL'', ''LONG'', ''SHORT'']" using assms by (simp_all add: plain_terms_def)
  obtain s where s: "get d ''direction'' = PStr s" "dict_get d ''direction'' = Some (PStr s)"
    using dir by (auto simp: side_text_def get_def split: option.splits)
  obtain r where r: "dict_get flips (str_upper (py_str (PStr s))) = Some r" "opposite [''BUY'', ''LONG''] [''SELL'', ''SHORT''] (PStr s) (PStr r)"
    using flip_opposite(2)[OF dir] s(1) by auto
  have "get (mirror_items d) ''direction'' = PStr r"
    using mirror_items_get(2)[OF l s(2)] r(1) by (simp add: get_def flip_or_def)
  then show ?thesis using r(2) s(1) mirror_items_get(1)[OF l] by (simp add: same_but_direction_def)
qed


text \<open>A swap with every column a leg has.\<close>

definition card_leg :: "string \<Rightarrow> string \<Rightarrow> int \<Rightarrow> pydict" where
  "card_leg kind dir seq =
     [(''leg_ref'', PStr kind), (''leg_seq'', int_val seq), (''leg_type'', PStr kind), (''direction'', PStr dir), (''currency'', PStr ''USD''),
      (''notional_type'', PStr ''BULLET''), (''payment_lag'', int_val 2), (''fixed_rate_type'', PStr ''FLAT''), (''spread_type'', PStr ''FLAT''),
      (''leverage'', PNum (Dec False 10 (- 1))), (''embedded_options'', PList []),
      (''terms'', PDict [(''custom_cashflows'', PList [PDict [(''amount'', PNum (Dec True 5 3))]])])]"

abbreviation (input) card_legs :: "pydict list" where
  "card_legs \<equiv> [card_leg ''FLOAT'' ''RECEIVE'' 2, card_leg ''FIXED'' ''PAY'' 1]"

lemma card_legs_mirrorable: "list_all mirrorable card_legs"
proof -
  have u: "str_upper ''PAY'' = ''PAY''" "str_upper ''RECEIVE'' = ''RECEIVE''" by code_simp+
  show ?thesis
    by (auto simp: mirrorable_def card_leg_def get_def side_text_def u mirrorable_options_def mirrorable_terms_def truthy_def mirrorable_row_def int_val_def)
qed

lemma card_recorded: "\<exists>p. canonical_payload (demo_trade ''A-1'') card_legs (demo_party ''LEIA'') (demo_party ''LEIB'') 2 = Inr p"
proof -
  have "case leg_v2 ''LEIA'' ''LEIB'' (card_leg ''FLOAT'' ''RECEIVE'' 2) of Inr p \<Rightarrow> True | Inl _ \<Rightarrow> False"
    "case leg_v2 ''LEIA'' ''LEIB'' (card_leg ''FIXED'' ''PAY'' 1) of Inr p \<Rightarrow> True | Inl _ \<Rightarrow> False"
    "case head_v2 (demo_trade ''A-1'') ''LEIA'' ''LEIB'' of Inr p \<Rightarrow> True | Inl _ \<Rightarrow> False"
    by code_simp+
  then obtain l1 l2 hd where l: "leg_v2 ''LEIA'' ''LEIB'' (card_leg ''FLOAT'' ''RECEIVE'' 2) = Inr l1"
    "leg_v2 ''LEIA'' ''LEIB'' (card_leg ''FIXED'' ''PAY'' 1) = Inr l2"
    "head_v2 (demo_trade ''A-1'') ''LEIA'' ''LEIB'' = Inr hd" by (auto split: sum.splits)
  have i: "instrument (demo_trade ''A-1'') = ''IR_SWAP''" "lei_of (demo_party ''LEIA'') = Inr ''LEIA''" "lei_of (demo_party ''LEIB'') = Inr ''LEIB''"
    by code_simp+
  show ?thesis using l i by (simp add: canonical_payload_def canonical_v2_def body_v2_def crypto_instruments_def fx_instruments_def)
qed

lemma demo_not_product: "\<not> (instrument (demo_trade x) \<in> set crypto_instruments \<or> instrument (demo_trade x) \<in> set fx_instruments)"
proof -
  have "instrument (demo_trade x) = instrument (demo_trade ''A-1'')" by (simp add: instrument_def demo_trade_def get_def)
  moreover have "instrument (demo_trade ''A-1'') = ''IR_SWAP''" by code_simp
  ultimately show ?thesis by (simp add: crypto_instruments_def fx_instruments_def)
qed


subsection \<open>A NULL leverage\<close>

lemma leverage_null: "normalise v = Inr JNull \<longleftrightarrow> v = PNone"
  by (cases v) (auto split: sum.splits)

lemma leg_leverage:
  assumes "leg_v2 own cp l = Inr j"
  shows "\<exists>m. j = JObj m \<and> map fst m = leg_keys \<and> normalise (get l ''leverage'') = Inr (jget m ''leverage'')"
proof -
  obtain items payer receiver ix opts flows where i: "pick l leg_fields_v2 = Inr items"
    and j: "j = JObj (items @ [(''payer'', JStr payer), (''receiver'', JStr receiver), (''index'', ix),
                           (''embedded_options'', JArr opts), (''custom_cashflows'', JArr flows)])" (is "_ = JObj ?m")
    using assms by (auto simp: leg_v2_def bind_res_Inr_iff)
  have f: "''leverage'' \<in> set leg_fields_v2" by (simp add: leg_fields_v2_def)
  have "''leverage'' \<in> fst ` set items" using f unfolding pick_keys[OF i, symmetric] by simp
  then have "jget ?m ''leverage'' = jget items ''leverage''" unfolding jget_append by simp
  with pick_get[OF i f] pick_keys[OF i] j show ?thesis by (auto simp: leg_keys_def)
qed

lemma mirrored_leverage:
  assumes "mirror_leg l = Inr l'"
  shows "get l' ''leverage'' \<noteq> PNone"
proof -
  obtain d opts terms where "l' = map (\<lambda>f. (f, input_value [(''direction'', d), (''embedded_options'', opts), (''terms'', terms)] l f)) leg_inputs"
    using assms unfolding mirror_leg_def bind_res_Inr_iff sum.inject by (elim exE conjE) (rule that, rule sym, assumption)
  then have "get l' ''leverage'' = input_value [(''direction'', d), (''embedded_options'', opts), (''terms'', terms)] l ''leverage''"
    by (simp only: get_tabulate) (simp add: leg_inputs_def)
  then show ?thesis by (simp add: input_value_def Let_def input_defaults_def get_def)
qed

text \<open>A leg whose leverage is NULL cannot be booked for the counterparty. The request model would put its default there, so the mirrored booking
  of a trade with such a leg never has the bytes that were signed: the booking is refused although the booker's trade is confirmed.\<close>

theorem null_leverage_not_mirrored:
  assumes r: "canonical_payload t legs a b 2 = Inr p" and r': "canonical_payload (mirror_trade t) legs' b a 2 = Inr p'"
    and m: "map_res mirror_leg (sort_key leg_order legs) = Inr legs'"
    and rate: "\<not> (instrument t \<in> set crypto_instruments \<or> instrument t \<in> set fx_instruments)"
    and l: "l \<in> set legs" "get l ''leverage'' = PNone"
  shows "canonical_bytes p' \<noteq> canonical_bytes p"
proof
  have rate': "\<not> (instrument (mirror_trade t) \<in> set crypto_instruments \<or> instrument (mirror_trade t) \<in> set fx_instruments)"
    using rate by (simp add: instrument_def mirror_trade_def get_set)
  have rec: "\<exists>hd ls. q = JObj (hd @ [(''legs'', JArr (sort_key dumps ls))]) \<and> map fst hd = [''schema'', ''schema_version'', ''uti'', ''parties'', ''trade'']
      \<and> map_res (leg_v2 own cp) lgs = Inr ls"
    if b: "body_v2 u lgs own cp = Inr q" and n: "\<not> (instrument u \<in> set crypto_instruments \<or> instrument u \<in> set fx_instruments)" for u lgs own cp q
  proof -
    obtain hd ls where h: "head_v2 u own cp = Inr hd" and ls: "map_res (leg_v2 own cp) lgs = Inr ls" "q = JObj (hd @ [(''legs'', JArr (sort_key dumps ls))])"
      using b unfolding body_v2_def Let_def if_not_P[OF n] bind_res_Inr_iff by blast
    have "map fst hd = [''schema'', ''schema_version'', ''uti'', ''parties'', ''trade'']" 
      using h unfolding head_v2_def bind_res_Inr_iff sum.inject by (elim exE conjE) (hypsubst, simp)
    with ls show ?thesis by (intro exI[of _ hd] exI[of _ ls] conjI)
  qed
  obtain own cp where body: "body_v2 t legs own cp = Inr p" "body_v2 (mirror_trade t) legs' cp own = Inr p'"
    using r r' by (auto simp: canonical_payload_def canonical_v2_def bind_res_Inr_iff split: if_splits)
  obtain hd ls where p: "p = JObj (hd @ [(''legs'', JArr (sort_key dumps ls))])" "map fst hd = [''schema'', ''schema_version'', ''uti'', ''parties'', ''trade'']"
    "map_res (leg_v2 own cp) legs = Inr ls" using rec[OF body(1) rate] by (elim exE conjE) (rule that)
  obtain hd' ls' where p': "p' = JObj (hd' @ [(''legs'', JArr (sort_key dumps ls'))])" "map fst hd' = [''schema'', ''schema_version'', ''uti'', ''parties'', ''trade'']"
    "map_res (leg_v2 cp own) legs' = Inr ls'" using rec[OF body(2) rate'] by (elim exE conjE) (rule that)
  have g: "jget (h @ [(''legs'', x)]) ''legs'' = x" if "map fst h = [''schema'', ''schema_version'', ''uti'', ''parties'', ''trade'']" for h x
  proof -
    have "''legs'' \<notin> fst ` set h" unfolding set_map[symmetric] that by simp
    then show ?thesis unfolding jget_append by (simp add: jget_def)
  qed
  assume "canonical_bytes p' = canonical_bytes p"
  then have "dumps (JArr (sort_key dumps ls')) = dumps (JArr (sort_key dumps ls))"
    using dumps_jget[of "hd' @ [(''legs'', JArr (sort_key dumps ls'))]" "hd @ [(''legs'', JArr (sort_key dumps ls))]" "''legs''"] p(1,2) p'(1,2)
    by (simp add: canonical_bytes_def g)
  then have "map dumps (sort_key dumps ls') = map dumps (sort_key dumps ls)" unfolding dumps_arr_iff .
  then have same: "dumps ` set ls' = dumps ` set ls" by (metis list.set_map set_sort)
  obtain j where j: "leg_v2 own cp l = Inr j" "j \<in> set ls"
  proof -
    obtain i where "i < length legs" "l = legs ! i" using l(1) by (auto simp: in_set_conv_nth)
    then have "leg_v2 own cp l = Inr (ls ! i)" "ls ! i \<in> set ls" using p(3) by (auto simp: map_res_Inr_iff list_all2_conv_all_nth)
    then show thesis by (rule that)
  qed
  then obtain j' where j': "j' \<in> set ls'" "dumps j' = dumps j" using same by (metis imageE imageI)
  then obtain x y where y: "leg_v2 cp own y = Inr j'" "mirror_leg x = Inr y"
    using p'(3) m by (fastforce simp: map_res_Inr_iff list_all2_conv_all_nth in_set_conv_nth)
  obtain v v' where v: "j = JObj v" "map fst v = leg_keys" "normalise (get l ''leverage'') = Inr (jget v ''leverage'')"
    "j' = JObj v'" "map fst v' = leg_keys" "normalise (get y ''leverage'') = Inr (jget v' ''leverage'')"
    using leg_leverage[OF j(1)] leg_leverage[OF y(1)] by (elim exE conjE) (rule that)
  have "dumps (jget v' ''leverage'') = dumps (jget v ''leverage'')"
    using j'(2) v leg_keys_distinct by (intro dumps_jget) simp_all
  moreover have "jget v ''leverage'' = JNull" using v(3) l(2) by simp
  ultimately have "jget v' ''leverage'' = JNull" by (simp add: dumps_JNull)
  with v(6) leverage_null mirrored_leverage[OF y(2)] show False by simp
qed

definition null_leg :: pydict where
  "null_leg = dict_set ''leverage'' PNone (card_leg ''FIXED'' ''PAY'' 1)"

theorem null_leverage_not_mirrored_witness:
  "\<exists>p legs' p'. canonical_payload (demo_trade ''A-1'') [null_leg] (demo_party ''LEIA'') (demo_party ''LEIB'') 2 = Inr p
    \<and> map_res mirror_leg [null_leg] = Inr legs'
    \<and> canonical_payload (mirror_trade (demo_trade ''A-1'')) legs' (demo_party ''LEIB'') (demo_party ''LEIA'') 2 = Inr p' \<and> canonical_bytes p' \<noteq> canonical_bytes p"
proof -
  have "case leg_v2 ''LEIA'' ''LEIB'' null_leg of Inr p \<Rightarrow> True | Inl _ \<Rightarrow> False"
    "case bind_res (mirror_leg null_leg) (\<lambda>l. case leg_v2 ''LEIB'' ''LEIA'' l of Inr j \<Rightarrow> Inr j | Inl _ \<Rightarrow> Inl Crash) of Inr p \<Rightarrow> True | Inl _ \<Rightarrow> False"
    "case head_v2 (demo_trade ''A-1'') ''LEIA'' ''LEIB'' of Inr p \<Rightarrow> True | Inl _ \<Rightarrow> False"
    "case head_v2 (mirror_trade (demo_trade ''A-1'')) ''LEIB'' ''LEIA'' of Inr p \<Rightarrow> True | Inl _ \<Rightarrow> False"
    by code_simp+
  then obtain l1 l' l2 hd hd' where l: "leg_v2 ''LEIA'' ''LEIB'' null_leg = Inr l1" "mirror_leg null_leg = Inr l'" "leg_v2 ''LEIB'' ''LEIA'' l' = Inr l2"
    "head_v2 (demo_trade ''A-1'') ''LEIA'' ''LEIB'' = Inr hd" "head_v2 (mirror_trade (demo_trade ''A-1'')) ''LEIB'' ''LEIA'' = Inr hd'"
    by (auto simp: bind_res_def split: sum.splits)
  have i: "instrument (demo_trade ''A-1'') = ''IR_SWAP''" "instrument (mirror_trade (demo_trade ''A-1'')) = ''IR_SWAP''"
    "lei_of (demo_party ''LEIA'') = Inr ''LEIA''" "lei_of (demo_party ''LEIB'') = Inr ''LEIB''" by code_simp+
  obtain p p' where p: "canonical_payload (demo_trade ''A-1'') [null_leg] (demo_party ''LEIA'') (demo_party ''LEIB'') 2 = Inr p"
    "canonical_payload (mirror_trade (demo_trade ''A-1'')) [l'] (demo_party ''LEIB'') (demo_party ''LEIA'') 2 = Inr p'"
    using l i by (simp add: canonical_payload_def canonical_v2_def body_v2_def crypto_instruments_def fx_instruments_def)
  have m: "map_res mirror_leg (sort_key leg_order [null_leg]) = Inr [l']" "get null_leg ''leverage'' = PNone"
    using l(2) by (simp_all add: null_leg_def get_set)
  from null_leverage_not_mirrored[OF p m(1) demo_not_product _ m(2)] p m(1) show ?thesis by auto
qed

end
