(* ===== verification/Card_Bookings.thy ===== *)
theory Card_Bookings
  imports Mirroring Booking Chain_Properties
begin

section \<open>The counterparty's own booking of a confirmed trade\<close>

text \<open>
  The part of \<open>api/routes/trade_cards.py\<close> that looks into the counterparty's book and writes to it: the search for their own booking of a shared
  trade, linking it to the confirmed record, and booking a mirrored trade when they have none.

  The state is \<open>chain_db\<close> with the firms' members and claimed LEIs. \<open>rules\<close> are the checks the database makes on a trade and its legs, beside the
  unique index on a user's UTIs; \<open>flt\<close> is the conversion to floats in the stored payload. Identifiers and the clock are arguments. A refusal rolls
  back to the state before the call.
\<close>

subsection \<open>Parties\<close>

record card_db =
  cb_chain :: chain_db
  cb_members :: "(string \<times> string) list"
  cb_leis :: "(string \<times> string) list"

definition cp_lei :: "chain_db \<Rightarrow> trade_row \<Rightarrow> pyval" where
  "cp_lei db t =
     (case row_of (cd_counterparties db) (get (columns_of db (t_id t)) ''counterparty_id'') of
        None \<Rightarrow> PNone
      | Some cp \<Rightarrow>
          (case (if truthy (get cp ''legal_entity_id'') then row_of (cd_entities db) (get cp ''legal_entity_id'') else None) of
             None \<Rightarrow> PNone | Some le \<Rightarrow> get le ''lei''))"

definition firm_of_lei :: "card_db \<Rightarrow> pyval \<Rightarrow> string option" where
  "firm_of_lei db lei = (if truthy lei then dict_get (cb_leis db) (py_str lei) else None)"

definition users_firm :: "card_db \<Rightarrow> string \<Rightarrow> string option" where
  "users_firm db u = dict_get (cb_members db) u"

definition members_of :: "card_db \<Rightarrow> string \<Rightarrow> string list" where
  "members_of db firm = map fst (filter (\<lambda>m. snd m = firm) (cb_members db))"

definition leis_of :: "card_db \<Rightarrow> string \<Rightarrow> string list" where
  "leis_of db firm = map fst (filter (\<lambda>l. snd l = firm) (cb_leis db))"

definition uti_of :: "chain_db \<Rightarrow> trade_row \<Rightarrow> pyval" where
  "uti_of db t = get (columns_of db (t_id t)) ''uti''"

abbreviation trades_of :: "chain_db \<Rightarrow> trade_row list" where
  "trades_of db \<equiv> l_trades (ledger_of db)"

subsection \<open>Looking for their booking\<close>

text \<open>\<open>_best_own_booking\<close>: among the trades of the counterparty's people against the booker, not cancelled and not already the other side of
  another trade, the first with the fewest breaks. A trade without a record is skipped.\<close>

type_synonym candidate = "trade_row \<times> brk list \<times> string"

fun best_of :: "crypto \<Rightarrow> chain_db \<Rightarrow> json \<Rightarrow> candidate option \<Rightarrow> trade_row list \<Rightarrow> candidate option http" where
  "best_of cr db shared best [] = Inr best"
| "best_of cr db shared best (t # ts) =
     (case canonical_for cr db t schema_version of
        Inl (Http _) \<Rightarrow> best_of cr db shared best ts
      | Inl Crash \<Rightarrow> Inl Crash
      | Inr (theirs, h) \<Rightarrow>
          bind_res (compare shared theirs) (\<lambda>bs.
            best_of cr db shared
              (case best of None \<Rightarrow> Some (t, bs, hexb h)
               | Some b \<Rightarrow> if length bs < length (fst (snd b)) then Some (t, bs, hexb h) else best) ts))"

definition own_candidates :: "card_db \<Rightarrow> json \<Rightarrow> string \<Rightarrow> string \<Rightarrow> trade_row list" where
  "own_candidates db shared cp_firm booker_firm =
     (let ch = cb_chain db;
          theirs = filter (\<lambda>t. t_user t \<in> set (members_of db cp_firm) \<and> t_status t \<noteq> ''CANCELLED'') (trades_of ch);
          others = filter (\<lambda>u. truthy u \<and> (case jget (members shared) ''uti'' of JStr s \<Rightarrow> u \<noteq> PStr s | _ \<Rightarrow> True)) (map (uti_of ch) theirs);
          paired = filter (\<lambda>u. u \<in> set others)
                     (map (uti_of ch) (filter (\<lambda>t. t_user t \<in> set (members_of db booker_firm)) (trades_of ch)))
      in filter (\<lambda>t. uti_of ch t \<notin> set paired \<and> cp_lei ch t \<in> PStr ` set (leis_of db booker_firm)) theirs)"

definition best_own_booking :: "crypto \<Rightarrow> card_db \<Rightarrow> json \<Rightarrow> string \<Rightarrow> string \<Rightarrow> candidate option http" where
  "best_own_booking cr db shared cp_firm booker_firm =
     best_of cr (cb_chain db) shared None (own_candidates db shared cp_firm booker_firm)"

record book_match =
  bm_status :: string
  bm_breaks :: "brk list"
  bm_same_hash :: bool

definition match_in_book :: "crypto \<Rightarrow> card_db \<Rightarrow> json \<Rightarrow> string \<Rightarrow> string \<Rightarrow> book_match http" where
  "match_in_book cr db shared cp_firm booker_firm =
     bind_res (best_own_booking cr db shared cp_firm booker_firm) (\<lambda>best.
       Inr (case best of None \<Rightarrow> \<lparr>bm_status = ''NO_BOOKING'', bm_breaks = [], bm_same_hash = False\<rparr>
            | Some (t, b, their_hash) \<Rightarrow>
                \<lparr>bm_status = (if b = [] then ''MATCH'' else ''BREAKS''), bm_breaks = b,
                 bm_same_hash = (their_hash = hexb (trade_hash (cr_keccak cr) shared))\<rparr>))"

definition own_booking :: "chain_db \<Rightarrow> pyval \<Rightarrow> string \<Rightarrow> trade_row option" where
  "own_booking db uti u =
     (if \<not> truthy uti then None
      else List.find (\<lambda>t. t_user t = u \<and> uti_of db t = uti \<and> t_status t \<noteq> ''CANCELLED'') (trades_of db))"

text \<open>\<open>their_refs\<close>: for a user's trades, the reference of the counterparty's booking under the same UTI and their firm; a later entry replaces an earlier one.\<close>

definition their_refs :: "card_db \<Rightarrow> string \<Rightarrow> (string \<times> string \<times> string) list" where
  "their_refs db u =
     (let ch = cb_chain db;
          live = filter (\<lambda>t. t_status t \<noteq> ''CANCELLED'' \<and> uti_of ch t \<noteq> PNone) (trades_of ch);
          mine = filter (\<lambda>t. t_user t = u) live
      in List.map_filter (\<lambda>o'. case List.find (\<lambda>t. uti_of ch t = uti_of ch o') (rev mine) of None \<Rightarrow> None
            | Some t \<Rightarrow> (case firm_of_lei db (cp_lei ch t) of None \<Rightarrow> None
                | Some f \<Rightarrow> if users_firm db u = Some f \<or> t_user o' \<notin> set (members_of db f) then None else Some (t_id t, t_ref o', f)))
           (filter (\<lambda>t. t_user t \<noteq> u) live))"

lemma their_refs_of_the_counterparty:
  assumes "(tid, ref, f) \<in> set (their_refs db u)"
  shows "users_firm db u \<noteq> Some f \<and> (\<exists>t o'. {t, o'} \<subseteq> set (trades_of (cb_chain db)) \<and> t_id t = tid \<and> t_user t = u \<and> t_ref o' = ref \<and> t_user o' \<in> set (members_of db f)
    \<and> uti_of (cb_chain db) o' = uti_of (cb_chain db) t \<and> firm_of_lei db (cp_lei (cb_chain db) t) = Some f)"
proof -
  have in_map: "y \<in> set (List.map_filter g xs) \<Longrightarrow> \<exists>x \<in> set xs. g x = Some y" for g :: "trade_row \<Rightarrow> (string \<times> string \<times> string) option" and xs y
    by (force simp: List.map_filter_def)
  let ?ch = "cb_chain db"
  let ?live = "filter (\<lambda>t. t_status t \<noteq> ''CANCELLED'' \<and> uti_of ?ch t \<noteq> PNone) (trades_of ?ch)"
  from in_map[OF assms[unfolded their_refs_def Let_def]] obtain o' t where o': "o' \<in> set (trades_of ?ch)" "ref = t_ref o'" "t_user o' \<in> set (members_of db f)"
    and f: "firm_of_lei db (cp_lei ?ch t) = Some f" "users_firm db u \<noteq> Some f" "tid = t_id t"
    and t: "List.find (\<lambda>t. uti_of ?ch t = uti_of ?ch o') (rev (filter (\<lambda>t. t_user t = u) ?live)) = Some t"
    by (auto split: option.splits if_splits)
  from find_SomeD[OF t] have "t \<in> set (trades_of ?ch)" "t_user t = u" "uti_of ?ch o' = uti_of ?ch t" by simp_all
  with o' f show ?thesis by blast
qed

text \<open>The signer's own candidate; a booker without a firm is an \<open>AttributeError\<close>.\<close>

definition link_candidate :: "crypto \<Rightarrow> card_db \<Rightarrow> trade_row \<Rightarrow> string \<Rightarrow> string \<Rightarrow> (trade_row \<times> brk list) option http" where
  "link_candidate cr db source signer firm =
     bind_res (canonical_for cr (cb_chain db) source schema_version) (\<lambda>(shared, _).
     case users_firm db (t_user source) of
       None \<Rightarrow> Inl Crash
     | Some booker \<Rightarrow>
         bind_res (best_own_booking cr db shared firm booker) (\<lambda>best.
           Inr (case best of Some (t, b, _) \<Rightarrow> if t_user t = signer then Some (t, b) else None | None \<Rightarrow> None)))"

subsection \<open>Linking\<close>

text \<open>The unique index on \<open>(user_id, uti)\<close>, which counts cancelled trades too.\<close>

definition uti_taken :: "chain_db \<Rightarrow> string \<Rightarrow> string \<Rightarrow> pyval \<Rightarrow> bool" where
  "uti_taken db u tid uti \<longleftrightarrow> uti \<noteq> PNone \<and> list_ex (\<lambda>t. t_user t = u \<and> t_id t \<noteq> tid \<and> uti_of db t = uti) (trades_of db)"

definition confirmed_by :: "pydict \<Rightarrow> trade_row \<Rightarrow> pydict \<Rightarrow> transition" where
  "confirmed_by att t from =
     \<lparr>tr_user = t_user t, tr_trade = t, tr_type = ''CONFIRMED'', tr_status = ''CONFIRMED'',
      tr_payload = [(''attestation'', PDict att), (''booked_from'', PDict from)], tr_key = None, tr_hash = text_of (get att ''trade_hash''),
      tr_cp_confirmed = True\<rparr>"

definition confirm_booking :: "chain_db \<Rightarrow> chain_db \<Rightarrow> transition \<Rightarrow> string \<Rightarrow> chain_db \<times> unit http" where
  "confirm_booking db0 db r eid =
     (case apply_lifecycle_transition (ledger_of db) r eid of
        (_, Inl e) \<Rightarrow> (db0, Inl e)
      | (l, Inr _) \<Rightarrow> (with_ledger l db, Inr ()))"

definition link_booking :: "crypto \<Rightarrow> chain_db \<Rightarrow> trade_row \<Rightarrow> trade_row \<Rightarrow> pydict \<Rightarrow> string \<Rightarrow> chain_db \<times> unit http" where
  "link_booking cr db t source att eid =
     (if t_status t \<noteq> ''PENDING'' then (db, Inl (Http 409))
      else (let uti = uti_of db source; db1 = set_columns (t_id t) (dict_set ''uti'' uti (columns_of db (t_id t))) db in
            if uti_taken db (t_user t) (t_id t) uti then (db, Inl Crash)
            else (case canonical_for cr db1 t schema_version of
                    Inl e \<Rightarrow> (db, Inl e)
                  | Inr (_, h) \<Rightarrow>
                      if PStr (hexb h) \<noteq> get att ''trade_hash'' then (db, Inl (Http 409))
                      else confirm_booking db db1
                             (confirmed_by att t [(''channel'', PStr ''countersignature''), (''linked'', PBool True),
                                (''counterparty_trade_ref'', PStr (t_ref source))]) eid)))"

subsection \<open>Booking the mirrored trade\<close>

text \<open>The signer's own rows for the two parties, found by LEI or created from the booker's.\<close>

definition owned_row :: "string \<Rightarrow> string \<Rightarrow> pyval \<Rightarrow> (string \<times> pydict) \<Rightarrow> bool" where
  "owned_row u k v row \<longleftrightarrow> get (snd row) ''user_id'' = PStr u \<and> get (snd row) k = v"

definition else_text :: "pyval \<Rightarrow> string \<Rightarrow> pyval" where
  "else_text v s = (if truthy v then v else PStr s)"

definition new_entity :: "string \<Rightarrow> pydict \<Rightarrow> bool \<Rightarrow> pydict" where
  "new_entity u le own =
     [(''lei'', get le ''lei''), (''name'', get le ''name''), (''short_name'', if truthy (get le ''short_name'') then get le ''short_name'' else get le ''name''),
      (''home_currency'', else_text (get le ''home_currency'') ''USD''), (''jurisdiction'', else_text (get le ''jurisdiction'') []),
      (''regulatory_regime'', get le ''regulatory_regime''), (''simm_version'', else_text (get le ''simm_version'') ''v2.6''),
      (''im_threshold_m'', get le ''im_threshold_m''), (''ois_curve_id'', get le ''ois_curve_id''), (''is_own_entity'', PBool own),
      (''is_active'', PBool True), (''user_id'', PStr u), (''created_by'', PStr u)]"

definition entity :: "chain_db \<Rightarrow> string \<Rightarrow> pydict \<Rightarrow> bool \<Rightarrow> string \<Rightarrow> chain_db \<times> string" where
  "entity db u template own fresh =
     (case List.find (owned_row u ''lei'' (get template ''lei'')) (cd_entities db) of
        Some row \<Rightarrow> (db, fst row)
      | None \<Rightarrow> (db\<lparr>cd_entities := cd_entities db @ [(fresh, new_entity u template own)]\<rparr>, fresh))"

definition new_counterparty :: "string \<Rightarrow> string \<Rightarrow> pyval \<Rightarrow> pydict \<Rightarrow> pydict" where
  "new_counterparty u le_id name cp =
     [(''legal_entity_id'', PStr le_id), (''name'', name), (''is_active'', PBool True), (''isda_agreement'', get cp ''isda_agreement''),
      (''csa_type'', get cp ''csa_type''), (''csa_currency'', get cp ''csa_currency''), (''csa_threshold_m'', get cp ''csa_threshold_m''),
      (''csa_mta_k'', get cp ''csa_mta_k''), (''discount_curve_id'', get cp ''discount_curve_id''), (''im_model'', else_text (get cp ''im_model'') ''SIMM''),
      (''user_id'', PStr u), (''created_by'', PStr u)]"

definition counterparty :: "chain_db \<Rightarrow> string \<Rightarrow> string \<Rightarrow> pydict \<Rightarrow> string \<Rightarrow> chain_db \<times> string" where
  "counterparty db u le_id template fresh =
     (case List.find (owned_row u ''legal_entity_id'' (PStr le_id)) (cd_counterparties db) of
        Some row \<Rightarrow> (db, fst row)
      | None \<Rightarrow>
          (let name = (case dict_get (cd_entities db) le_id of None \<Rightarrow> PNone | Some le \<Rightarrow> get le ''name'')
           in (db\<lparr>cd_counterparties := cd_counterparties db @ [(fresh, new_counterparty u le_id name template)]\<rparr>, fresh)))"

text \<open>The booking request: pydantic refuses a required field that is empty, which is no \<open>HTTPException\<close>.\<close>

definition mirrored_fields :: "pydict \<Rightarrow> string \<Rightarrow> string \<Rightarrow> pydict" where
  "mirrored_fields cols own_id cp_id =
     [(''asset_class'', get cols ''asset_class''), (''instrument_type'', get cols ''instrument_type''), (''structure'', get cols ''structure''),
      (''store'', else_text (get cols ''store'') ''WORKING''), (''own_legal_entity_id'', PStr own_id), (''counterparty_id'', PStr cp_id),
      (''notional'', get cols ''notional''), (''notional_ccy'', get cols ''notional_ccy''), (''trade_date'', get cols ''trade_date''),
      (''effective_date'', get cols ''effective_date''), (''maturity_date'', get cols ''maturity_date''),
      (''terms'', if truthy (get cols ''terms'') then mirror_terms (get cols ''terms'') else PDict []),
      (''discount_curve_id'', get cols ''discount_curve_id''), (''forecast_curve_id'', get cols ''forecast_curve_id'')]"

definition request_fields :: "string list" where
  "request_fields = [''asset_class'', ''instrument_type'', ''notional'', ''notional_ccy'', ''trade_date'', ''effective_date'', ''maturity_date'']"

definition mirror_request :: "pydict \<Rightarrow> pydict list \<Rightarrow> string \<Rightarrow> string \<Rightarrow> booking_request http" where
  "mirror_request cols legs own_id cp_id =
     bind_res (map_res mirror_leg (sort_key leg_order legs)) (\<lambda>ls.
     bind_res (require (list_all (\<lambda>f. get cols f \<noteq> PNone) request_fields) Crash) (\<lambda>_.
     case validate_booking \<lparr>bq_ref = None, bq_fields = mirrored_fields cols own_id cp_id, bq_legs = ls\<rparr> of
       Inl _ \<Rightarrow> Inl Crash | Inr b \<Rightarrow> Inr b))"

definition owners :: "(string \<times> pydict) list \<Rightarrow> (string \<times> string) list" where
  "owners rows = map (\<lambda>r. (fst r, py_str (get (snd r) ''user_id''))) rows"

definition books_of :: "chain_db \<Rightarrow> book_db" where
  "books_of db = \<lparr>bd_ledger = ledger_of db, bd_rows = cd_trades db, bd_counterparties = owners (cd_counterparties db),
     bd_entities = owners (cd_entities db), bd_idem = []\<rparr>"

record mirror_ids =
  mi_own :: string
  mi_theirs :: string
  mi_cp :: string
  mi_book :: new_ids
  mi_event :: string

definition book_new ::
    "crypto \<Rightarrow> (decimal \<Rightarrow> decimal) \<Rightarrow> (pydict \<Rightarrow> pydict list \<Rightarrow> bool) \<Rightarrow> chain_db \<Rightarrow> trade_row \<Rightarrow> string \<Rightarrow> pydict \<Rightarrow> mirror_ids \<Rightarrow> nat
      \<Rightarrow> chain_db \<times> string http" where
  "book_new cr flt rules db source u att ids clock =
     (let cols = columns_of db (t_id source) in
      case load_parties db cols of Inl e \<Rightarrow> (db, Inl e)
      | Inr (own, cp) \<Rightarrow>
          (case row_of (cd_entities db) (get cp ''legal_entity_id'') of None \<Rightarrow> (db, Inl (Http 422))
           | Some cp_le \<Rightarrow>
               if \<not> truthy (get cp_le ''lei'') then (db, Inl (Http 422))
               else (let (db1, mine) = entity db u cp_le True (mi_own ids);
                         (db2, theirs) = entity db1 u own False (mi_theirs ids);
                         (db3, their_cp) = counterparty db2 u theirs cp (mi_cp ids);
                         uti = uti_of db source
                     in case mirror_request cols (own_legs (ledger_of db) source) mine their_cp of Inl e \<Rightarrow> (db, Inl e)
                        | Inr body \<Rightarrow>
                            (case book_trade flt (\<lambda>c l. rules c l \<and> \<not> uti_taken db3 u (ni_trade (mi_book ids)) uti) (books_of db3) u body None
                                    (text_of uti) (mi_book ids) clock of
                               (_, Inl e) \<Rightarrow> (db, Inl e)
                             | (bk, Inr _) \<Rightarrow>
                                 (let db4 = with_ledger (bd_ledger bk) (db3\<lparr>cd_trades := bd_rows bk\<rparr>) in
                                  case List.find (\<lambda>t. t_id t = ni_trade (mi_book ids)) (trades_of db4) of None \<Rightarrow> (db, Inl Crash)
                                  | Some mirror \<Rightarrow>
                                      (case canonical_for cr db4 mirror schema_version of Inl e \<Rightarrow> (db, Inl e)
                                       | Inr (_, h) \<Rightarrow>
                                           if PStr (hexb h) \<noteq> get att ''trade_hash'' then (db, Inl (Http 409))
                                           else (case confirm_booking db db4 (confirmed_by att mirror
                                                          [(''channel'', PStr ''countersignature''), (''counterparty_trade_ref'', PStr (t_ref source))])
                                                          (mi_event ids) of
                                                   (_, Inl e) \<Rightarrow> (db, Inl e) | (db5, Inr _) \<Rightarrow> (db5, Inr (t_id mirror)))))))))"

datatype how = Booked | Linked | Existing

record booking_out =
  bo_trade :: string
  bo_how :: how
  bo_differs :: "nat option"

definition book_mirror ::
    "crypto \<Rightarrow> (decimal \<Rightarrow> decimal) \<Rightarrow> (pydict \<Rightarrow> pydict list \<Rightarrow> bool) \<Rightarrow> card_db \<Rightarrow> trade_row \<Rightarrow> string \<Rightarrow> string \<Rightarrow> mirror_ids \<Rightarrow> nat
      \<Rightarrow> card_db \<times> booking_out http" where
  "book_mirror cr flt rules db source signer firm ids clock =
     (let ch = cb_chain db in
      case current_attestation (ledger_of ch) (t_id source) of None \<Rightarrow> (db, Inl (Http 409))
      | Some att \<Rightarrow>
          (case attested_version att of Inl e \<Rightarrow> (db, Inl e)
           | Inr v \<Rightarrow>
               if v < 2 then (db, Inl (Http 409))
               else (case own_booking ch (uti_of ch source) signer of
                       Some t \<Rightarrow> (db, Inr \<lparr>bo_trade = t_id t, bo_how = Existing, bo_differs = None\<rparr>)
                     | None \<Rightarrow>
                         (case link_candidate cr db source signer firm of Inl e \<Rightarrow> (db, Inl e)
                          | Inr (Some (t, [])) \<Rightarrow>
                              (case link_booking cr ch t source att (mi_event ids) of
                                 (_, Inl e) \<Rightarrow> (db, Inl e)
                               | (ch', Inr _) \<Rightarrow> (db\<lparr>cb_chain := ch'\<rparr>, Inr \<lparr>bo_trade = t_id t, bo_how = Linked, bo_differs = None\<rparr>))
                          | Inr found \<Rightarrow>
                              (case book_new cr flt rules ch source signer att ids clock of
                                 (_, Inl e) \<Rightarrow> (db, Inl e)
                               | (ch', Inr tid) \<Rightarrow>
                                   (db\<lparr>cb_chain := ch'\<rparr>, Inr \<lparr>bo_trade = tid, bo_how = Booked,
                                      bo_differs = map_option (\<lambda>f. length (snd f)) found\<rparr>))))))"

subsection \<open>What a booking that stands looks like\<close>

abbreviation the_trade :: "chain_db \<Rightarrow> string \<Rightarrow> trade_row option" where
  "the_trade db tid \<equiv> List.find (\<lambda>t. t_id t = tid) (trades_of db)"

text \<open>Confirmed in a user's book under a UTI, with the hash of an attestation, which is the trade's own.\<close>

definition stands :: "crypto \<Rightarrow> chain_db \<Rightarrow> string \<Rightarrow> string \<Rightarrow> pyval \<Rightarrow> pydict \<Rightarrow> bool" where
  "stands cr db tid u uti att \<longleftrightarrow>
     (case the_trade db tid of None \<Rightarrow> False
      | Some t \<Rightarrow> t_user t = u \<and> t_status t = ''CONFIRMED'' \<and> uti_of db t = uti
          \<and> (case canonical_for cr db t schema_version of Inl _ \<Rightarrow> False | Inr (_, h) \<Rightarrow> get att ''trade_hash'' = PStr (hexb h)))
     \<and> current_attestation (ledger_of db) tid = Some att"

text \<open>The ledger's invariant, its foreign keys, and columns only for trades that exist.\<close>

definition card_ok :: "chain_db \<Rightarrow> bool" where
  "card_ok db \<longleftrightarrow> ledger_ok (ledger_of db) \<and> fst ` set (cd_trades db) \<subseteq> t_id ` set (trades_of db)"

text \<open>Everyone else's trades are left as they were.\<close>

definition others_kept :: "chain_db \<Rightarrow> chain_db \<Rightarrow> string \<Rightarrow> bool" where
  "others_kept db db' u \<longleftrightarrow> filter (\<lambda>t. t_user t \<noteq> u) (trades_of db') = filter (\<lambda>t. t_user t \<noteq> u) (trades_of db)
     \<and> (\<forall>t \<in> set (trades_of db). t_user t \<noteq> u \<longrightarrow> columns_of db' (t_id t) = columns_of db (t_id t))"

lemma find_map_row:
  "List.find (\<lambda>x. t_id x = i) (map (\<lambda>x. if t_id x = i then x\<lparr>t_status := a, t_latest := b, t_version := c\<rparr> else x) ts)
     = map_option (\<lambda>x. x\<lparr>t_status := a, t_latest := b, t_version := c\<rparr>) (List.find (\<lambda>x. t_id x = i) ts)"
  by (induction ts) auto

lemma find_by_id: "distinct (map t_id ts) \<Longrightarrow> t \<in> set ts \<Longrightarrow> List.find (\<lambda>x. t_id x = t_id t) ts = Some t"
  by (induction ts) auto

lemma others_after_confirm:
  assumes "distinct (map t_id ts)" and "List.find (\<lambda>x. t_id x = i) ts = Some row" and "t_user row = u"
  shows "filter (\<lambda>t. t_user t \<noteq> u) (map (\<lambda>x. if t_id x = i then x\<lparr>t_status := a, t_latest := b, t_version := c\<rparr> else x) ts) = filter (\<lambda>t. t_user t \<noteq> u) ts"
proof -
  have "t_user x = u" if "x \<in> set ts" "t_id x = i" for x
    using find_by_id[OF assms(1) that(1)] assms(2,3) that(2) by simp
  then show ?thesis by (induction ts) auto
qed

lemma confirm_bookingE:
  assumes c: "confirm_booking db0 db (confirmed_by att t from) eid = (db', Inr ())" and ok: "ledger_ok (ledger_of db)"
    and row: "the_trade db (t_id t) = Some row" and att: "att \<noteq> []"
  obtains l row' where "db' = with_ledger l db" "l_legs l = l_legs (ledger_of db)" "ledger_ok l" "the_trade db' (t_id t) = Some row'"
    "t_user row' = t_user row" "t_id row' = t_id t" "t_status row' = ''CONFIRMED''" "current_attestation l (t_id t) = Some att"
    "filter (\<lambda>x. t_user x \<noteq> t_user row) (l_trades l) = filter (\<lambda>x. t_user x \<noteq> t_user row) (trades_of db)"
proof -
  obtain l x where a: "apply_lifecycle_transition (ledger_of db) (confirmed_by att t from) eid = (l, Inr x)" and d: "db' = with_ledger l db"
    using c by (auto simp: confirm_booking_def split: prod.splits sum.splits)
  have "\<not> lr_replay x" using a unfolding apply_lifecycle_transition_def Let_def
    by (auto simp: confirmed_by_def build_response_def split: sum.splits if_splits option.splits)
  from a show thesis
  proof (cases rule: apply_transition_cases)
    case same
    with \<open>\<not> lr_replay x\<close> show thesis by simp
  next
    case (done_req pre r)
    have lok: "ledger_ok l" using ledger_ok_transition[OF ok a] by simp
    have t: "t_id (tr_trade (confirmed_by att t from)) = t_id t" by (simp add: confirmed_by_def)
    have la: "latest_attested_event l (t_id t) = Some (last (l_events l))"
      using latest_attested_insert[OF ok done_req(4)] by (simp add: done_req(4) attested_types_def confirmed_by_def)
    then have "current_attestation l (t_id t) = Some att"
      using att by (simp add: current_attestation_def done_req(4) confirmed_by_def get_def)
    moreover have f: "List.find (\<lambda>x. t_id x = t_id t) (l_trades l) = Some (row\<lparr>t_status := ''CONFIRMED'', t_latest := Some eid, t_version := t_version t + 1\<rparr>)"
      using row unfolding done_req(5) t find_map_row by (simp add: confirmed_by_def)
    moreover have "t_id row = t_id t" using find_SomeD[OF row] by simp
    moreover have "filter (\<lambda>x. t_user x \<noteq> t_user row) (l_trades l) = filter (\<lambda>x. t_user x \<noteq> t_user row) (trades_of db)"
      unfolding done_req(5) t by (rule others_after_confirm[OF _ row refl]) (use ok in \<open>simp add: ledger_ok_def\<close>)
    ultimately show thesis
      by (intro that[OF d done_req(6) lok, of "row\<lparr>t_status := ''CONFIRMED'', t_latest := Some eid, t_version := t_version t + 1\<rparr>"]) (simp_all add: d)
  qed
qed

lemma standsI:
  assumes c: "confirm_booking db0 db (confirmed_by att t from) eid = (db', Inr ())" and ok: "ledger_ok (ledger_of db)"
    and t: "the_trade db (t_id t) = Some t" and att: "att \<noteq> []"
    and h: "canonical_for cr db t schema_version = Inr (p, h)" "get att ''trade_hash'' = PStr (hexb h)"
  shows "stands cr db' (t_id t) (t_user t) (uti_of db t) att"
    and "filter (\<lambda>x. t_user x \<noteq> t_user t) (trades_of db') = filter (\<lambda>x. t_user x \<noteq> t_user t) (trades_of db)" and "cd_trades db' = cd_trades db"
proof -
  obtain l row where l: "db' = with_ledger l db" "l_legs l = l_legs (ledger_of db)" "ledger_ok l" "the_trade db' (t_id t) = Some row" "t_user row = t_user t" "t_id row = t_id t"
    "t_status row = ''CONFIRMED''" "current_attestation l (t_id t) = Some att"
    "filter (\<lambda>x. t_user x \<noteq> t_user t) (l_trades l) = filter (\<lambda>x. t_user x \<noteq> t_user t) (trades_of db)"
    by (rule confirm_bookingE[OF c ok t att])
  have "canonical_for cr db' row schema_version = canonical_for cr db t schema_version"
    by (rule canonical_for_cong) (simp_all add: l(1,2,5,6))
  then show "stands cr db' (t_id t) (t_user t) (uti_of db t) att"
    using l(4-8) h unfolding stands_def l(1) by (simp add: uti_of_def)
  show "filter (\<lambda>x. t_user x \<noteq> t_user t) (trades_of db') = filter (\<lambda>x. t_user x \<noteq> t_user t) (trades_of db)" "cd_trades db' = cd_trades db"
    using l by simp_all
qed

subsection \<open>Linking and booking\<close>

lemma link_booking_stands:
  assumes k: "link_booking cr db t source att eid = (db', Inr ())" and ok: "card_ok db" and t: "t \<in> set (trades_of db)" and att: "att \<noteq> []"
  shows "stands cr db' (t_id t) (t_user t) (uti_of db source) att \<and> others_kept db db' (t_user t)"
proof -
  define db1 where "db1 = set_columns (t_id t) (dict_set ''uti'' (uti_of db source) (columns_of db (t_id t))) db"
  obtain p h where h: "canonical_for cr db1 t schema_version = Inr (p, h)" "get att ''trade_hash'' = PStr (hexb h)"
    and c: "confirm_booking db db1 (confirmed_by att t [(''channel'', PStr ''countersignature''), (''linked'', PBool True),
                                (''counterparty_trade_ref'', PStr (t_ref source))]) eid = (db', Inr ())"
    using k unfolding link_booking_def Let_def db1_def[symmetric] by (auto split: if_splits sum.splits)
  have l1: "ledger_of db1 = ledger_of db" by (simp add: db1_def set_columns_def)
  have col: "columns_of db1 i = (if i = t_id t then dict_set ''uti'' (uti_of db source) (columns_of db (t_id t)) else columns_of db i)" for i
    by (simp add: db1_def set_columns_def columns_of_def dict_get_set)
  have d: "distinct (map t_id (trades_of db))" using ok by (simp add: card_ok_def ledger_ok_def)
  have f: "the_trade db1 (t_id t) = Some t" using find_by_id[OF d t] l1 by simp
  note st = standsI[OF c _ f att h]
  have ok1: "ledger_ok (ledger_of db1)" using ok l1 by (simp add: card_ok_def)
  have "uti_of db1 t = uti_of db source" using col[of "t_id t"] by (simp add: uti_of_def get_set)
  moreover have "columns_of db' (t_id x) = columns_of db (t_id x)" if "x \<in> set (trades_of db)" "t_user x \<noteq> t_user t" for x
  proof -
    have "t_id x \<noteq> t_id t" using that find_by_id[OF d t] find_by_id[OF d that(1)] by auto
    then show ?thesis using col[of "t_id x"] st(3)[OF ok1] by (simp add: columns_of_def)
  qed
  ultimately show ?thesis using st(1,2)[OF ok1] l1 by (simp add: others_kept_def)
qed

lemma book_trade_unkeyed:
  assumes "book_trade flt rules db u b None uti ids clock = (db', Inr x)"
  shows "booked flt db u (complete_booking b) None uti ids clock db' (Inr x)"
proof -
  from book_trade_cases[OF assms] show ?thesis
  proof
    assume n: "unchanged db db' (Inr x)"
    have "\<not> replayed x" using assms unfolding book_trade_def begin_booking_def write_booking_def Let_def
      by (auto simp: replayed_def split: if_splits)
    with n show ?thesis by (simp add: unchanged_def)
  qed
qed

lemma entity_keeps:
  "entity db u te own fr = (db', i) \<Longrightarrow> ledger_of db' = ledger_of db \<and> cd_trades db' = cd_trades db"
  "counterparty db u le tc fr = (db', i) \<Longrightarrow> ledger_of db' = ledger_of db \<and> cd_trades db' = cd_trades db"
  by (auto simp: entity_def counterparty_def Let_def split: option.splits)

lemma book_new_stands:
  assumes n: "book_new cr flt rules db source u att ids clock = (db', Inr tid)" and ok: "card_ok db" and att: "att \<noteq> []"
    and uti: "text_or_none (uti_of db source)"
  shows "stands cr db' tid u (uti_of db source) att \<and> others_kept db db' u"
proof -
  let ?new = "ni_trade (mi_book ids)"
  from n obtain own cp cp_le mine theirs their_cp db1 db2 db3 body bk x mirror p h where
    e: "entity db u cp_le True (mi_own ids) = (db1, mine)" "entity db1 u own False (mi_theirs ids) = (db2, theirs)"
      "counterparty db2 u theirs cp (mi_cp ids) = (db3, their_cp)"
    and bt: "book_trade flt (\<lambda>c l. rules c l \<and> \<not> uti_taken db3 u ?new (uti_of db source)) (books_of db3) u body None (text_of (uti_of db source)) (mi_book ids) clock
        = (bk, Inr x)"
    and m: "the_trade (with_ledger (bd_ledger bk) (db3\<lparr>cd_trades := bd_rows bk\<rparr>)) ?new = Some mirror"
    and h: "canonical_for cr (with_ledger (bd_ledger bk) (db3\<lparr>cd_trades := bd_rows bk\<rparr>)) mirror schema_version = Inr (p, h)"
      "get att ''trade_hash'' = PStr (hexb h)"
    and c: "confirm_booking db (with_ledger (bd_ledger bk) (db3\<lparr>cd_trades := bd_rows bk\<rparr>)) (confirmed_by att mirror
        [(''channel'', PStr ''countersignature''), (''counterparty_trade_ref'', PStr (t_ref source))]) (mi_event ids) = (db', Inr ())"
    and tid: "tid = t_id mirror"
    unfolding book_new_def Let_def by (auto split: sum.splits prod.splits option.splits if_splits)
  define db4 where "db4 = with_ledger (bd_ledger bk) (db3\<lparr>cd_trades := bd_rows bk\<rparr>)"
  have k: "ledger_of db3 = ledger_of db" "cd_trades db3 = cd_trades db" using entity_keeps(1)[OF e(1)] entity_keeps(1)[OF e(2)] entity_keeps(2)[OF e(3)] by simp_all
  let ?b = "complete_booking body"
  let ?cols = "dict_set ''uti'' (opt_text (text_of (uti_of db source))) (map (\<lambda>f. (f, get (bq_fields ?b) f)) booked_fields)"
  have b: "bd_ledger bk = booked_ledger flt (ledger_of db) u ?b (mi_book ids) (new_ref ?b clock)" "?new \<notin> t_id ` set (trades_of db)"
    "ni_event (mi_book ids) \<notin> e_id ` set (l_events (ledger_of db))" "bd_rows bk = cd_trades db @ [(?new, ?cols)]"
    using book_trade_unkeyed[OF bt] k by (simp_all add: booked_def books_of_def)
  have ok4: "ledger_ok (ledger_of db4)" using booked_ledger_ok[of "ledger_of db"] ok b by (simp add: db4_def card_ok_def)
  have tr: "trades_of db4 = trades_of db @ [\<lparr>t_id = ?new, t_user = u, t_ref = new_ref ?b clock, t_status = ''PENDING'', t_latest = Some (ni_event (mi_book ids)), t_version = 1\<rparr>]"
    by (simp add: db4_def b(1) booked_ledger_def)
  have mi: "mirror \<in> set (trades_of db4)" "t_id mirror = ?new" using find_SomeD[OF m] by (simp_all add: db4_def)
  have "mirror \<notin> set (trades_of db)" using b(2) mi(2) by (metis image_eqI)
  then have mm: "t_user mirror = u" "t_id mirror = ?new" using mi unfolding tr by auto
  have f: "the_trade db4 (t_id mirror) = Some mirror" using m mm by (simp add: db4_def)
  note st = standsI[OF c[folded db4_def] ok4 f att h[folded db4_def]]
  have nr: "?new \<notin> fst ` set (cd_trades db)" using ok b(2) by (auto simp: card_ok_def)
  then have "columns_of db4 ?new = ?cols" by (auto simp: db4_def columns_of_def b(4) map_add_def split: option.splits dest!: map_of_SomeD) (force)
  then have u: "uti_of db4 mirror = uti_of db source" using uti mm by (auto simp: uti_of_def get_set text_or_none_def text_of_def opt_text_def)
  have "columns_of db4 i = columns_of db i" if "i \<noteq> ?new" for i
    using that by (simp add: db4_def columns_of_def b(4) map_add_def split: option.splits)
  then have "columns_of db' (t_id x) = columns_of db (t_id x)" if "x \<in> set (trades_of db)" for x
    using that b(2) st(3) by (metis columns_of_def image_eqI)
  moreover have "filter (\<lambda>x. t_user x \<noteq> u) (trades_of db') = filter (\<lambda>x. t_user x \<noteq> u) (trades_of db)" using st(2) mm tr by simp
  ultimately show ?thesis using st(1) u mm tid by (simp add: others_kept_def)
qed

lemma best_of_in:
  assumes "best_of cr db shared best ts = Inr (Some (t, bs, hs))" and "\<And>t bs hs. best = Some (t, bs, hs) \<Longrightarrow> P t bs"
    and "\<And>t th h bs. t \<in> set ts \<Longrightarrow> canonical_for cr db t schema_version = Inr (th, h) \<Longrightarrow> compare shared th = Inr bs \<Longrightarrow> P t bs"
  shows "P t bs"
  using assms
proof (induction ts arbitrary: best)
  case (Cons x ts)
  show ?case
  proof (cases "canonical_for cr db x schema_version")
    case (Inl e)
    show ?thesis by (rule Cons.IH[of best]) (use Cons.prems Inl in \<open>auto split: http_error.splits\<close>)
  next
    case (Inr r)
    obtain th h where r: "r = (th, h)" by fastforce
    with Inr Cons.prems(1) obtain b where b: "compare shared th = Inr b"
      and next_best: "best_of cr db shared (case best of None \<Rightarrow> Some (x, b, hexb h) | Some y \<Rightarrow> if length b < length (fst (snd y)) then Some (x, b, hexb h) else best) ts
        = Inr (Some (t, bs, hs))" by (auto simp: bind_res_Inr_iff)
    have "P x b" using Cons.prems(3)[of x th h b] Inr r b by simp
    then show ?thesis
      by (intro Cons.IH[OF next_best]) (use Cons.prems(2,3) in \<open>auto split: option.splits if_splits\<close>)
  qed
qed auto

lemma link_candidateE:
  assumes "link_candidate cr db source signer firm = Inr (Some (t, bs))"
  obtains p h th h' where "t \<in> set (trades_of (cb_chain db))" "t_user t = signer" "canonical_for cr (cb_chain db) source schema_version = Inr (p, h)"
    "canonical_for cr (cb_chain db) t schema_version = Inr (th, h')" "compare p th = Inr bs"
proof -
  obtain p h booker best where c: "canonical_for cr (cb_chain db) source schema_version = Inr (p, h)"
    and b0: "best_of cr (cb_chain db) p None (own_candidates db p firm booker) = Inr best"
    and f: "(case best of Some (t, b, _) \<Rightarrow> if t_user t = signer then Some (t, b) else None | None \<Rightarrow> None) = Some (t, bs)"
    using assms unfolding link_candidate_def bind_res_Inr_iff best_own_booking_def by (auto simp: bind_res_Inr_iff split: option.splits)
  then obtain hs where b: "best_of cr (cb_chain db) p None (own_candidates db p firm booker) = Inr (Some (t, bs, hs))" and u: "t_user t = signer"
    by (cases best) (auto split: if_splits)
  have "t \<in> set (trades_of (cb_chain db)) \<and> (\<exists>th h'. canonical_for cr (cb_chain db) t schema_version = Inr (th, h') \<and> compare p th = Inr bs)"
    by (rule best_of_in[OF b]) (auto simp: own_candidates_def Let_def)
  with c u that show thesis by blast
qed

text \<open>C8: Nothing is booked for the counterparty unless it is the trade that was confirmed. When the booking of the counterparty's side
  fails, the database is as before; when it answers, either they already had a booking under that UTI and nothing changes, or the trade it names is in the signer's own
  book, CONFIRMED, under the confirmed trade's UTI, with a record that hashes to the attested hash and that attestation as its own; and nobody
  else's trades have changed.\<close>

theorem mirror_saved_only_if_same_hash:
  assumes m: "book_mirror cr flt rules db source signer firm ids clock = (db', r)" and ok: "card_ok (cb_chain db)"
    and uti: "text_or_none (uti_of (cb_chain db) source)"
  shows "case r of Inl e \<Rightarrow> db' = db
    | Inr out \<Rightarrow>
        if bo_how out = Existing then db' = db \<and> (\<exists>t. own_booking (cb_chain db) (uti_of (cb_chain db) source) signer = Some t \<and> bo_trade out = t_id t)
        else \<exists>att. current_attestation (ledger_of (cb_chain db)) (t_id source) = Some att
          \<and> stands cr (cb_chain db') (bo_trade out) signer (uti_of (cb_chain db) source) att \<and> others_kept (cb_chain db) (cb_chain db') signer"
proof -
  let ?ch = "cb_chain db"
  show ?thesis
  proof (cases "current_attestation (ledger_of ?ch) (t_id source)")
    case None
    with m show ?thesis by (auto simp: book_mirror_def)
  next
    case (Some att)
    have att: "att \<noteq> []" using Some by (auto simp: current_attestation_def split: option.splits pyval.splits if_splits)
    show ?thesis
    proof (cases "\<exists>v. attested_version att = Inr v \<and> \<not> v < 2 \<and> own_booking ?ch (uti_of ?ch source) signer = None
        \<and> (\<exists>f. link_candidate cr db source signer firm = Inr f)")
      case False
      with m Some show ?thesis
        by (auto simp: book_mirror_def Let_def split: sum.splits if_splits option.splits)
    next
      case True
      then obtain v f where v: "attested_version att = Inr v" "\<not> v < 2" "own_booking ?ch (uti_of ?ch source) signer = None"
        and f: "link_candidate cr db source signer firm = Inr f" by blast
      show ?thesis
      proof (cases "\<exists>t. f = Some (t, [])")
        case True
        then obtain t where t: "f = Some (t, [])" by blast
        with f have mem: "t \<in> set (trades_of ?ch)" "t_user t = signer" using link_candidateE[of cr db source signer firm t "[]"] by metis+
        obtain ch' x where l: "link_booking cr ?ch t source att (mi_event ids) = (ch', x)" by fastforce
        with m Some v f t have x: "(db', r) = (case x of Inl e \<Rightarrow> (db, Inl e)
            | Inr _ \<Rightarrow> (db\<lparr>cb_chain := ch'\<rparr>, Inr \<lparr>bo_trade = t_id t, bo_how = Linked, bo_differs = None\<rparr>))"
          by (auto simp: book_mirror_def split: sum.splits)
        show ?thesis
        proof (cases x)
          case (Inr y)
          with l have "link_booking cr ?ch t source att (mi_event ids) = (ch', Inr ())" by simp
          from link_booking_stands[OF this ok mem(1) att] Inr x Some mem(2) show ?thesis by simp
        qed (use x in simp)
      next
        case False
        obtain ch' x where l: "book_new cr flt rules ?ch source signer att ids clock = (ch', x)" by fastforce
        have x: "(db', r) = (case x of Inl e \<Rightarrow> (db, Inl e)
            | Inr tid \<Rightarrow> (db\<lparr>cb_chain := ch'\<rparr>, Inr \<lparr>bo_trade = tid, bo_how = Booked, bo_differs = map_option (\<lambda>f. length (snd f)) f\<rparr>))"
          using m Some v f l False by (cases f; cases x) (auto simp: book_mirror_def split: list.splits)
        show ?thesis
        proof (cases x)
          case (Inr tid)
          with l have "book_new cr flt rules ?ch source signer att ids clock = (ch', Inr tid)" by simp
          from book_new_stands[OF this ok att uti] Inr x Some show ?thesis by simp
        qed (use x in simp)
      qed
    qed
  qed
qed

subsection \<open>A booking that agrees is linked\<close>

lemma record_uti: "jget (members (record_of u ps items part)) ''uti'' = u"
  by (simp add: record_of_def members_def jget_def)

lemma canonical_forE:
  assumes "canonical_for cr db t schema_version = Inr (p, h)"
  obtains own cp where "load_parties db (columns_of db (t_id t)) = Inr (own, cp)" "h = trade_hash (cr_keccak cr) p"
    "canonical_payload (columns_of db (t_id t)) (own_legs (ledger_of db) t) (identity own) (cp_identity db cp) 2 = Inr p"
proof -
  obtain own cp where l: "load_parties db (columns_of db (t_id t)) = Inr (own, cp)"
    using assms by (auto simp: canonical_for_def trade_parts_def bind_res_Inr_iff)
  show thesis
  proof (cases "canonical_payload (columns_of db (t_id t)) (own_legs (ledger_of db) t) (identity own) (cp_identity db cp) 2")
    case (Inl e)
    with assms l show ?thesis by (cases e) (simp_all add: canonical_for_def trade_parts_def schema_version_def)
  next
    case (Inr q)
    with assms l have "q = p" "h = trade_hash (cr_keccak cr) p" by (auto simp: canonical_for_def trade_parts_def schema_version_def)
    with l Inr that show ?thesis by blast
  qed
qed

lemma canonical_relabelled:
  assumes c: "canonical_for cr db t schema_version = Inr (p, h)" and v: "normalise v = Inr j"
  shows "\<exists>p'. canonical_for cr (set_columns (t_id t) (dict_set ''uti'' v (columns_of db (t_id t))) db) t schema_version = Inr (p', trade_hash (cr_keccak cr) p')
    \<and> sans_uti p' = sans_uti p \<and> jget (members p') ''uti'' = j
    \<and> (\<exists>t' a b. canonical_payload t' (own_legs (ledger_of db) t) a b 2 = Inr p')"
proof -
  let ?cols = "columns_of db (t_id t)" and ?db = "set_columns (t_id t) (dict_set ''uti'' v (columns_of db (t_id t))) db"
  obtain own cp where l: "load_parties db ?cols = Inr (own, cp)"
    and p: "canonical_payload ?cols (own_legs (ledger_of db) t) (identity own) (cp_identity db cp) 2 = Inr p" by (rule canonical_forE[OF c])
  obtain p' where p': "canonical_payload (dict_set ''uti'' v ?cols) (own_legs (ledger_of db) t) (identity own) (cp_identity db cp) 2 = Inr p'"
    "sans_uti p' = sans_uti p" "jget (members p') ''uti'' = j" using relabelled[OF p v] by blast
  have "cp_identity ?db x = cp_identity db x" for x by (simp add: cp_identity_def set_columns_def)
  then have k: "columns_of ?db (t_id t) = dict_set ''uti'' v ?cols" "ledger_of ?db = ledger_of db" "cp_identity ?db = cp_identity db"
    by (simp_all add: set_columns_def columns_of_def dict_get_set fun_eq_iff)
  have "load_parties ?db (dict_set ''uti'' v ?cols) = Inr (own, cp)"
    using l by (simp add: load_parties_def get_set set_columns_def)
  then show ?thesis using p' by (auto simp: canonical_for_def trade_parts_def k schema_version_def)
qed

lemma agreeing_hash:
  assumes s: "canonical_for cr db source schema_version = Inr (p, h)" and t: "canonical_for cr db t schema_version = Inr (th, h')"
    and c: "compare p th = Inr []" and k: "list_all keyable (own_legs (ledger_of db) source)" "list_all keyable (own_legs (ledger_of db) t)"
  shows "\<exists>p'. canonical_for cr (set_columns (t_id t) (dict_set ''uti'' (uti_of db source) (columns_of db (t_id t))) db) t schema_version = Inr (p', h)"
proof -
  obtain own cp where h: "h = trade_hash (cr_keccak cr) p"
    and ps: "canonical_payload (columns_of db (t_id source)) (own_legs (ledger_of db) source) (identity own) (cp_identity db cp) 2 = Inr p"
    by (rule canonical_forE[OF s])
  obtain own' cp' where pt: "canonical_payload (columns_of db (t_id t)) (own_legs (ledger_of db) t) (identity own') (cp_identity db cp') 2 = Inr th"
    by (rule canonical_forE[OF t])
  obtain j where j: "normalise (uti_of db source) = Inr j" "jget (members p) ''uti'' = j"
    using record_cases[OF ps k(1)] unfolding uti_of_def by (metis (no_types, lifting) record_uti)
  obtain p' t' a b where p': "canonical_for cr (set_columns (t_id t) (dict_set ''uti'' (uti_of db source) (columns_of db (t_id t))) db) t schema_version
      = Inr (p', trade_hash (cr_keccak cr) p')" "sans_uti p' = sans_uti th" "jget (members p') ''uti'' = j"
    "canonical_payload t' (own_legs (ledger_of db) t) a b 2 = Inr p'" using canonical_relabelled[OF t j(1)] by blast
  have "canonical_bytes (sans_uti p) = canonical_bytes (sans_uti p')" using compare_exact[OF ps pt k] c p'(2) by simp
  then have "canonical_bytes p = canonical_bytes p'" by (rule same_uti_same_bytes[OF ps p'(4) k]) (simp add: j(2) p'(3))
  with p'(1) h show ?thesis by (simp add: trade_hash_def)
qed

lemma confirm_booking_works:
  assumes "project_from_db (ledger_of db) (t_id t) = Inr pre" and "eid \<notin> e_id ` set (l_events (ledger_of db))" and "the_trade db (t_id t) = Some row"
  shows "\<exists>db'. confirm_booking db0 db (confirmed_by att t from) eid = (db', Inr ())"
proof -
  have "tr_trade (confirmed_by att t from) = t" "tr_key (confirmed_by att t from) = None" by (simp_all add: confirmed_by_def)
  then show ?thesis unfolding confirm_booking_def apply_lifecycle_transition_def Let_def using assms by simp
qed

lemma agreeing_links:
  fixes db :: card_db
  defines "ch \<equiv> cb_chain db"
  assumes att: "current_attestation (ledger_of ch) (t_id source) = Some att" "attested_version att = Inr 2"
    and signed: "canonical_for cr ch source schema_version = Inr (p, h)" "get att ''trade_hash'' = PStr (hexb h)"
    and cand: "link_candidate cr db source signer firm = Inr (Some (t, []))" "t_status t = ''PENDING''"
    and free: "own_booking ch (uti_of ch source) signer = None" "\<not> uti_taken ch signer (t_id t) (uti_of ch source)"
    and legs: "list_all keyable (own_legs (ledger_of ch) source)" "list_all keyable (own_legs (ledger_of ch) t)"
    and writes: "card_ok ch" "project_from_db (ledger_of ch) (t_id t) = Inr pre" "mi_event ids \<notin> e_id ` set (l_events (ledger_of ch))"
  shows "\<exists>ch'. book_mirror cr flt rules db source signer firm ids clock
    = (db\<lparr>cb_chain := ch'\<rparr>, Inr \<lparr>bo_trade = t_id t, bo_how = Linked, bo_differs = None\<rparr>)"
proof -
  obtain th h' where t: "t \<in> set (trades_of ch)" "t_user t = signer" "canonical_for cr ch t schema_version = Inr (th, h')" "compare p th = Inr []"
    using link_candidateE[OF cand(1)] signed(1) unfolding ch_def by (metis Inr_inject prod.inject)
  let ?db1 = "set_columns (t_id t) (dict_set ''uti'' (uti_of ch source) (columns_of ch (t_id t))) ch"
  obtain p' where p': "canonical_for cr ?db1 t schema_version = Inr (p', h)" using agreeing_hash[OF signed(1) t(3,4) legs] by blast
  have l1: "ledger_of ?db1 = ledger_of ch" by (simp add: set_columns_def)
  have "the_trade ch (t_id t) = Some t" using find_by_id[OF _ t(1)] writes(1) by (simp add: card_ok_def ledger_ok_def)
  then obtain ch' where "confirm_booking ch ?db1 (confirmed_by att t [(''channel'', PStr ''countersignature''), (''linked'', PBool True),
      (''counterparty_trade_ref'', PStr (t_ref source))]) (mi_event ids) = (ch', Inr ())"
    using confirm_booking_works[of ?db1 t pre "mi_event ids" t] writes(2,3) unfolding l1 by blast
  then have "link_booking cr ch t source att (mi_event ids) = (ch', Inr ())"
    using cand(2) free(2) t(2) p' signed(2) by (simp add: link_booking_def Let_def)
  then show ?thesis using att cand(1) free(1) by (auto simp: book_mirror_def ch_def)
qed

text \<open>C18: A booking that agrees on every term is linked, never refused for its hash. When the trade is confirmed under schema version 2 with its own hash, the counterparty has no booking under its UTI and
  their best candidate agrees with it, is their own and PENDING, then countersigning links that booking: with the UTI in place its record hashes to
  the attested hash, whatever UTI it carried before.\<close>

theorem agreeing_booking_links:
  fixes db :: card_db
  defines "ch \<equiv> cb_chain db"
  assumes att: "current_attestation (ledger_of ch) (t_id source) = Some att" "attested_version att = Inr 2"
    and signed: "canonical_for cr ch source schema_version = Inr (p, h)" "get att ''trade_hash'' = PStr (hexb h)"
    and cand: "link_candidate cr db source signer firm = Inr (Some (t, []))" "t_status t = ''PENDING''"
    and free: "own_booking ch (uti_of ch source) signer = None" "\<not> uti_taken ch signer (t_id t) (uti_of ch source)"
    and legs: "list_all keyable (own_legs (ledger_of ch) source)" "list_all keyable (own_legs (ledger_of ch) t)"
    and writes: "card_ok ch" "project_from_db (ledger_of ch) (t_id t) = Inr pre" "mi_event ids \<notin> e_id ` set (l_events (ledger_of ch))"
  shows "\<exists>ch'. book_mirror cr flt rules db source signer firm ids clock
    = (db\<lparr>cb_chain := ch'\<rparr>, Inr \<lparr>bo_trade = t_id t, bo_how = Linked, bo_differs = None\<rparr>)"
  unfolding ch_def by (rule agreeing_links[OF att[unfolded ch_def] signed[unfolded ch_def] cand free[unfolded ch_def] legs[unfolded ch_def] writes[unfolded ch_def]])

subsection \<open>Two books\<close>

text \<open>Bank A's confirmed trade \<open>s\<close> and bank B's own pending booking \<open>t\<close> of it; here the hash is the identity.\<close>

definition pair_crypto :: crypto where
  "pair_crypto = deal_crypto\<lparr>cr_keccak := (\<lambda>x. x)\<rparr>"

definition pair_record :: "json \<Rightarrow> json" where
  "pair_record u = JObj [(''schema'', JStr ''rijeka-trade''), (''schema_version'', JInt 2), (''uti'', u),
     (''parties'', JArr [JStr ''LEIA'', JStr ''LEIB'']),
     (''trade'', JObj [(''asset_class'', JNull), (''instrument_type'', JNull), (''structure'', JNull), (''notional'', JNull),
        (''notional_ccy'', JStr ''USD''), (''trade_date'', JNull), (''effective_date'', JNull), (''maturity_date'', JNull)]), (''legs'', JArr [])]"

definition pair_hash :: string where
  "pair_hash = hexb (dumps (pair_record (JStr ''U'')))"

definition pair_att :: pydict where
  "pair_att = [(''schema_version'', int_val 2), (''trade_hash'', PStr pair_hash)]"

definition pair_event :: "string \<Rightarrow> string \<Rightarrow> int \<Rightarrow> string \<Rightarrow> pydict \<Rightarrow> event_row" where
  "pair_event i tid n ty payload = \<lparr>e_id = i, e_trade = tid, e_seq = n, e_type = ty, e_payload = payload, e_pre = None, e_post = None,
     e_user = ''u'', e_hash = None, e_cp_confirmed = False\<rparr>"

definition pair_trade :: "string \<Rightarrow> string \<Rightarrow> string \<Rightarrow> trade_row" where
  "pair_trade tid u st = \<lparr>t_id = tid, t_user = u, t_ref = tid, t_status = st, t_latest = None, t_version = 1\<rparr>"

definition pair_cols :: "string \<Rightarrow> string \<Rightarrow> pyval \<Rightarrow> pydict" where
  "pair_cols own cp uti = [(''own_legal_entity_id'', PStr own), (''counterparty_id'', PStr cp), (''uti'', uti), (''notional_ccy'', PStr ''USD'')]"

definition pair_db :: card_db where
  "pair_db = \<lparr>cb_chain =
     \<lparr>cd_pend = \<lparr>ps_rows = [], ps_ledger = \<lparr>l_trades = [pair_trade ''s'' ''ua'' ''CONFIRMED'', pair_trade ''t'' ''ub'' ''PENDING''], l_legs = [],
        l_events = [pair_event ''e1'' ''s'' 1 ''BOOKED'' [(''trade'', PDict [(''id'', PStr ''s'')])],
                    pair_event ''e2'' ''s'' 2 ''CONFIRMED'' [(''attestation'', PDict pair_att)],
                    pair_event ''e3'' ''t'' 1 ''BOOKED'' [(''trade'', PDict [(''id'', PStr ''t'')])]], l_idem = []\<rparr>\<rparr>,
      cd_table = True, cd_trades = [(''s'', pair_cols ''la'' ''cb'' (PStr ''U'')), (''t'', pair_cols ''mb'' ''ca'' PNone)],
      cd_entities = [(''la'', [(''lei'', PStr ''LEIA'')]), (''lb'', [(''lei'', PStr ''LEIB'')]), (''mb'', [(''lei'', PStr ''LEIB'')]), (''ma'', [(''lei'', PStr ''LEIA'')])],
      cd_counterparties = [(''cb'', [(''legal_entity_id'', PStr ''lb'')]), (''ca'', [(''legal_entity_id'', PStr ''ma'')])], cd_claims = [],
      cd_budget = \<lparr>bg_table = False, bg_rows = [], bg_memory = [], bg_events = [], bg_members = []\<rparr>\<rparr>,
     cb_members = [(''ua'', ''fa''), (''ub'', ''fb'')], cb_leis = [(''LEIA'', ''fa''), (''LEIB'', ''fb'')]\<rparr>"

definition pair_ids :: mirror_ids where
  "pair_ids = \<lparr>mi_own = ''x'', mi_theirs = ''y'', mi_cp = ''z'', mi_book = \<lparr>ni_trade = ''n'', ni_event = ''en'', ni_legs = []\<rparr>, mi_event = ''e9''\<rparr>"

lemma pair_payload:
  "canonical_payload (pair_cols ''la'' ''cb'' (PStr ''U'')) [] [(''lei'', PStr ''LEIA''), (''name'', PNone)] [(''lei'', PStr ''LEIB''), (''name'', PNone)] 2 = Inr (pair_record (JStr ''U''))"
  "canonical_payload (pair_cols ''mb'' ''ca'' PNone) [] [(''lei'', PStr ''LEIB''), (''name'', PNone)] [(''lei'', PStr ''LEIA''), (''name'', PNone)] 2 = Inr (pair_record JNull)"
  by code_simp+

lemma pair_parts:
  "trade_parts (cb_chain pair_db) (pair_trade ''s'' u st) = Inr \<lparr>pt_own = [(''lei'', PStr ''LEIA''), (''name'', PNone)], pt_cp = [(''lei'', PStr ''LEIB''), (''name'', PNone)], pt_legs = []\<rparr>"
  "trade_parts (cb_chain pair_db) (pair_trade ''t'' u st) = Inr \<lparr>pt_own = [(''lei'', PStr ''LEIB''), (''name'', PNone)], pt_cp = [(''lei'', PStr ''LEIA''), (''name'', PNone)], pt_legs = []\<rparr>"
  by (simp_all add: trade_parts_def columns_of_def pair_db_def pair_trade_def own_legs_def load_parties_def row_of_def pair_cols_def get_def
      identity_def cp_identity_def truthy_def)

lemma pair_canonical:
  "canonical_for pair_crypto (cb_chain pair_db) (pair_trade ''s'' u st) schema_version = Inr (pair_record (JStr ''U''), dumps (pair_record (JStr ''U'')))"
  "canonical_for pair_crypto (cb_chain pair_db) (pair_trade ''t'' u st) schema_version = Inr (pair_record JNull, dumps (pair_record JNull))"
proof -
  have "columns_of (cb_chain pair_db) (t_id (pair_trade ''s'' u st)) = pair_cols ''la'' ''cb'' (PStr ''U'')"
    "columns_of (cb_chain pair_db) (t_id (pair_trade ''t'' u st)) = pair_cols ''mb'' ''ca'' PNone" by (simp_all add: columns_of_def pair_db_def pair_trade_def)
  then show "canonical_for pair_crypto (cb_chain pair_db) (pair_trade ''s'' u st) schema_version = Inr (pair_record (JStr ''U''), dumps (pair_record (JStr ''U'')))"
    "canonical_for pair_crypto (cb_chain pair_db) (pair_trade ''t'' u st) schema_version = Inr (pair_record JNull, dumps (pair_record JNull))"
    by (simp_all add: canonical_for_def pair_parts schema_version_def pair_payload trade_hash_def pair_crypto_def canonical_bytes_def)
qed

lemma pair_compare: "compare (pair_record (JStr ''U'')) (pair_record JNull) = Inr []"
  by code_simp

lemma pair_uti: "uti_of (cb_chain pair_db) (pair_trade ''s'' u st) = PStr ''U''" "uti_of (cb_chain pair_db) (pair_trade ''t'' u st) = PNone"
  by (simp_all add: uti_of_def columns_of_def pair_db_def pair_trade_def pair_cols_def get_def)

lemma pair_trades: "trades_of (cb_chain pair_db) = [pair_trade ''s'' ''ua'' ''CONFIRMED'', pair_trade ''t'' ''ub'' ''PENDING'']"
  by (simp add: pair_db_def)

lemma pair_candidates: "own_candidates pair_db (pair_record (JStr ''U'')) ''fb'' ''fa'' = [pair_trade ''t'' ''ub'' ''PENDING'']"
proof -
  have "cp_lei (cb_chain pair_db) (pair_trade ''t'' u st) = PStr ''LEIA''" for u st
    by (simp add: cp_lei_def columns_of_def pair_db_def pair_trade_def pair_cols_def get_def row_of_def truthy_def)
  moreover have "members_of pair_db ''fb'' = [''ub'']" "members_of pair_db ''fa'' = [''ua'']" "leis_of pair_db ''fa'' = [''LEIA'']"
    by (simp_all add: members_of_def leis_of_def pair_db_def)
  moreover have "t_user (pair_trade i u st) = u" "t_status (pair_trade i u st) = st" for i u st by (simp_all add: pair_trade_def)
  ultimately show ?thesis by (simp add: own_candidates_def Let_def pair_trades pair_uti truthy_def)
qed

lemma pair_link: "link_candidate pair_crypto pair_db (pair_trade ''s'' ''ua'' ''CONFIRMED'') ''ub'' ''fb'' = Inr (Some (pair_trade ''t'' ''ub'' ''PENDING'', []))"
proof -
  have "users_firm pair_db (t_user (pair_trade ''s'' ''ua'' ''CONFIRMED'')) = Some ''fa''" by (simp add: users_firm_def pair_db_def pair_trade_def)
  moreover have "t_user (pair_trade ''t'' ''ub'' ''PENDING'') = ''ub''" by (simp add: pair_trade_def)
  ultimately show ?thesis
    by (simp add: link_candidate_def pair_canonical best_own_booking_def pair_candidates pair_compare)
qed

lemma pair_attestation: "current_attestation (ledger_of (cb_chain pair_db)) (t_id (pair_trade ''s'' u st)) = Some pair_att" "attested_version pair_att = Inr 2"
proof -
  show "attested_version pair_att = Inr 2" by (simp add: attested_version_def pair_att_def get_def int_val_def truthy_def int_or_0_def)
  show "current_attestation (ledger_of (cb_chain pair_db)) (t_id (pair_trade ''s'' u st)) = Some pair_att"
    by (simp add: current_attestation_def latest_attested_event_def trade_events_of_def pair_db_def pair_trade_def pair_event_def attested_types_def get_def pair_att_def)
qed

lemma pair_ok: "card_ok (cb_chain pair_db)"
proof -
  have "trade_events_of (ledger_of (cb_chain pair_db)) tid = (if tid = ''s'' then take 2 (l_events (ledger_of (cb_chain pair_db)))
      else if tid = ''t'' then drop 2 (l_events (ledger_of (cb_chain pair_db))) else [])" for tid
    by (simp add: trade_events_of_def pair_db_def pair_event_def)
  moreover have "[1..2] = [1, 2 :: int]" by code_simp
  ultimately show ?thesis by (simp add: card_ok_def ledger_ok_def) (simp add: pair_db_def pair_event_def pair_trade_def)
qed

lemma pair_links:
  "own_booking (cb_chain pair_db) (uti_of (cb_chain pair_db) (pair_trade ''s'' ''ua'' ''CONFIRMED'')) ''ub'' = None"
  "\<not> uti_taken (cb_chain pair_db) ''ub'' (t_id (pair_trade ''t'' ''ub'' ''PENDING'')) (uti_of (cb_chain pair_db) (pair_trade ''s'' ''ua'' ''CONFIRMED''))"
  "list_all keyable (own_legs (ledger_of (cb_chain pair_db)) t)" "get pair_att ''trade_hash'' = PStr (hexb (dumps (pair_record (JStr ''U''))))"
  "mi_event pair_ids \<notin> e_id ` set (l_events (ledger_of (cb_chain pair_db)))" "t_status (pair_trade ''t'' ''ub'' ''PENDING'') = ''PENDING''"
  "\<exists>pre. project_from_db (ledger_of (cb_chain pair_db)) (t_id (pair_trade ''t'' ''ub'' ''PENDING'')) = Inr pre"
proof -
  have u: "t_user (pair_trade i u st) = u" for i u st by (simp add: pair_trade_def)
  show "own_booking (cb_chain pair_db) (uti_of (cb_chain pair_db) (pair_trade ''s'' ''ua'' ''CONFIRMED'')) ''ub'' = None"
    "\<not> uti_taken (cb_chain pair_db) ''ub'' (t_id (pair_trade ''t'' ''ub'' ''PENDING'')) (uti_of (cb_chain pair_db) (pair_trade ''s'' ''ua'' ''CONFIRMED''))"
    by (simp_all add: own_booking_def uti_taken_def pair_trades pair_uti u)
  show "list_all keyable (own_legs (ledger_of (cb_chain pair_db)) t)" by (simp add: own_legs_def pair_db_def)
  show "get pair_att ''trade_hash'' = PStr (hexb (dumps (pair_record (JStr ''U''))))" by (simp add: pair_att_def get_def pair_hash_def)
  show "mi_event pair_ids \<notin> e_id ` set (l_events (ledger_of (cb_chain pair_db)))" "t_status (pair_trade ''t'' ''ub'' ''PENDING'') = ''PENDING''"
    by (simp_all add: pair_ids_def pair_db_def pair_event_def pair_trade_def)
  have "project_from_db (ledger_of (cb_chain pair_db)) (t_id (pair_trade ''t'' ''ub'' ''PENDING''))
      = project [\<lparr>event_seq = 1, event_type = ''BOOKED'', ev_payload = [(''trade'', PDict [(''id'', PStr ''t'')])]\<rparr>]"
    by (simp add: project_from_db_def project_rows_def pair_db_def pair_event_def pair_trade_def as_event_def)
  also have "\<dots> = Inr \<lparr>p_trade = Some [(''id'', PStr ''t''), (''status'', PStr ''PENDING'')], p_legs = [], p_cashflows = []\<rparr>" by code_simp
  finally show "\<exists>pre. project_from_db (ledger_of (cb_chain pair_db)) (t_id (pair_trade ''t'' ''ub'' ''PENDING'')) = Inr pre" by blast
qed

theorem agreeing_booking_links_witness:
  "\<exists>ch'. book_mirror pair_crypto (\<lambda>d. d) (\<lambda>_ _. True) pair_db (pair_trade ''s'' ''ua'' ''CONFIRMED'') ''ub'' ''fb'' pair_ids 0
    = (pair_db\<lparr>cb_chain := ch'\<rparr>, Inr \<lparr>bo_trade = t_id (pair_trade ''t'' ''ub'' ''PENDING''), bo_how = Linked, bo_differs = None\<rparr>)"
proof -
  obtain pre where "project_from_db (ledger_of (cb_chain pair_db)) (t_id (pair_trade ''t'' ''ub'' ''PENDING'')) = Inr pre" using pair_links(7) by blast
  then show ?thesis
    by (rule agreeing_booking_links[OF pair_attestation pair_canonical(1) pair_links(4) pair_link pair_links(6,1,2,3,3) pair_ok _ pair_links(5)])
qed

theorem mirror_saved_only_if_same_hash_witness:
  "\<exists>db' out. book_mirror pair_crypto (\<lambda>d. d) (\<lambda>_ _. True) pair_db (pair_trade ''s'' ''ua'' ''CONFIRMED'') ''ub'' ''fb'' pair_ids 0 = (db', Inr out)
     \<and> bo_trade out = ''t'' \<and> stands pair_crypto (cb_chain db') ''t'' ''ub'' (PStr ''U'') pair_att"
proof -
  obtain pre where pre: "project_from_db (ledger_of (cb_chain pair_db)) (t_id (pair_trade ''t'' ''ub'' ''PENDING'')) = Inr pre" using pair_links(7) by blast
  obtain ch' where m: "book_mirror pair_crypto (\<lambda>d. d) (\<lambda>_ _. True) pair_db (pair_trade ''s'' ''ua'' ''CONFIRMED'') ''ub'' ''fb'' pair_ids 0
      = (pair_db\<lparr>cb_chain := ch'\<rparr>, Inr \<lparr>bo_trade = t_id (pair_trade ''t'' ''ub'' ''PENDING''), bo_how = Linked, bo_differs = None\<rparr>)"
    using agreeing_links[OF pair_attestation pair_canonical(1) pair_links(4) pair_link pair_links(6,1,2,3,3) pair_ok pre pair_links(5)] by blast
  have u: "text_or_none (uti_of (cb_chain pair_db) (pair_trade ''s'' ''ua'' ''CONFIRMED''))" by (simp add: pair_uti text_or_none_def)
  have "t_id (pair_trade ''t'' ''ub'' ''PENDING'') = ''t''" by (simp add: pair_trade_def)
  with mirror_saved_only_if_same_hash[OF m pair_ok u] m show ?thesis by (simp add: pair_attestation(1) pair_uti)
qed

end
