(* ===== verification/Card_Routes.thy ===== *)
theory Card_Routes
  imports Card_Bookings
begin

section \<open>Trade cards and signing wallets\<close>

text \<open>
  The routes of \<open>api/routes/trade_cards.py\<close>: registering the wallet a firm countersigns with, sharing a trade into a chat room, and the
  counterparty's countersignature from the card, which confirms the trade over the contract and then books the counterparty's side. With them the
  access rules of \<open>api/routes/chat.py\<close> that they use.

  Identifiers are as parsed; of a message only the card and the time of the room's last one are kept, not its text, its read marks or the Telegram mirror. \<open>rec\<close> is \<open>Account.recover_message\<close>, \<open>None\<close>
  where it raises; the address check is the checksum of \<open>crypto\<close>, \<open>None\<close> where the text is no address. Time is in microseconds.
\<close>

subsection \<open>Rooms\<close>

record card =
  ca_id :: string
  ca_room :: string
  ca_trade :: string
  ca_booker :: string
  ca_cp :: string
  ca_hash :: string
  ca_uti :: pyval
  ca_status :: string

record seat =
  se_room :: string
  se_user :: string
  se_firm :: string
  se_status :: string

record desk =
  dk_db :: card_db
  dk_roles :: "(string \<times> string) list"
  dk_names :: "(string \<times> string) list"
  dk_kinds :: "(string \<times> string) list"
  dk_rooms :: "(string \<times> string) list"
  dk_last :: "(string \<times> int) list"
  dk_seats :: "seat list"
  dk_cards :: "card list"

abbreviation chain_of :: "desk \<Rightarrow> chain_db" where
  "chain_of d \<equiv> cb_chain (dk_db d)"

definition posted :: "string \<Rightarrow> int \<Rightarrow> desk \<Rightarrow> desk" where
  "posted room now d = d\<lparr>dk_last := dict_set room now (dk_last d)\<rparr>"

definition role_of :: "desk \<Rightarrow> string \<Rightarrow> string" where
  "role_of d u = (case dict_get (dk_roles d) u of None \<Rightarrow> ''MEMBER'' | Some r \<Rightarrow> r)"

definition my_firm :: "desk \<Rightarrow> string \<Rightarrow> string http" where
  "my_firm d u = (case users_firm (dk_db d) u of None \<Rightarrow> Inl (Http 403) | Some f \<Rightarrow> Inr f)"

definition access_of :: "desk \<Rightarrow> string \<Rightarrow> string \<Rightarrow> string \<Rightarrow> string" where
  "access_of d room u firm =
     (case List.find (\<lambda>s. se_room s = room \<and> se_user s = u) (dk_seats d) of
        Some s \<Rightarrow> if se_status s \<in> {''JOINED'', ''INVITED''} then se_status s
                  else if role_of d u = ''COMPLIANCE'' \<and> list_ex (\<lambda>x. se_room x = room \<and> se_firm x = firm \<and> se_status x \<in> {''JOINED'', ''LEFT''}) (dk_seats d)
                  then ''OBSERVER'' else []
      | None \<Rightarrow> if role_of d u = ''COMPLIANCE'' \<and> list_ex (\<lambda>x. se_room x = room \<and> se_firm x = firm \<and> se_status x \<in> {''JOINED'', ''LEFT''}) (dk_seats d)
                then ''OBSERVER'' else [])"

text \<open>\<open>_room_for\<close>: the room's kind and the caller's access.\<close>

definition room_for :: "desk \<Rightarrow> string \<Rightarrow> string \<Rightarrow> string \<Rightarrow> string list \<Rightarrow> (string \<times> string) http" where
  "room_for d room u firm needed =
     (case dict_get (dk_rooms d) room of None \<Rightarrow> Inl (Http 404)
      | Some kind \<Rightarrow>
          (let a = access_of d room u firm in
           if a = [] then Inl (Http 404) else if a \<notin> set needed then Inl (Http 403) else Inr (kind, a)))"

definition room_firms :: "desk \<Rightarrow> string \<Rightarrow> string list" where
  "room_firms d room = remdups (map se_firm (filter (\<lambda>s. se_room s = room \<and> se_status s \<in> {''JOINED'', ''INVITED''}) (dk_seats d)))"

subsection \<open>Registering a signing wallet\<close>

definition challenge_prefix :: string where
  "challenge_prefix = ''Rijeka: register signing wallet''"

definition challenge_ttl :: int where
  "challenge_ttl = 600"

definition nl :: string where
  "nl = [CHR 0x0A]"

fun comma_list :: "string list \<Rightarrow> string" where
  "comma_list [] = []"
| "comma_list [s] = s"
| "comma_list (s # ss) = s @ '', '' @ comma_list ss"

definition closing :: string where
  "closing = ''Signing this proves you control this wallet. It does not move funds or cost gas.''"

definition challenge_text :: "string \<Rightarrow> string list \<Rightarrow> string \<Rightarrow> int \<Rightarrow> string" where
  "challenge_text name leis address ts =
     challenge_prefix @ nl @ nl @ ''Firm: '' @ name @ nl @ ''LEI: '' @ comma_list leis @ nl @ ''Address: '' @ address @ nl @ ''Issued: '' @ int_str ts
       @ nl @ nl @ closing"

definition firm_name :: "desk \<Rightarrow> string \<Rightarrow> string" where
  "firm_name d firm = (case dict_get (dk_names d) firm of None \<Rightarrow> [] | Some n \<Rightarrow> n)"

text \<open>The guards of both routes: an admin, an address, a claimed LEI (which registering does not ask for).\<close>

definition signer_challenge :: "crypto \<Rightarrow> desk \<Rightarrow> string \<Rightarrow> string \<Rightarrow> int \<Rightarrow> string http" where
  "signer_challenge cr d u address now =
     bind_res (my_firm d u) (\<lambda>firm.
     bind_res (require (role_of d u = ''ADMIN'') (Http 403)) (\<lambda>_.
     case cr_checksum cr address of None \<Rightarrow> Inl (Http 422)
     | Some a \<Rightarrow>
         (let leis = sort (leis_of (dk_db d) firm) in
          bind_res (require (leis \<noteq> []) (Http 422)) (\<lambda>_. Inr (challenge_text (firm_name d firm) leis a (now div 1000000))))))"

text \<open>\<open>message.rsplit("Issued: ", 1)[1].split("\n", 1)[0]\<close>\<close>

fun after_last :: "string \<Rightarrow> string \<Rightarrow> string option" where
  "after_last p [] = None"
| "after_last p (x # xs) = (case after_last p xs of Some r \<Rightarrow> Some r
     | None \<Rightarrow> if starts_with p (x # xs) then Some (drop (length p) (x # xs)) else None)"

definition issued_at :: "string \<Rightarrow> int option" where
  "issued_at message = (case after_last ''Issued: '' message of None \<Rightarrow> None | Some r \<Rightarrow> py_int (takeWhile (\<lambda>c. c \<noteq> CHR 0x0A) r))"

definition set_signer :: "string list \<Rightarrow> string \<Rightarrow> (string \<times> string option) list \<Rightarrow> (string \<times> string option) list" where
  "set_signer leis address claims = map (\<lambda>(l, a). if l \<in> set leis then (l, Some address) else (l, a)) claims"

definition register_signer :: "crypto \<Rightarrow> (string \<Rightarrow> string \<Rightarrow> string option) \<Rightarrow> desk \<Rightarrow> string \<Rightarrow> string \<Rightarrow> string \<Rightarrow> string \<Rightarrow> int \<Rightarrow> desk \<times> string list http" where
  "register_signer cr rec d u addr message signature now =
     (if 2000 < length message then (d, Inl (Http 422)) else
      case my_firm d u of Inl e \<Rightarrow> (d, Inl e)
      | Inr firm \<Rightarrow>
          if role_of d u \<noteq> ''ADMIN'' then (d, Inl (Http 403))
          else (case cr_checksum cr addr of None \<Rightarrow> (d, Inl (Http 422))
                | Some a \<Rightarrow>
                    (let leis = sort (leis_of (dk_db d) firm) in
                     case issued_at message of None \<Rightarrow> (d, Inl (Http 422))
                     | Some ts \<Rightarrow>
                         if message \<noteq> challenge_text (firm_name d firm) leis a ts then (d, Inl (Http 422))
                         else if challenge_ttl * 1000000 < \<bar>now - ts * 1000000\<bar> then (d, Inl (Http 422))
                         else (case rec message signature of None \<Rightarrow> (d, Inl (Http 422))
                               | Some r \<Rightarrow>
                                   if str_lower r \<noteq> str_lower a then (d, Inl (Http 422))
                                   else (d\<lparr>dk_db := (dk_db d)\<lparr>cb_chain := (chain_of d)\<lparr>cd_claims := set_signer leis a (cd_claims (chain_of d))\<rparr>\<rparr>\<rparr>, Inr leis)))))"

subsection \<open>Sharing\<close>

text \<open>\<open>_shareable\<close>: the other firm and the caller's trades with it, if the room is the caller's firm and exactly one other.\<close>

definition shareable :: "desk \<Rightarrow> string \<Rightarrow> string \<Rightarrow> string \<Rightarrow> string \<Rightarrow> (string \<times> trade_row list) option" where
  "shareable d room kind u firm =
     (let firms = room_firms d room in
      case filter (\<lambda>f. f \<noteq> firm) firms of
        [other] \<Rightarrow>
          if kind = ''SUPPORT'' \<or> firm \<notin> set firms \<or> dict_get (dk_kinds d) other = Some ''PLATFORM'' then None
          else Some (other, filter (\<lambda>t. t_user t = u \<and> t_status t \<noteq> ''CANCELLED'' \<and> cp_lei (chain_of d) t \<in> PStr ` set (leis_of (dk_db d) other))
                      (trades_of (chain_of d)))
      | _ \<Rightarrow> None)"

definition existing_card :: "desk \<Rightarrow> string \<Rightarrow> string \<Rightarrow> card option" where
  "existing_card d room tid = List.find (\<lambda>c. ca_room c = room \<and> ca_trade c = tid) (dk_cards d)"

text \<open>\<open>_post_card\<close>: once per room and trade; the UTI is assigned before anyone sees a hash. \<open>uuid\<close> is the fresh part of the UTI.\<close>

definition post_card :: "crypto \<Rightarrow> desk \<Rightarrow> string \<Rightarrow> string \<Rightarrow> string \<Rightarrow> trade_row \<Rightarrow> string \<Rightarrow> string \<Rightarrow> int \<Rightarrow> desk \<times> (card \<times> bool) http" where
  "post_card cr d room firm other t fresh uuid now =
     (case existing_card d room (t_id t) of
        Some c \<Rightarrow> (d, Inr (c, True))
      | None \<Rightarrow>
          (case bind_res (ensure_uti (chain_of d) t uuid) (\<lambda>ch. bind_res (canonical_for cr ch t schema_version) (\<lambda>(_, h). Inr (ch, h))) of
             Inl e \<Rightarrow> (d, Inl e)
           | Inr (ch, h) \<Rightarrow>
               (let c = \<lparr>ca_id = fresh, ca_room = room, ca_trade = t_id t, ca_booker = firm, ca_cp = other, ca_hash = hexb h, ca_uti = uti_of ch t,
                         ca_status = t_status t\<rparr>
                in (posted room now (d\<lparr>dk_db := (dk_db d)\<lparr>cb_chain := ch\<rparr>, dk_cards := dk_cards d @ [c]\<rparr>), Inr (c, False)))))"

definition share_trade :: "crypto \<Rightarrow> desk \<Rightarrow> string \<Rightarrow> string \<Rightarrow> string \<Rightarrow> string \<Rightarrow> string \<Rightarrow> int \<Rightarrow> desk \<times> (card \<times> bool) http" where
  "share_trade cr d u room tid fresh uuid now =
     (case bind_res (my_firm d u) (\<lambda>firm. bind_res (room_for d room u firm [''JOINED'']) (\<lambda>(kind, _). Inr (firm, kind))) of
        Inl e \<Rightarrow> (d, Inl e)
      | Inr (firm, kind) \<Rightarrow>
          (case shareable d room kind u firm of None \<Rightarrow> (d, Inl (Http 404))
           | Some (other, ts) \<Rightarrow>
               (case List.find (\<lambda>t. t_id t = tid) ts of None \<Rightarrow> (d, Inl (Http 404))
                | Some t \<Rightarrow> post_card cr d room firm other t fresh uuid now)))"

subsection \<open>The card\<close>

datatype side = Booker | Counterparty

record card_ctx =
  cc_firm :: string
  cc_access :: string
  cc_card :: card
  cc_side :: side
  cc_trade :: trade_row

definition card_context :: "desk \<Rightarrow> string \<Rightarrow> string \<Rightarrow> card_ctx http" where
  "card_context d mid u =
     bind_res (my_firm d u) (\<lambda>firm.
     case List.find (\<lambda>c. ca_id c = mid) (dk_cards d) of None \<Rightarrow> Inl (Http 404)
     | Some c \<Rightarrow>
         bind_res (room_for d (ca_room c) u firm [''JOINED'', ''OBSERVER'']) (\<lambda>(_, a).
         bind_res (if firm = ca_booker c then Inr Booker else if firm = ca_cp c then Inr Counterparty else Inl (Http 403)) (\<lambda>side.
         case the_trade (chain_of d) (ca_trade c) of None \<Rightarrow> Inl (Http 404)
         | Some t \<Rightarrow> Inr \<lparr>cc_firm = firm, cc_access = a, cc_card = c, cc_side = side, cc_trade = t\<rparr>)))"

record card_body =
  cy_address :: string
  cy_signature :: string
  cy_hash :: string
  cy_mirror :: bool

text \<open>The answer: what was booked, or why not. A booking that fails does not undo the confirmation.\<close>

datatype booking_answer = Not_Asked | Answer booking_out | Booking_Failed

definition with_chain :: "chain_db \<Rightarrow> desk \<Rightarrow> desk" where
  "with_chain ch d = d\<lparr>dk_db := (dk_db d)\<lparr>cb_chain := ch\<rparr>\<rparr>"

definition book_after :: "setting \<Rightarrow> (decimal \<Rightarrow> decimal) \<Rightarrow> desk \<Rightarrow> bool \<Rightarrow> string \<Rightarrow> string \<Rightarrow> string \<Rightarrow> mirror_ids \<Rightarrow> nat \<Rightarrow> desk \<times> booking_answer" where
  "book_after cx flt d asked tid u firm ids clock =
     (if \<not> asked then (d, Not_Asked)
      else (case the_trade (chain_of d) tid of None \<Rightarrow> (d, Booking_Failed)
            | Some t \<Rightarrow>
                (case book_mirror (cx_crypto cx) flt (cx_rules cx) (dk_db d) t u firm ids clock of
                   (_, Inl _) \<Rightarrow> (d, Booking_Failed)
                 | (db, Inr out) \<Rightarrow> (d\<lparr>dk_db := db\<rparr>, Answer out))))"

definition countersign_guards :: "crypto \<Rightarrow> desk \<Rightarrow> card_ctx \<Rightarrow> unit http" where
  "countersign_guards cr d x =
     bind_res (require (cc_side x = Counterparty \<and> cc_access x = ''JOINED'') (Http 403)) (\<lambda>_.
     bind_res (require (t_status (cc_trade x) = ''PENDING'') (Http 409)) (\<lambda>_.
     bind_res (registered_signer cr (chain_of d) (cp_lei (chain_of d) (cc_trade x))) (\<lambda>reg.
       require (reg \<noteq> None) (Http 409))))"

definition card_note :: "card \<Rightarrow> string \<Rightarrow> pydict" where
  "card_note c u = [(''channel'', PStr ''chat''), (''room_id'', PStr (ca_room c)), (''user_id'', PStr u)]"

definition card_countersign ::
    "setting \<Rightarrow> 'c chain_ops \<Rightarrow> (decimal \<Rightarrow> decimal) \<Rightarrow> desk \<Rightarrow> 'c \<Rightarrow> string \<Rightarrow> string \<Rightarrow> card_body \<Rightarrow> chain_request \<Rightarrow> mirror_ids \<Rightarrow> nat
      \<Rightarrow> desk \<times> 'c \<times> booking_answer http" where
  "card_countersign cx ops flt d c mid u body rq ids clock =
     (case bind_res (card_context d mid u) (\<lambda>x. bind_res (countersign_guards (cx_crypto cx) d x) (\<lambda>_. Inr x)) of
        Inl e \<Rightarrow> (d, c, Inl e)
      | Inr x \<Rightarrow>
          (case countersign_trade cx ops (chain_of d) c (cc_trade x) (cy_address body) (cy_signature body) (Some (cy_hash body)) None
                  (Some (card_note (cc_card x) u)) (Some u) rq of
             (ch, c', Inl e) \<Rightarrow> (with_chain ch d, c', Inl e)
           | (ch, c', Inr _) \<Rightarrow>
               (let (d', ans) = book_after cx flt (posted (ca_room (cc_card x)) (in_now rq) (with_chain ch d)) (cy_mirror body) (t_id (cc_trade x)) u (cc_firm x) ids clock
                in (d', c', Inr ans))))"

definition card_book_mirror ::
    "setting \<Rightarrow> (decimal \<Rightarrow> decimal) \<Rightarrow> desk \<Rightarrow> string \<Rightarrow> string \<Rightarrow> mirror_ids \<Rightarrow> nat \<Rightarrow> desk \<times> booking_out http" where
  "card_book_mirror cx flt d mid u ids clock =
     (case card_context d mid u of Inl e \<Rightarrow> (d, Inl e)
      | Inr x \<Rightarrow>
          if cc_side x \<noteq> Counterparty \<or> cc_access x \<noteq> ''JOINED'' then (d, Inl (Http 403))
          else (case book_mirror (cx_crypto cx) flt (cx_rules cx) (dk_db d) (cc_trade x) u (cc_firm x) ids clock of
                  (db, r) \<Rightarrow> (d\<lparr>dk_db := db\<rparr>, r)))"

subsection \<open>Registering\<close>

lemma my_firm_Inr: "my_firm d u = Inr f \<longleftrightarrow> users_firm (dk_db d) u = Some f"
  by (simp add: my_firm_def split: option.splits)

lemma set_signer_get:
  "dict_get (set_signer leis a claims) l = (case dict_get claims l of None \<Rightarrow> None | Some x \<Rightarrow> if l \<in> set leis then Some (Some a) else Some x)"
  by (induction claims) (auto simp: set_signer_def)

text \<open>C12: A signing wallet is registered by its holder for the holder's firm. A registration that succeeds was made by an admin of the firm, over the very text the
  firm is challenged with for that address and its LEIs, issued within ten minutes of now, and the signature recovers to that address: then the claims of
  that firm's LEIs, and no other, name the address. One that fails changes nothing.\<close>

theorem wallet_registered_by_holder:
  assumes r: "register_signer cr rec d u addr message signature now = (d', r)"
  shows "case r of Inl e \<Rightarrow> d' = d
    | Inr leis \<Rightarrow> role_of d u = ''ADMIN'' \<and> (\<exists>firm a ts who. users_firm (dk_db d) u = Some firm \<and> leis = sort (leis_of (dk_db d) firm)
        \<and> cr_checksum cr addr = Some a \<and> message = challenge_text (firm_name d firm) leis a ts \<and> \<bar>now - ts * 1000000\<bar> \<le> challenge_ttl * 1000000
        \<and> rec message signature = Some who \<and> str_lower who = str_lower a
        \<and> (\<forall>l. dict_get (cd_claims (chain_of d')) l
              = (if l \<in> set leis \<and> dict_get (cd_claims (chain_of d)) l \<noteq> None then Some (Some a) else dict_get (cd_claims (chain_of d)) l))
        \<and> with_chain ((chain_of d')\<lparr>cd_claims := cd_claims (chain_of d)\<rparr>) d' = d)"
proof -
  have same: "with_chain ((chain_of d)\<lparr>cd_claims := cd_claims (chain_of d)\<rparr>) d = d" by (simp add: with_chain_def)
  show ?thesis
    using r unfolding register_signer_def Let_def
    by (auto simp: my_firm_Inr set_signer_get with_chain_def split: sum.splits option.splits if_splits)
qed

lemma not_I_skips: "(\<And>c. c \<in> set xs \<Longrightarrow> c \<noteq> CHR ''I'') \<Longrightarrow> after_last ''Issued: '' (xs @ r) = after_last ''Issued: '' r"
proof (induction xs)
  case (Cons x xs)
  have "x \<noteq> CHR ''I''" using Cons.prems[of x] by simp
  then have "\<not> starts_with ''Issued: '' ((x # xs) @ r)" by simp
  moreover have "after_last ''Issued: '' (xs @ r) = after_last ''Issued: '' r" by (rule Cons.IH) (use Cons.prems in simp)
  ultimately show ?case by (auto split: option.splits)
qed simp

lemma after_last_prefix: "after_last p r = Some x \<Longrightarrow> after_last p (xs @ r) = Some x"
  by (induction xs) auto

lemma int_str_chars: "c \<in> set (int_str n) \<Longrightarrow> is_digit c \<or> c = CHR ''-''"
  by (auto simp: int_str_def nat_digits_all_digit split: if_splits)

lemma issued_at_challenge:
  assumes "0 \<le> ts"
  shows "issued_at (challenge_text name leis address ts) = Some ts"
proof -
  let ?rest = "int_str ts @ nl @ nl @ closing"
  have none: "after_last ''Issued: '' (nl @ nl @ closing) = None" by code_simp
  have "c \<noteq> CHR ''I''" if "c \<in> set (int_str ts)" for c using int_str_chars[OF that] by (auto simp: is_digit_def)
  then have "after_last ''Issued: '' ?rest = None" using not_I_skips none by simp
  moreover have "after_last ''Issued: '' (''ssued: '' @ ?rest) = after_last ''Issued: '' ?rest" by (rule not_I_skips) auto
  ultimately have "after_last ''Issued: '' (''Issued: '' @ ?rest) = Some ?rest" by simp
  then have a: "after_last ''Issued: '' (challenge_text name leis address ts) = Some ?rest"
    using after_last_prefix[of "''Issued: ''" "''Issued: '' @ ?rest" _ "challenge_prefix @ nl @ nl @ ''Firm: '' @ name @ nl @ ''LEI: '' @ comma_list leis @ nl @ ''Address: '' @ address @ nl"]
    by (simp add: challenge_text_def)
  have d: "c \<noteq> CHR 0x0A" "c \<noteq> CHR ''_''" "\<not> is_space c" "c \<noteq> CHR ''-''" "c \<noteq> CHR ''+''" if "c \<in> set (int_str ts)" for c
    using that assms nat_digits_all_digit[of c "nat ts"] by (auto simp: int_str_def is_digit_def is_space_def Let_def)
  have "takeWhile (\<lambda>c. c \<noteq> CHR 0x0A) ?rest = int_str ts"
    using d(1) by (simp add: takeWhile_append nl_def)
  moreover have "py_int (int_str ts) = Some ts"
  proof -
    have st: "str_strip (int_str ts) = int_str ts" by (rule str_strip_id) (rule d(3))
    have i: "int_str ts = nat_digits (nat ts)" using assms by (simp add: int_str_def)
    have sp: "str_split CHR ''_'' xs = [xs]" if "CHR ''_'' \<notin> set xs" for xs using that by (induction xs) auto
    obtain x xs where x: "nat_digits (nat ts) = x # xs" by (cases "nat_digits (nat ts)") auto
    have dd: "list_all is_digit (nat_digits (nat ts))" using nat_digits_all_digit by (auto simp: list_all_iff)
    have "x \<noteq> CHR ''-''" "x \<noteq> CHR ''+''" using d(4,5)[of x] i x by simp_all
    moreover have "str_split CHR ''_'' (nat_digits (nat ts)) = [nat_digits (nat ts)]" using d(2) i by (intro sp) metis
    ultimately show ?thesis using st i x dd assms
      by (simp add: py_int_def Let_def del: str_split.simps) (metis digits_val_nat_digits int_nat_eq)
  qed
  ultimately show ?thesis using a by (simp add: issued_at_def)
qed

text \<open>C28: An issued challenge registers. The text an admin is given for an address, signed by that address and sent back within the ten minutes, is recognised whatever
  the firm's name if the whole is no longer than 2000 characters, and registers the address for every LEI of the firm.\<close>

theorem issued_challenge_registers:
  assumes c: "signer_challenge cr d u addr then0 = Inr message" and a: "cr_checksum cr addr = Some a"
    and s: "rec message signature = Some who" "str_lower who = str_lower a"
    and t: "0 \<le> then0" "then0 \<le> now" "now \<le> then0 + (challenge_ttl - 1) * 1000000" and n: "length message \<le> 2000"
  shows "\<exists>d' leis. register_signer cr rec d u addr message signature now = (d', Inr leis) \<and> leis \<noteq> []
    \<and> (\<forall>l \<in> set leis. dict_get (cd_claims (chain_of d)) l \<noteq> None \<longrightarrow> dict_get (cd_claims (chain_of d')) l = Some (Some a))"
proof -
  obtain firm where f: "my_firm d u = Inr firm" "role_of d u = ''ADMIN''" "sort (leis_of (dk_db d) firm) \<noteq> []"
    and m: "message = challenge_text (firm_name d firm) (sort (leis_of (dk_db d) firm)) a (then0 div 1000000)"
    using c a by (auto simp: signer_challenge_def bind_res_Inr_iff Let_def)
  have i: "issued_at message = Some (then0 div 1000000)" unfolding m by (rule issued_at_challenge) (use t(1) in simp)
  have "then0 - then0 div 1000000 * 1000000 = then0 mod 1000000" by (simp add: minus_div_mult_eq_mod)
  moreover have "0 \<le> then0 mod 1000000" "then0 mod 1000000 < 1000000" by simp_all
  ultimately have "\<not> challenge_ttl * 1000000 < \<bar>now - then0 div 1000000 * 1000000\<bar>" using t(2,3) by (simp add: challenge_ttl_def)
  then show ?thesis using f a i s m n
    by (auto simp: register_signer_def Let_def set_signer_get split: option.splits)
qed

subsection \<open>Sharing and countersigning\<close>


lemma card_contextE:
  assumes "card_context d mid u = Inr x"
  obtains "users_firm (dk_db d) u = Some (cc_firm x)" "the_trade (chain_of d) (ca_trade (cc_card x)) = Some (cc_trade x)"
    "cc_side x = Counterparty \<Longrightarrow> cc_firm x = ca_cp (cc_card x)"
  using assms by (auto simp: card_context_def bind_res_Inr_iff my_firm_Inr split: option.splits if_splits)

lemma cp_lei_identity: "load_parties db (columns_of db (t_id t)) = Inr (own, cp) \<Longrightarrow> get (cp_identity db cp) ''lei'' = cp_lei db t"
  by (auto simp: load_parties_def cp_lei_def cp_identity_def identity_def get_def split: option.splits if_splits)

lemma resolved_counterparty:
  assumes "resolve_parties cr env db t = Inr (own, cp)" and "registered_signer cr db (cp_lei db t) = Inr (Some k)"
  shows "cp = k"
proof -
  obtain p reg where p: "trade_parts db t = Inr p" and g: "registered_signer cr db (get (pt_cp p) ''lei'') = Inr reg"
    and c: "(case reg of Some k \<Rightarrow> Inr k | None \<Rightarrow> key_or_422 (resolve_key cr env (pt_cp p))) = Inr cp"
    using assms(1) unfolding resolve_parties_def bind_res_Inr_iff require_Inr_iff by (auto simp del: not_None_eq)
  obtain own1 cp1 where "load_parties db (columns_of db (t_id t)) = Inr (own1, cp1)" "pt_cp p = cp_identity db cp1"
    using p by (auto simp: trade_parts_def bind_res_Inr_iff)
  with cp_lei_identity have "get (pt_cp p) ''lei'' = cp_lei db t" by simp
  with g assms(2) have "reg = Some k" by simp
  with c show ?thesis by simp
qed

lemma get_noted:
  "get (countersigned_record ops s r note) ''trade_hash'' = PStr (hexb (sn_hash s))" "countersigned_record ops s r note \<noteq> []"
  by (auto simp: countersigned_record_def get_set Let_def split: prod.splits option.splits list.splits)

lemma countersign_tradeE:
  assumes run: "countersign_trade cx ops db0 c t address signature (Some x) None note (Some u) rq = (db', c', Inr resp)"
    and ok: "ledger_ok (ledger_of db0)" and row: "the_trade db0 (t_id t) = Some t"
  obtains b s where "countersign_checks cx ops (db0\<lparr>cd_budget := b\<rparr>) t address signature (Some x) rq = Inr s"
    "\<exists>att. current_attestation (ledger_of db') (t_id t) = Some att \<and> get att ''trade_hash'' = PStr (hexb (sn_hash s))"
    "\<exists>row. the_trade db' (t_id t) = Some row \<and> t_status row = ''CONFIRMED''"
proof -
  obtain db v where q: "check_chain_quota cx db0 u ''countersign'' rq = (db, v)" by fastforce
  then obtain b where b: "db = db0\<lparr>cd_budget := b\<rparr>" by (auto simp: check_chain_quota_def split: prod.splits sum.splits)
  have "v = Inr ()" using run q by (cases v) (auto simp: countersign_trade_def)
  then obtain s r c2 l' where s: "countersign_checks cx ops db t address signature (Some x) rq = Inr s"
    and tr: "apply_lifecycle_transition (ledger_of (sn_db s)) \<lparr>tr_user = t_user t, tr_trade = t, tr_type = ''CONFIRMED'', tr_status = ''CONFIRMED'',
       tr_payload = [(''attestation'', PDict (countersigned_record ops s r note))], tr_key = None,
       tr_hash = Some (hexb (sn_hash s)), tr_cp_confirmed = True\<rparr> (in_event rq) = (l', Inr resp)" (is "apply_lifecycle_transition _ ?r _ = _")
    and d: "\<not> lr_replay resp \<Longrightarrow> db' = with_ledger l' (sn_db s)"
    using run q by (auto simp: countersign_trade_def split: sum.splits prod.splits if_splits)
  have nr: "\<not> lr_replay resp" using tr unfolding apply_lifecycle_transition_def Let_def
    by (auto simp: build_response_def split: sum.splits if_splits option.splits)
  have "ensure_uti db t (in_uuid rq) = Inr (sn_db s)" by (rule countersign_checksE[OF s])
  then have led: "ledger_of (sn_db s) = ledger_of db0" using ensure_uti_keeps(1) b by fastforce
  from tr show thesis
  proof (cases rule: apply_transition_cases)
    case same
    with nr show thesis by simp
  next
    case (done_req pre rw)
    have la: "latest_attested_event l' (t_id t) = Some (last (l_events l'))"
      using latest_attested_insert[OF _ done_req(4)] ok by (simp add: done_req(4) attested_types_def led)
    then have att: "current_attestation l' (t_id t) = Some (countersigned_record ops s r note)"
      using get_noted(2)[of ops s r "note"] by (simp add: current_attestation_def done_req(4) get_def)
    have "List.find (\<lambda>x. t_id x = t_id t) (l_trades l') = Some (t\<lparr>t_status := ''CONFIRMED'', t_latest := Some (in_event rq), t_version := t_version t + 1\<rparr>)"
      using row unfolding done_req(5) led transition.simps find_map_row by simp
    with att show thesis using s b d[OF nr] get_noted(1) by (intro that[of b s]) auto
  qed
qed


subsection \<open>A room of two banks\<close>

definition pair_desk :: desk where
  "pair_desk = \<lparr>dk_db = pair_db\<lparr>cb_chain := (cb_chain pair_db)\<lparr>cd_claims := [(''LEIB'', None)]\<rparr>\<rparr>, dk_roles = [(''ub'', ''ADMIN'')], dk_names = [(''fb'', ''Bank B'')],
     dk_kinds = [], dk_rooms = [(''r'', ''GROUP'')], dk_last = [],
     dk_seats = [\<lparr>se_room = ''r'', se_user = ''ua'', se_firm = ''fa'', se_status = ''JOINED''\<rparr>, \<lparr>se_room = ''r'', se_user = ''ub'', se_firm = ''fb'', se_status = ''INVITED''\<rparr>],
     dk_cards = []\<rparr>"

definition pair_challenge :: string where
  "pair_challenge = challenge_text ''Bank B'' [''LEIB''] ''0xb'' 0"

lemma pair_firm: "my_firm pair_desk ''ub'' = Inr ''fb''" "role_of pair_desk ''ub'' = ''ADMIN''" "sort (leis_of (dk_db pair_desk) ''fb'') = [''LEIB'']"
  "firm_name pair_desk ''fb'' = ''Bank B''" "dict_get (cd_claims (chain_of pair_desk)) ''LEIB'' = Some None"
  by (simp_all add: my_firm_def users_firm_def role_of_def leis_of_def firm_name_def pair_desk_def pair_db_def)

lemma pair_short: "length pair_challenge \<le> 2000"
  by (simp add: pair_challenge_def challenge_text_def challenge_prefix_def nl_def closing_def int_str_def nat_digits.simps)

lemma pair_challenged: "signer_challenge deal_crypto pair_desk ''ub'' ''0xb'' 0 = Inr pair_challenge" "cr_checksum deal_crypto ''0xb'' = Some ''0xb''"
  by (simp_all add: signer_challenge_def pair_firm require_def pair_challenge_def deal_crypto_def str_lower_def low_char_def)

theorem issued_challenge_registers_witness:
  "\<exists>d' leis. register_signer deal_crypto (\<lambda>_ _. Some ''0xb'') pair_desk ''ub'' ''0xb'' pair_challenge ''sig'' 1000000 = (d', Inr leis) \<and> leis \<noteq> []
    \<and> (\<forall>l \<in> set leis. dict_get (cd_claims (chain_of pair_desk)) l \<noteq> None \<longrightarrow> dict_get (cd_claims (chain_of d')) l = Some (Some ''0xb''))"
  by (rule issued_challenge_registers[OF pair_challenged, where who = "''0xb''"]) (simp_all add: challenge_ttl_def pair_short)

lemma pair_registered: "register_signer deal_crypto (\<lambda>_ _. Some ''0xb'') pair_desk ''ub'' ''0xb'' pair_challenge ''sig'' 1000000
   = (pair_desk\<lparr>dk_db := (dk_db pair_desk)\<lparr>cb_chain := (chain_of pair_desk)\<lparr>cd_claims := [(''LEIB'', Some ''0xb'')]\<rparr>\<rparr>\<rparr>, Inr [''LEIB''])"
proof -
  have "issued_at pair_challenge = Some 0" unfolding pair_challenge_def by (rule issued_at_challenge) simp
  moreover have "cd_claims (chain_of pair_desk) = [(''LEIB'', None)]" by (simp add: pair_desk_def)
  ultimately show ?thesis by (simp add: register_signer_def pair_firm pair_challenged(2) challenge_ttl_def set_signer_def pair_challenge_def[symmetric] pair_short not_less)
qed

theorem wallet_registered_by_holder_witness:
  "\<exists>d' leis. register_signer deal_crypto (\<lambda>_ _. Some ''0xb'') pair_desk ''ub'' ''0xb'' pair_challenge ''sig'' 1000000 = (d', Inr leis)
     \<and> role_of pair_desk ''ub'' = ''ADMIN'' \<and> leis = [''LEIB''] \<and> dict_get (cd_claims (chain_of d')) ''LEIB'' = Some (Some ''0xb'')"
  using wallet_registered_by_holder[OF pair_registered] pair_registered by (auto simp: pair_challenged(2))

lemma pair_shared: "share_trade pair_crypto pair_desk ''ua'' ''r'' ''s'' ''c1'' ''x'' 0
   = (pair_desk\<lparr>dk_last := [(''r'', 0)], dk_cards := [\<lparr>ca_id = ''c1'', ca_room = ''r'', ca_trade = ''s'', ca_booker = ''fa'', ca_cp = ''fb'', ca_hash = pair_hash, ca_uti = PStr ''U'',
        ca_status = ''CONFIRMED''\<rparr>]\<rparr>, Inr (\<lparr>ca_id = ''c1'', ca_room = ''r'', ca_trade = ''s'', ca_booker = ''fa'', ca_cp = ''fb'', ca_hash = pair_hash, ca_uti = PStr ''U'',
        ca_status = ''CONFIRMED''\<rparr>, False))"
proof -
  let ?ch = "chain_of pair_desk" and ?s = "pair_trade ''s'' ''ua'' ''CONFIRMED''"
  have f: "my_firm pair_desk ''ua'' = Inr ''fa''" by (simp add: my_firm_def users_firm_def pair_desk_def pair_db_def)
  have g: "room_for pair_desk ''r'' ''ua'' ''fa'' [''JOINED''] = Inr (''GROUP'', ''JOINED'')"
    by (simp add: room_for_def access_of_def pair_desk_def)
  have s: "t_id ?s = ''s''" "t_user ?s = ''ua''" "t_status ?s = ''CONFIRMED''" by (simp_all add: pair_trade_def)
  have cols: "columns_of ?ch ''s'' = pair_cols ''la'' ''cb'' (PStr ''U'')" by (simp add: columns_of_def pair_desk_def pair_db_def)
  have cp: "cp_lei ?ch ?s = PStr ''LEIB''"
    unfolding cp_lei_def s cols by (simp add: pair_desk_def pair_db_def pair_cols_def get_def row_of_def truthy_def)
  have tr: "trades_of ?ch = [?s, pair_trade ''t'' ''ub'' ''PENDING'']" by (simp add: pair_desk_def pair_trades)
  have u: "t_user (pair_trade ''t'' ''ub'' ''PENDING'') = ''ub''" by (simp add: pair_trade_def)
  have "leis_of (dk_db pair_desk) ''fb'' = [''LEIB'']" "room_firms pair_desk ''r'' = [''fa'', ''fb'']" "dk_kinds pair_desk = []"
    by (simp_all add: leis_of_def room_firms_def pair_desk_def pair_db_def)
  then have sh: "shareable pair_desk ''r'' ''GROUP'' ''ua'' ''fa'' = Some (''fb'', [?s])"
    by (simp add: shareable_def tr cp s u)
  have canon: "canonical_for pair_crypto ?ch ?s schema_version = canonical_for pair_crypto (cb_chain pair_db) ?s schema_version"
    by (rule canonical_for_cong) (simp_all add: pair_desk_def)
  have "ensure_uti ?ch ?s ''x'' = Inr ?ch" unfolding ensure_uti_def s cols by (simp add: pair_cols_def get_def truthy_def)
  moreover have "uti_of ?ch ?s = PStr ''U''" unfolding uti_of_def s cols by (simp add: pair_cols_def get_def)
  moreover have "existing_card pair_desk ''r'' ''s'' = None" "dk_cards pair_desk = []" "dk_last pair_desk = []" by (simp_all add: existing_card_def pair_desk_def)
  ultimately show ?thesis
    by (simp add: share_trade_def f g sh s post_card_def canon pair_canonical pair_hash_def Let_def posted_def)
qed


definition shown_card :: card where
  "shown_card = \<lparr>ca_id = ''m'', ca_room = ''r'', ca_trade = demo_tid, ca_booker = ''fa'', ca_cp = ''fb'', ca_hash = hexb ''n'', ca_uti = PStr ''U'', ca_status = ''PENDING''\<rparr>"

definition card_desk :: desk where
  "card_desk = \<lparr>dk_db = \<lparr>cb_chain = deal_pending\<lparr>cd_claims := [(''LEIB'', Some ''0xb'')]\<rparr>, cb_members = [(''ub'', ''fb'')], cb_leis = [(''LEIB'', ''fb'')]\<rparr>,
     dk_roles = [], dk_names = [], dk_kinds = [], dk_rooms = [(''r'', ''GROUP'')], dk_last = [],
     dk_seats = [\<lparr>se_room = ''r'', se_user = ''ub'', se_firm = ''fb'', se_status = ''JOINED''\<rparr>], dk_cards = [shown_card]\<rparr>"

definition shown_ctx :: card_ctx where
  "shown_ctx = \<lparr>cc_firm = ''fb'', cc_access = ''JOINED'', cc_card = shown_card, cc_side = Counterparty, cc_trade = deal_chain_trade ''PENDING''\<rparr>"

definition shown_body :: card_body where
  "shown_body = \<lparr>cy_address = ''0xb'', cy_signature = hexb deal_countersignature, cy_hash = hexb ''n'', cy_mirror = False\<rparr>"

definition key_r :: party_key where
  "key_r = \<lparr>pk_lei = ''LEIB'', pk_address = ''0xb'', pk_key = None, pk_source = ''registered''\<rparr>"

lemma shown_checks: "\<exists>s. countersign_checks deal_setting (registry_ops deal_call) (chain_of card_desk) (deal_chain_trade ''PENDING'') ''0xb''
    (hexb deal_countersignature) (Some (hexb ''n'')) rq = Inr s \<and> sn_db s = chain_of card_desk \<and> sn_hash s = ''n'' \<and> sn_own s = key_a \<and> sn_cp s = key_r
    \<and> sn_sig_own s = deal_sign (confirmation_digest deal_call ''n'' ''0xb'') ''ka'' \<and> sn_sig_cp s = deal_countersignature"
proof -
  let ?ch = "chain_of card_desk" and ?t = "deal_chain_trade ''PENDING''"
  have same: "cd_trades ?ch = cd_trades deal_pending" "cd_entities ?ch = cd_entities deal_pending" "cd_counterparties ?ch = cd_counterparties deal_pending"
    "ledger_of ?ch = ledger_of deal_pending" by (simp_all add: card_desk_def)
  obtain x where "canonical_for deal_crypto deal_pending ?t 2 = Inr (x, ''n'')" using deal_canonical(1) by blast
  then have x: "canonical_for deal_crypto ?ch ?t schema_version = Inr (x, ''n'')"
    using canonical_for_cong[OF same(1-3), of ?t ?t deal_crypto schema_version] same(4) by (simp add: schema_version_def)
  have cols: "columns_of ?ch (t_id ?t) = deal_cols ''USD''" using deal_columns_of same(1) by (simp add: columns_of_def)
  have uti: "ensure_uti ?ch ?t u = Inr ?ch" for u unfolding ensure_uti_def cols by (simp add: deal_cols_def get_def truthy_def)
  have "cp_identity ?ch = cp_identity deal_pending" "load_parties ?ch = load_parties deal_pending"
    unfolding cp_identity_def[abs_def] load_parties_def[abs_def] same(2,3) by (rule refl)+
  then have parts: "trade_parts ?ch ?t = trade_parts deal_pending ?t"
    unfolding trade_parts_def cols deal_columns_of same(4) by simp
  have reg: "registered_signer deal_crypto ?ch (PStr ''LEIB'') = Inr (Some key_r)"
    by (simp add: registered_signer_def truthy_def card_desk_def deal_crypto_def key_r_def str_lower_def low_char_def)
  have res: "resolve_parties deal_crypto deal_chain_env ?ch ?t = Inr (key_a, key_r)"
    unfolding resolve_parties_def parts deal_parts
    by (simp add: deal_keys key_or_422_def get_def reg require_def) (simp add: key_a_def key_r_def)
  have sg: "parse_signature (hexb deal_countersignature) = Inr deal_countersignature"
    by (simp add: parse_signature_def unhex_hexb deal_countersignature_def deal_sign_length)
  have "cr_recover deal_crypto td (deal_sign td ''kb'') = Some ''0xb''" for td by (simp add: deal_crypto_def deal_sign_def)
  then have chk: "check_signer deal_crypto (confirmation_digest deal_call ''n'' ''0xa'') deal_countersignature (Some ''0xb'') key_r = Inr ()"
    by (simp add: check_signer_def deal_countersignature_def key_r_def require_def)
  have k: "pk_address key_a = ''0xa''" "pk_address key_r = ''0xb''" "pk_key key_a = Some ''ka''" by (simp_all add: key_a_def key_r_def)
  show ?thesis unfolding countersign_checks_def Let_def deal_ctx
    by (simp add: deal_setting_def res uti x sg need_def k deal_confirmation chk require_def) (simp add: deal_crypto_def)
qed

lemma shown_context: "card_context card_desk ''m'' ''ub'' = Inr shown_ctx"
proof -
  have "room_for card_desk ''r'' ''ub'' ''fb'' [''JOINED'', ''OBSERVER''] = Inr (''GROUP'', ''JOINED'')" "my_firm card_desk ''ub'' = Inr ''fb''"
    "dk_cards card_desk = [shown_card]"
    by (simp_all add: room_for_def access_of_def my_firm_def users_firm_def card_desk_def)
  moreover have "the_trade (chain_of card_desk) demo_tid = Some (deal_chain_trade ''PENDING'')"
    by (simp add: card_desk_def deal_book_def) (simp add: deal_chain_trade_def)
  ultimately show ?thesis by (simp add: card_context_def shown_ctx_def) (simp add: shown_card_def)
qed

lemma shown_guards: "countersign_guards deal_crypto card_desk shown_ctx = Inr ()"
proof -
  have "cp_lei (chain_of card_desk) (deal_chain_trade ''PENDING'') = PStr ''LEIB''"
    by (simp add: cp_lei_def columns_of_def card_desk_def deal_book_def deal_chain_trade_def deal_cols_def get_def row_of_def truthy_def)
  moreover have "registered_signer deal_crypto (chain_of card_desk) (PStr ''LEIB'') = Inr (Some key_r)"
    by (simp add: registered_signer_def truthy_def card_desk_def deal_crypto_def key_r_def str_lower_def low_char_def)
  moreover have "t_status (deal_chain_trade ''PENDING'') = ''PENDING''" by (simp add: deal_chain_trade_def)
  ultimately show ?thesis by (simp add: countersign_guards_def shown_ctx_def require_def)
qed

lemma shown_confirms: "\<exists>d' c'. card_countersign deal_setting (registry_ops deal_call) (\<lambda>x. x) card_desk empty_registry ''m'' ''ub'' shown_body (deal_request None) pair_ids 0
   = (d', c', Inr Not_Asked)"
proof -
  obtain s where s: "countersign_checks deal_setting (registry_ops deal_call) (chain_of card_desk) (deal_chain_trade ''PENDING'') ''0xb''
      (hexb deal_countersignature) (Some (hexb ''n'')) (deal_request None) = Inr s" and f: "sn_db s = chain_of card_desk" "sn_hash s = ''n''" "sn_own s = key_a" "sn_cp s = key_r"
      "sn_sig_own s = deal_sign (confirmation_digest deal_call ''n'' ''0xb'') ''ka''" "sn_sig_cp s = deal_countersignature"
    using shown_checks by blast
  have q: "check_chain_quota deal_setting (chain_of card_desk) ''ub'' ''countersign'' (deal_request None) = (chain_of card_desk, Inr ())"
    by (simp add: check_chain_quota_def deal_setting_def deal_limits charge_def)
  obtain reg r where co: "co_confirm (registry_ops deal_call) ''n'' ''0xa'' ''0xb'' (deal_sign (confirmation_digest deal_call ''n'' ''0xb'') ''ka'')
     deal_countersignature False empty_registry = (reg, Inr r)"
    using deal_confirms by (auto simp: registry_ops_def send_reg_def)
  have k: "pk_address key_a = ''0xa''" "pk_address key_r = ''0xb''" by (simp_all add: key_a_def key_r_def)
  have led: "ledger_of (chain_of card_desk) = ledger_of deal_pending" "in_event (deal_request None) = ''e9''" by (simp_all add: card_desk_def deal_request_def)
  obtain l' resp where tr: "apply_lifecycle_transition (ledger_of deal_pending) \<lparr>tr_user = t_user (deal_chain_trade ''PENDING''), tr_trade = deal_chain_trade ''PENDING'',
     tr_type = ''CONFIRMED'', tr_status = ''CONFIRMED'', tr_payload = [(''attestation'', PDict (countersigned_record (registry_ops deal_call) s r (Some (card_note shown_card ''ub''))))],
     tr_key = None, tr_hash = Some (hexb ''n''), tr_cp_confirmed = True\<rparr> ''e9'' = (l', Inr resp)"
    "\<not> lr_replay resp" using deal_transition by blast
  have ct: "countersign_trade deal_setting (registry_ops deal_call) (chain_of card_desk) empty_registry (deal_chain_trade ''PENDING'') ''0xb'' (hexb deal_countersignature)
      (Some (hexb ''n'')) None (Some (card_note shown_card ''ub'')) (Some ''ub'') (deal_request None) = (with_ledger l' (chain_of card_desk), reg, Inr resp)"
    using tr by (simp add: countersign_trade_def q s f k co led)
  have "cx_crypto deal_setting = deal_crypto" by (simp add: deal_setting_def)
  then show ?thesis
    using ct by (simp add: card_countersign_def shown_context shown_guards) (simp add: shown_ctx_def shown_body_def book_after_def)
qed


end
